(* ===== verification/Go_Prelude.thy ===== *)
theory Go_Prelude
  imports Main "HOL-Library.Word" "HOL-Library.AList" "HOL-Library.Char_ord"
    "HOL-Library.List_Lexorder" "HOL-Library.Sublist" "HOL-Library.Code_Target_Nat"
begin

text \<open>
  Shared vocabulary of the development: the Go values the source computes with and the
  functions of the Go standard library it calls.

  \<^item> A Go string is a sequence of bytes, here a \<^typ>\<open>string\<close> (an Isabelle \<open>char\<close> is one byte),
    so \<open>len(s)\<close> is \<^term>\<open>length s\<close> and comparison of strings is the byte-wise
    lexicographic order of \<open>List_Lexorder\<close> over \<open>Char_ord\<close>.
  \<^item> A \<open>time.Time\<close> is an \<^typ>\<open>int\<close>, the nanoseconds since Go's zero time; a \<open>time.Duration\<close>
    is an \<^typ>\<open>int\<close> number of nanoseconds.
  \<^item> A Go map is an association list with distinct keys (\<open>gm_wf\<close>); \<open>len(m)\<close> is its length.
  \<^item> An operation that can fail returns a value of a sum type, \<open>Inl\<close> the error.

  The Unicode simple lower-case table is a parameter \<open>U\<close> (code point to code point), because
  the table is data of the Go distribution; ASCII letters are written out.
\<close>

section \<open>Collections of simplification rules\<close>

named_theorems go_string_simps \<open>evaluation of the string functions\<close>
named_theorems gomap_simps \<open>lookup, insertion and deletion in Go maps\<close>

type_synonym time = int
type_synonym duration = int
type_synonym uint64 = "64 word"

abbreviation (input) zero_time :: time where "zero_time \<equiv> 0"

abbreviation second :: duration where "second \<equiv> 1000000000"
abbreviation minute :: duration where "minute \<equiv> 60000000000"
abbreviation hour :: duration where "hour \<equiv> 3600000000000"

text \<open>\<open>time.Time.Sub\<close> saturates at the bounds of a 64-bit duration.\<close>

definition time_sub :: "time \<Rightarrow> time \<Rightarrow> duration" where
  "time_sub a b = max (- (2 ^ 63)) (min (2 ^ 63 - 1) (a - b))"

lemma time_sub_ge: "0 \<le> d \<Longrightarrow> d < 2 ^ 63 \<Longrightarrow> d \<le> time_sub a b \<longleftrightarrow> d \<le> a - b"
  by (auto simp: time_sub_def)

text \<open>The value of an \<open>int\<close> or \<open>int64\<close> expression: reduced to 64 bits, two's complement.\<close>

definition wrap64 :: "int \<Rightarrow> int" where
  "wrap64 x = sint (word_of_int x :: 64 word)"

lemma wrap64_id: "- (2 ^ 63) \<le> x \<Longrightarrow> x < 2 ^ 63 \<Longrightarrow> wrap64 x = x"
  by (simp add: wrap64_def int_word_sint)

section \<open>Go maps as association lists\<close>

type_synonym ('k, 'v) gomap = "('k \<times> 'v) list"

abbreviation gm_wf :: "('k, 'v) gomap \<Rightarrow> bool" where
  "gm_wf m \<equiv> distinct (map fst m)"

abbreviation gm_keys :: "('k, 'v) gomap \<Rightarrow> 'k set" where
  "gm_keys m \<equiv> fst ` set m"

text \<open>Rewriting every entry of a map while ranging over it: \<open>None\<close> deletes the entry.\<close>

fun gm_rewrite :: "('k \<Rightarrow> 'v \<Rightarrow> 'v option) \<Rightarrow> ('k, 'v) gomap \<Rightarrow> ('k, 'v) gomap" where
  "gm_rewrite f [] = []"
| "gm_rewrite f ((k, v) # m) =
     (case f k v of None \<Rightarrow> gm_rewrite f m | Some v' \<Rightarrow> (k, v') # gm_rewrite f m)"

lemma gm_rewrite_keys: "fst ` set (gm_rewrite f m) \<subseteq> fst ` set m"
  by (induction f m rule: gm_rewrite.induct) (auto split: option.splits)

lemma gm_rewrite_wf [simp, intro]: "gm_wf m \<Longrightarrow> gm_wf (gm_rewrite f m)"
proof (induction f m rule: gm_rewrite.induct)
  case (2 f k v m)
  then show ?case
    using gm_rewrite_keys [of f m] by (auto split: option.splits)
qed simp

lemma gm_rewrite_length: "length (gm_rewrite f m) \<le> length m"
  by (induction f m rule: gm_rewrite.induct) (auto split: option.splits)

lemma map_of_gm_rewrite [gomap_simps]:
  assumes "gm_wf m"
  shows "map_of (gm_rewrite f m) k = Option.bind (map_of m k) (f k)"
  using assms
proof (induction m)
  case (Cons p m)
  obtain k' v where p: "p = (k', v)" by (cases p)
  have "k' \<notin> fst ` set (gm_rewrite f m)"
    using Cons.prems gm_rewrite_keys [of f m] p by auto
  then have "map_of (gm_rewrite f m) k' = None"
    by (simp add: map_of_eq_None_iff)
  with Cons p show ?case by (auto split: option.splits)
qed simp

lemma gm_lookup_update [gomap_simps]:
  "map_of (AList.update k v m) k' = (if k' = k then Some v else map_of m k')"
  by (simp add: update_conv')

lemma gm_lookup_delete [gomap_simps]:
  "map_of (AList.delete k m) k' = (if k' = k then None else map_of m k')"
  by (simp add: delete_conv')

lemma gm_wf_update [simp, intro]: "gm_wf m \<Longrightarrow> gm_wf (AList.update k v m)"
  by (rule distinct_update)

lemma gm_wf_delete [simp, intro]: "gm_wf m \<Longrightarrow> gm_wf (AList.delete k m)"
  by (rule distinct_delete)

lemma length_update:
  "length (AList.update k v m) = (if k \<in> fst ` set m then length m else Suc (length m))"
  by (induction m) auto

lemma length_update_le: "length (AList.update k v m) \<le> Suc (length m)"
  by (simp add: length_update)

lemma map_of_neq_None: "map_of m k \<noteq> None \<longleftrightarrow> k \<in> fst ` set m"
  by (simp add: map_of_eq_None_iff)

lemma length_gm_card: "gm_wf m \<Longrightarrow> length m = card (gm_keys m)"
  by (metis distinct_card length_map set_map)

lemma set_update_subset: "set (AList.update k v m) \<subseteq> insert (k, v) (set m)"
  by (induction m) auto

lemma sum_list_update:
  fixes f :: "'k \<times> 'v \<Rightarrow> int"
  assumes "gm_wf m"
  shows "sum_list (map f (AList.update k v m)) =
    sum_list (map f m) - (case map_of m k of None \<Rightarrow> 0 | Some u \<Rightarrow> f (k, u)) + f (k, v)"
  using assms by (induction m) auto

lemma delete_absent: "k \<notin> gm_keys m \<Longrightarrow> AList.delete k m = m"
  by (induction m) auto

lemma sum_list_delete:
  fixes f :: "'k \<times> 'v \<Rightarrow> int"
  assumes "gm_wf m"
  shows "sum_list (map f (AList.delete k m)) =
    sum_list (map f m) - (case map_of m k of None \<Rightarrow> 0 | Some u \<Rightarrow> f (k, u))"
  using assms by (induction m) (auto simp: delete_absent)

section \<open>Chains of guards\<close>

text \<open>A chain of early returns produces a result exactly if every guard passes.\<close>

lemma guard_Some_iff: "(if b then None else x) = Some y \<longleftrightarrow> \<not> b \<and> x = Some y"
  by simp

lemma guard_Inr_iff: "(if b then Inl e else x) = Inr y \<longleftrightarrow> \<not> b \<and> x = Inr y"
  by simp

lemma case_Inr_iff:
  "(case x of Inl e \<Rightarrow> Inl (h e) | Inr z \<Rightarrow> f z) = Inr y \<longleftrightarrow> (\<exists>z. x = Inr z \<and> f z = Inr y)"
  by (cases x) simp_all

lemma case_Some_iff: "(case x of None \<Rightarrow> None | Some z \<Rightarrow> f z) = Some y \<longleftrightarrow> (\<exists>z. x = Some z \<and> f z = Some y)"
  by (cases x) simp_all

lemmas guard_iffs = guard_Some_iff guard_Inr_iff case_Some_iff case_Inr_iff

end
