(* ===== verification/Go_Strings.thy ===== *)
theory Go_Strings
  imports Go_Prelude
begin

text \<open>
  The functions of Go's \<open>strings\<close>, \<open>unicode/utf8\<close> and \<open>path\<close> packages that the source calls,
  on byte strings, with the lemmas the components share: UTF-8 decoding and its round trip
  with encoding, splitting and joining, trimming, lower-casing and the lexical \<open>path.Clean\<close>.
\<close>

section \<open>Bytes and ASCII classes\<close>

definition is_digit :: "char \<Rightarrow> bool" where
  "is_digit c \<longleftrightarrow> 48 \<le> (of_char c :: nat) \<and> (of_char c :: nat) \<le> 57"

definition is_lower :: "char \<Rightarrow> bool" where
  "is_lower c \<longleftrightarrow> 97 \<le> (of_char c :: nat) \<and> (of_char c :: nat) \<le> 122"

definition is_upper :: "char \<Rightarrow> bool" where
  "is_upper c \<longleftrightarrow> 65 \<le> (of_char c :: nat) \<and> (of_char c :: nat) \<le> 90"

definition is_ascii :: "string \<Rightarrow> bool" where
  "is_ascii s \<longleftrightarrow> list_all (\<lambda>c. (of_char c :: nat) < 128) s"

definition lower_nat :: "nat \<Rightarrow> nat" where
  "lower_nat n = (if 65 \<le> n \<and> n \<le> 90 then n + 32 else n)"

definition lower_char :: "char \<Rightarrow> char" where
  "lower_char c = char_of (lower_nat (of_char c))"

lemmas char_class_defs = is_digit_def is_lower_def is_upper_def

lemma of_char_lt_256 [simp]: "(of_char c :: nat) < 256"
  using nat_of_char_less_256 by simp

lemma of_lower_char [simp]: "(of_char (lower_char c) :: nat) = lower_nat (of_char c)"
proof -
  have "lower_nat (of_char c) < 256"
    using of_char_lt_256 [of c] by (auto simp: lower_nat_def)
  then show ?thesis by (simp add: lower_char_def)
qed

lemma lower_char_idem [simp]: "lower_char (lower_char c) = lower_char c"
  by (simp add: lower_char_def lower_nat_def [of "lower_nat _"]) (auto simp: lower_nat_def)

lemma lower_char_id: "\<not> is_upper c \<Longrightarrow> lower_char c = c"
  by (auto simp: lower_char_def lower_nat_def is_upper_def)

lemma lower_char_not_upper [simp]: "\<not> is_upper (lower_char c)"
  by (auto simp: is_upper_def lower_nat_def)

section \<open>Searching, splitting and joining\<close>

definition HasPrefix :: "string \<Rightarrow> string \<Rightarrow> bool" where
  "HasPrefix s p \<longleftrightarrow> prefix p s"

definition HasSuffix :: "string \<Rightarrow> string \<Rightarrow> bool" where
  "HasSuffix s p \<longleftrightarrow> prefix (rev p) (rev s)"

definition TrimPrefix :: "string \<Rightarrow> string \<Rightarrow> string" where
  "TrimPrefix s p = (if HasPrefix s p then drop (length p) s else s)"

definition TrimSuffix :: "string \<Rightarrow> string \<Rightarrow> string" where
  "TrimSuffix s p = (if HasSuffix s p then take (length s - length p) s else s)"

definition ContainsAny :: "string \<Rightarrow> string \<Rightarrow> bool" where
  "ContainsAny s cs \<longleftrightarrow> list_ex (\<lambda>c. c \<in> set cs) s"

fun Contains :: "string \<Rightarrow> string \<Rightarrow> bool" where
  "Contains [] p \<longleftrightarrow> p = []"
| "Contains (c # s) p \<longleftrightarrow> prefix p (c # s) \<or> Contains s p"

fun Split :: "char \<Rightarrow> string \<Rightarrow> string list" where
  "Split d [] = [[]]"
| "Split d (c # s) =
     (if c = d then [] # Split d s
      else (case Split d s of [] \<Rightarrow> [[c]] | w # ws \<Rightarrow> (c # w) # ws))"

fun Join :: "char \<Rightarrow> string list \<Rightarrow> string" where
  "Join d [] = []"
| "Join d [w] = w"
| "Join d (w # v # ws) = w @ d # Join d (v # ws)"

lemma HasSuffix_iff: "HasSuffix s p \<longleftrightarrow> (\<exists>u. s = u @ p)"
  by (metis HasSuffix_def prefix_def rev_append rev_rev_ident)

lemma HasPrefix_append [simp]: "HasPrefix (p @ s) p"
  by (simp add: HasPrefix_def)

lemma HasSuffix_append [simp]: "HasSuffix (s @ p) p"
  by (auto simp: HasSuffix_iff)

lemma TrimSuffix_append [simp]: "TrimSuffix (s @ p) p = s"
  by (simp add: TrimSuffix_def)

lemma ContainsAny_iff: "ContainsAny s cs \<longleftrightarrow> (\<exists>c \<in> set s. c \<in> set cs)"
  by (auto simp: ContainsAny_def list_ex_iff)

lemma Contains_single: "Contains s [c] \<longleftrightarrow> c \<in> set s"
  by (induction s) auto

lemma Split_ne [simp]: "Split d s \<noteq> []"
  by (induction s) (auto split: list.splits)

lemma Split_no_sep: "w \<in> set (Split d s) \<Longrightarrow> d \<notin> set w"
  by (induction s arbitrary: w) (auto split: list.splits if_splits)

lemma Split_atom: "d \<notin> set s \<Longrightarrow> Split d s = [s]"
  by (induction s) auto

lemma Split_append_sep: "d \<notin> set w \<Longrightarrow> Split d (w @ d # s) = w # Split d s"
  by (induction w) auto

lemma Join_Split [simp]: "Join d (Split d s) = s"
proof (induction s)
  case (Cons c s)
  obtain w ws where "Split d s = w # ws" by (cases "Split d s") auto
  with Cons show ?case by (cases ws) auto
qed simp

lemma Split_Join:
  "ws \<noteq> [] \<Longrightarrow> \<forall>w \<in> set ws. d \<notin> set w \<Longrightarrow> Split d (Join d ws) = ws"
  by (induction d ws rule: Join.induct) (auto simp: Split_atom Split_append_sep)

lemma set_Split_subset: "w \<in> set (Split d s) \<Longrightarrow> set w \<subseteq> set s"
  by (induction s arbitrary: w) (fastforce split: list.splits if_splits)+

section \<open>UTF-8\<close>

text \<open>
  \<open>utf8.DecodeRune\<close>: the code point at the front of the bytes and its width, or
  \<open>(RuneError, 1)\<close> when the bytes are not a valid encoding.
\<close>

abbreviation RuneError :: nat where "RuneError \<equiv> 0xFFFD"

definition cont_byte :: "nat \<Rightarrow> bool" where
  "cont_byte b \<longleftrightarrow> 0x80 \<le> b \<and> b \<le> 0xBF"

definition decode3 :: "nat \<Rightarrow> nat \<Rightarrow> nat \<Rightarrow> nat \<times> nat" where
  "decode3 a b c =
     (if (if a = 0xE0 then 0xA0 else 0x80) \<le> b \<and> b \<le> (if a = 0xED then 0x9F else 0xBF) \<and> cont_byte c
      then ((a - 0xE0) * 4096 + (b - 0x80) * 64 + (c - 0x80), 3) else (RuneError, 1))"

definition decode4 :: "nat \<Rightarrow> nat \<Rightarrow> nat \<Rightarrow> nat \<Rightarrow> nat \<times> nat" where
  "decode4 a b c d =
     (if (if a = 0xF0 then 0x90 else 0x80) \<le> b \<and> b \<le> (if a = 0xF4 then 0x8F else 0xBF)
         \<and> cont_byte c \<and> cont_byte d
      then ((a - 0xF0) * 262144 + (b - 0x80) * 4096 + (c - 0x80) * 64 + (d - 0x80), 4)
      else (RuneError, 1))"

definition decode_rune :: "nat list \<Rightarrow> nat \<times> nat" where
  "decode_rune bs =
     (case bs of
        [] \<Rightarrow> (RuneError, 0)
      | a # r \<Rightarrow>
          if a < 0x80 then (a, 1)
          else if 0xC2 \<le> a \<and> a \<le> 0xDF then
            (case r of b # _ \<Rightarrow> if cont_byte b then ((a - 0xC0) * 64 + (b - 0x80), 2) else (RuneError, 1)
             | _ \<Rightarrow> (RuneError, 1))
          else if 0xE0 \<le> a \<and> a \<le> 0xEF then
            (case r of b # c # _ \<Rightarrow> decode3 a b c | _ \<Rightarrow> (RuneError, 1))
          else if 0xF0 \<le> a \<and> a \<le> 0xF4 then
            (case r of b # c # d # _ \<Rightarrow> decode4 a b c d | _ \<Rightarrow> (RuneError, 1))
          else (RuneError, 1))"

lemmas decode_defs = decode_rune_def decode3_def decode4_def cont_byte_def

lemma decode_rune_width: "bs \<noteq> [] \<Longrightarrow> 0 < snd (decode_rune bs)"
  by (auto simp: decode_defs split: list.splits)

text \<open>The runes a \<open>range\<close> loop over a string visits, each with its width.\<close>

function runes_nat :: "nat list \<Rightarrow> (nat \<times> nat) list" where
  "runes_nat bs =
     (if bs = [] then []
      else decode_rune bs # runes_nat (drop (snd (decode_rune bs)) bs))"
  by pat_completeness auto
termination
  by (relation "measure length") (use decode_rune_width in auto)

declare runes_nat.simps [simp del]

lemma runes_nat_Nil [simp]: "runes_nat [] = []"
  by (simp add: runes_nat.simps)

lemma runes_nat_ne: "bs \<noteq> [] \<Longrightarrow>
  runes_nat bs = decode_rune bs # runes_nat (drop (snd (decode_rune bs)) bs)"
  by (simp add: runes_nat.simps)

definition bytes :: "string \<Rightarrow> nat list" where
  "bytes s = map of_char s"

definition runes :: "string \<Rightarrow> nat list" where
  "runes s = map fst (runes_nat (bytes s))"

definition ValidString :: "string \<Rightarrow> bool" where
  "ValidString s \<longleftrightarrow> list_all (\<lambda>p. p \<noteq> (RuneError, 1)) (runes_nat (bytes s))"

definition RuneCountInString :: "string \<Rightarrow> nat" where
  "RuneCountInString s = length (runes_nat (bytes s))"

definition valid_scalar :: "nat \<Rightarrow> bool" where
  "valid_scalar r \<longleftrightarrow> r < 0xD800 \<or> 0xE000 \<le> r \<and> r \<le> 0x10FFFF"

text \<open>\<open>utf8.AppendRune\<close>: anything but a Unicode scalar value is written as \<open>RuneError\<close>.\<close>

definition encode_scalar :: "nat \<Rightarrow> nat list" where
  "encode_scalar r =
     (if r < 0x80 then [r]
      else if r < 0x800 then [0xC0 + r div 64, 0x80 + r mod 64]
      else if r < 0x10000 then [0xE0 + r div 4096, 0x80 + r div 64 mod 64, 0x80 + r mod 64]
      else [0xF0 + r div 262144, 0x80 + r div 4096 mod 64, 0x80 + r div 64 mod 64, 0x80 + r mod 64])"

definition encode_rune :: "nat \<Rightarrow> nat list" where
  "encode_rune r = encode_scalar (if valid_scalar r then r else RuneError)"

definition string_of_runes :: "nat list \<Rightarrow> string" where
  "string_of_runes rs = map char_of (concat (map encode_rune rs))"

lemma decode_encode_scalar:
  assumes "valid_scalar r"
  shows "decode_rune (encode_scalar r @ bs) = (r, length (encode_scalar r))"
proof -
  consider "r < 0x80" | "0x80 \<le> r" "r < 0x800" | "0x800 \<le> r" "r < 0x10000" | "0x10000 \<le> r"
    by linarith
  then show ?thesis
  proof cases
    case 1
    then show ?thesis by (simp add: encode_scalar_def decode_rune_def)
  next
    case 2
    define a b where "a = r div 64" and "b = r mod 64"
    have r: "a * 64 + b = r" "b < 64" by (simp_all add: a_def b_def)
    have a: "2 \<le> a" "a \<le> 31" using 2 r by linarith+
    have enc: "encode_scalar r = [0xC0 + a, 0x80 + b]"
      using 2 by (simp add: encode_scalar_def a_def b_def)
    show ?thesis unfolding enc using a r by (simp add: decode_rune_def cont_byte_def)
  next
    case 3
    define a b c where "a = r div 4096" and "b = r div 64 mod 64" and "c = r mod 64"
    have "r div 64 = a * 64 + b"
      unfolding a_def b_def using div_mult2_eq [of r 64 64] by simp
    moreover have "r div 64 * 64 + c = r" by (simp add: c_def)
    ultimately have r: "a * 4096 + b * 64 + c = r" by simp
    have r': "b < 64" "c < 64" by (simp_all add: b_def c_def)
    have a: "a \<le> 15" "a = 0 \<longrightarrow> 32 \<le> b" "a = 13 \<longrightarrow> b \<le> 31"
      using r r' 3 assms by (auto simp: valid_scalar_def)
    have enc: "encode_scalar r = [0xE0 + a, 0x80 + b, 0x80 + c]"
      using 3 by (simp add: encode_scalar_def a_def b_def c_def)
    show ?thesis unfolding enc using a r r'
      by (simp add: decode_rune_def decode3_def cont_byte_def)
  next
    case 4
    define a b c d where "a = r div 262144" and "b = r div 4096 mod 64"
      and "c = r div 64 mod 64" and "d = r mod 64"
    have le: "r \<le> 0x10FFFF" using 4 assms by (auto simp: valid_scalar_def)
    have "r div 4096 = a * 64 + b"
      unfolding a_def b_def using div_mult2_eq [of r 4096 64] by simp
    moreover have "r div 64 = r div 4096 * 64 + c"
      unfolding c_def using div_mult2_eq [of r 64 64] by simp
    moreover have "r div 64 * 64 + d = r" by (simp add: d_def)
    ultimately have r: "a * 262144 + b * 4096 + c * 64 + d = r" by simp
    have r': "b < 64" "c < 64" "d < 64" by (simp_all add: b_def c_def d_def)
    have a: "a \<le> 4" "a = 0 \<longrightarrow> 16 \<le> b" "a = 4 \<longrightarrow> b \<le> 15"
      using r r' 4 le by auto
    have enc: "encode_scalar r = [0xF0 + a, 0x80 + b, 0x80 + c, 0x80 + d]"
      using 4 by (simp add: encode_scalar_def a_def b_def c_def d_def)
    show ?thesis unfolding enc using a r r'
      by (simp add: decode_rune_def decode4_def cont_byte_def)
  qed
qed

lemma encode_scalar_ne [simp]: "encode_scalar r \<noteq> []"
  by (simp add: encode_scalar_def)

lemma encode_scalar_byte: "valid_scalar r \<Longrightarrow> b \<in> set (encode_scalar r) \<Longrightarrow> b < 256"
  by (auto simp: encode_scalar_def valid_scalar_def split: if_splits)

lemma runes_nat_encode:
  "valid_scalar r \<Longrightarrow>
    runes_nat (encode_scalar r @ bs) = (r, length (encode_scalar r)) # runes_nat bs"
  by (subst runes_nat_ne) (simp_all add: decode_encode_scalar)

lemma bytes_string_of_runes: "bytes (string_of_runes rs) = concat (map encode_rune rs)"
proof -
  have "valid_scalar RuneError" by (simp add: valid_scalar_def)
  then have "b < 256" if "b \<in> set (encode_rune r)" for b r
    using that encode_scalar_byte by (auto simp: encode_rune_def split: if_splits)
  then show ?thesis
    by (auto simp: bytes_def string_of_runes_def o_def intro!: map_idI)
qed

text \<open>Round trip: decoding an encoded sequence of scalar values gives it back.\<close>

lemma runes_string_of_runes:
  "list_all valid_scalar rs \<Longrightarrow> runes (string_of_runes rs) = rs"
  unfolding runes_def bytes_string_of_runes
  by (induction rs) (simp_all add: encode_rune_def runes_nat_encode)

text \<open>An ASCII string is a valid encoding of its bytes.\<close>

lemma runes_nat_ascii: "list_all (\<lambda>b. b < 0x80) bs \<Longrightarrow> runes_nat bs = map (\<lambda>b. (b, 1)) bs"
  by (induction bs) (simp_all add: runes_nat_ne decode_rune_def)

lemma ascii_ValidString: "is_ascii s \<Longrightarrow> ValidString s"
  by (auto simp: ValidString_def bytes_def runes_nat_ascii is_ascii_def list_all_iff)

section \<open>Trimming white space\<close>

text \<open>
  \<open>strings.TrimSpace\<close> removes the Unicode white space (the \<open>White_Space\<close> property as
  \<open>unicode.IsSpace\<close> lists it) at both ends. Each white-space code point is listed by its UTF-8
  encoding; removing a rune at the front (back) is removing one of these sequences there.
\<close>

definition space_seqs :: "string list" where
  "space_seqs =
    [[CHR 0x20], [CHR 0x09], [CHR 0x0A], [CHR 0x0B], [CHR 0x0C], [CHR 0x0D],
     [CHR 0xC2, CHR 0x85], [CHR 0xC2, CHR 0xA0], [CHR 0xE1, CHR 0x9A, CHR 0x80],
     [CHR 0xE2, CHR 0x80, CHR 0x80], [CHR 0xE2, CHR 0x80, CHR 0x81], [CHR 0xE2, CHR 0x80, CHR 0x82],
     [CHR 0xE2, CHR 0x80, CHR 0x83], [CHR 0xE2, CHR 0x80, CHR 0x84], [CHR 0xE2, CHR 0x80, CHR 0x85],
     [CHR 0xE2, CHR 0x80, CHR 0x86], [CHR 0xE2, CHR 0x80, CHR 0x87], [CHR 0xE2, CHR 0x80, CHR 0x88],
     [CHR 0xE2, CHR 0x80, CHR 0x89], [CHR 0xE2, CHR 0x80, CHR 0x8A], [CHR 0xE2, CHR 0x80, CHR 0xA8],
     [CHR 0xE2, CHR 0x80, CHR 0xA9], [CHR 0xE2, CHR 0x80, CHR 0xAF], [CHR 0xE2, CHR 0x81, CHR 0x9F],
     [CHR 0xE3, CHR 0x80, CHR 0x80]]"

definition drop_seq :: "string list \<Rightarrow> string \<Rightarrow> string" where
  "drop_seq qs s =
     (case find (\<lambda>q. q \<noteq> [] \<and> prefix q s) qs of None \<Rightarrow> s | Some q \<Rightarrow> drop (length q) s)"

lemma drop_seq_shorter:
  assumes "length (drop_seq qs s) \<noteq> length s" shows "length (drop_seq qs s) < length s"
  using assms by (auto simp: drop_seq_def split: option.splits)

function trim_with :: "string list \<Rightarrow> string \<Rightarrow> string" where
  "trim_with qs s =
     (if length (drop_seq qs s) = length s then s else trim_with qs (drop_seq qs s))"
  by pat_completeness auto
termination
  by (relation "measure (length \<circ> snd)") (simp_all add: drop_seq_shorter)

declare trim_with.simps [simp del]

definition TrimSpace :: "string \<Rightarrow> string" where
  "TrimSpace s = rev (trim_with (map rev space_seqs) (rev (trim_with space_seqs s)))"

definition no_seq :: "string list \<Rightarrow> string \<Rightarrow> bool" where
  "no_seq qs s \<longleftrightarrow> list_all (\<lambda>q. q = [] \<or> \<not> prefix q s) qs"

lemma drop_seq_cases:
  obtains "no_seq qs s" "drop_seq qs s = s"
  | q where "q \<in> set qs" "q \<noteq> []" "s = q @ drop_seq qs s"
proof (cases "find (\<lambda>q. q \<noteq> [] \<and> prefix q s) qs")
  case None
  then have "drop_seq qs s = s" by (simp add: drop_seq_def)
  moreover from None have "no_seq qs s"
    by (auto simp: no_seq_def find_None_iff list_all_iff)
  ultimately show ?thesis by (intro that(1))
next
  case (Some q)
  then have "q \<in> set qs" "q \<noteq> []" "prefix q s"
    by (auto simp: find_Some_iff)
  with Some have "s = q @ drop_seq qs s"
    by (auto simp: drop_seq_def prefix_def)
  with \<open>q \<in> set qs\<close> \<open>q \<noteq> []\<close> show ?thesis by (rule that(2))
qed

lemma trim_with_suffix: "suffix (trim_with qs s) s"
proof (induction qs s rule: trim_with.induct)
  case (1 qs s)
  have "suffix (drop_seq qs s) s"
    by (rule drop_seq_cases [of qs s]) (auto simp: suffix_def)
  with 1 show ?case
    by (subst trim_with.simps) (auto intro: suffix_order.trans)
qed

lemma trim_with_no_seq: "no_seq qs (trim_with qs s)"
proof (induction qs s rule: trim_with.induct)
  case (1 qs s)
  show ?case
  proof (cases "length (drop_seq qs s) = length s")
    case True
    then have "no_seq qs s"
      by (metis add_eq_self_zero add.commute drop_seq_cases length_0_conv length_append)
    with True show ?thesis by (simp add: trim_with.simps [of qs s])
  next
    case False
    with 1 show ?thesis by (simp add: trim_with.simps [of qs s])
  qed
qed

lemma drop_seq_id: "no_seq qs s \<Longrightarrow> drop_seq qs s = s"
  by (rule drop_seq_cases [of qs s]) (auto simp: no_seq_def list_all_iff prefix_def)

lemma trim_with_id: "no_seq qs s \<Longrightarrow> trim_with qs s = s"
  by (subst trim_with.simps) (simp add: drop_seq_id)

lemma no_seq_prefix: "no_seq qs s \<Longrightarrow> prefix t s \<Longrightarrow> no_seq qs t"
  by (auto simp: no_seq_def list_all_iff intro: prefix_order.trans)

definition trimmed :: "string \<Rightarrow> bool" where
  "trimmed s \<longleftrightarrow> no_seq space_seqs s \<and> no_seq (map rev space_seqs) (rev s)"

lemma TrimSpace_trimmed: "trimmed (TrimSpace s)"
proof -
  let ?l = "trim_with space_seqs s"
  have "prefix (TrimSpace s) ?l"
    using trim_with_suffix [of "map rev space_seqs" "rev ?l"]
    by (simp add: TrimSpace_def suffix_to_prefix)
  then show ?thesis
    by (auto simp: trimmed_def TrimSpace_def
        intro: no_seq_prefix [OF trim_with_no_seq] trim_with_no_seq)
qed

lemma TrimSpace_id: "trimmed s \<Longrightarrow> TrimSpace s = s"
  by (simp add: TrimSpace_def trimmed_def trim_with_id)

lemma TrimSpace_idem [simp]: "TrimSpace (TrimSpace s) = TrimSpace s"
  by (simp add: TrimSpace_id TrimSpace_trimmed)

section \<open>Lower-casing\<close>

text \<open>
  \<open>unicode.ToLower\<close> on a rune: ASCII is written out, the rest of the table is \<open>U\<close>.
  \<open>strings.ToLower\<close> maps the bytes of an ASCII string and otherwise the runes, writing
  \<open>RuneError\<close> for every byte that is not part of a valid encoding.
\<close>

definition lower_rune :: "(nat \<Rightarrow> nat) \<Rightarrow> nat \<Rightarrow> nat" where
  "lower_rune U r = (if r < 0x80 then lower_nat r else U r)"

definition ToLower :: "(nat \<Rightarrow> nat) \<Rightarrow> string \<Rightarrow> string" where
  "ToLower U s =
     (if is_ascii s then map lower_char s
      else string_of_runes (map (lower_rune U) (runes s)))"

text \<open>
  What the components rely on of the table: lower-casing is idempotent and gives scalar
  values; the only ASCII values it gives for a non-ASCII code point are letters.
\<close>

definition lower_table :: "(nat \<Rightarrow> nat) \<Rightarrow> bool" where
  "lower_table U \<longleftrightarrow>
     (\<forall>r. 0x80 \<le> r \<longrightarrow> valid_scalar r \<longrightarrow>
        valid_scalar (U r) \<and> (if U r < 0x80 then 97 \<le> U r \<and> U r \<le> 122 else U (U r) = U r))"

lemma ToLower_ascii: "is_ascii s \<Longrightarrow> ToLower U s = map lower_char s"
  by (simp add: ToLower_def)

lemma is_ascii_lower: "is_ascii s \<Longrightarrow> is_ascii (map lower_char s)"
  by (auto simp: is_ascii_def list_all_iff lower_nat_def)

lemma ToLower_ascii_id:
  assumes "list_all (\<lambda>c. (of_char c :: nat) < 128 \<and> \<not> is_upper c) s"
  shows "ToLower U s = s"
proof -
  have "is_ascii s" using assms by (auto simp: is_ascii_def list_all_iff)
  moreover have "map lower_char s = s"
    using assms by (auto simp: list_all_iff lower_char_id intro: map_idI)
  ultimately show ?thesis by (simp add: ToLower_ascii)
qed

section \<open>Lexical path cleaning\<close>

text \<open>
  \<open>path.Clean\<close>: empty and \<open>.\<close> elements go, \<open>..\<close> removes the element before it, a leading
  \<open>..\<close> of a rooted path goes, and an empty result is \<open>.\<close>. The stack holds the elements kept
  so far, last one first.
\<close>

abbreviation slash :: char where "slash \<equiv> CHR ''/''"
abbreviation dotdot :: string where "dotdot \<equiv> ''..''"

fun clean_elems :: "bool \<Rightarrow> string list \<Rightarrow> string list \<Rightarrow> string list" where
  "clean_elems rooted st [] = rev st"
| "clean_elems rooted st (e # es) =
     (if e = [] \<or> e = ''.'' then clean_elems rooted st es
      else if e = dotdot then
        (case st of
           [] \<Rightarrow> clean_elems rooted (if rooted then [] else [dotdot]) es
         | t # ts \<Rightarrow> clean_elems rooted (if t = dotdot then dotdot # st else ts) es)
      else clean_elems rooted (e # st) es)"

definition path_Clean :: "string \<Rightarrow> string" where
  "path_Clean p =
     (let rooted = HasPrefix p [slash];
          body = Join slash (clean_elems rooted [] (Split slash p))
      in if rooted then slash # body else if body = [] then ''.'' else body)"

definition IsAbs :: "string \<Rightarrow> bool" where
  "IsAbs p \<longleftrightarrow> HasPrefix p [slash]"

text \<open>An element that names something below its directory.\<close>

definition proper_elem :: "string \<Rightarrow> bool" where
  "proper_elem e \<longleftrightarrow> e \<noteq> [] \<and> e \<noteq> ''.'' \<and> e \<noteq> dotdot \<and> slash \<notin> set e"

text \<open>Cleaned elements: proper ones, after \<open>..\<close> elements only when the path is not rooted.\<close>

definition cleaned :: "bool \<Rightarrow> string list \<Rightarrow> bool" where
  "cleaned rooted es \<longleftrightarrow>
     (\<exists>n qs. es = replicate n dotdot @ qs \<and> list_all proper_elem qs \<and> (rooted \<longrightarrow> n = 0))"

lemma cleaned_Nil [simp]: "cleaned rooted []"
  unfolding cleaned_def by (rule exI [of _ 0]) simp

lemma cleaned_snoc_proper:
  assumes "cleaned rooted es" "proper_elem e" shows "cleaned rooted (es @ [e])"
proof -
  obtain n qs where "es = replicate n dotdot @ qs" "list_all proper_elem qs" "rooted \<longrightarrow> n = 0"
    using assms(1) by (auto simp: cleaned_def)
  with assms(2) show ?thesis
    unfolding cleaned_def by (intro exI [of _ n] exI [of _ "qs @ [e]"]) simp
qed

lemma replicate_snoc2: "replicate (m + 2) x = replicate m x @ [x, x]"
  by (induction m) (simp_all add: numeral_2_eq_2)

lemma cleaned_snocD:
  assumes "cleaned rooted (es @ [e])"
  shows "cleaned rooted es \<and> (e = dotdot \<longrightarrow> \<not> rooted \<and> cleaned rooted (es @ [e, dotdot]))"
proof -
  obtain n qs where e: "es @ [e] = replicate n dotdot @ qs"
    and qs: "list_all proper_elem qs" and r: "rooted \<longrightarrow> n = 0"
    using assms by (auto simp: cleaned_def)
  show ?thesis
  proof (cases qs rule: rev_cases)
    case Nil
    with e obtain m where "n = Suc m" by (cases n) auto
    with Nil e have m: "es = replicate m dotdot" "e = dotdot"
      by (simp_all add: replicate_append_same [symmetric])
    have "cleaned rooted es" if "\<not> rooted"
      unfolding cleaned_def using m that by (intro exI [of _ m] exI [of _ "[]"]) simp
    moreover have "cleaned rooted (es @ [e, dotdot])" if "\<not> rooted"
      unfolding cleaned_def using m that
      by (intro exI [of _ "m + 2"] exI [of _ "[]"]) (simp only: replicate_snoc2, simp)
    ultimately show ?thesis using r \<open>n = Suc m\<close> by auto
  next
    case (snoc ps x)
    with e have "es = replicate n dotdot @ ps" "e = x" by auto
    with snoc qs r show ?thesis
      unfolding cleaned_def by (auto simp: proper_elem_def)
  qed
qed

lemma clean_elems_cleaned:
  assumes "cleaned rooted (rev st)" "\<forall>e \<in> set es. slash \<notin> set e"
  shows "cleaned rooted (clean_elems rooted st es)"
  using assms
proof (induction rooted st es rule: clean_elems.induct)
  case (2 rooted st e es)
  consider "e = [] \<or> e = ''.''" | "e = dotdot" "st = []"
    | t ts where "e = dotdot" "st = t # ts"
    | "proper_elem e" "e \<noteq> dotdot" "e \<noteq> []" "e \<noteq> ''.''"
    using "2.prems"(2) by (cases st) (auto simp: proper_elem_def)
  then show ?case
  proof cases
    case 1
    with 2 show ?thesis by auto
  next
    case 2
    have "cleaned False [dotdot]"
      unfolding cleaned_def by (intro exI [of _ 1] exI [of _ "[]"]) simp
    with 2 "2.IH"(2) "2.prems" show ?thesis by auto
  next
    case 3
    then have "cleaned rooted (rev ts @ [t])" using "2.prems"(1) by simp
    from cleaned_snocD [OF this] 3 "2.IH"(3) "2.prems"(2) show ?thesis by auto
  next
    case 4
    with "2.IH"(4) "2.prems" show ?thesis by (simp add: cleaned_snoc_proper)
  qed
qed simp

lemma clean_elems_id:
  assumes "list_all proper_elem es"
  shows "clean_elems rooted st es = rev st @ es"
  using assms by (induction es arbitrary: st) (auto simp: proper_elem_def)

lemma clean_elems_dotdots:
  assumes "list_all (\<lambda>e. e = dotdot) st"
  shows "clean_elems False st (replicate n dotdot @ es) = clean_elems False (replicate n dotdot @ st) es"
  using assms
proof (induction n arbitrary: st)
  case (Suc n)
  have "clean_elems False st (replicate (Suc n) dotdot @ es) =
      clean_elems False (dotdot # st) (replicate n dotdot @ es)"
    using Suc.prems by (cases st) simp_all
  also have "\<dots> = clean_elems False (replicate n dotdot @ dotdot # st) es"
    using Suc by simp
  finally show ?case by (simp add: replicate_app_Cons_same)
qed simp

lemma clean_elems_fix: "cleaned rooted es \<Longrightarrow> clean_elems rooted [] es = es"
proof -
  assume "cleaned rooted es"
  then obtain n qs where es: "es = replicate n dotdot @ qs" "list_all proper_elem qs"
    and r: "rooted \<longrightarrow> n = 0" by (auto simp: cleaned_def)
  show ?thesis
  proof (cases rooted)
    case True
    with es r show ?thesis by (simp add: clean_elems_id)
  next
    case False
    with es show ?thesis
      using clean_elems_dotdots [of "[]" n qs] by (simp add: clean_elems_id)
  qed
qed

lemma cleaned_elem:
  assumes "cleaned rooted es" "e \<in> set es"
  shows "e = dotdot \<or> proper_elem e"
proof -
  obtain n qs where "es = replicate n dotdot @ qs" "list_all proper_elem qs"
    using assms(1) unfolding cleaned_def by blast
  with assms(2) show ?thesis by (cases "e \<in> set qs") (simp_all add: list_all_iff)
qed

lemma cleaned_elem_ne: "cleaned rooted es \<Longrightarrow> e \<in> set es \<Longrightarrow> e \<noteq> []"
  by (drule (1) cleaned_elem) (auto simp: proper_elem_def)

lemma cleaned_no_slash: "cleaned rooted es \<Longrightarrow> e \<in> set es \<Longrightarrow> slash \<notin> set e"
  by (drule (1) cleaned_elem) (auto simp: proper_elem_def)

lemma Join_eq_Nil: "\<forall>e \<in> set es. e \<noteq> [] \<Longrightarrow> Join d es = [] \<longleftrightarrow> es = []"
  by (cases es rule: remdups_adj.cases) auto

lemma path_Clean_elems:
  "\<exists>es. cleaned (HasPrefix p [slash]) es \<and>
    path_Clean p =
      (if HasPrefix p [slash] then slash # Join slash es else if es = [] then ''.'' else Join slash es)"
proof -
  let ?es = "clean_elems (HasPrefix p [slash]) [] (Split slash p)"
  have c: "cleaned (HasPrefix p [slash]) ?es"
    by (rule clean_elems_cleaned) (auto dest: Split_no_sep)
  then have "Join slash ?es = [] \<longleftrightarrow> ?es = []"
    by (intro Join_eq_Nil) (blast dest: cleaned_elem_ne)
  with c show ?thesis
    by (cases "HasPrefix p [slash]") (auto intro!: exI [of _ ?es] simp: path_Clean_def Let_def)
qed

lemma path_Clean_fixed:
  assumes "path_Clean p = p" "\<not> HasPrefix p [slash]" "p \<noteq> ''.''"
  shows "cleaned False (Split slash p) \<and> p \<noteq> []"
proof -
  obtain es where es: "cleaned False es" "p = Join slash es" "es \<noteq> []"
    using path_Clean_elems [of p] assms by (auto split: if_splits)
  then have "Split slash p = es"
    using cleaned_no_slash [OF es(1)] by (auto intro: Split_Join)
  moreover have "p \<noteq> []"
    using es Join_eq_Nil [of es slash] cleaned_elem_ne [OF es(1)] by auto
  ultimately show ?thesis using es by simp
qed

section \<open>Index, hexadecimal and base64\<close>

text \<open>\<open>strings.LastIndexByte\<close>, \<open>-1\<close> when the byte does not occur.\<close>

definition LastIndexByte :: "string \<Rightarrow> char \<Rightarrow> int" where
  "LastIndexByte s c =
     (if c \<in> set s then int (length s) - 1 - int (length (takeWhile (\<lambda>x. x \<noteq> c) (rev s))) else -1)"

lemma LastIndexByte_split:
  "c \<notin> set v \<Longrightarrow> LastIndexByte (u @ c # v) c = int (length u)"
proof -
  assume "c \<notin> set v"
  then have "takeWhile (\<lambda>x. x \<noteq> c) (rev v @ c # rev u) = rev v"
    by (subst takeWhile_append2) auto
  then show ?thesis by (simp add: LastIndexByte_def)
qed

lemma LastIndexByte_nonneg: "0 \<le> LastIndexByte s c \<longleftrightarrow> c \<in> set s"
proof (cases "c \<in> set s")
  case True
  then obtain u v where "s = u @ c # v" "c \<notin> set v" by (auto dest: split_list_last)
  then show ?thesis by (simp add: LastIndexByte_split)
qed (simp add: LastIndexByte_def)

text \<open>\<open>hex.EncodeToString\<close> and \<open>base64.RawURLEncoding.EncodeToString\<close>.\<close>

definition hex_digit :: "nat \<Rightarrow> char" where
  "hex_digit n = ''0123456789abcdef'' ! (n mod 16)"

fun hex_encode :: "nat list \<Rightarrow> string" where
  "hex_encode [] = []"
| "hex_encode (b # bs) = hex_digit (b div 16) # hex_digit b # hex_encode bs"

definition b64_digit :: "nat \<Rightarrow> char" where
  "b64_digit n =
     ''ABCDEFGHIJKLMNOPQRSTUVWXYZabcdefghijklmnopqrstuvwxyz0123456789-_'' ! (n mod 64)"

fun b64_encode :: "nat list \<Rightarrow> string" where
  "b64_encode [] = []"
| "b64_encode [a] = [b64_digit (a div 4), b64_digit (a mod 4 * 16)]"
| "b64_encode [a, b] =
     [b64_digit (a div 4), b64_digit (a mod 4 * 16 + b div 16), b64_digit (b mod 16 * 4)]"
| "b64_encode (a # b # c # bs) =
     b64_digit (a div 4) # b64_digit (a mod 4 * 16 + b div 16)
     # b64_digit (b mod 16 * 4 + c div 64) # b64_digit c # b64_encode bs"

definition is_hex :: "char \<Rightarrow> bool" where
  "is_hex c \<longleftrightarrow> is_digit c \<or> 97 \<le> (of_char c :: nat) \<and> (of_char c :: nat) \<le> 102"

definition is_b64 :: "char \<Rightarrow> bool" where
  "is_b64 c \<longleftrightarrow> is_digit c \<or> is_lower c \<or> is_upper c \<or> c = CHR ''-'' \<or> c = CHR ''_''"

lemma hex_digit_hex: "is_hex (hex_digit n)"
proof -
  have "list_all is_hex ''0123456789abcdef''" by (simp add: is_hex_def is_digit_def)
  then show ?thesis unfolding hex_digit_def list_all_length
    by (elim allE [of _ "n mod 16"]) simp
qed

lemma b64_digit_b64: "is_b64 (b64_digit n)"
proof -
  have "list_all is_b64 ''ABCDEFGHIJKLMNOPQRSTUVWXYZabcdefghijklmnopqrstuvwxyz0123456789-_''"
    by (simp add: is_b64_def char_class_defs)
  then show ?thesis unfolding b64_digit_def list_all_length
    by (elim allE [of _ "n mod 64"]) simp
qed

lemma length_hex_encode [simp]: "length (hex_encode bs) = 2 * length bs"
  by (induction bs) auto

lemma hex_encode_hex: "list_all is_hex (hex_encode bs)"
  by (induction bs) (auto simp: hex_digit_hex)

lemma length_b64_encode: "length (b64_encode bs) = (4 * length bs + 2) div 3"
  by (induction bs rule: b64_encode.induct) auto

lemma b64_encode_b64: "list_all is_b64 (b64_encode bs)"
  by (induction bs rule: b64_encode.induct) (auto simp: b64_digit_b64)

end
