(* ===== verification/Identity_Access.thy ===== *)
theory Identity_Access
  imports Go_Strings
begin

text \<open>
  Identities, app names and access policies: \<open>internal/identity\<close> (e-mail normalization),
  \<open>internal/appnamespace\<close> (app slugs), \<open>internal/policies\<close> (policy evaluation and the
  in-memory policy store) and \<open>internal/apps\<close> (the app record and its repository).
\<close>

section \<open>internal/identity\<close>

record Identity =
  id_ID :: string
  id_Email :: string

datatype identity_error = InvalidEmail

abbreviation at_sign :: char where "at_sign \<equiv> CHR ''@''"

definition Normalize :: "(nat \<Rightarrow> nat) \<Rightarrow> string \<Rightarrow> identity_error + string" where
  "Normalize U raw =
     (let s = TrimSpace raw; at = LastIndexByte s at_sign in
      if at \<le> 0 \<or> at = int (length s) - 1 \<or> count_list s at_sign \<noteq> 1 then Inl InvalidEmail
      else
        let local = take (nat at) s; domain = ToLower U (drop (nat at + 1) s) in
        if ContainsAny (local @ domain) [CHR 0x0D, CHR 0x0A, CHR 0x09, CHR 0x20]
           \<or> \<not> Contains domain ''.''
        then Inl InvalidEmail
        else Inr (local @ at_sign # domain))"

definition Domain :: "string \<Rightarrow> string" where
  "Domain email =
     (let i = LastIndexByte email at_sign in if 0 \<le> i then drop (nat i + 1) email else [])"

lemma count_list_1E:
  assumes "count_list s c = 1"
  obtains u v where "s = u @ c # v" "c \<notin> set u" "c \<notin> set v"
proof -
  have "c \<in> set s" using assms by (metis count_notin zero_neq_one)
  then obtain u v where s: "s = u @ c # v" "c \<notin> set v" by (auto dest: split_list_last)
  with assms have "c \<notin> set u" by (simp add: count_list_0_iff [symmetric])
  with s that show thesis by blast
qed

text \<open>The shape of every accepted address: a non-empty local part kept byte for byte, and the
  lower-cased domain, which has a dot.\<close>

lemma Normalize_InrE:
  assumes "Normalize U raw = Inr s"
  obtains u v where "TrimSpace raw = u @ at_sign # v" "s = u @ at_sign # ToLower U v"
    "u \<noteq> []" "v \<noteq> []" "at_sign \<notin> set u" "at_sign \<notin> set v" "CHR ''.'' \<in> set (ToLower U v)"
    "\<not> ContainsAny (u @ ToLower U v) [CHR 0x0D, CHR 0x0A, CHR 0x09, CHR 0x20]"
proof -
  let ?t = "TrimSpace raw"
  have c: "count_list ?t at_sign = 1" using assms by (auto simp: Normalize_def Let_def split: if_splits)
  then obtain u v where t: "?t = u @ at_sign # v" "at_sign \<notin> set u" "at_sign \<notin> set v"
    by (rule count_list_1E)
  then have i: "LastIndexByte ?t at_sign = int (length u)" by (simp add: LastIndexByte_split)
  show thesis
    using assms t i that [of u v]
    by (auto simp: Normalize_def Let_def Contains_single split: if_splits)
qed

lemma Normalize_intro:
  assumes "TrimSpace raw = u @ at_sign # v" "u \<noteq> []" "v \<noteq> []" "at_sign \<notin> set u" "at_sign \<notin> set v"
    "CHR ''.'' \<in> set (ToLower U v)"
    "\<not> ContainsAny (u @ ToLower U v) [CHR 0x0D, CHR 0x0A, CHR 0x09, CHR 0x20]"
  shows "Normalize U raw = Inr (u @ at_sign # ToLower U v)"
proof -
  have "LastIndexByte (u @ at_sign # v) at_sign = int (length u)"
    using assms by (simp add: LastIndexByte_split)
  moreover have "count_list (u @ at_sign # v) at_sign = 1"
    using assms by (simp add: count_list_0_iff)
  ultimately show ?thesis
    using assms by (simp add: Normalize_def Let_def Contains_single)
qed

lemma Domain_append: "at_sign \<notin> set v \<Longrightarrow> Domain (u @ at_sign # v) = v"
  by (simp add: Domain_def LastIndexByte_split Let_def)

section \<open>internal/appnamespace\<close>

datatype slug_error = ErrInvalidSlug | ErrReservedSlug

definition reserved :: "string list" where
  "reserved = [''admin'', ''api'', ''auth'', ''status'', ''www'', ''docs'', ''install'']"

definition label_char :: "char \<Rightarrow> bool" where
  "label_char b \<longleftrightarrow> is_lower b \<or> is_digit b \<or> b = CHR ''-''"

definition validCanonicalLabel :: "string \<Rightarrow> bool" where
  "validCanonicalLabel value =
     (if length value = 0 \<or> length value > 63 \<or> hd value = CHR ''-'' \<or> last value = CHR ''-''
      then False else list_all label_char value)"

definition Validate :: "(nat \<Rightarrow> nat) \<Rightarrow> string \<Rightarrow> slug_error + string" where
  "Validate U value =
     (let canonical = ToLower U value in
      if canonical \<in> set reserved then Inl ErrReservedSlug
      else if value \<noteq> canonical \<or> \<not> validCanonicalLabel canonical then Inl ErrInvalidSlug
      else Inr canonical)"

definition Valid :: "(nat \<Rightarrow> nat) \<Rightarrow> string \<Rightarrow> bool" where
  "Valid U value = (case Validate U value of Inl _ \<Rightarrow> False | Inr _ \<Rightarrow> True)"

lemma label_char_ascii: "label_char c \<Longrightarrow> (of_char c :: nat) < 128 \<and> \<not> is_upper c"
  by (auto simp: label_char_def char_class_defs)

lemma label_ToLower: "list_all label_char s \<Longrightarrow> ToLower U s = s"
  by (rule ToLower_ascii_id) (auto simp: list_all_iff label_char_ascii)

lemma Valid_iff: "Valid U s \<longleftrightarrow> validCanonicalLabel s \<and> s \<notin> set reserved"
proof -
  have "ToLower U s = s" if "validCanonicalLabel s"
    using that by (simp add: validCanonicalLabel_def label_ToLower split: if_splits)
  then show ?thesis
    by (auto simp: Valid_def Validate_def Let_def)
qed

section \<open>internal/policies\<close>

datatype policy_error = ErrUnavailable | StoreError

record Policy =
  pol_AppID :: string
  pol_OwnerIdentityID :: string
  pol_Revision :: uint64
  pol_Mode :: string
  pol_Emails :: "string list"
  pol_Domains :: "string list"
  pol_Valid :: bool

record PublicGate =
  gate_Revision :: uint64
  gate_Enabled :: bool
  gate_Valid :: bool

datatype Decision = Deny | Allow

definition Evaluate :: "Policy \<Rightarrow> Identity \<Rightarrow> Decision" where
  "Evaluate p viewer =
     (if \<not> pol_Valid p \<or> id_ID viewer = [] then Deny
      else if id_ID viewer = pol_OwnerIdentityID p then Allow
      else if id_Email viewer \<in> set (pol_Emails p) then Allow
      else if Domain (id_Email viewer) \<in> set (pol_Domains p) then Allow else Deny)"

record PolicyMemoryStore =
  pms_Policies :: "(string, Policy) gomap"
  pms_Gate :: PublicGate
  pms_Err :: bool

definition PolicyCurrent :: "PolicyMemoryStore \<Rightarrow> string \<Rightarrow> policy_error + Policy" where
  "PolicyCurrent s appID =
     (if pms_Err s then Inl StoreError
      else case map_of (pms_Policies s) appID of None \<Rightarrow> Inl ErrUnavailable | Some p \<Rightarrow> Inr p)"

definition CurrentPublicGate :: "PolicyMemoryStore \<Rightarrow> policy_error + PublicGate" where
  "CurrentPublicGate s =
     (if pms_Err s then Inl StoreError
      else if \<not> gate_Valid (pms_Gate s) then Inl ErrUnavailable
      else Inr (pms_Gate s))"

section \<open>internal/apps\<close>

datatype AppStatus = AppActive | AppSuspended | AppDeleting | AppFailed

record File =
  file_Path :: string
  file_Hash :: string
  file_Size :: int

record FileManifest =
  fm_Files :: "File list"
  fm_Hash :: string

record App =
  app_ID :: string
  app_Slug :: string
  app_OwnerIdentityID :: string
  app_ReleaseRoot :: string
  app_DeploymentID :: string
  app_ReleaseEvidence :: FileManifest
  app_Status :: AppStatus
  app_SPAFallback :: bool
  app_KVEnabled :: bool
  app_BlobsEnabled :: bool
  app_RealtimeEnabled :: bool
  app_PublicIndexing :: bool

datatype app_error = AppNotFound | AppStoreError

record AppMemoryRepository =
  amr_bySlug :: "(string, App) gomap"
  amr_Err :: bool

definition NewMemoryRepository :: "App list \<Rightarrow> AppMemoryRepository" where
  "NewMemoryRepository apps =
     \<lparr>amr_bySlug = fold (\<lambda>a m. AList.update (app_Slug a) a m) apps [], amr_Err = False\<rparr>"

definition ResolveActive :: "AppMemoryRepository \<Rightarrow> string \<Rightarrow> app_error + App" where
  "ResolveActive r slug =
     (if amr_Err r then Inl AppStoreError
      else case map_of (amr_bySlug r) slug of
          None \<Rightarrow> Inl AppNotFound
        | Some a \<Rightarrow> if app_Status a \<noteq> AppActive then Inl AppNotFound else Inr a)"

definition PutApp :: "AppMemoryRepository \<Rightarrow> App \<Rightarrow> AppMemoryRepository" where
  "PutApp r a = r\<lparr>amr_bySlug := AList.update (app_Slug a) a (amr_bySlug r)\<rparr>"

lemma ResolveActive_Put:
  "\<not> amr_Err r \<Longrightarrow> ResolveActive (PutApp r a) s =
    (if s = app_Slug a then if app_Status a = AppActive then Inr a else Inl AppNotFound
     else ResolveActive r s)"
  by (simp add: ResolveActive_def PutApp_def gomap_simps)

section \<open>Facts about normalization\<close>

lemma prefix_before: "c \<notin> set q \<Longrightarrow> prefix q (u @ c # w) \<longleftrightarrow> prefix q u"
proof (induction q arbitrary: u)
  case (Cons a q)
  then show ?case by (cases u) auto
qed simp

lemma lower_char_eq: "lower_char d = c \<Longrightarrow> \<not> is_lower c \<Longrightarrow> d = c"
  by (cases "is_upper d") (auto simp: char_class_defs lower_nat_def lower_char_id)

lemma lower_char_fixed: "\<not> is_lower (lower_char d) \<Longrightarrow> lower_char d = d"
  using lower_char_eq [of d "lower_char d"] by simp

lemma prefix_lower:
  "list_all (\<lambda>c. \<not> is_lower c) q \<Longrightarrow> prefix q (map lower_char w) \<Longrightarrow> prefix q w"
proof (induction q arbitrary: w)
  case (Cons a q)
  then show ?case by (cases w) (auto intro: lower_char_fixed)
qed simp

lemma space_seq_chars: "q \<in> set space_seqs \<Longrightarrow> list_all (\<lambda>c. \<not> is_lower c) q \<and> at_sign \<notin> set q"
proof -
  have "list_all (\<lambda>q. list_all (\<lambda>c. \<not> is_lower c) q \<and> at_sign \<notin> set q) space_seqs"
    by code_simp
  then show "q \<in> set space_seqs \<Longrightarrow> list_all (\<lambda>c. \<not> is_lower c) q \<and> at_sign \<notin> set q"
    by (simp add: list_all_iff)
qed

lemma trimmed_lower_domain:
  assumes "trimmed (u @ at_sign # v)"
  shows "trimmed (u @ at_sign # map lower_char v)"
proof -
  have front: "no_seq space_seqs (u @ at_sign # w) \<longleftrightarrow> no_seq space_seqs u" for w
    using space_seq_chars by (auto simp: no_seq_def list_all_iff prefix_before)
  have rear: "no_seq (map rev space_seqs) (rev w @ at_sign # rev u) \<longleftrightarrow> no_seq (map rev space_seqs) (rev w)" for w
    using space_seq_chars by (auto simp: no_seq_def list_all_iff prefix_before)
  have "no_seq (map rev space_seqs) (rev (map lower_char v))"
    if noseq: "no_seq (map rev space_seqs) (rev v)"
    unfolding no_seq_def list_all_iff
  proof (intro ballI)
    fix q assume q: "q \<in> set (map rev space_seqs)"
    then have "list_all (\<lambda>c. \<not> is_lower c) q" using space_seq_chars by auto
    then have "prefix q (map lower_char (rev v)) \<Longrightarrow> prefix q (rev v)" by (rule prefix_lower)
    with q noseq show "q = [] \<or> \<not> prefix q (rev (map lower_char v))"
      by (simp add: no_seq_def list_all_iff rev_map [symmetric]) (auto simp: rev_map)
  qed
  with assms show ?thesis by (simp add: trimmed_def front rear)
qed

lemma is_ascii_sub: "is_ascii s \<Longrightarrow> set t \<subseteq> set s \<Longrightarrow> is_ascii t"
  by (auto simp: is_ascii_def list_all_iff)

lemma set_TrimSpace: "set (TrimSpace s) \<subseteq> set s"
  using set_mono_suffix [OF trim_with_suffix [of space_seqs s]]
    set_mono_suffix [OF trim_with_suffix [of "map rev space_seqs" "rev (trim_with space_seqs s)"]]
  by (auto simp: TrimSpace_def)

section \<open>Properties\<close>

text \<open>Normalization of an ASCII e-mail address is canonical: the accepted form has a non-empty
  local part, a dotted lower-case domain without white space, exactly one at-sign, its domain
  is what \<open>Domain\<close> reads off it, and normalizing it again changes nothing.\<close>

theorem normalize_canonical:
  assumes "Normalize U raw = Inr s" "is_ascii raw"
  shows "Normalize U s = Inr s \<and> count_list s at_sign = 1
    \<and> (\<exists>local domn. s = local @ at_sign # domn \<and> local \<noteq> [] \<and> Domain s = domn \<and> CHR ''.'' \<in> set domn
          \<and> list_all (\<lambda>c. \<not> is_upper c) domn
          \<and> \<not> ContainsAny s [CHR 0x0D, CHR 0x0A, CHR 0x09, CHR 0x20])"
proof (intro conjI)
  obtain u v where t: "TrimSpace raw = u @ at_sign # v" and s: "s = u @ at_sign # ToLower U v"
    and uv: "u \<noteq> []" "v \<noteq> []" "at_sign \<notin> set u" "at_sign \<notin> set v"
    and dot: "CHR ''.'' \<in> set (ToLower U v)"
    and ws: "\<not> ContainsAny (u @ ToLower U v) [CHR 0x0D, CHR 0x0A, CHR 0x09, CHR 0x20]"
    using assms(1) by (rule Normalize_InrE)
  have "is_ascii v" using assms(2) set_TrimSpace [of raw] t by (auto intro: is_ascii_sub)
  then have low: "ToLower U v = map lower_char v" by (rule ToLower_ascii)
  have low2: "ToLower U (map lower_char v) = map lower_char v"
    using is_ascii_lower [OF \<open>is_ascii v\<close>] by (simp add: ToLower_ascii)
  have v': "at_sign \<notin> set (map lower_char v)"
    using uv(4) by (auto dest!: lower_char_eq [OF sym] simp: is_lower_def)
  have "trimmed s" using TrimSpace_trimmed [of raw] s low t by (simp add: trimmed_lower_domain)
  then have "TrimSpace s = u @ at_sign # map lower_char v" using s low by (simp add: TrimSpace_id)
  then show "Normalize U s = Inr s"
    using uv v' dot ws s low low2 Normalize_intro [of s u "map lower_char v" U] by simp
  show "count_list s at_sign = 1"
    using s low uv v' by (simp add: count_list_0_iff)
  have "list_all (\<lambda>c. \<not> is_upper c) (map lower_char v)" by (simp add: list_all_iff)
  moreover have "\<not> ContainsAny s [CHR 0x0D, CHR 0x0A, CHR 0x09, CHR 0x20]"
    using ws s by (auto simp: ContainsAny_def)
  ultimately show "\<exists>local domn. s = local @ at_sign # domn \<and> local \<noteq> [] \<and> Domain s = domn
      \<and> CHR ''.'' \<in> set domn \<and> list_all (\<lambda>c. \<not> is_upper c) domn
      \<and> \<not> ContainsAny s [CHR 0x0D, CHR 0x0A, CHR 0x09, CHR 0x20]"
    using s uv dot low v' by (auto simp: Domain_append)
qed

theorem normalize_canonical_witness:
  "Normalize id ''Ada.L@example.org'' = Inr ''Ada.L@example.org''"
proof -
  have "Normalize id ''  Ada.L@Example.ORG '' = Inr ''Ada.L@example.org''"
    "is_ascii ''  Ada.L@Example.ORG ''"
    by code_simp+
  then show ?thesis by (rule normalize_canonical [THEN conjunct1])
qed

text \<open>Slug validation accepts exactly the canonical DNS labels that are not reserved and returns
  them unchanged, whatever the Unicode table does; and every ASCII case variant of a reserved
  label is reported as reserved.\<close>

theorem validate_slug_exact:
  "(Validate U v = Inr s \<longleftrightarrow>
      s = v \<and> 1 \<le> length v \<and> length v \<le> 63 \<and> list_all label_char v
      \<and> hd v \<noteq> CHR ''-'' \<and> last v \<noteq> CHR ''-'' \<and> v \<notin> set reserved)
   \<and> (is_ascii v \<and> map lower_char v \<in> set reserved \<longrightarrow> Validate U v = Inl ErrReservedSlug)"
proof -
  have "ToLower U v = v" if "list_all label_char v" using that by (rule label_ToLower)
  then show ?thesis
    by (auto simp: Validate_def Let_def validCanonicalLabel_def ToLower_ascii Suc_le_eq split: if_splits)
qed

theorem validate_slug_exact_witness:
  "Validate id ''ADMIN'' = Inl ErrReservedSlug"
proof -
  have "is_ascii ''ADMIN'' \<and> map lower_char ''ADMIN'' \<in> set reserved" by code_simp
  with validate_slug_exact [of id "''ADMIN''" "''x''"] show ?thesis by simp
qed

end
