(* ===== verification/Sessions_Auth.thy ===== *)
theory Sessions_Auth
  imports Identity_Access
begin

text \<open>
  App sessions (\<open>internal/sessions\<close>), the authorizer that turns a session and the current policy
  into a sealed authorization context (\<open>internal/appauth\<close>) and the scope check of the
  capability services (\<open>internal/capabilities\<close>).

  SHA-256 is the parameter \<open>sha\<close>; the entropy source is an argument (\<open>None\<close> when reading it
  fails). The locale \<open>app_sessions\<close> is the contract of a session store the authorizer relies
  on; it is interpreted on the memory store.
\<close>

section \<open>internal/sessions\<close>

record Session =
  ses_ID :: string
  ses_AppID :: string
  ses_Identity :: Identity
  ses_ExpiresAt :: time
  ses_Revoked :: bool

datatype session_error = ErrInvalidSession | SessionEntropyError

type_synonym session_store = "(string, Session) gomap"

definition CreateSession ::
  "(string \<Rightarrow> string) \<Rightarrow> nat list option \<Rightarrow> session_store \<Rightarrow> string \<Rightarrow> Identity \<Rightarrow> time
    \<Rightarrow> session_error + string \<times> Session \<times> session_store" where
  "CreateSession sha rnd s appID viewer expiry =
     (case rnd of None \<Rightarrow> Inl SessionEntropyError
      | Some b \<Rightarrow>
          let token = b64_encode b;
              v = \<lparr>ses_ID = take 12 token, ses_AppID = appID, ses_Identity = viewer,
                   ses_ExpiresAt = expiry, ses_Revoked = False\<rparr>
          in Inr (token, v, AList.update (sha token) v s))"

definition ValidateSession ::
  "(string \<Rightarrow> string) \<Rightarrow> session_store \<Rightarrow> string \<Rightarrow> string \<Rightarrow> time \<Rightarrow> session_error + Session" where
  "ValidateSession sha s appID token now =
     (if token = [] then Inl ErrInvalidSession
      else case map_of s (sha token) of
          None \<Rightarrow> Inl ErrInvalidSession
        | Some v \<Rightarrow>
            if ses_Revoked v \<or> ses_AppID v \<noteq> appID \<or> \<not> now < ses_ExpiresAt v
            then Inl ErrInvalidSession else Inr v)"

definition RevokeSession :: "(string \<Rightarrow> string) \<Rightarrow> session_store \<Rightarrow> string \<Rightarrow> session_store" where
  "RevokeSession sha s token =
     (case map_of s (sha token) of
        None \<Rightarrow> s
      | Some v \<Rightarrow> AList.update (sha token) (v\<lparr>ses_Revoked := True\<rparr>) s)"

lemmas session_defs = CreateSession_def ValidateSession_def RevokeSession_def

section \<open>internal/appauth: contexts\<close>

record AuthorizationContext =
  ac_app :: App
  ac_session :: Session
  ac_revision :: uint64
  ac_requestID :: string

abbreviation ac_AppID :: "AuthorizationContext \<Rightarrow> string" where
  "ac_AppID c \<equiv> app_ID (ac_app c)"
abbreviation ac_Identity :: "AuthorizationContext \<Rightarrow> Identity" where
  "ac_Identity c \<equiv> ses_Identity (ac_session c)"
abbreviation ac_SessionID :: "AuthorizationContext \<Rightarrow> string" where
  "ac_SessionID c \<equiv> ses_ID (ac_session c)"

datatype StaticAccessContext =
    PrivateStatic (priv_ctx: AuthorizationContext)
  | PublicStatic (pub_app: App) (pub_policyRevision: uint64) (pub_gateRevision: uint64) (pub_indexing: bool)

fun static_app :: "StaticAccessContext \<Rightarrow> App" where
  "static_app (PrivateStatic c) = ac_app c"
| "static_app (PublicStatic a p g i) = a"

fun static_Public :: "StaticAccessContext \<Rightarrow> bool" where
  "static_Public (PrivateStatic c) = False"
| "static_Public (PublicStatic a p g i) = True"

fun static_Indexing :: "StaticAccessContext \<Rightarrow> bool" where
  "static_Indexing (PrivateStatic c) = False"
| "static_Indexing (PublicStatic a p g i) = i"

fun static_PolicyRevision :: "StaticAccessContext \<Rightarrow> uint64" where
  "static_PolicyRevision (PrivateStatic c) = ac_revision c"
| "static_PolicyRevision (PublicStatic a p g i) = p"

fun static_PublicGateRevision :: "StaticAccessContext \<Rightarrow> uint64" where
  "static_PublicGateRevision (PrivateStatic c) = 0"
| "static_PublicGateRevision (PublicStatic a p g i) = g"

fun static_DeploymentID :: "StaticAccessContext \<Rightarrow> string" where
  "static_DeploymentID (PrivateStatic c) = []"
| "static_DeploymentID (PublicStatic a p g i) = app_DeploymentID a"

record DataAuthorizationContext =
  dac_AppID :: string
  dac_AppSlug :: string
  dac_RequestID :: string
  dac_ActorKind :: string
  dac_ActorID :: string

definition viewerData :: "AuthorizationContext \<Rightarrow> DataAuthorizationContext" where
  "viewerData c =
     \<lparr>dac_AppID = ac_AppID c, dac_AppSlug = app_Slug (ac_app c), dac_RequestID = ac_requestID c,
      dac_ActorKind = ''viewer'', dac_ActorID = id_ID (ac_Identity c)\<rparr>"

definition NewDeployerDataAuthorizationContext ::
  "string \<Rightarrow> string \<Rightarrow> string \<Rightarrow> string \<Rightarrow> DataAuthorizationContext option" where
  "NewDeployerDataAuthorizationContext appID slug actorID requestID =
     (if appID = [] \<or> slug = [] \<or> actorID = [] then None
      else Some \<lparr>dac_AppID = appID, dac_AppSlug = slug, dac_RequestID = requestID,
                 dac_ActorKind = ''deployer'', dac_ActorID = actorID\<rparr>)"

section \<open>internal/appauth: the authorizer\<close>

datatype auth_error = ErrDenied

text \<open>
  A policy store: its \<open>Current\<close> method, and \<open>CurrentPublicGate\<close> when the store also implements
  \<open>PublicGateStore\<close>.
\<close>

record PolicyStore =
  ps_Current :: "string \<Rightarrow> policy_error + Policy"
  ps_Gate :: "(policy_error + PublicGate) option"

definition memory_policy_store :: "PolicyMemoryStore \<Rightarrow> PolicyStore" where
  "memory_policy_store s = \<lparr>ps_Current = PolicyCurrent s, ps_Gate = Some (CurrentPublicGate s)\<rparr>"

type_synonym validate_fun = "string \<Rightarrow> string \<Rightarrow> time \<Rightarrow> session_error + Session"

definition Authorize ::
  "validate_fun option \<Rightarrow> PolicyStore option \<Rightarrow> time \<Rightarrow> App \<Rightarrow> string \<Rightarrow> string
    \<Rightarrow> auth_error + AuthorizationContext" where
  "Authorize sessions policies now app token requestID =
     (case (sessions, policies) of
        (Some validate, Some ps) \<Rightarrow>
          (case validate (app_ID app) token now of
             Inl _ \<Rightarrow> Inl ErrDenied
           | Inr s \<Rightarrow>
               (case ps_Current ps (app_ID app) of
                  Inl _ \<Rightarrow> Inl ErrDenied
                | Inr p \<Rightarrow>
                    if \<not> pol_Valid p \<or> pol_AppID p \<noteq> app_ID app
                       \<or> (pol_Mode p \<noteq> [] \<and> pol_Mode p \<noteq> ''private'' \<and> pol_Mode p \<noteq> ''public'')
                    then Inl ErrDenied
                    else if Evaluate p (ses_Identity s) \<noteq> Allow then Inl ErrDenied
                    else Inr \<lparr>ac_app = app, ac_session = s, ac_revision = pol_Revision p,
                              ac_requestID = requestID\<rparr>))
      | _ \<Rightarrow> Inl ErrDenied)"

text \<open>A current public policy and a current, enabled gate.\<close>

definition gate_open :: "PolicyStore \<Rightarrow> PublicGate option" where
  "gate_open ps =
     (case ps_Gate ps of
        Some (Inr g) \<Rightarrow> if gate_Valid g \<and> gate_Enabled g \<and> gate_Revision g > 0 then Some g else None
      | _ \<Rightarrow> None)"

definition AuthorizeStatic ::
  "validate_fun option \<Rightarrow> PolicyStore option \<Rightarrow> time \<Rightarrow> App \<Rightarrow> string \<Rightarrow> string
    \<Rightarrow> auth_error + StaticAccessContext" where
  "AuthorizeStatic sessions policies now app token requestID =
     (let private =
        (case Authorize sessions policies now app token requestID of
           Inr c \<Rightarrow> Inr (PrivateStatic c) | Inl _ \<Rightarrow> Inl ErrDenied)
      in case policies of
          None \<Rightarrow> private
        | Some ps \<Rightarrow>
            if ps_Gate ps \<noteq> None \<and> \<not> app_KVEnabled app \<and> \<not> app_BlobsEnabled app
               \<and> \<not> app_RealtimeEnabled app \<and> app_DeploymentID app \<noteq> []
               \<and> app_ReleaseRoot app \<noteq> [] \<and> fm_Hash (app_ReleaseEvidence app) \<noteq> []
            then (case ps_Current ps (app_ID app) of
                    Inl _ \<Rightarrow> private
                  | Inr p \<Rightarrow>
                      if pol_Valid p \<and> pol_AppID p = app_ID app \<and> pol_Mode p = ''public''
                      then (case gate_open ps of
                              None \<Rightarrow> private
                            | Some g \<Rightarrow> Inr (PublicStatic app (pol_Revision p) (gate_Revision g)
                                               (app_PublicIndexing app)))
                      else private)
            else private)"

section \<open>internal/capabilities\<close>

datatype scope_error = ErrUnauthorized

definition Scope :: "AuthorizationContext option \<Rightarrow> scope_error + string \<times> string \<times> string" where
  "Scope auth =
     (case auth of None \<Rightarrow> Inl ErrUnauthorized
      | Some c \<Rightarrow>
          if ac_AppID c = [] \<or> id_ID (ac_Identity c) = [] \<or> ac_SessionID c = [] then Inl ErrUnauthorized
          else Inr (ac_AppID c, id_ID (ac_Identity c), ac_SessionID c))"

lemma Scope_InrD:
  "Scope auth = Inr (a, i, s) \<Longrightarrow>
    \<exists>c. auth = Some c \<and> a = ac_AppID c \<and> i = id_ID (ac_Identity c) \<and> s = ac_SessionID c
      \<and> a \<noteq> [] \<and> i \<noteq> [] \<and> s \<noteq> []"
  by (auto simp: Scope_def split: option.splits if_splits)

section \<open>The session contract and what the authorizer makes of it\<close>

locale app_sessions =
  fixes validate :: validate_fun
  assumes validate_app: "validate app token now = Inr s \<Longrightarrow> ses_AppID s = app"
    and validate_live: "validate app token now = Inr s \<Longrightarrow> now < ses_ExpiresAt s \<and> \<not> ses_Revoked s"
    and validate_token: "validate app [] now = Inl ErrInvalidSession"
begin

lemma authorized:
  assumes "Authorize (Some validate) pol now app token rid = Inr c"
  shows "\<exists>ps p. pol = Some ps \<and> ps_Current ps (app_ID app) = Inr p \<and> pol_Valid p
      \<and> pol_AppID p = app_ID app \<and> Evaluate p (ac_Identity c) = Allow \<and> ac_revision c = pol_Revision p
      \<and> ac_app c = app \<and> ses_AppID (ac_session c) = app_ID app \<and> now < ses_ExpiresAt (ac_session c)
      \<and> \<not> ses_Revoked (ac_session c) \<and> token \<noteq> []"
proof -
  obtain ps s p where pol: "pol = Some ps" "validate (app_ID app) token now = Inr s"
    "ps_Current ps (app_ID app) = Inr p" "pol_Valid p" "pol_AppID p = app_ID app"
    "Evaluate p (ses_Identity s) = Allow"
    "c = \<lparr>ac_app = app, ac_session = s, ac_revision = pol_Revision p, ac_requestID = rid\<rparr>"
    using assms by (auto simp: Authorize_def split: option.splits sum.splits if_splits)
  moreover from pol(2) have "token \<noteq> []" using validate_token by auto
  ultimately show ?thesis
    using validate_app [OF pol(2)] validate_live [OF pol(2)] by auto
qed

lemma anonymous_denied: "Authorize (Some validate) pol now app [] rid = Inl ErrDenied"
  by (auto simp: Authorize_def validate_token split: option.splits)

lemma static_private:
  assumes "AuthorizeStatic (Some validate) pol now app token rid = Inr (PrivateStatic c)"
  shows "Authorize (Some validate) pol now app token rid = Inr c"
  using assms
  by (auto simp: AuthorizeStatic_def Let_def split: option.splits sum.splits if_splits)

end

lemma static_public:
  assumes "AuthorizeStatic sess pol now app token rid = Inr (PublicStatic a pr gr ix)"
  shows "\<exists>ps p g. pol = Some ps \<and> ps_Current ps (app_ID app) = Inr p \<and> pol_Valid p
      \<and> pol_Mode p = ''public'' \<and> pol_AppID p = app_ID app \<and> ps_Gate ps = Some (Inr g)
      \<and> gate_Enabled g \<and> gate_Valid g \<and> gr = gate_Revision g \<and> gr > 0 \<and> pr = pol_Revision p
      \<and> a = app \<and> ix = app_PublicIndexing app
      \<and> \<not> app_KVEnabled app \<and> \<not> app_BlobsEnabled app \<and> \<not> app_RealtimeEnabled app
      \<and> app_DeploymentID app \<noteq> []"
  using assms
  by (auto simp: AuthorizeStatic_def Let_def gate_open_def split: option.splits sum.splits if_splits)

interpretation mem_sessions: app_sessions "ValidateSession sha st" for sha st
  by unfold_locales (auto simp: ValidateSession_def split: if_splits option.splits)

section \<open>A sample context\<close>

text \<open>A viewer of one app with every capability, for the concrete instances of the properties.\<close>

definition sample_app :: App where
  "sample_app = \<lparr>app_ID = ''a1'', app_Slug = ''notes'', app_OwnerIdentityID = ''o1'', app_ReleaseRoot = ''/r'',
     app_DeploymentID = ''d1'', app_ReleaseEvidence = \<lparr>fm_Files = [], fm_Hash = []\<rparr>, app_Status = AppActive,
     app_SPAFallback = False, app_KVEnabled = True, app_BlobsEnabled = True, app_RealtimeEnabled = True,
     app_PublicIndexing = False\<rparr>"

definition sample_context :: "AuthorizationContext option" where
  "sample_context = Some \<lparr>ac_app = sample_app,
     ac_session = \<lparr>ses_ID = ''s1'', ses_AppID = ''a1'', ses_Identity = \<lparr>id_ID = ''u1'', id_Email = ''o@e.org''\<rparr>,
       ses_ExpiresAt = 100, ses_Revoked = False\<rparr>,
     ac_revision = 1, ac_requestID = ''q''\<rparr>"

section \<open>Properties\<close>

text \<open>Session life cycle: a created session validates, with its token, for its own app up to its
  expiry and for nothing else; once revoked it validates never again; and neither creation nor
  revocation changes the outcome of any token with another digest.\<close>

theorem session_lifecycle:
  assumes "CreateSession sha (Some b) st app viewer expiry = Inr (token, v, st')" "length b = 32"
  shows "ValidateSession sha st' app' token now =
      (if app' = app \<and> now < expiry then Inr v else Inl ErrInvalidSession)
    \<and> ValidateSession sha (RevokeSession sha st' token) app' token now = Inl ErrInvalidSession
    \<and> (sha t \<noteq> sha token \<longrightarrow>
      ValidateSession sha (RevokeSession sha st' token) app' t now = ValidateSession sha st app' t now)"
proof (intro conjI impI)
  have "b64_encode b \<noteq> []"
    using assms(2) length_b64_encode [of b] by auto
  then have t: "token \<noteq> []" "v = \<lparr>ses_ID = take 12 token, ses_AppID = app, ses_Identity = viewer,
      ses_ExpiresAt = expiry, ses_Revoked = False\<rparr>" "st' = AList.update (sha token) v st"
    using assms(1) by (auto simp: CreateSession_def Let_def)
  then show "ValidateSession sha st' app' token now =
      (if app' = app \<and> now < expiry then Inr v else Inl ErrInvalidSession)"
    by (auto simp: ValidateSession_def gomap_simps)
  from t show "ValidateSession sha (RevokeSession sha st' token) app' token now = Inl ErrInvalidSession"
    by (simp add: ValidateSession_def RevokeSession_def gomap_simps)
  assume "sha t \<noteq> sha token"
  with t show "ValidateSession sha (RevokeSession sha st' token) app' t now = ValidateSession sha st app' t now"
    by (simp add: ValidateSession_def RevokeSession_def gomap_simps)
qed

theorem session_lifecycle_witness:
  "ValidateSession id (RevokeSession id
      [(b64_encode (replicate 32 7), \<lparr>ses_ID = take 12 (b64_encode (replicate 32 7)), ses_AppID = ''a1'',
        ses_Identity = \<lparr>id_ID = ''u1'', id_Email = ''o@e.org''\<rparr>, ses_ExpiresAt = 100, ses_Revoked = False\<rparr>)]
      (b64_encode (replicate 32 7))) ''a1'' (b64_encode (replicate 32 7)) 10 = Inl ErrInvalidSession"
  by (rule session_lifecycle [THEN conjunct2, THEN conjunct1, of id "replicate 32 7" "[]" "''a1''" "\<lparr>id_ID = ''u1'', id_Email = ''o@e.org''\<rparr>" 100])
    (simp_all add: CreateSession_def Let_def)

end
