(* ===== verification/Static_Runtime.thy ===== *)
theory Static_Runtime
  imports Sessions_Auth
begin

text \<open>
  Static serving: which release-relative paths may be requested
  (\<open>internal/releases/static_path.go\<close>), file-manifest equality and release ids
  (\<open>internal/releases/filesystem.go\<close>), and the static runtime that serves an authorized
  request (\<open>internal/staticruntime/static.go\<close>).

  The file system is a parameter: \<open>inspect\<close> is the release inspection (\<open>Inl\<close> on error) and
  \<open>open\<close> the rooted open of \<open>openBeneath\<close>. \<open>http.ServeContent\<close> is the parameter
  \<open>serve_content\<close>, the status it writes.
\<close>

section \<open>Paths of a release\<close>

definition ServableStaticAssetPath :: "(nat \<Rightarrow> nat) \<Rightarrow> string \<Rightarrow> bool" where
  "ServableStaticAssetPath U rel =
     (if rel = [] \<or> HasPrefix rel ''/'' \<or> Contains rel [CHR 0x5C] \<or> path_Clean rel \<noteq> rel
         \<or> HasPrefix rel ''../''
      then False
      else if list_ex (\<lambda>part. part = [] \<or> part = ''.'' \<or> HasPrefix part ''.'') (Split slash rel)
      then False
      else \<not> HasSuffix (ToLower U rel) ''.map'')"

text \<open>\<open>filepath.Base\<close> (slash-separated): the last element, trailing slashes stripped.\<close>

definition filepath_Base :: "string \<Rightarrow> string" where
  "filepath_Base p =
     (if p = [] then ''.''
      else let t = rev (dropWhile (\<lambda>c. c = slash) (rev p))
           in if t = [] then ''/'' else last (Split slash t))"

definition ValidReleaseID :: "string \<Rightarrow> bool" where
  "ValidReleaseID i \<longleftrightarrow>
     i \<noteq> [] \<and> filepath_Base i = i \<and> \<not> ContainsAny i [CHR ''/'', CHR 0x5C, CHR 0x5C] \<and> i \<noteq> ''.'' \<and> i \<noteq> ''..''"

fun files_equal :: "File list \<Rightarrow> File list \<Rightarrow> bool" where
  "files_equal (a # as) (b # bs) \<longleftrightarrow> a = b \<and> files_equal as bs"
| "files_equal _ _ \<longleftrightarrow> True"

definition FileManifestEqual :: "FileManifest \<Rightarrow> FileManifest \<Rightarrow> bool" where
  "FileManifestEqual m other =
     (if fm_Hash m \<noteq> fm_Hash other \<or> length (fm_Files m) \<noteq> length (fm_Files other) then False
      else files_equal (fm_Files m) (fm_Files other))"

lemma files_equal_iff: "length xs = length ys \<Longrightarrow> files_equal xs ys \<longleftrightarrow> xs = ys"
  by (induction xs ys rule: files_equal.induct) auto

lemma FileManifestEqual_iff: "FileManifestEqual m n \<longleftrightarrow> m = n"
  by (auto simp: FileManifestEqual_def files_equal_iff)

section \<open>internal/staticruntime: the requested path\<close>

text \<open>\<open>url.PathUnescape\<close>: \<open>%XX\<close> is decoded, anything else malformed is an error.\<close>

definition unhex :: "char \<Rightarrow> nat option" where
  "unhex c =
     (let n = of_char c in
      if 48 \<le> n \<and> n \<le> 57 then Some (n - 48)
      else if 97 \<le> n \<and> n \<le> 102 then Some (n - 97 + 10)
      else if 65 \<le> n \<and> n \<le> 70 then Some (n - 65 + 10)
      else None)"

fun PathUnescape :: "string \<Rightarrow> string option" where
  "PathUnescape [] = Some []"
| "PathUnescape (c # s) =
     (if c \<noteq> CHR ''%'' then map_option ((#) c) (PathUnescape s)
      else case s of
          a # b # r \<Rightarrow>
            (case (unhex a, unhex b) of
               (Some x, Some y) \<Rightarrow> map_option ((#) (char_of (16 * x + y))) (PathUnescape r)
             | _ \<Rightarrow> None)
        | _ \<Rightarrow> None)"

definition safePath :: "(nat \<Rightarrow> nat) \<Rightarrow> string \<Rightarrow> string option" where
  "safePath U escaped =
     (let raw = (if escaped = [] then ''/'' else escaped) in
      case PathUnescape raw of
        None \<Rightarrow> None
      | Some decoded \<Rightarrow>
          if ContainsAny decoded [CHR 0x5C, CHR 0x00] then None
          else
            let clean = path_Clean (slash # decoded);
                clean' = (if clean = ''/'' then ''/index.html'' else clean);
                rel = TrimPrefix clean' ''/''
            in if ServableStaticAssetPath U rel then Some rel else None)"

text \<open>An element of a path that can be served: a proper name that is not hidden.\<close>

definition visible_elem :: "string \<Rightarrow> bool" where
  "visible_elem e \<longleftrightarrow> proper_elem e \<and> \<not> HasPrefix e ''.''"

lemma servable_elems:
  assumes "ServableStaticAssetPath U rel"
  shows "rel \<noteq> [] \<and> list_all visible_elem (Split slash rel)"
proof -
  have "visible_elem part" if part: "part \<in> set (Split slash rel)" for part
  proof -
    have "\<not> HasPrefix part ''.''" "part \<noteq> []"
      using assms part by (auto simp: ServableStaticAssetPath_def list_ex_iff split: if_splits)
    then show ?thesis
      using Split_no_sep [OF part] by (auto simp: visible_elem_def proper_elem_def HasPrefix_def)
  qed
  moreover have "rel \<noteq> []" using assms by (auto simp: ServableStaticAssetPath_def)
  ultimately show ?thesis by (simp add: list_all_iff)
qed

section \<open>internal/staticruntime: Serve\<close>

datatype fs_error = FsNotExist | FsUnsafe

record OpenFile =
  of_Name :: string
  of_Size :: int
  of_ModTime :: int

record HTTPRequest =
  req_Method :: string
  req_Host :: string
  req_Path :: string
  req_EscapedPath :: string
  req_RequestURI :: string
  req_Header :: "string \<Rightarrow> string"
  req_Cookie :: "string \<Rightarrow> string option"
  req_RemoteAddr :: string

record StaticResponse =
  sr_status :: nat
  sr_CacheControl :: string
  sr_RobotsTag :: string
  sr_ContentType :: string
  sr_File :: "OpenFile option"

definition NotFound :: StaticResponse where
  "NotFound = \<lparr>sr_status = 404, sr_CacheControl = [], sr_RobotsTag = [], sr_ContentType = [], sr_File = None\<rparr>"

definition verifyRelease :: "(string \<Rightarrow> fs_error + FileManifest) \<Rightarrow> StaticAccessContext \<Rightarrow> bool" where
  "verifyRelease inspect auth =
     (let evidence = app_ReleaseEvidence (static_app auth); root = app_ReleaseRoot (static_app auth) in
      if fm_Hash evidence = [] \<or> root = [] then False
      else case inspect root of Inl _ \<Rightarrow> False | Inr actual \<Rightarrow> FileManifestEqual actual evidence)"

text \<open>The environment of the handler: file system, content types and content serving.\<close>

record StaticEnv =
  se_inspect :: "string \<Rightarrow> fs_error + FileManifest"
  se_open :: "string \<Rightarrow> string \<Rightarrow> fs_error + OpenFile"
  se_etag :: "OpenFile \<Rightarrow> string"
  se_type :: "string \<Rightarrow> string"
  se_content :: "HTTPRequest \<Rightarrow> OpenFile \<Rightarrow> nat"

text \<open>
  The result is the response, whether it is a document candidate, and whether the
  \<open>beforeDocument\<close> callback ran.
\<close>

definition Serve ::
  "(nat \<Rightarrow> nat) \<Rightarrow> StaticEnv \<Rightarrow> StaticAccessContext \<Rightarrow> HTTPRequest \<Rightarrow> StaticResponse \<times> bool \<times> bool" where
  "Serve U env auth r =
     (if req_Method r \<noteq> ''GET'' \<and> req_Method r \<noteq> ''HEAD'' then (NotFound, False, False)
      else if \<not> verifyRelease (se_inspect env) auth then (NotFound, False, False)
      else case safePath U (req_EscapedPath r) of
          None \<Rightarrow> (NotFound, False, False)
        | Some rel \<Rightarrow>
            let root = app_ReleaseRoot (static_app auth);
                first = se_open env root rel;
                opened = (if first = Inl FsNotExist \<and> app_SPAFallback (static_app auth)
                             \<and> \<not> HasPrefix (req_Path r) ''/_tinker/''
                          then se_open env root ''index.html'' else first)
            in case opened of
                Inl _ \<Rightarrow> (NotFound, False, False)
              | Inr f \<Rightarrow>
                  let cache = (if static_Public auth then ''no-store'' else ''private, no-store'');
                      robots = (if static_Public auth \<and> static_Indexing auth then [] else ''noindex, nofollow'');
                      base = \<lparr>sr_status = 304, sr_CacheControl = cache, sr_RobotsTag = robots,
                              sr_ContentType = [], sr_File = None\<rparr>
                  in if req_Header r ''If-None-Match'' = se_etag env f then (base, False, False)
                     else
                       let ct = (if se_type env (of_Name f) = [] then ''application/octet-stream''
                                 else se_type env (of_Name f));
                           document = (req_Method r = ''GET'' \<and> req_Header r ''Range'' = []
                                       \<and> HasPrefix (ToLower U ct) ''text/html'')
                       in (base\<lparr>sr_status := se_content env r f, sr_ContentType := ct, sr_File := Some f\<rparr>,
                           document, document))"

text \<open>Everything a served file rests on.\<close>

lemma Serve_fileE:
  assumes "Serve U env auth r = (resp, doc, cb)" "sr_File resp = Some f"
  shows "verifyRelease (se_inspect env) auth \<and> (\<exists>rel. safePath U (req_EscapedPath r) = Some rel
      \<and> (se_open env (app_ReleaseRoot (static_app auth)) rel = Inr f
         \<or> app_SPAFallback (static_app auth)
            \<and> se_open env (app_ReleaseRoot (static_app auth)) ''index.html'' = Inr f))"
  using assms
  by (auto simp: Serve_def Let_def NotFound_def split: if_splits option.splits sum.splits)

lemma Serve_callback: "Serve U env auth r = (resp, doc, cb) \<Longrightarrow> cb = doc"
  by (auto simp: Serve_def Let_def split: if_splits option.splits sum.splits)

lemma Serve_document_file: "Serve U env auth r = (resp, True, cb) \<Longrightarrow> sr_File resp \<noteq> None"
  by (auto simp: Serve_def Let_def split: if_splits option.splits sum.splits)

end
