(* ===== verification/Go_Net.thy ===== *)
theory Go_Net
  imports Go_Strings
begin

text \<open>
  Host, port and number parsing of the Go standard library that the gateway uses:
  \<open>net.SplitHostPort\<close>, \<open>strconv.ParseUint\<close> in base ten, \<open>url.QueryEscape\<close> and
  \<open>strings.EqualFold\<close> restricted to the comparison with an ASCII constant, and the acceptance
  test of \<open>net.ParseIP\<close>.
\<close>

definition IndexByte :: "string \<Rightarrow> char \<Rightarrow> int" where
  "IndexByte s c = (if c \<in> set s then int (length (takeWhile (\<lambda>x. x \<noteq> c) s)) else -1)"

text \<open>\<open>None\<close> is the error of \<open>net.SplitHostPort\<close>.\<close>

definition SplitHostPort :: "string \<Rightarrow> (string \<times> string) option" where
  "SplitHostPort hp =
     (let i = LastIndexByte hp (CHR '':'') in
      if i < 0 then None
      else if hd hp = CHR 0x5B then
        (let e = IndexByte hp (CHR 0x5D) in
         if e < 0 \<or> e + 1 = int (length hp) \<or> e + 1 \<noteq> i then None
         else if CHR 0x5B \<in> set (drop 1 hp) \<or> CHR 0x5D \<in> set (drop (nat e + 1) hp) then None
         else Some (take (nat e - 1) (drop 1 hp), drop (nat i + 1) hp))
      else if CHR '':'' \<in> set (take (nat i) hp) then None
      else if CHR 0x5B \<in> set hp \<or> CHR 0x5D \<in> set hp then None
      else Some (take (nat i) hp, drop (nat i + 1) hp))"

fun digits_value :: "nat \<Rightarrow> string \<Rightarrow> nat" where
  "digits_value acc [] = acc"
| "digits_value acc (c # s) = digits_value (10 * acc + (of_char c - 48)) s"

text \<open>\<open>strconv.ParseUint(s, 10, bits)\<close>: \<open>None\<close> on a syntax or range error.\<close>

definition ParseUint :: "string \<Rightarrow> nat \<Rightarrow> nat option" where
  "ParseUint s bits =
     (if s = [] \<or> \<not> list_all is_digit s \<or> digits_value 0 s \<ge> 2 ^ bits then None
      else Some (digits_value 0 s))"

text \<open>\<open>strconv.FormatInt\<close> in base ten.\<close>

function format_nat :: "nat \<Rightarrow> string" where
  "format_nat n = (if n < 10 then [char_of (48 + n)] else format_nat (n div 10) @ [char_of (48 + n mod 10)])"
  by pat_completeness auto
termination
  by (relation "measure (\<lambda>n. n)") auto

declare format_nat.simps [simp del]

definition format_int :: "int \<Rightarrow> string" where
  "format_int i = (if i < 0 then CHR ''-'' # format_nat (nat (- i)) else format_nat (nat i))"

text \<open>Printing and reading decimal numbers are inverse to each other on canonical decimals.\<close>

lemma digits_value_append: "digits_value acc (s @ t) = digits_value (digits_value acc s) t"
  by (induction s arbitrary: acc) simp_all

lemma digit_char [simp]: "d < 10 \<Longrightarrow> is_digit (char_of (48 + d :: nat))"
  by (simp add: is_digit_def)

lemma format_nat_digits: "list_all is_digit (format_nat n)"
proof (induction n rule: format_nat.induct)
  case (1 n)
  then show ?case by (cases "n < 10") (subst format_nat.simps, simp)+
qed

lemma format_nat_ne [simp]: "format_nat n \<noteq> []"
  by (subst format_nat.simps) simp

lemma format_nat_small: "n < 10 \<Longrightarrow> format_nat n = [char_of (48 + n)]"
  by (subst format_nat.simps) simp

lemma char_of_48 [simp]: "char_of (48 :: nat) = CHR ''0''"
  by code_simp

lemma digits_format_nat [simp]: "digits_value 0 (format_nat n) = n"
proof (induction n rule: format_nat.induct)
  case (1 n)
  show ?case
  proof (cases "n < 10")
    case True
    then show ?thesis by (simp add: format_nat_small)
  next
    case False
    then have "digits_value 0 (format_nat n) = 10 * (n div 10) + n mod 10"
      using 1 by (subst format_nat.simps) (simp add: digits_value_append)
    then show ?thesis by simp
  qed
qed

definition canonical_decimal :: "string \<Rightarrow> bool" where
  "canonical_decimal s \<longleftrightarrow> s \<noteq> [] \<and> list_all is_digit s \<and> (length s > 1 \<longrightarrow> hd s \<noteq> CHR ''0'')"

lemma format_nat_head: "0 < n \<Longrightarrow> hd (format_nat n) \<noteq> CHR ''0''"
proof (induction n rule: format_nat.induct)
  case (1 n)
  show ?case
  proof (cases "n < 10")
    case True
    have "of_char (char_of (48 + n) :: char) \<noteq> (of_char (CHR ''0'') :: nat)"
      using True 1(2) by simp
    then show ?thesis using True by (subst format_nat.simps) (metis list.sel(1))
  next
    case False
    then have "hd (format_nat (n div 10)) \<noteq> CHR ''0''" using 1 by simp
    then show ?thesis using False by (subst format_nat.simps) simp
  qed
qed

lemma format_nat_canonical: "canonical_decimal (format_nat n)"
proof (cases "n = 0")
  case True
  then show ?thesis by (simp add: canonical_decimal_def format_nat_small is_digit_def)
next
  case False
  then show ?thesis by (simp add: canonical_decimal_def format_nat_digits format_nat_head)
qed

lemma digit_value: "is_digit c \<Longrightarrow> char_of (48 + (of_char c - 48 :: nat)) = c \<and> of_char c - 48 < (10 :: nat)"
  by (auto simp: is_digit_def)

lemma format_nat_value: "canonical_decimal s \<Longrightarrow> format_nat (digits_value 0 s) = s"
proof (induction s rule: rev_induct)
  case (snoc c s)
  from snoc.prems have c: "is_digit c" and ds: "list_all is_digit s" by (simp_all add: canonical_decimal_def)
  let ?d = "of_char c - 48 :: nat"
  have d: "char_of (48 + ?d) = c" "?d < 10" using digit_value [OF c] by simp_all
  show ?case
  proof (cases s)
    case Nil
    then show ?thesis using d by (simp add: format_nat_small)
  next
    case (Cons b s')
    with snoc.prems have "b \<noteq> CHR ''0''" by (simp add: canonical_decimal_def)
    with Cons ds have can: "canonical_decimal s" by (simp add: canonical_decimal_def)
    have "digits_value 0 s \<noteq> 0"
    proof
      assume "digits_value 0 s = 0"
      with snoc.IH [OF can] have "s = ''0''" by (simp add: format_nat_small)
      with Cons \<open>b \<noteq> CHR ''0''\<close> show False by simp
    qed
    then show ?thesis using d snoc.IH [OF can]
      by (subst format_nat.simps) (simp add: digits_value_append)
  qed
qed (simp add: canonical_decimal_def)

lemma ParseUint_format: "n < 2 ^ bits \<Longrightarrow> ParseUint (format_nat n) bits = Some n"
  by (simp add: ParseUint_def format_nat_digits)

lemma ParseUint_canonical: "canonical_decimal s \<Longrightarrow> ParseUint s bits = Some n \<longleftrightarrow> s = format_nat n \<and> n < 2 ^ bits"
  by (metis ParseUint_def ParseUint_format canonical_decimal_def digits_format_nat format_nat_value not_le
      option.distinct(1) option.inject)

definition upper_hex :: "nat \<Rightarrow> char" where
  "upper_hex n = ''0123456789ABCDEF'' ! (n mod 16)"

definition query_unreserved :: "char \<Rightarrow> bool" where
  "query_unreserved c \<longleftrightarrow> is_lower c \<or> is_upper c \<or> is_digit c
     \<or> c = CHR ''-'' \<or> c = CHR ''_'' \<or> c = CHR ''.'' \<or> c = CHR ''~''"

fun QueryEscape :: "string \<Rightarrow> string" where
  "QueryEscape [] = []"
| "QueryEscape (c # s) =
     (if query_unreserved c then [c]
      else if c = CHR '' '' then ''+''
      else [CHR ''%'', upper_hex (of_char c div 16), upper_hex (of_char c)]) @ QueryEscape s"

text \<open>
  \<open>strings.EqualFold(s, t)\<close> for an ASCII \<open>t\<close>: ASCII letters fold, and the two non-ASCII runes
  that fold to ASCII letters (U+017F to \<open>s\<close>, U+212A to \<open>k\<close>) are decoded from \<open>s\<close>.
\<close>

definition fold_rune :: "nat \<Rightarrow> nat" where
  "fold_rune r = (if r = 0x17F then 115 else if r = 0x212A then 107 else lower_nat r)"

definition EqualFoldASCII :: "string \<Rightarrow> string \<Rightarrow> bool" where
  "EqualFoldASCII s t \<longleftrightarrow> ValidString s \<and> map fold_rune (runes s) = map (lower_nat \<circ> of_char) t"

lemma SplitHostPort_no_colon: "CHR '':'' \<notin> set s \<Longrightarrow> SplitHostPort s = None"
  by (simp add: SplitHostPort_def LastIndexByte_def)

lemma SplitHostPort_simple:
  assumes "CHR '':'' \<notin> set h" "CHR '':'' \<notin> set p" "CHR 0x5B \<notin> set (h @ p)" "CHR 0x5D \<notin> set (h @ p)"
  shows "SplitHostPort (h @ CHR '':'' # p) = Some (h, p)"
proof -
  have "hd (h @ CHR '':'' # p) \<noteq> CHR 0x5B" using assms(3) by (cases h) auto
  then show ?thesis
    using assms by (simp add: SplitHostPort_def LastIndexByte_split Let_def)
qed

section \<open>net.ParseIP\<close>

text \<open>One decimal field: one to three digits, no leading zero, at most 255.\<close>

definition ipv4_field :: "string \<Rightarrow> bool" where
  "ipv4_field f \<longleftrightarrow> f \<noteq> [] \<and> list_all is_digit f \<and> digits_value 0 f \<le> 255
     \<and> (length f > 1 \<longrightarrow> hd f \<noteq> CHR ''0'')"

definition parseIPv4 :: "string \<Rightarrow> bool" where
  "parseIPv4 s \<longleftrightarrow> (let fs = Split (CHR ''.'') s in length fs = 4 \<and> list_all ipv4_field fs)"

definition hex_any :: "char \<Rightarrow> bool" where
  "hex_any c \<longleftrightarrow> is_digit c \<or> (97 \<le> (of_char c :: nat) \<and> (of_char c :: nat) \<le> 102)
     \<or> (65 \<le> (of_char c :: nat) \<and> (of_char c :: nat) \<le> 70)"

text \<open>The loop of \<open>netip.parseIPv6\<close>: \<open>i\<close> is the number of bytes filled, \<open>ell\<close> whether a double colon
  was seen. A field has one to four digits, so its value fits in 16 bits.\<close>

function ipv6_fields :: "nat \<Rightarrow> bool \<Rightarrow> string \<Rightarrow> bool" where
  "ipv6_fields i ell s =
     (if 16 \<le> i then s = [] \<and> \<not> ell
      else
        let f = takeWhile hex_any s; r = dropWhile hex_any s in
        if f = [] \<or> 4 < length f then False
        else if r \<noteq> [] \<and> hd r = CHR ''.'' then
          (\<not> ell \<longrightarrow> i = 12) \<and> i + 4 \<le> 16 \<and> parseIPv4 s \<and> (if i + 4 < 16 then ell else \<not> ell)
        else if r = [] then (if i + 2 < 16 then ell else \<not> ell)
        else if hd r \<noteq> CHR '':'' \<or> length r = 1 then False
        else if r ! 1 = CHR '':'' then
          if ell then False
          else if length r = 2 then i + 2 < 16
          else ipv6_fields (i + 2) True (drop 2 r)
        else ipv6_fields (i + 2) ell (drop 1 r))"
  by pat_completeness auto
termination by (relation "measure (\<lambda>(i, _, _). 16 - i)") auto

declare ipv6_fields.simps [simp del]

definition parseIPv6 :: "string \<Rightarrow> bool" where
  "parseIPv6 s \<longleftrightarrow>
     (if HasPrefix s ''::'' then drop 2 s = [] \<or> ipv6_fields 0 True (drop 2 s)
      else ipv6_fields 0 False s)"

text \<open>\<open>net.ParseIP(s) != nil\<close>: the first separator decides the form; a zone is refused.\<close>

definition ParseIP :: "string \<Rightarrow> bool" where
  "ParseIP s \<longleftrightarrow>
     (case dropWhile (\<lambda>c. c \<noteq> CHR ''.'' \<and> c \<noteq> CHR '':'' \<and> c \<noteq> CHR ''%'') s of
        [] \<Rightarrow> False
      | c # _ \<Rightarrow> if c = CHR ''.'' then parseIPv4 s
                else if c = CHR '':'' then CHR ''%'' \<notin> set s \<and> parseIPv6 s
                else False)"

lemma ParseIP_samples:
  "ParseIP ''192.0.2.1'' \<and> \<not> ParseIP ''192.0.2.01'' \<and> \<not> ParseIP ''192.0.2'' \<and> ParseIP ''::1''
   \<and> ParseIP ''2001:db8::ff00:42:8329'' \<and> ParseIP ''::ffff:192.0.2.1'' \<and> \<not> ParseIP ''1::2::3''
   \<and> \<not> ParseIP ''fe80::1%eth0'' \<and> \<not> ParseIP ''1:2:3:4:5:6:7'' \<and> ParseIP ''1:2:3:4:5:6:7:8''
   \<and> ParseIP ''1:2:3:4:5:6:7::'' \<and> \<not> ParseIP ''1:2:3:4:5:6:7:8::'' \<and> \<not> ParseIP ''12345::''"
  by code_simp

end
