(* ===== verification/Analytics_Recorder.thy ===== *)
theory Analytics_Recorder
  imports Go_Strings
begin

text \<open>
  The local insights recorder (\<open>internal/analytics\<close>): a bounded queue that a gateway request
  offers events to without waiting, and the worker that takes them out. The channel is a list,
  first event first; \<open>rec_cap\<close> is its capacity. The marker digest (an HMAC) is a parameter.
\<close>

record Event =
  ev_AppID :: string
  ev_Marker :: string
  ev_HasMarker :: bool
  ev_Occurred :: time

record Recorder =
  rec_hasSink :: bool
  rec_queue :: "Event list"
  rec_cap :: nat
  rec_running :: bool
  rec_enabled :: bool
  rec_started :: bool

definition DefaultQueueSize :: int where "DefaultQueueSize = 256"

definition NewRecorder :: "bool \<Rightarrow> int \<Rightarrow> Recorder" where
  "NewRecorder sink capacity =
     \<lparr>rec_hasSink = sink, rec_queue = [],
      rec_cap = nat (if capacity < 1 then DefaultQueueSize else capacity),
      rec_running = False, rec_enabled = True, rec_started = False\<rparr>"

definition StartRecorder :: "Recorder \<Rightarrow> Recorder" where
  "StartRecorder r =
     (if \<not> rec_hasSink r \<or> rec_started r then r
      else r\<lparr>rec_started := True, rec_running := True\<rparr>)"

text \<open>One turn of the worker: an event is taken and handed to the sink, or the context is done.\<close>

definition worker_take :: "Recorder \<Rightarrow> Recorder \<times> Event option" where
  "worker_take r =
     (if rec_running r then
        (case rec_queue r of [] \<Rightarrow> (r, None) | e # es \<Rightarrow> (r\<lparr>rec_queue := es\<rparr>, Some e))
      else (r, None))"

definition worker_done :: "Recorder \<Rightarrow> Recorder" where
  "worker_done r = r\<lparr>rec_running := False\<rparr>"

definition SetEnabled :: "Recorder \<Rightarrow> bool \<Rightarrow> Recorder" where
  "SetEnabled r enabled = r\<lparr>rec_enabled := enabled\<rparr>"

definition Available :: "Recorder \<Rightarrow> bool" where
  "Available r \<longleftrightarrow> rec_running r \<and> rec_enabled r"

definition Offer :: "Recorder \<Rightarrow> Event \<Rightarrow> Recorder \<times> bool" where
  "Offer r event =
     (if \<not> Available r \<or> ev_AppID event = [] \<or> ev_Occurred event = zero_time then (r, False)
      else if length (rec_queue r) < rec_cap r
      then (r\<lparr>rec_queue := rec_queue r @ [event]\<rparr>, True)
      else (r, False))"

definition recorder_inv :: "Recorder \<Rightarrow> bool" where
  "recorder_inv r \<longleftrightarrow> length (rec_queue r) \<le> rec_cap r
     \<and> (\<forall>e \<in> set (rec_queue r). ev_AppID e \<noteq> [] \<and> ev_Occurred e \<noteq> zero_time)"

inductive recorder_step :: "Recorder \<Rightarrow> Recorder \<Rightarrow> bool" where
  start: "recorder_step r (StartRecorder r)"
| offer: "recorder_step r (fst (Offer r e))"
| take: "recorder_step r (fst (worker_take r))"
| stop: "recorder_step r (worker_done r)"
| enable: "recorder_step r (SetEnabled r b)"

lemma recorder_step_inv: "recorder_step r r' \<Longrightarrow> recorder_inv r \<Longrightarrow> recorder_inv r'"
  by (induction rule: recorder_step.induct)
    (auto simp: recorder_inv_def StartRecorder_def Offer_def worker_take_def worker_done_def
      SetEnabled_def split: list.splits)

lemma recorder_new_inv: "recorder_inv (NewRecorder sink c)"
  by (simp add: recorder_inv_def NewRecorder_def)

end
