(* ===== verification/Gateway_Model.thy ===== *)
theory Gateway_Model
  imports Static_Runtime Go_Net Analytics_Recorder
begin

text \<open>
  The gateway (\<open>internal/gateway/gateway.go\<close>), the one entry point of every app request: host
  classification, route classification and \<open>ServeHTTP\<close>, and the host names of the
  configuration (\<open>internal/config\<close>).

  \<open>ServeHTTP\<close> returns what it does with the request as a value of \<open>outcome\<close>: a denial, the
  hand-over to the platform handler, to the pre-auth dispatcher, to the static runtime (with
  its response and the insight event offered) or to the protected dispatcher. The policy store
  is read at two moments of a request, so the model takes two stores: \<open>gw_policies1\<close> for
  \<open>isEffectivePublic\<close> and \<open>gw_policies2\<close> for the authorizer, which may differ when a policy or
  gate changes in between.
\<close>

section \<open>Host names of the configuration\<close>

definition normalizeDomain :: "(nat \<Rightarrow> nat) \<Rightarrow> string \<Rightarrow> string" where
  "normalizeDomain U raw = TrimPrefix (TrimSuffix (ToLower U (TrimSpace raw)) ''.'') ''.''"

definition PlatformHost :: "(nat \<Rightarrow> nat) \<Rightarrow> string \<Rightarrow> string" where
  "PlatformHost U cfgDomain =
     (let domain = normalizeDomain U cfgDomain in if domain = [] then [] else ''admin.'' @ domain)"

definition AppSuffix :: "(nat \<Rightarrow> nat) \<Rightarrow> string \<Rightarrow> string" where
  "AppSuffix U cfgDomain = normalizeDomain U cfgDomain"

section \<open>Host classification\<close>

datatype HostKind = HUnknown | HPlatform | HApp

record Host =
  host_Kind :: HostKind
  host_Slug :: string

text \<open>\<open>None\<close> stands for the result \<open>Host{}, false\<close>.\<close>

definition ClassifyName :: "(nat \<Rightarrow> nat) \<Rightarrow> string \<Rightarrow> string \<Rightarrow> Host option" where
  "ClassifyName U raw cfgDomain =
     (let h = TrimSuffix (ToLower U raw) ''.'' in
      if h = [] then None
      else if h = PlatformHost U cfgDomain then Some \<lparr>host_Kind = HPlatform, host_Slug = []\<rparr>
      else
        let suffix = CHR ''.'' # AppSuffix U cfgDomain in
        if \<not> HasSuffix h suffix then Some \<lparr>host_Kind = HUnknown, host_Slug = []\<rparr>
        else
          let slug = TrimSuffix h suffix in
          if \<not> Valid U slug then None else Some \<lparr>host_Kind = HApp, host_Slug = slug\<rparr>)"

definition ClassifyHost :: "(nat \<Rightarrow> nat) \<Rightarrow> string \<Rightarrow> string \<Rightarrow> Host option" where
  "ClassifyHost U raw cfgDomain =
     (case SplitHostPort raw of
        Some (host, port) \<Rightarrow>
          (case ParseUint port 16 of
             None \<Rightarrow> None
           | Some n \<Rightarrow> if port = [] \<or> n = 0 then None else ClassifyName U host cfgDomain)
      | None \<Rightarrow> if Contains raw '':'' then None else ClassifyName U raw cfgDomain)"

section \<open>Route classification\<close>

datatype Endpoint =
    Reserved | AppLogin | AppLogout | AppIdentityCallback | CurrentUser | AppInfo | Capabilities
  | KV | Collections | Blobs | LLMChat | Live | ProtectedStatic

definition ClassifyRoute :: "string \<Rightarrow> string \<Rightarrow> Endpoint" where
  "ClassifyRoute method p =
     (if HasPrefix p ''/_tinker/'' then
        if method = ''GET'' \<and> p = ''/_tinker/auth/login'' then AppLogin
        else if method = ''POST'' \<and> p = ''/_tinker/auth/logout'' then AppLogout
        else if method = ''GET'' \<and> p = ''/_tinker/auth/callback'' then AppIdentityCallback
        else if method = ''GET'' \<and> p = ''/_tinker/api/v1/me'' then CurrentUser
        else if method = ''GET'' \<and> p = ''/_tinker/api/v1/app'' then AppInfo
        else if method = ''GET'' \<and> p = ''/_tinker/api/v1/capabilities'' then Capabilities
        else if HasPrefix p ''/_tinker/api/v1/kv'' then KV
        else if p = ''/_tinker/api/v1/db'' \<or> HasPrefix p ''/_tinker/api/v1/db/'' then Collections
        else if p = ''/_tinker/api/v1/blobs'' \<or> HasPrefix p ''/_tinker/api/v1/blobs/'' then Blobs
        else if method = ''POST'' \<and> p = ''/_tinker/api/v1/llm/chat'' then LLMChat
        else if method = ''GET'' \<and> p = ''/_tinker/ws/v1'' then Live
        else Reserved
      else ProtectedStatic)"

datatype Surface = Sdeny | Spreauth | Sprotected

fun Registry :: "Endpoint \<Rightarrow> Surface" where
  "Registry Reserved = Sdeny"
| "Registry AppLogin = Spreauth"
| "Registry AppLogout = Spreauth"
| "Registry AppIdentityCallback = Spreauth"
| "Registry CurrentUser = Sprotected"
| "Registry AppInfo = Sprotected"
| "Registry Capabilities = Sprotected"
| "Registry KV = Sprotected"
| "Registry Collections = Sprotected"
| "Registry Blobs = Sprotected"
| "Registry LLMChat = Sprotected"
| "Registry Live = Sprotected"
| "Registry ProtectedStatic = Sprotected"

section \<open>Document navigation and return paths\<close>

definition acceptsHTML :: "string \<Rightarrow> bool" where
  "acceptsHTML raw \<longleftrightarrow>
     list_ex (\<lambda>value. EqualFoldASCII (TrimSpace (hd (Split (CHR '';'') value))) ''text/html'')
       (Split (CHR '','') raw)"

definition IsDocumentNavigation :: "(nat \<Rightarrow> nat) \<Rightarrow> HTTPRequest \<Rightarrow> bool" where
  "IsDocumentNavigation U r \<longleftrightarrow>
     (if req_Method r \<noteq> ''GET'' \<or> \<not> acceptsHTML (req_Header r ''Accept'') then False
      else
        let dest = ToLower U (TrimSpace (req_Header r ''Sec-Fetch-Dest''));
            mode = ToLower U (TrimSpace (req_Header r ''Sec-Fetch-Mode''))
        in dest = ''document'' \<or> (dest = [] \<and> mode = ''navigate''))"

definition hasConditionalRequest :: "HTTPRequest \<Rightarrow> bool" where
  "hasConditionalRequest r \<longleftrightarrow>
     list_ex (\<lambda>h. req_Header r h \<noteq> [])
       [''If-Match'', ''If-Modified-Since'', ''If-None-Match'', ''If-Unmodified-Since'']"

text \<open>What the gateway reads of a parsed URL; \<open>url.Parse\<close> is a parameter.\<close>

record URL =
  url_IsAbs :: bool
  url_Host :: string
  url_Path :: string
  url_RequestURI :: string

definition ValidReturnPath :: "(string \<Rightarrow> URL option) \<Rightarrow> string \<Rightarrow> string option" where
  "ValidReturnPath url_parse raw =
     (if raw = [] then Some ''/''
      else case url_parse raw of
          None \<Rightarrow> None
        | Some u \<Rightarrow>
            if url_IsAbs u \<or> url_Host u \<noteq> [] \<or> HasPrefix raw ''//'' \<or> \<not> HasPrefix (url_Path u) ''/''
               \<or> ContainsAny raw [CHR 0x5C, CHR 0x0D, CHR 0x0A, CHR 0x00]
               \<or> Contains (url_Path u) [CHR 0x5C]
            then None else Some (url_RequestURI u))"

section \<open>ServeHTTP\<close>

record Gateway =
  gw_Domain :: string
  gw_SessionCookie :: string
  gw_Apps :: "(string \<Rightarrow> app_error + App) option"
  gw_Sessions :: "validate_fun option"
  gw_Policies1 :: "PolicyStore option"
  gw_Policies2 :: "PolicyStore option"
  gw_hasProtected :: bool
  gw_hasPreAuth :: bool
  gw_hasPlatform :: bool
  gw_Insights :: "Recorder option"
  gw_InsightsKey :: string
  gw_markerOK :: bool
  gw_now :: time
  gw_static :: StaticEnv
  gw_parse :: "string \<Rightarrow> URL option"

datatype outcome =
    Denied nat
  | ToPlatform
  | ToPreAuth App Endpoint
  | AcceptedPreAuth
  | ServedStatic StaticAccessContext StaticResponse "Event option" bool
  | RedirectLogin string
  | ToProtected AuthorizationContext Endpoint

definition isEffectivePublic :: "PolicyStore option \<Rightarrow> App \<Rightarrow> bool" where
  "isEffectivePublic pol app =
     (case pol of None \<Rightarrow> False
      | Some ps \<Rightarrow>
          if app_DeploymentID app = [] \<or> app_KVEnabled app \<or> app_BlobsEnabled app
             \<or> app_RealtimeEnabled app then False
          else case ps_Current ps (app_ID app) of
              Inl _ \<Rightarrow> False
            | Inr p \<Rightarrow>
                if \<not> pol_Valid p \<or> pol_Mode p \<noteq> ''public'' then False
                else gate_open ps \<noteq> None)"

text \<open>
  \<open>prepareInsight\<close>: the event to offer, when insights are available, and whether a fresh marker
  cookie is pending. \<open>marker\<close> is the digest of a valid marker cookie of the request
  (\<open>analytics.ReadMarker\<close> and \<open>analytics.Digest\<close>); \<open>gw_markerOK\<close> says whether
  \<open>analytics.NewMarkerCookie\<close> succeeds.
\<close>

definition prepareInsight :: "Gateway \<Rightarrow> (HTTPRequest \<Rightarrow> string \<Rightarrow> string option) \<Rightarrow>
    StaticAccessContext \<Rightarrow> HTTPRequest \<Rightarrow> (Event \<times> bool) option" where
  "prepareInsight g marker auth r =
     (case gw_Insights g of None \<Rightarrow> None
      | Some rc \<Rightarrow>
          if gw_InsightsKey g = [] \<or> \<not> Available rc then None
          else
            let appID = app_ID (static_app auth);
                event = \<lparr>ev_AppID = appID, ev_Marker = [], ev_HasMarker = False, ev_Occurred = gw_now g\<rparr>
            in Some (case marker r appID of
                    Some d \<Rightarrow> (event\<lparr>ev_Marker := d, ev_HasMarker := True\<rparr>, False)
                  | None \<Rightarrow> (event, \<not> hasConditionalRequest r \<and> gw_markerOK g)))"

definition denyOrRedirect :: "(nat \<Rightarrow> nat) \<Rightarrow> Gateway \<Rightarrow> HTTPRequest \<Rightarrow> outcome" where
  "denyOrRedirect U g r =
     (if IsDocumentNavigation U r then
        (case ValidReturnPath (gw_parse g) (req_RequestURI r) of
           Some ret \<Rightarrow> RedirectLogin (''/_tinker/auth/login?return='' @ QueryEscape ret)
         | None \<Rightarrow> Denied 401)
      else Denied 401)"

definition serveStatic ::
  "(nat \<Rightarrow> nat) \<Rightarrow> Gateway \<Rightarrow> (HTTPRequest \<Rightarrow> string \<Rightarrow> string option) \<Rightarrow> App \<Rightarrow> string \<Rightarrow> string
    \<Rightarrow> HTTPRequest \<Rightarrow> outcome" where
  "serveStatic U g marker app token rid r =
     (case AuthorizeStatic (gw_Sessions g) (gw_Policies2 g) (gw_now g) app token rid of
        Inr staticAuth \<Rightarrow>
          (case Serve U (gw_static g) staticAuth r of (resp, document, called) \<Rightarrow>
             let prepared = (if IsDocumentNavigation U r \<and> called
                             then prepareInsight g marker staticAuth r else None)
             in ServedStatic staticAuth resp
                  (if document \<and> IsDocumentNavigation U r \<and> sr_status resp = 200
                   then map_option fst prepared else None)
                  (case prepared of None \<Rightarrow> False | Some (e, pending) \<Rightarrow> pending \<and> sr_status resp = 200))
      | Inl _ \<Rightarrow> denyOrRedirect U g r)"

definition serveApp ::
  "(nat \<Rightarrow> nat) \<Rightarrow> Gateway \<Rightarrow> (HTTPRequest \<Rightarrow> string \<Rightarrow> string option) \<Rightarrow> App \<Rightarrow> string
    \<Rightarrow> HTTPRequest \<Rightarrow> outcome" where
  "serveApp U g marker app rid r =
     (let endpoint = ClassifyRoute (req_Method r) (req_Path r) in
      if endpoint \<noteq> ProtectedStatic \<and> isEffectivePublic (gw_Policies1 g) app then Denied 404
      else if endpoint \<in> {AppLogin, AppLogout, AppIdentityCallback} then
        (if gw_hasPreAuth g then ToPreAuth app endpoint else AcceptedPreAuth)
      else if endpoint = Reserved then Denied 404
      else
        let token = (case req_Cookie r (gw_SessionCookie g) of None \<Rightarrow> [] | Some c \<Rightarrow> c) in
        if endpoint = ProtectedStatic then serveStatic U g marker app token rid r
        else case Authorize (gw_Sessions g) (gw_Policies2 g) (gw_now g) app token rid of
            Inl _ \<Rightarrow> (if endpoint = ProtectedStatic then denyOrRedirect U g r else Denied 401)
          | Inr auth \<Rightarrow> (if gw_hasProtected g then ToProtected auth endpoint else Denied 404))"

definition ServeHTTP ::
  "(nat \<Rightarrow> nat) \<Rightarrow> Gateway \<Rightarrow> (HTTPRequest \<Rightarrow> string \<Rightarrow> string option) \<Rightarrow> string
    \<Rightarrow> HTTPRequest \<Rightarrow> outcome" where
  "ServeHTTP U g marker rid r =
     (case ClassifyHost U (req_Host r) (gw_Domain g) of
        None \<Rightarrow> Denied 404
      | Some host \<Rightarrow>
          if host_Kind host = HUnknown then Denied 404
          else if host_Kind host = HPlatform then
            (if gw_hasPlatform g then ToPlatform else Denied 404)
          else case gw_Apps g of
              None \<Rightarrow> Denied 404
            | Some resolve \<Rightarrow>
                (case resolve (host_Slug host) of
                   Inl _ \<Rightarrow> Denied 404
                 | Inr app \<Rightarrow> serveApp U g marker app rid r))"

text \<open>The insight event a request leaves in the recorder.\<close>

definition offered :: "Recorder \<Rightarrow> outcome \<Rightarrow> Recorder" where
  "offered rc out =
     (case out of ServedStatic c resp (Some e) cookie \<Rightarrow> fst (Offer rc e) | _ \<Rightarrow> rc)"

section \<open>Domain of the configuration\<close>

text \<open>\<open>config.validDomain\<close>.\<close>

definition domain_label :: "string \<Rightarrow> bool" where
  "domain_label l \<longleftrightarrow>
     (if l = [] \<or> length l > 63 \<or> hd l = CHR ''-'' \<or> last l = CHR ''-'' then False
      else list_all label_char l)"

definition config_validDomain :: "string \<Rightarrow> bool" where
  "config_validDomain domain =
     (if domain = [] \<or> length domain > 253 \<or> ParseIP domain \<or> \<not> Contains domain ''.''
         \<or> ContainsAny domain (''/@:* '' @ [CHR 0x09, CHR 0x0D, CHR 0x0A])
      then False
      else list_all domain_label (Split (CHR ''.'') domain))"

section \<open>Facts about host classification\<close>

definition host_char :: "char \<Rightarrow> bool" where
  "host_char c \<longleftrightarrow> label_char c \<or> c = CHR ''.''"

lemma host_char_ascii: "host_char c \<Longrightarrow> (of_char c :: nat) < 128 \<and> \<not> is_upper c"
  using label_char_ascii [of c] by (auto simp: host_char_def is_upper_def)

lemma host_char_lower: "list_all host_char s \<Longrightarrow> ToLower U s = s"
  by (rule ToLower_ascii_id) (auto simp: list_all_iff host_char_ascii)

lemma host_char_no_colon: "list_all host_char s \<Longrightarrow> CHR '':'' \<notin> set s"
  by (auto simp: list_all_iff host_char_def label_char_def char_class_defs)

lemma Join_chars: "\<forall>w \<in> set ws. list_all P w \<Longrightarrow> P d \<Longrightarrow> list_all P (Join d ws)"
  by (induction d ws rule: Join.induct) auto

lemma domain_host_chars:
  assumes "config_validDomain d"
  shows "list_all host_char d"
proof -
  have "list_all host_char w" if "w \<in> set (Split (CHR ''.'') d)" for w
    using assms that
    by (auto simp: config_validDomain_def domain_label_def list_all_iff host_char_def split: if_splits)
  then have "list_all host_char (Join (CHR ''.'') (Split (CHR ''.'') d))"
    by (intro Join_chars) (auto simp: host_char_def)
  then show ?thesis by simp
qed

lemma Split_last_sep: "Split c (s @ [c]) = Split c s @ [[]]"
  by (induction s) (auto split: list.splits)

lemma domain_last:
  assumes "config_validDomain d"
  shows "d \<noteq> [] \<and> last d \<noteq> CHR ''.''"
proof -
  have ne: "d \<noteq> []" using assms by (auto simp: config_validDomain_def)
  have "last (Split (CHR ''.'') d) \<in> set (Split (CHR ''.'') d)" by simp
  then have "last (Split (CHR ''.'') d) \<noteq> []"
    using assms by (auto simp: config_validDomain_def domain_label_def list_all_iff split: if_splits)
  then have "last d \<noteq> CHR ''.''"
    using ne Split_last_sep by (metis append_butlast_last_id last_snoc)
  with ne show ?thesis by simp
qed

lemma TrimSuffix_no: "s \<noteq> [] \<Longrightarrow> last s \<noteq> c \<Longrightarrow> TrimSuffix s [c] = s"
  by (auto simp: TrimSuffix_def HasSuffix_iff)

lemma slug_host_chars: "validCanonicalLabel s \<Longrightarrow> list_all host_char s"
  by (auto simp: validCanonicalLabel_def list_all_iff host_char_def split: if_splits)

lemma slug_no_dot: "validCanonicalLabel s \<Longrightarrow> CHR ''.'' \<notin> set s"
  by (auto simp: validCanonicalLabel_def list_all_iff label_char_def char_class_defs split: if_splits)

lemma ClassifyName_app:
  assumes "Valid U slug" "normalizeDomain U cfg = d" "config_validDomain d"
  shows "ClassifyName U (slug @ CHR ''.'' # d) cfg = Some \<lparr>host_Kind = HApp, host_Slug = slug\<rparr>"
proof -
  let ?h = "slug @ CHR ''.'' # d"
  have slug: "validCanonicalLabel slug" "slug \<notin> set reserved" using assms(1) by (auto simp: Valid_iff)
  have d: "d \<noteq> []" "last d \<noteq> CHR ''.''" using domain_last [OF assms(3)] by auto
  have "list_all host_char ?h"
    using slug_host_chars [OF slug(1)] domain_host_chars [OF assms(3)] by (simp add: host_char_def)
  then have h: "TrimSuffix (ToLower U ?h) ''.'' = ?h"
    using d by (simp add: host_char_lower TrimSuffix_no)
  have "slug \<noteq> ''admin''" using slug(2) by (auto simp: reserved_def)
  then have "?h \<noteq> ''admin.'' @ d" by auto
  then have "?h \<noteq> PlatformHost U cfg"
    using assms(2) d by (simp add: PlatformHost_def Let_def)
  then show ?thesis
    using h assms(1,2) by (simp add: ClassifyName_def Let_def AppSuffix_def)
qed

lemma ParseUint_digits: "ParseUint s n = Some v \<Longrightarrow> list_all is_digit s \<and> s \<noteq> []"
  by (auto simp: ParseUint_def split: if_splits)

lemma digit_not_special: "list_all is_digit s \<Longrightarrow>
    CHR '':'' \<notin> set s \<and> CHR 0x5B \<notin> set s \<and> CHR 0x5D \<notin> set s"
  by (auto simp: list_all_iff is_digit_def)

lemma host_char_no_bracket: "list_all host_char s \<Longrightarrow> CHR 0x5B \<notin> set s \<and> CHR 0x5D \<notin> set s"
  by (auto simp: list_all_iff host_char_def label_char_def char_class_defs)

lemma ClassifyName_HApp:
  assumes "ClassifyName U raw cfg = Some h" "host_Kind h = HApp"
  shows "Valid U (host_Slug h) \<and>
    TrimSuffix (ToLower U raw) ''.'' = host_Slug h @ CHR ''.'' # AppSuffix U cfg"
  using assms
  by (auto simp: ClassifyName_def Let_def HasSuffix_iff split: if_splits)

lemma ClassifyHost_HApp:
  assumes "ClassifyHost U raw cfg = Some h" "host_Kind h = HApp"
  shows "Valid U (host_Slug h)"
  using assms ClassifyName_HApp
  by (fastforce simp: ClassifyHost_def split: option.splits if_splits prod.splits)

section \<open>Facts about ServeHTTP\<close>

lemma ServeHTTP_appE:
  assumes "ServeHTTP U g marker rid r = out" "\<forall>n. out \<noteq> Denied n" "out \<noteq> ToPlatform"
  obtains slug resolve app where
    "ClassifyHost U (req_Host r) (gw_Domain g) = Some \<lparr>host_Kind = HApp, host_Slug = slug\<rparr>"
    "gw_Apps g = Some resolve" "resolve slug = Inr app" "out = serveApp U g marker app rid r"
proof -
  obtain h where h: "ClassifyHost U (req_Host r) (gw_Domain g) = Some h" "host_Kind h = HApp"
    using assms by (cases "host_Kind (the (ClassifyHost U (req_Host r) (gw_Domain g)))")
      (auto simp: ServeHTTP_def split: option.splits if_splits)
  moreover obtain resolve app where "gw_Apps g = Some resolve" "resolve (host_Slug h) = Inr app"
    "out = serveApp U g marker app rid r"
    using assms h by (auto simp: ServeHTTP_def split: option.splits sum.splits)
  moreover have "h = \<lparr>host_Kind = HApp, host_Slug = host_Slug h\<rparr>" using h(2) by simp
  ultimately show thesis by (metis that)
qed

definition session_token :: "Gateway \<Rightarrow> HTTPRequest \<Rightarrow> string" where
  "session_token g r = (case req_Cookie r (gw_SessionCookie g) of None \<Rightarrow> [] | Some c \<Rightarrow> c)"

lemma denyOrRedirect_cases:
  "denyOrRedirect U g r = Denied 401 \<or> (\<exists>p. denyOrRedirect U g r = RedirectLogin p)"
  by (auto simp: denyOrRedirect_def split: option.splits)

lemma serveStatic_cases:
  "(\<exists>c resp e k. AuthorizeStatic (gw_Sessions g) (gw_Policies2 g) (gw_now g) app token rid = Inr c
      \<and> Serve U (gw_static g) c r = (resp, k) \<and>
      (\<exists>ck. serveStatic U g marker app token rid r = ServedStatic c resp e ck))
   \<or> serveStatic U g marker app token rid r = denyOrRedirect U g r"
  by (auto simp: serveStatic_def Let_def split: sum.splits prod.splits)

lemma serveApp_protectedE:
  assumes "serveApp U g marker app rid r = ToProtected c ep"
  shows "ep = ClassifyRoute (req_Method r) (req_Path r) \<and> ep \<noteq> ProtectedStatic \<and> Registry ep = Sprotected
    \<and> \<not> isEffectivePublic (gw_Policies1 g) app
    \<and> Authorize (gw_Sessions g) (gw_Policies2 g) (gw_now g) app (session_token g r) rid = Inr c"
  using assms serveStatic_cases [of g app "session_token g r" rid U r marker]
    denyOrRedirect_cases [of U g r]
  by (cases "ClassifyRoute (req_Method r) (req_Path r)")
    (auto simp: serveApp_def Let_def session_token_def split: if_splits sum.splits)

lemma serveApp_staticE:
  assumes "serveApp U g marker app rid r = ServedStatic c resp e ck"
  shows "ClassifyRoute (req_Method r) (req_Path r) = ProtectedStatic
    \<and> AuthorizeStatic (gw_Sessions g) (gw_Policies2 g) (gw_now g) app (session_token g r) rid = Inr c
    \<and> (\<exists>k. Serve U (gw_static g) c r = (resp, k))"
  using assms serveStatic_cases [of g app "session_token g r" rid U r marker]
    denyOrRedirect_cases [of U g r]
  by (cases "ClassifyRoute (req_Method r) (req_Path r)")
    (auto simp: serveApp_def Let_def session_token_def split: if_splits sum.splits)

lemma serveApp_preauthE:
  assumes "serveApp U g marker app rid r = ToPreAuth a ep \<or> serveApp U g marker app rid r = AcceptedPreAuth"
  shows "Registry (ClassifyRoute (req_Method r) (req_Path r)) = Spreauth
    \<and> \<not> isEffectivePublic (gw_Policies1 g) app"
  using assms serveStatic_cases [of g app "session_token g r" rid U r marker]
    denyOrRedirect_cases [of U g r]
  by (cases "ClassifyRoute (req_Method r) (req_Path r)")
    (auto simp: serveApp_def Let_def session_token_def split: if_splits sum.splits)

section \<open>A concrete gateway\<close>

text \<open>One app \<open>notes\<close> on the domain \<open>example.org\<close>, a stored session and a policy, used to
  evaluate the handler on concrete requests.\<close>

definition demo_evidence :: FileManifest where
  "demo_evidence = \<lparr>fm_Files = [\<lparr>file_Path = ''index.html'', file_Hash = ''h1'', file_Size = 5\<rparr>], fm_Hash = ''h''\<rparr>"

definition demo_app :: App where
  "demo_app = \<lparr>app_ID = ''a1'', app_Slug = ''notes'', app_OwnerIdentityID = ''u1'', app_ReleaseRoot = ''/r'',
     app_DeploymentID = ''d1'', app_ReleaseEvidence = demo_evidence, app_Status = AppActive,
     app_SPAFallback = False, app_KVEnabled = False, app_BlobsEnabled = False,
     app_RealtimeEnabled = False, app_PublicIndexing = False\<rparr>"

definition demo_policy :: "string \<Rightarrow> Policy" where
  "demo_policy mode = \<lparr>pol_AppID = ''a1'', pol_OwnerIdentityID = ''u1'', pol_Revision = 1, pol_Mode = mode,
     pol_Emails = [], pol_Domains = [], pol_Valid = True\<rparr>"

definition demo_session :: Session where
  "demo_session = \<lparr>ses_ID = ''s1'', ses_AppID = ''a1'', ses_Identity = \<lparr>id_ID = ''u1'', id_Email = ''o@e.org''\<rparr>,
     ses_ExpiresAt = 100, ses_Revoked = False\<rparr>"

definition demo_store :: "string \<Rightarrow> PolicyStore" where
  "demo_store mode = memory_policy_store \<lparr>pms_Policies = [(''a1'', demo_policy mode)],
     pms_Gate = \<lparr>gate_Revision = 1, gate_Enabled = True, gate_Valid = True\<rparr>, pms_Err = False\<rparr>"

definition demo_env :: StaticEnv where
  "demo_env = \<lparr>se_inspect = (\<lambda>root. Inr demo_evidence),
     se_open = (\<lambda>root rel. Inr \<lparr>of_Name = rel, of_Size = 5, of_ModTime = 7\<rparr>),
     se_etag = (\<lambda>f. ''e''), se_type = (\<lambda>n. ''text/html''), se_content = (\<lambda>r f. 200)\<rparr>"

definition demo_gateway :: "string \<Rightarrow> Gateway" where
  "demo_gateway mode = \<lparr>gw_Domain = ''example.org'', gw_SessionCookie = ''c'',
     gw_Apps = Some (ResolveActive \<lparr>amr_bySlug = [(''notes'', demo_app)], amr_Err = False\<rparr>),
     gw_Sessions = Some (ValidateSession (\<lambda>t. t) [(''tok'', demo_session)]),
     gw_Policies1 = Some (demo_store mode), gw_Policies2 = Some (demo_store mode),
     gw_hasProtected = True, gw_hasPreAuth = True, gw_hasPlatform = True,
     gw_Insights = None, gw_InsightsKey = [], gw_markerOK = True, gw_now = 10,
     gw_static = demo_env, gw_parse = (\<lambda>s. None)\<rparr>"

definition demo_request :: "string \<Rightarrow> string option \<Rightarrow> HTTPRequest" where
  "demo_request p cookie = \<lparr>req_Method = ''GET'', req_Host = ''notes.example.org'', req_Path = p,
     req_EscapedPath = p, req_RequestURI = p, req_Header = (\<lambda>h. []), req_Cookie = (\<lambda>n. cookie),
     req_RemoteAddr = ''203.0.113.9:4711''\<rparr>"

definition demo_public_response :: StaticResponse where
  "demo_public_response = \<lparr>sr_status = 200, sr_CacheControl = ''no-store'',
     sr_RobotsTag = ''noindex, nofollow'', sr_ContentType = ''text/html'',
     sr_File = Some \<lparr>of_Name = ''index.html'', of_Size = 5, of_ModTime = 7\<rparr>\<rparr>"

lemma demo_public_out:
  "ServeHTTP id (demo_gateway ''public'') (\<lambda>_ _. None) ''q'' (demo_request ''/index.html'' None)
    = ServedStatic (PublicStatic demo_app 1 1 False) demo_public_response None False"
  by code_simp

text \<open>The same request as a document navigation, with a running insights recorder.\<close>

definition demo_navigation :: HTTPRequest where
  "demo_navigation = (demo_request ''/index.html'' None)\<lparr>req_Header := (\<lambda>h.
     if h = ''Accept'' then ''text/html,*/*'' else if h = ''Sec-Fetch-Dest'' then ''document'' else [])\<rparr>"

definition demo_insights_gateway :: Gateway where
  "demo_insights_gateway = (demo_gateway ''public'')
     \<lparr>gw_Insights := Some (StartRecorder (NewRecorder True 4)), gw_InsightsKey := ''k''\<rparr>"

section \<open>Properties\<close>

text \<open>C1. A request reaches the protected dispatcher only when its host names an active app with a
  valid slug, its session cookie is the token of a stored session of exactly that app that is
  neither expired nor revoked, and the policy current for that app is valid and allows the
  session's identity. The endpoint is a protected non-static one.\<close>

theorem gateway_protected_sound:
  assumes "gw_Sessions g = Some (ValidateSession sha st)" "gw_Apps g = Some (ResolveActive repo)"
    and "ServeHTTP U g marker rid r = ToProtected c ep"
  shows "\<exists>slug ps p.
      ClassifyHost U (req_Host r) (gw_Domain g) = Some \<lparr>host_Kind = HApp, host_Slug = slug\<rparr>
    \<and> Valid U slug \<and> ResolveActive repo slug = Inr (ac_app c) \<and> app_Status (ac_app c) = AppActive
    \<and> map_of st (sha (session_token g r)) = Some (ac_session c)
    \<and> ses_AppID (ac_session c) = ac_AppID c \<and> gw_now g < ses_ExpiresAt (ac_session c)
    \<and> \<not> ses_Revoked (ac_session c)
    \<and> gw_Policies2 g = Some ps \<and> ps_Current ps (ac_AppID c) = Inr p \<and> pol_Valid p
    \<and> Evaluate p (ac_Identity c) = Allow
    \<and> ep = ClassifyRoute (req_Method r) (req_Path r) \<and> ep \<noteq> ProtectedStatic \<and> Registry ep = Sprotected"
proof -
  obtain slug app where host:
      "ClassifyHost U (req_Host r) (gw_Domain g) = Some \<lparr>host_Kind = HApp, host_Slug = slug\<rparr>"
    and app: "ResolveActive repo slug = Inr app" "serveApp U g marker app rid r = ToProtected c ep"
    using assms by (auto elim!: ServeHTTP_appE)
  from app(1) have act: "app_Status app = AppActive"
    by (auto simp: ResolveActive_def split: if_splits option.splits)
  from serveApp_protectedE [OF app(2)]
  have auth: "Authorize (Some (ValidateSession sha st)) (gw_Policies2 g) (gw_now g) app
      (session_token g r) rid = Inr c"
    and ep: "ep = ClassifyRoute (req_Method r) (req_Path r)" "ep \<noteq> ProtectedStatic" "Registry ep = Sprotected"
    using assms(1) by auto
  have "map_of st (sha (session_token g r)) = Some (ac_session c)"
    using auth by (auto simp: Authorize_def ValidateSession_def
        split: option.splits sum.splits if_splits)
  moreover have "Valid U slug" using ClassifyHost_HApp [OF host] by simp
  ultimately show ?thesis
    using mem_sessions.authorized [OF auth] host app(1) act ep by blast
qed

theorem gateway_protected_sound_witness:
  "\<exists>slug ps p.
      ClassifyHost id ''notes.example.org'' ''example.org'' = Some \<lparr>host_Kind = HApp, host_Slug = slug\<rparr>
    \<and> gw_Policies2 (demo_gateway ''private'') = Some ps \<and> ps_Current ps ''a1'' = Inr p
    \<and> Evaluate p (ses_Identity demo_session) = Allow"
proof -
  let ?c = "\<lparr>ac_app = demo_app, ac_session = demo_session, ac_revision = 1, ac_requestID = ''q''\<rparr>"
  have out: "ServeHTTP id (demo_gateway ''private'') (\<lambda>_ _. None) ''q''
      (demo_request ''/_tinker/api/v1/me'' (Some ''tok'')) = ToProtected ?c CurrentUser"
    by code_simp
  have "\<exists>slug ps p. ClassifyHost id (req_Host (demo_request ''/_tinker/api/v1/me'' (Some ''tok'')))
        (gw_Domain (demo_gateway ''private'')) = Some \<lparr>host_Kind = HApp, host_Slug = slug\<rparr>
      \<and> gw_Policies2 (demo_gateway ''private'') = Some ps \<and> ps_Current ps (ac_AppID ?c) = Inr p
      \<and> Evaluate p (ac_Identity ?c) = Allow"
    using gateway_protected_sound [OF _ _ out, of "\<lambda>t. t" "[(''tok'', demo_session)]"
        "\<lparr>amr_bySlug = [(''notes'', demo_app)], amr_Err = False\<rparr>"]
    by (auto simp: demo_gateway_def)
  then show ?thesis
    by (simp add: demo_request_def demo_gateway_def demo_app_def)
qed

text \<open>C2. Without a session cookie no request is ever dispatched to a protected surface, and a static
  file is only served under a public context: a valid public policy of that app, a valid and
  enabled public gate, and an app without KV, blob or realtime capability.\<close>

theorem gateway_anonymous_public_only:
  assumes "gw_Sessions g = Some (ValidateSession sha st)" "session_token g r = []"
  shows "(\<forall>c ep. ServeHTTP U g marker rid r \<noteq> ToProtected c ep)
    \<and> (\<forall>c resp e ck. ServeHTTP U g marker rid r = ServedStatic c resp e ck \<longrightarrow>
        (\<exists>app pr gr ix ps p gate. c = PublicStatic app pr gr ix \<and> gw_Policies2 g = Some ps
          \<and> ps_Current ps (app_ID app) = Inr p \<and> pol_Valid p \<and> pol_Mode p = ''public''
          \<and> pol_AppID p = app_ID app \<and> ps_Gate ps = Some (Inr gate) \<and> gate_Enabled gate
          \<and> gate_Valid gate \<and> \<not> app_KVEnabled app \<and> \<not> app_BlobsEnabled app
          \<and> \<not> app_RealtimeEnabled app))"
proof (intro conjI allI impI notI)
  fix c ep assume "ServeHTTP U g marker rid r = ToProtected c ep"
  then obtain app where "serveApp U g marker app rid r = ToProtected c ep"
    by (auto elim: ServeHTTP_appE)
  from serveApp_protectedE [OF this] show False
    using assms by (simp add: mem_sessions.anonymous_denied)
next
  fix c resp e ck assume "ServeHTTP U g marker rid r = ServedStatic c resp e ck"
  then obtain app where "serveApp U g marker app rid r = ServedStatic c resp e ck"
    by (auto elim: ServeHTTP_appE)
  from serveApp_staticE [OF this]
  have auth: "AuthorizeStatic (Some (ValidateSession sha st)) (gw_Policies2 g) (gw_now g) app [] rid = Inr c"
    using assms by simp
  show "\<exists>app pr gr ix ps p gate. c = PublicStatic app pr gr ix \<and> gw_Policies2 g = Some ps
      \<and> ps_Current ps (app_ID app) = Inr p \<and> pol_Valid p \<and> pol_Mode p = ''public''
      \<and> pol_AppID p = app_ID app \<and> ps_Gate ps = Some (Inr gate) \<and> gate_Enabled gate
      \<and> gate_Valid gate \<and> \<not> app_KVEnabled app \<and> \<not> app_BlobsEnabled app \<and> \<not> app_RealtimeEnabled app"
  proof (cases c)
    case (PrivateStatic pc)
    then have "Authorize (Some (ValidateSession sha st)) (gw_Policies2 g) (gw_now g) app [] rid = Inr pc"
      using mem_sessions.static_private auth by blast
    then show ?thesis by (simp add: mem_sessions.anonymous_denied)
  next
    case (PublicStatic a pr gr ix)
    from static_public [OF auth [unfolded this]] this show ?thesis by blast
  qed
qed

theorem gateway_anonymous_public_only_witness:
  "\<exists>app pr gr ix ps p gate. PublicStatic demo_app 1 1 False = PublicStatic app pr gr ix
    \<and> gw_Policies2 (demo_gateway ''public'') = Some ps \<and> ps_Current ps (app_ID app) = Inr p
    \<and> pol_Mode p = ''public'' \<and> ps_Gate ps = Some (Inr gate) \<and> gate_Enabled gate"
proof -
  have "gw_Sessions (demo_gateway ''public'') = Some (ValidateSession (\<lambda>t. t) [(''tok'', demo_session)])"
    "session_token (demo_gateway ''public'') (demo_request ''/index.html'' None) = []"
    by (simp_all add: demo_gateway_def demo_request_def session_token_def)
  from gateway_anonymous_public_only [OF this, of id "\<lambda>_ _. None" "''q''"] demo_public_out
  show ?thesis by blast
qed

text \<open>C3. While an app is effectively public (a current public policy and an open gate over a
  capability-free release), none of its gateway-owned surfaces is reachable: no pre-auth
  endpoint and no protected endpoint, whoever asks.\<close>

theorem gateway_public_app_isolated:
  assumes "ServeHTTP U g marker rid r = ToPreAuth a ep \<or> ServeHTTP U g marker rid r = AcceptedPreAuth
      \<or> ServeHTTP U g marker rid r = ToProtected c ep"
    and "ClassifyHost U (req_Host r) (gw_Domain g) = Some \<lparr>host_Kind = HApp, host_Slug = slug\<rparr>"
    and "gw_Apps g = Some resolve" "resolve slug = Inr app"
  shows "\<not> isEffectivePublic (gw_Policies1 g) app"
proof -
  have "ServeHTTP U g marker rid r = serveApp U g marker app rid r"
    using assms(2-4) by (simp add: ServeHTTP_def)
  then show ?thesis
    using assms(1) serveApp_preauthE [of U g marker app rid r a ep]
      serveApp_protectedE [of U g marker app rid r c ep] by auto
qed

theorem gateway_public_app_isolated_witness:
  "\<not> isEffectivePublic (gw_Policies1 (demo_gateway ''private'')) demo_app"
proof (rule gateway_public_app_isolated)
  show "ServeHTTP id (demo_gateway ''private'') (\<lambda>_ _. None) ''q'' (demo_request ''/_tinker/auth/login'' None)
      = ToPreAuth demo_app AppLogin
    \<or> ServeHTTP id (demo_gateway ''private'') (\<lambda>_ _. None) ''q'' (demo_request ''/_tinker/auth/login'' None)
      = AcceptedPreAuth
    \<or> ServeHTTP id (demo_gateway ''private'') (\<lambda>_ _. None) ''q'' (demo_request ''/_tinker/auth/login'' None)
      = ToProtected undefined AppLogin"
    by (rule disjI1) code_simp
  show "ClassifyHost id (req_Host (demo_request ''/_tinker/auth/login'' None))
      (gw_Domain (demo_gateway ''private'')) = Some \<lparr>host_Kind = HApp, host_Slug = ''notes''\<rparr>"
    by code_simp
  show "gw_Apps (demo_gateway ''private'') =
      Some (ResolveActive \<lparr>amr_bySlug = [(''notes'', demo_app)], amr_Err = False\<rparr>)"
    by (simp add: demo_gateway_def)
  show "ResolveActive \<lparr>amr_bySlug = [(''notes'', demo_app)], amr_Err = False\<rparr> ''notes'' = Inr demo_app"
    by code_simp
qed

text \<open>C4. A file is only served out of a release whose inspected contents equal the recorded
  evidence, and only under a path all of whose elements are proper, non-hidden names (no dot
  element, no parent element), or as the index document of a single-page app.\<close>

theorem gateway_static_file_safe:
  assumes "ServeHTTP U g marker rid r = ServedStatic c resp e ck" "sr_File resp = Some f"
  shows "se_inspect (gw_static g) (app_ReleaseRoot (static_app c)) = Inr (app_ReleaseEvidence (static_app c))
    \<and> (\<exists>rel. rel \<noteq> [] \<and> list_all visible_elem (Split slash rel)
        \<and> se_open (gw_static g) (app_ReleaseRoot (static_app c)) rel = Inr f)"
proof -
  obtain app where "serveApp U g marker app rid r = ServedStatic c resp e ck"
    using assms(1) by (auto elim: ServeHTTP_appE)
  from serveApp_staticE [OF this] obtain k where k: "Serve U (gw_static g) c r = (resp, k)" by blast
  obtain doc cb where "k = (doc, cb)" by (cases k)
  with k assms(2) have v: "verifyRelease (se_inspect (gw_static g)) c"
    and f: "\<exists>rel. safePath U (req_EscapedPath r) = Some rel
      \<and> (se_open (gw_static g) (app_ReleaseRoot (static_app c)) rel = Inr f
         \<or> se_open (gw_static g) (app_ReleaseRoot (static_app c)) ''index.html'' = Inr f)"
    using Serve_fileE [of U "gw_static g" c r resp doc cb f] by auto
  have idx: "list_all visible_elem (Split slash ''index.html'')"
    by (simp add: visible_elem_def proper_elem_def HasPrefix_def)
  have "rel \<noteq> [] \<and> list_all visible_elem (Split slash rel)"
    if "safePath U p = Some rel" for p rel
    using that by (auto simp: safePath_def Let_def split: option.splits if_splits dest: servable_elems)
  then have "\<exists>rel. rel \<noteq> [] \<and> list_all visible_elem (Split slash rel)
        \<and> se_open (gw_static g) (app_ReleaseRoot (static_app c)) rel = Inr f"
    using f idx by blast
  then show ?thesis
    using v by (auto simp: verifyRelease_def Let_def FileManifestEqual_iff split: if_splits sum.splits)
qed

theorem gateway_static_file_safe_witness:
  "\<exists>rel. rel \<noteq> [] \<and> list_all visible_elem (Split slash rel)
    \<and> se_open demo_env ''/r'' rel = Inr \<lparr>of_Name = ''index.html'', of_Size = 5, of_ModTime = 7\<rparr>"
proof -
  have "app_ReleaseRoot (static_app (PublicStatic demo_app 1 1 False)) = ''/r''"
    "gw_static (demo_gateway ''public'') = demo_env"
    by (simp_all add: demo_app_def demo_gateway_def)
  with gateway_static_file_safe [OF demo_public_out] show ?thesis by (auto simp: demo_public_response_def)
qed

text \<open>C10. Host round trip: for every valid slug and every valid configured domain, the host
  \<open>slug.domain\<close>, with or without a port from 1 to 65535, is classified as the app host of exactly
  that slug.\<close>

theorem classify_host_roundtrip:
  assumes "Valid U slug" "config_validDomain (normalizeDomain U cfg)"
    and "ParseUint port 16 = Some n" "0 < n"
  shows "ClassifyHost U (slug @ CHR ''.'' # normalizeDomain U cfg) cfg
      = Some \<lparr>host_Kind = HApp, host_Slug = slug\<rparr>
    \<and> ClassifyHost U ((slug @ CHR ''.'' # normalizeDomain U cfg) @ CHR '':'' # port) cfg
      = Some \<lparr>host_Kind = HApp, host_Slug = slug\<rparr>"
proof -
  let ?h = "slug @ CHR ''.'' # normalizeDomain U cfg"
  have "list_all host_char ?h"
    using assms slug_host_chars domain_host_chars by (auto simp: Valid_iff host_char_def)
  note chars = host_char_no_colon [OF this] host_char_no_bracket [OF this]
  have name: "ClassifyName U ?h cfg = Some \<lparr>host_Kind = HApp, host_Slug = slug\<rparr>"
    using assms by (intro ClassifyName_app) simp_all
  have port: "list_all is_digit port" "port \<noteq> []" using ParseUint_digits [OF assms(3)] by auto
  have "SplitHostPort (?h @ CHR '':'' # port) = Some (?h, port)"
    using chars digit_not_special [OF port(1)] by (intro SplitHostPort_simple) auto
  then show ?thesis
    using chars name port assms(3,4)
    by (simp add: ClassifyHost_def SplitHostPort_no_colon Contains_single)
qed

theorem classify_host_roundtrip_witness:
  "ClassifyHost id (''notes'' @ CHR ''.'' # normalizeDomain id '' Example.ORG.'') '' Example.ORG.''
    = Some \<lparr>host_Kind = HApp, host_Slug = ''notes''\<rparr>"
proof -
  have "Valid id ''notes''" "config_validDomain (normalizeDomain id '' Example.ORG.'')"
    "ParseUint ''8443'' 16 = Some 8443"
    by code_simp+
  from classify_host_roundtrip [OF this] show ?thesis by simp
qed

text \<open>Insights: an event is offered only for an authorized document navigation answered with
  status 200 and carries the id of the served app; a fresh marker cookie is set only with such
  a response and never on a conditional request.\<close>

theorem gateway_insight_only_on_documents:
  assumes "ServeHTTP U g marker rid r = ServedStatic c resp e ck"
  shows "(e \<noteq> None \<or> ck \<longrightarrow> IsDocumentNavigation U r \<and> sr_status resp = 200 \<and> sr_File resp \<noteq> None)
    \<and> (\<forall>ev. e = Some ev \<longrightarrow> ev_AppID ev = app_ID (static_app c))
    \<and> (ck \<longrightarrow> \<not> hasConditionalRequest r)"
proof -
  obtain app where app: "serveApp U g marker app rid r = ServedStatic c resp e ck"
    using assms by (auto elim: ServeHTTP_appE)
  from serveApp_staticE [OF this]
  have auth: "ClassifyRoute (req_Method r) (req_Path r) = ProtectedStatic"
    "AuthorizeStatic (gw_Sessions g) (gw_Policies2 g) (gw_now g) app (session_token g r) rid = Inr c"
    by auto
  obtain doc cb where srv: "Serve U (gw_static g) c r = (resp, doc, cb)"
    using serveApp_staticE [OF app] by (metis prod.exhaust)
  have "serveStatic U g marker app (session_token g r) rid r = ServedStatic c resp e ck"
    using app auth by (auto simp: serveApp_def Let_def session_token_def)
  moreover have "cb = doc" using Serve_callback [OF srv] .
  moreover have "doc \<Longrightarrow> sr_File resp \<noteq> None" using Serve_document_file [of U "gw_static g" c r resp cb] srv by auto
  ultimately show ?thesis
    using auth srv
    by (auto simp: serveStatic_def Let_def prepareInsight_def split: if_splits option.splits)
qed

theorem gateway_insight_only_on_documents_witness:
  "IsDocumentNavigation id demo_navigation \<and> \<not> hasConditionalRequest demo_navigation
    \<and> ev_AppID \<lparr>ev_AppID = ''a1'', ev_Marker = [], ev_HasMarker = False, ev_Occurred = 10\<rparr> = app_ID demo_app"
proof -
  have "ServeHTTP id demo_insights_gateway (\<lambda>_ _. None) ''q'' demo_navigation
      = ServedStatic (PublicStatic demo_app 1 1 False) demo_public_response
          (Some \<lparr>ev_AppID = ''a1'', ev_Marker = [], ev_HasMarker = False, ev_Occurred = 10\<rparr>) True"
    by code_simp
  from gateway_insight_only_on_documents [OF this] show ?thesis by simp
qed

end
