(* ===== verification/Rolling_Window.thy ===== *)
theory Rolling_Window
  imports Go_Prelude
begin

text \<open>
  The rolling window of timestamps that the login limiter (\<open>internal/ratelimit\<close>) and the key-value
  service (\<open>internal/kv\<close>) keep for each of their scopes: the loop that skips the expired
  prefix, the contract of a retaining function as a locale, and the bound that follows from it
  for a whole history of admitted calls, whatever the order in which expired events were dropped.
\<close>

section \<open>The loop\<close>

text \<open>\<open>for i < len(events) && !events[i].After(cutoff) { i++ }\<close>\<close>

function skip_expired :: "time list \<Rightarrow> time \<Rightarrow> nat \<Rightarrow> nat" where
  "skip_expired events cutoff i =
     (if i < length events \<and> \<not> events ! i > cutoff then skip_expired events cutoff (Suc i) else i)"
  by pat_completeness auto
termination by (relation "measure (\<lambda>(ev, c, i). length ev - i)") auto

declare skip_expired.simps [simp del]

lemma skip_expired_drop:
  "i \<le> length events \<Longrightarrow>
    skip_expired events cutoff i \<le> length events \<and>
    drop (skip_expired events cutoff i) events = dropWhile (\<lambda>t. \<not> t > cutoff) (drop i events)"
proof (induction events cutoff i rule: skip_expired.induct)
  case (1 events cutoff i)
  show ?case
  proof (cases "i < length events \<and> \<not> events ! i > cutoff")
    case True
    then show ?thesis
      using 1 by (simp add: skip_expired.simps [of events cutoff i] Cons_nth_drop_Suc [symmetric])
  next
    case False
    then show ?thesis
      using 1(2) skip_expired.simps [of events cutoff i] by (cases "i < length events")
        (auto simp: Cons_nth_drop_Suc [symmetric])
  qed
qed

lemma dropWhile_sorted_filter:
  fixes ev :: "time list"
  shows "sorted ev \<Longrightarrow> dropWhile (\<lambda>t. \<not> t > c) ev = filter (\<lambda>t. t > c) ev"
proof (induction ev)
  case (Cons a ev)
  have "filter (\<lambda>t. t > c) ev = ev" if "c < a" using that Cons.prems by (auto intro!: filter_True)
  then show ?case using Cons by auto
qed simp

lemma drop_skip_expired:
  "sorted ev \<Longrightarrow> drop (skip_expired ev c 0) ev = filter (\<lambda>t. t > c) ev"
  using skip_expired_drop [of 0 ev c] by (simp add: dropWhile_sorted_filter)

lemma skip_expired_all:
  "skip_expired ev c 0 = length ev \<longleftrightarrow> list_all (\<lambda>t. t \<le> c) ev"
proof -
  have "skip_expired ev c 0 = length ev \<longleftrightarrow> drop (skip_expired ev c 0) ev = []"
    using skip_expired_drop [of 0 ev c] by (metis drop_eq_Nil le_antisym order_refl zero_le)
  also have "\<dots> \<longleftrightarrow> list_all (\<lambda>t. t \<le> c) ev"
    using skip_expired_drop [of 0 ev c] by (simp add: list_all_iff not_less)
  finally show ?thesis .
qed

section \<open>Histories and the bound\<close>

text \<open>\<open>recent W t H\<close> counts the calls of a history in the window of length \<open>W\<close> that ends at \<open>t\<close>.\<close>

definition recent :: "duration \<Rightarrow> time \<Rightarrow> time list \<Rightarrow> nat" where
  "recent W t H = length (filter (\<lambda>x. t - W < x \<and> x \<le> t) H)"

text \<open>A stored bucket represents a history: it is what the history has after some cut-off that lies
  at least a window in the past.\<close>

definition represents :: "duration \<Rightarrow> time \<Rightarrow> time list \<Rightarrow> time list \<Rightarrow> bool" where
  "represents W now H b \<longleftrightarrow> sorted H \<and> list_all (\<lambda>x. x \<le> now) H \<and>
     (\<exists>c \<le> now - W. b = filter (\<lambda>t. c < t) H)"

lemma represents_later: "represents W now H b \<Longrightarrow> now \<le> now' \<Longrightarrow> represents W now' H b"
  unfolding represents_def list_all_iff by (metis diff_right_mono order_trans)

lemma represents_empty [simp]: "represents W now [] b \<longleftrightarrow> b = []"
  by (auto simp: represents_def)

lemma filter_recent_app: "recent W t (H @ [x]) = recent W t H + (if t - W < x \<and> x \<le> t then 1 else 0)"
  by (simp add: recent_def)

lemma recent_mono_filter:
  assumes "c \<le> t - W"
  shows "recent W t H \<le> length (filter (\<lambda>x. c < x) H)"
proof -
  have "filter (\<lambda>x. t - W < x \<and> x \<le> t) H = filter (\<lambda>x. t - W < x \<and> x \<le> t) (filter (\<lambda>x. c < x) H)"
    unfolding filter_filter by (rule filter_cong) (use assms in auto)
  then show ?thesis unfolding recent_def by (metis length_filter_le)
qed

text \<open>What a function that drops expired events promises.\<close>

locale window_retention =
  fixes retain :: "time list \<Rightarrow> time \<Rightarrow> time list"
  assumes retain_sorted: "sorted ev \<Longrightarrow> retain ev c = filter (\<lambda>t. c < t) ev"
begin

lemma retain_represents:
  assumes r: "represents W now H b" and le: "now \<le> now'" and c: "c \<le> now' - W"
  shows "represents W now' H (retain b c)"
proof -
  from r obtain d where d: "d \<le> now - W" "b = filter (\<lambda>t. d < t) H" and s: "sorted H"
    by (auto simp: represents_def)
  then have "retain b c = filter (\<lambda>t. max c d < t) H"
    by (simp add: retain_sorted sorted_filter [of id, simplified] conj_commute)
  moreover have "max c d \<le> now' - W" using d c le by auto
  moreover have "sorted H \<and> list_all (\<lambda>x. x \<le> now') H"
    using r le by (auto simp: represents_def list_all_iff)
  ultimately show ?thesis unfolding represents_def by blast
qed

lemma admit_bound:
  assumes r: "represents W now H b" and W: "0 < W" and b: "length b < limit"
    and old: "\<forall>t. recent W t H \<le> limit"
  shows "represents W now (H @ [now]) (b @ [now]) \<and> (\<forall>t. recent W t (H @ [now]) \<le> limit)"
proof -
  from r obtain d where d: "d \<le> now - W" "b = filter (\<lambda>t. d < t) H"
    and s: "sorted H" "list_all (\<lambda>x. x \<le> now) H" by (auto simp: represents_def)
  have "recent W t (H @ [now]) \<le> limit" for t
  proof (cases "t < now")
    case True
    then show ?thesis using old by (simp add: filter_recent_app)
  next
    case f: False
    then have "recent W t H \<le> length b" using recent_mono_filter [of d t W H] d by auto
    then show ?thesis using b by (simp add: filter_recent_app)
  qed
  moreover have "sorted (H @ [now])" using s by (simp add: sorted_append list_all_iff)
  ultimately show ?thesis
    using d s W unfolding represents_def by (auto simp: list_all_iff intro!: exI [of _ d])
qed

end

text \<open>The function the source spells out twice: keep what is strictly after the cut-off.\<close>

definition retained :: "time list \<Rightarrow> time \<Rightarrow> time list" where
  "retained events cutoff = drop (skip_expired events cutoff 0) events"

interpretation loop_window: window_retention retained
  by unfold_locales (simp add: retained_def drop_skip_expired)

end
