(* ===== verification/Rate_Limit.thy ===== *)
theory Rate_Limit
  imports Rolling_Window Static_Runtime Go_Net
begin

text \<open>
  The abuse limiter of the login endpoints, \<open>internal/ratelimit/ratelimit.go\<close>. A limiter is a
  record of its configuration and its two maps; an operation takes the clock reading it obtained
  and returns the updated limiter. HMAC-SHA256 is the parameter \<open>hmac\<close> (key, message, digest
  bytes) and the Unicode table is \<open>U\<close>. A nil limiter is \<open>None\<close>.

  The mutex makes the four sections \<open>allow\<close>, \<open>allowHandoff\<close>, \<open>BindTransactionFingerprint\<close> and the
  look-up of \<open>AllowTransactionFingerprint\<close> atomic, so a concurrent execution of the public methods
  is a sequence of these sections (\<open>limiter_step\<close>).
\<close>

section \<open>Configuration\<close>

record RatePolicy =
  rp_Window :: duration
  rp_PerIP :: int
  rp_PerFingerprint :: int
  rp_PerEmail :: int
  rp_PerApp :: int
  rp_Global :: int

record HandoffPolicy =
  hp_Window :: duration
  hp_PerIP :: int
  hp_PerFingerprint :: int
  hp_PerApp :: int
  hp_Global :: int

record RateConfig =
  rc_Request :: RatePolicy
  rc_Verify :: RatePolicy
  rc_Handoff :: HandoffPolicy
  rc_MaxKeys :: int

definition DefaultConfig :: RateConfig where
  "DefaultConfig = \<lparr>
     rc_Request = \<lparr>rp_Window = 10 * minute, rp_PerIP = 10, rp_PerFingerprint = 10, rp_PerEmail = 3,
                   rp_PerApp = 100, rp_Global = 1000\<rparr>,
     rc_Verify = \<lparr>rp_Window = 10 * minute, rp_PerIP = 20, rp_PerFingerprint = 20, rp_PerEmail = 10,
                  rp_PerApp = 200, rp_Global = 2000\<rparr>,
     rc_Handoff = \<lparr>hp_Window = 10 * minute, hp_PerIP = 30, hp_PerFingerprint = 30,
                   hp_PerApp = 100, hp_Global = 1000\<rparr>,
     rc_MaxKeys = 10000\<rparr>"

record transactionBinding =
  tb_emailDigest :: string
  tb_fingerprintDigest :: string
  tb_expiresAt :: time

record Limiter =
  lm_key :: "nat list"
  lm_cfg :: RateConfig
  lm_buckets :: "(string, time list) gomap"
  lm_transactions :: "(string, transactionBinding) gomap"

definition fingerprintLimit :: "RatePolicy \<Rightarrow> int" where
  "fingerprintLimit p = (if rp_PerFingerprint p = 0 then rp_PerIP p else rp_PerFingerprint p)"

definition handoffFromRequest :: "RatePolicy \<Rightarrow> HandoffPolicy" where
  "handoffFromRequest p = \<lparr>hp_Window = rp_Window p, hp_PerIP = rp_PerIP p,
     hp_PerFingerprint = fingerprintLimit p, hp_PerApp = rp_PerApp p, hp_Global = rp_Global p\<rparr>"

definition zeroHandoffPolicy :: "HandoffPolicy \<Rightarrow> bool" where
  "zeroHandoffPolicy p \<longleftrightarrow> hp_Window p = 0 \<and> hp_PerIP p = 0 \<and> hp_PerFingerprint p = 0
     \<and> hp_PerApp p = 0 \<and> hp_Global p = 0"

definition valid_budget :: "int \<Rightarrow> bool" where
  "valid_budget n \<longleftrightarrow> \<not> (n < 1 \<or> n > 1000000)"

definition validPolicy :: "RatePolicy \<Rightarrow> bool" where
  "validPolicy p =
     (if rp_Window p < second \<or> rp_Window p > hour then False
      else if \<not> list_all valid_budget [rp_PerIP p, rp_PerEmail p, rp_PerApp p, rp_Global p] then False
      else if rp_PerFingerprint p \<noteq> 0 \<and> \<not> valid_budget (rp_PerFingerprint p) then False
      else True)"

definition validHandoffPolicy :: "HandoffPolicy \<Rightarrow> bool" where
  "validHandoffPolicy p =
     (if hp_Window p < second \<or> hp_Window p > hour then False
      else if \<not> list_all valid_budget [hp_PerIP p, hp_PerApp p, hp_Global p] then False
      else hp_PerFingerprint p \<ge> 1 \<and> hp_PerFingerprint p \<le> 1000000)"

definition NewLimiter :: "nat list \<Rightarrow> RateConfig \<Rightarrow> Limiter option" where
  "NewLimiter key cfg0 =
     (if key = [] then None
      else
        let cfg = (if zeroHandoffPolicy (rc_Handoff cfg0)
                   then cfg0\<lparr>rc_Handoff := handoffFromRequest (rc_Request cfg0)\<rparr> else cfg0)
        in if \<not> validPolicy (rc_Request cfg) \<or> \<not> validPolicy (rc_Verify cfg)
              \<or> \<not> validHandoffPolicy (rc_Handoff cfg) \<or> rc_MaxKeys cfg < 5 \<or> rc_MaxKeys cfg > 100000
           then None
           else Some \<lparr>lm_key = key, lm_cfg = cfg, lm_buckets = [], lm_transactions = []\<rparr>)"

section \<open>Request attributes\<close>

type_synonym hmac_fun = "nat list \<Rightarrow> string \<Rightarrow> nat list"

definition digest :: "hmac_fun \<Rightarrow> Limiter \<Rightarrow> string \<Rightarrow> string" where
  "digest hmac l v = hex_encode (hmac (lm_key l) v)"

definition remoteIP :: "string \<Rightarrow> string" where
  "remoteIP remote =
     (case SplitHostPort remote of
        Some (host, _) \<Rightarrow> if ParseIP host then host
                          else if ParseIP remote then remote else ''invalid''
      | None \<Rightarrow> if ParseIP remote then remote else ''invalid'')"

definition normalizedOrOpaque :: "(nat \<Rightarrow> nat) \<Rightarrow> string \<Rightarrow> string" where
  "normalizedOrOpaque U email =
     (case Normalize U email of
        Inr n \<Rightarrow> n
      | Inl _ \<Rightarrow> ''invalid:'' @ TrimSpace (ToLower U email))"

definition safeApp :: "(nat \<Rightarrow> nat) \<Rightarrow> string \<Rightarrow> string" where
  "safeApp U app = (let a = TrimSpace (ToLower U app) in if a = [] then ''invalid'' else a)"

text \<open>\<open>strings.Map\<close> decodes the runes of the (possibly cut) value and re-encodes the kept ones.\<close>

definition boundedHeader :: "string \<Rightarrow> string" where
  "boundedHeader v =
     (let t = TrimSpace v; c = (if length t > 512 then take 512 t else t)
      in string_of_runes (filter (\<lambda>r. \<not> (r < 0x20 \<or> r = 0x7F)) (runes c)))"

definition RequestFingerprint :: "HTTPRequest option \<Rightarrow> string" where
  "RequestFingerprint r =
     (case r of None \<Rightarrow> ''absent''
      | Some q \<Rightarrow> ''ip:'' @ remoteIP (req_RemoteAddr q)
          @ ''|ua:'' @ boundedHeader (req_Header q ''User-Agent'')
          @ ''|lang:'' @ boundedHeader (req_Header q ''Accept-Language''))"

definition OTPRequest :: string where "OTPRequest = ''otp_request''"
definition OTPVerify :: string where "OTPVerify = ''otp_verify''"

definition rate_policy :: "Limiter \<Rightarrow> string \<Rightarrow> RatePolicy option" where
  "rate_policy l kind =
     (if kind = OTPRequest then Some (rc_Request (lm_cfg l))
      else if kind = OTPVerify then Some (rc_Verify (lm_cfg l))
      else None)"

section \<open>Pruning\<close>

text \<open>The body of the loop over the buckets; \<open>None\<close> deletes the bucket.\<close>

definition prune_bucket :: "time \<Rightarrow> string \<Rightarrow> time list \<Rightarrow> time list option" where
  "prune_bucket cutoff k events =
     (let i = skip_expired events cutoff 0 in
      if i = length events then None else if i > 0 then Some (drop i events) else Some events)"

definition pruneLocked :: "time \<Rightarrow> (string, time list) gomap \<Rightarrow> (string, time list) gomap" where
  "pruneLocked cutoff bs = gm_rewrite (prune_bucket cutoff) bs"

definition pruneTransactionsLocked ::
    "time \<Rightarrow> (string, transactionBinding) gomap \<Rightarrow> (string, transactionBinding) gomap" where
  "pruneTransactionsLocked now =
     gm_rewrite (\<lambda>tx b. if \<not> tb_expiresAt b > now then None else Some b)"

section \<open>Admission\<close>

definition bucket_events :: "(string, time list) gomap \<Rightarrow> string \<Rightarrow> time list" where
  "bucket_events bs k = (case map_of bs k of None \<Rightarrow> [] | Some ev \<Rightarrow> ev)"

text \<open>The checking loop over the keys and their limits, and the charging loop.\<close>

fun within_limits :: "int \<Rightarrow> (string, time list) gomap \<Rightarrow> (string \<times> int) list \<Rightarrow> bool" where
  "within_limits maxKeys bs [] = True"
| "within_limits maxKeys bs ((k, limit) # dims) =
     (if map_of bs k = None \<and> int (length bs) \<ge> maxKeys then False
      else if int (length (bucket_events bs k)) \<ge> limit then False
      else within_limits maxKeys bs dims)"

fun charge :: "time \<Rightarrow> string list \<Rightarrow> (string, time list) gomap \<Rightarrow> (string, time list) gomap" where
  "charge now [] bs = bs"
| "charge now (k # keys) bs = charge now keys (AList.update k (bucket_events bs k @ [now]) bs)"

definition admit :: "Limiter \<Rightarrow> time \<Rightarrow> duration \<Rightarrow> (string \<times> int) list \<Rightarrow> Limiter \<times> bool" where
  "admit l now window dims =
     (let l1 = l\<lparr>lm_buckets := pruneLocked (now - window) (lm_buckets l),
                 lm_transactions := pruneTransactionsLocked now (lm_transactions l)\<rparr>
      in if within_limits (rc_MaxKeys (lm_cfg l)) (lm_buckets l1) dims
         then (l1\<lparr>lm_buckets := charge now (map fst dims) (lm_buckets l1)\<rparr>, True)
         else (l1, False))"

definition allow_dims ::
    "(nat \<Rightarrow> nat) \<Rightarrow> hmac_fun \<Rightarrow> Limiter \<Rightarrow> string \<Rightarrow> RatePolicy \<Rightarrow> string \<Rightarrow> string \<Rightarrow> string \<Rightarrow> string
      \<Rightarrow> (string \<times> int) list" where
  "allow_dims U hmac l kind p remoteAddr fingerprintDigest emailDigest app =
     [(kind @ '':ip:'' @ digest hmac l (remoteIP remoteAddr), rp_PerIP p),
      (kind @ '':fingerprint:'' @ fingerprintDigest, fingerprintLimit p),
      (kind @ '':email:'' @ emailDigest, rp_PerEmail p),
      (kind @ '':app:'' @ safeApp U app, rp_PerApp p),
      (kind @ '':global'', rp_Global p)]"

definition allow :: "(nat \<Rightarrow> nat) \<Rightarrow> hmac_fun \<Rightarrow> Limiter \<Rightarrow> time \<Rightarrow> string \<Rightarrow> string \<Rightarrow> string \<Rightarrow> string \<Rightarrow> string
      \<Rightarrow> Limiter \<times> bool" where
  "allow U hmac l now kind remoteAddr fingerprintDigest emailDigest app =
     (case rate_policy l kind of
        None \<Rightarrow> (l, False)
      | Some p \<Rightarrow> admit l now (rp_Window p)
                   (allow_dims U hmac l kind p remoteAddr fingerprintDigest emailDigest app))"

definition handoff_dims ::
    "(nat \<Rightarrow> nat) \<Rightarrow> hmac_fun \<Rightarrow> Limiter \<Rightarrow> string \<Rightarrow> string \<Rightarrow> string \<Rightarrow> (string \<times> int) list" where
  "handoff_dims U hmac l remoteAddr fingerprintDigest app =
     (let p = rc_Handoff (lm_cfg l) in
      [(''identity_handoff:ip:'' @ digest hmac l (remoteIP remoteAddr), hp_PerIP p),
       (''identity_handoff:fingerprint:'' @ fingerprintDigest, hp_PerFingerprint p),
       (''identity_handoff:app:'' @ safeApp U app, hp_PerApp p),
       (''identity_handoff:global'', hp_Global p)])"

definition allowHandoff :: "(nat \<Rightarrow> nat) \<Rightarrow> hmac_fun \<Rightarrow> Limiter \<Rightarrow> time \<Rightarrow> string \<Rightarrow> string \<Rightarrow> string
      \<Rightarrow> Limiter \<times> bool" where
  "allowHandoff U hmac l now remoteAddr fingerprintDigest app =
     admit l now (hp_Window (rc_Handoff (lm_cfg l)))
       (handoff_dims U hmac l remoteAddr fingerprintDigest app)"

section \<open>Public methods\<close>

definition AllowFingerprint :: "(nat \<Rightarrow> nat) \<Rightarrow> hmac_fun \<Rightarrow> Limiter option \<Rightarrow> time \<Rightarrow> string \<Rightarrow> string \<Rightarrow> string
      \<Rightarrow> string \<Rightarrow> string \<Rightarrow> Limiter option \<times> bool" where
  "AllowFingerprint U hmac lim now kind remoteAddr fingerprint email app =
     (case lim of
        None \<Rightarrow> (None, True)
      | Some l \<Rightarrow>
          if rate_policy l kind = None then (lim, False)
          else apfst Some (allow U hmac l now kind remoteAddr
                 (digest hmac l (normalizedOrOpaque U fingerprint))
                 (digest hmac l (normalizedOrOpaque U email)) app))"

definition AllowRate :: "(nat \<Rightarrow> nat) \<Rightarrow> hmac_fun \<Rightarrow> Limiter option \<Rightarrow> time \<Rightarrow> string \<Rightarrow> string \<Rightarrow> string \<Rightarrow> string
      \<Rightarrow> Limiter option \<times> bool" where
  "AllowRate U hmac lim now kind remoteAddr email app =
     AllowFingerprint U hmac lim now kind remoteAddr [] email app"

definition AllowRequest :: "(nat \<Rightarrow> nat) \<Rightarrow> hmac_fun \<Rightarrow> Limiter option \<Rightarrow> time \<Rightarrow> string \<Rightarrow> HTTPRequest option
      \<Rightarrow> string \<Rightarrow> string \<Rightarrow> Limiter option \<times> bool" where
  "AllowRequest U hmac lim now kind r email app =
     (case r of
        None \<Rightarrow> AllowFingerprint U hmac lim now kind [] [] email app
      | Some q \<Rightarrow> AllowFingerprint U hmac lim now kind (req_RemoteAddr q) (RequestFingerprint r) email app)"

definition AllowHandoffRequest :: "(nat \<Rightarrow> nat) \<Rightarrow> hmac_fun \<Rightarrow> Limiter option \<Rightarrow> time \<Rightarrow> HTTPRequest option
      \<Rightarrow> string \<Rightarrow> Limiter option \<times> bool" where
  "AllowHandoffRequest U hmac lim now r app =
     (case lim of
        None \<Rightarrow> (None, True)
      | Some l \<Rightarrow>
          let (remote, fingerprint) = (case r of None \<Rightarrow> ([], [])
                                       | Some q \<Rightarrow> (req_RemoteAddr q, RequestFingerprint r))
          in apfst Some (allowHandoff U hmac l now remote
                (digest hmac l (normalizedOrOpaque U fingerprint)) app))"

definition bind_transaction :: "(nat \<Rightarrow> nat) \<Rightarrow> hmac_fun \<Rightarrow> Limiter \<Rightarrow> time \<Rightarrow> string \<Rightarrow> string \<Rightarrow> string \<Rightarrow> Limiter" where
  "bind_transaction U hmac l now tx email fingerprint =
     (let ts = pruneTransactionsLocked now (lm_transactions l) in
      if map_of ts tx = None \<and> int (length ts) \<ge> rc_MaxKeys (lm_cfg l)
      then l\<lparr>lm_transactions := ts\<rparr>
      else l\<lparr>lm_transactions := AList.update tx
               \<lparr>tb_emailDigest = digest hmac l (normalizedOrOpaque U email),
                tb_fingerprintDigest = digest hmac l (normalizedOrOpaque U fingerprint),
                tb_expiresAt = now + rp_Window (rc_Request (lm_cfg l))\<rparr> ts\<rparr>)"

definition BindTransactionFingerprint :: "(nat \<Rightarrow> nat) \<Rightarrow> hmac_fun \<Rightarrow> Limiter option \<Rightarrow> time \<Rightarrow> string \<Rightarrow> string
      \<Rightarrow> string \<Rightarrow> Limiter option" where
  "BindTransactionFingerprint U hmac lim now tx email fingerprint =
     (case lim of
        None \<Rightarrow> None
      | Some l \<Rightarrow> if tx = [] then lim else Some (bind_transaction U hmac l now tx email fingerprint))"

definition BindTransactionRequest :: "(nat \<Rightarrow> nat) \<Rightarrow> hmac_fun \<Rightarrow> Limiter option \<Rightarrow> time \<Rightarrow> string \<Rightarrow> string
      \<Rightarrow> HTTPRequest option \<Rightarrow> Limiter option" where
  "BindTransactionRequest U hmac lim now tx email r =
     BindTransactionFingerprint U hmac lim now tx email
       (case r of None \<Rightarrow> [] | Some _ \<Rightarrow> RequestFingerprint r)"

text \<open>The first critical section of \<open>AllowTransactionFingerprint\<close>: an expired binding is removed.\<close>

definition transaction_binding :: "Limiter \<Rightarrow> time \<Rightarrow> string \<Rightarrow> Limiter \<times> transactionBinding option" where
  "transaction_binding l now tx =
     (case map_of (lm_transactions l) tx of
        None \<Rightarrow> (l, None)
      | Some b \<Rightarrow>
          if \<not> tb_expiresAt b > now
          then (l\<lparr>lm_transactions := AList.delete tx (lm_transactions l)\<rparr>, None)
          else (l, Some b))"

text \<open>The clock is read once for each of the two critical sections.\<close>

definition AllowTransactionFingerprint :: "(nat \<Rightarrow> nat) \<Rightarrow> hmac_fun \<Rightarrow> Limiter option \<Rightarrow> time \<Rightarrow> time \<Rightarrow> string
      \<Rightarrow> string \<Rightarrow> string \<Rightarrow> string \<Rightarrow> string \<Rightarrow> Limiter option \<times> bool" where
  "AllowTransactionFingerprint U hmac lim now1 now2 kind remoteAddr fingerprint tx app =
     (case lim of
        None \<Rightarrow> (None, True)
      | Some l \<Rightarrow>
          let (l1, binding) = transaction_binding l now1 tx;
              opaque = digest hmac l (''transaction:'' @ tx);
              mail = (case binding of None \<Rightarrow> opaque | Some b \<Rightarrow> tb_emailDigest b);
              print = (case binding of None \<Rightarrow> opaque | Some b \<Rightarrow> tb_fingerprintDigest b)
          in apfst Some (allow U hmac l1 now2 kind remoteAddr print mail app))"

definition AllowTransactionRequest :: "(nat \<Rightarrow> nat) \<Rightarrow> hmac_fun \<Rightarrow> Limiter option \<Rightarrow> time \<Rightarrow> time \<Rightarrow> string
      \<Rightarrow> HTTPRequest option \<Rightarrow> string \<Rightarrow> string \<Rightarrow> Limiter option \<times> bool" where
  "AllowTransactionRequest U hmac lim now1 now2 kind r tx app =
     (case r of
        None \<Rightarrow> AllowTransactionFingerprint U hmac lim now1 now2 kind [] [] tx app
      | Some q \<Rightarrow> AllowTransactionFingerprint U hmac lim now1 now2 kind (req_RemoteAddr q)
                   (RequestFingerprint r) tx app)"

section \<open>Executions\<close>

datatype limiter_step =
    StepAllow string string string string string
  | StepHandoff string string string
  | StepBind string string string
  | StepLookup string

text \<open>The budget a step draws on: window, keys and limits.\<close>

fun step_budget :: "(nat \<Rightarrow> nat) \<Rightarrow> hmac_fun \<Rightarrow> Limiter \<Rightarrow> limiter_step \<Rightarrow> (duration \<times> (string \<times> int) list) option" where
  "step_budget U hmac l (StepAllow kind remote fp mail app) =
     (case rate_policy l kind of
        None \<Rightarrow> None
      | Some p \<Rightarrow> Some (rp_Window p, allow_dims U hmac l kind p remote fp mail app))"
| "step_budget U hmac l (StepHandoff remote fp app) =
     Some (hp_Window (rc_Handoff (lm_cfg l)), handoff_dims U hmac l remote fp app)"
| "step_budget U hmac l (StepBind tx email fp) = None"
| "step_budget U hmac l (StepLookup tx) = None"

text \<open>One atomic section; the second component lists the keys it charged.\<close>

definition step_keys :: "(nat \<Rightarrow> nat) \<Rightarrow> hmac_fun \<Rightarrow> Limiter \<Rightarrow> limiter_step \<Rightarrow> string list" where
  "step_keys U hmac l s = (case step_budget U hmac l s of None \<Rightarrow> [] | Some (w, dims) \<Rightarrow> map fst dims)"

fun exec_step :: "(nat \<Rightarrow> nat) \<Rightarrow> hmac_fun \<Rightarrow> Limiter \<Rightarrow> time \<Rightarrow> limiter_step \<Rightarrow> Limiter \<times> string list" where
  "exec_step U hmac l now (StepAllow kind remote fp mail app) =
     (case allow U hmac l now kind remote fp mail app of
        (l', ok) \<Rightarrow> (l', if ok then step_keys U hmac l (StepAllow kind remote fp mail app) else []))"
| "exec_step U hmac l now (StepHandoff remote fp app) =
     (case allowHandoff U hmac l now remote fp app of
        (l', ok) \<Rightarrow> (l', if ok then step_keys U hmac l (StepHandoff remote fp app) else []))"
| "exec_step U hmac l now (StepBind tx email fp) = (bind_transaction U hmac l now tx email fp, [])"
| "exec_step U hmac l now (StepLookup tx) = (fst (transaction_binding l now tx), [])"

fun limiter_run :: "(nat \<Rightarrow> nat) \<Rightarrow> hmac_fun \<Rightarrow> Limiter \<Rightarrow> (time \<times> limiter_step) list
      \<Rightarrow> Limiter \<times> (time \<times> string list) list" where
  "limiter_run U hmac l [] = (l, [])"
| "limiter_run U hmac l ((now, s) # ss) =
     (let (l1, ks) = exec_step U hmac l now s; (l2, h) = limiter_run U hmac l1 ss
      in (l2, (now, ks) # h))"

definition charged_at :: "string \<Rightarrow> (time \<times> string list) list \<Rightarrow> time list" where
  "charged_at k h = map fst (filter (\<lambda>(t, ks). k \<in> set ks) h)"

section \<open>Effect of one section\<close>

lemma bucket_events_prune:
  assumes "gm_wf bs"
  shows "bucket_events (pruneLocked c bs) k = retained (bucket_events bs k) c"
proof (cases "map_of bs k")
  case None
  then show ?thesis using assms
    by (simp add: bucket_events_def pruneLocked_def prune_bucket_def map_of_gm_rewrite retained_def)
next
  case (Some ev)
  then show ?thesis using assms
    by (auto simp: bucket_events_def pruneLocked_def prune_bucket_def map_of_gm_rewrite retained_def Let_def)
qed

lemma bucket_events_update:
  "bucket_events (AList.update k ev bs) k' = (if k' = k then ev else bucket_events bs k')"
  by (simp add: bucket_events_def gm_lookup_update)

lemma bucket_events_charge:
  "distinct ks \<Longrightarrow> bucket_events (charge now ks bs) k = bucket_events bs k @ (if k \<in> set ks then [now] else [])"
  by (induction ks arbitrary: bs) (auto simp: bucket_events_update)

lemma charge_wf [simp]: "gm_wf bs \<Longrightarrow> gm_wf (charge now ks bs)"
  by (induction ks arbitrary: bs) auto

lemma length_charge: "length (charge now ks bs) \<le> length bs + length (filter (\<lambda>k. k \<notin> gm_keys bs) ks)"
proof (induction ks arbitrary: bs)
  case (Cons k ks)
  have sub: "filter (\<lambda>x. x \<notin> insert k (gm_keys bs)) ks = filter (\<lambda>x. x \<noteq> k) (filter (\<lambda>x. x \<notin> gm_keys bs) ks)"
    by (simp add: conj_commute)
  have "length (filter (\<lambda>x. x \<notin> insert k (gm_keys bs)) ks) \<le> length (filter (\<lambda>x. x \<notin> gm_keys bs) ks)"
    unfolding sub by (rule length_filter_le)
  then show ?case
    using Cons [of "AList.update k (bucket_events bs k @ [now]) bs"]
    by (simp add: length_update dom_update [symmetric] split: if_splits) (auto simp: dom_update insert_absorb split: if_splits)
qed simp

lemma within_limits_iff:
  "within_limits m bs dims \<longleftrightarrow>
    list_all (\<lambda>(k, limit). (map_of bs k = None \<longrightarrow> int (length bs) < m)
      \<and> int (length (bucket_events bs k)) < limit) dims"
  by (induction m bs dims rule: within_limits.induct) auto

lemma pruneLocked_wf [simp]: "gm_wf bs \<Longrightarrow> gm_wf (pruneLocked c bs)"
  by (simp add: pruneLocked_def)

lemma pruneTransactions_wf [simp]: "gm_wf ts \<Longrightarrow> gm_wf (pruneTransactionsLocked c ts)"
  by (simp add: pruneTransactionsLocked_def)

lemma allow_keys_distinct: "distinct (map fst (allow_dims U hmac l kind p remote fp mail app))"
  by (simp add: allow_dims_def)

lemma handoff_keys_distinct: "distinct (map fst (handoff_dims U hmac l remote fp app))"
  by (simp add: handoff_dims_def Let_def)

definition limiter_wf :: "Limiter \<Rightarrow> bool" where
  "limiter_wf l \<longleftrightarrow> gm_wf (lm_buckets l) \<and> gm_wf (lm_transactions l)"

text \<open>The one lemma the executions rest on: what an admission does to every bucket.\<close>

lemma admit_buckets:
  assumes "admit l now window dims = (l', ok)" "gm_wf (lm_buckets l)" "distinct (map fst dims)"
  shows "bucket_events (lm_buckets l') k =
      retained (bucket_events (lm_buckets l) k) (now - window) @ (if ok \<and> k \<in> set (map fst dims) then [now] else [])"
    and "ok \<Longrightarrow> (k, n) \<in> set dims \<Longrightarrow>
      int (length (retained (bucket_events (lm_buckets l) k) (now - window))) < n"
  using assms
  by (auto simp: admit_def Let_def bucket_events_prune bucket_events_charge within_limits_iff list_all_iff
      split: if_splits) force

section \<open>Keys, budgets and executions\<close>

text \<open>The budget of a key is determined by its prefix.\<close>

definition key_table :: "RateConfig \<Rightarrow> (string \<times> duration \<times> int) list" where
  "key_table cfg =
     (let rows = (\<lambda>kind p. [(kind @ '':ip:'', rp_Window p, rp_PerIP p),
                   (kind @ '':fingerprint:'', rp_Window p, fingerprintLimit p),
                   (kind @ '':email:'', rp_Window p, rp_PerEmail p), (kind @ '':app:'', rp_Window p, rp_PerApp p),
                   (kind @ '':global'', rp_Window p, rp_Global p)]);
          h = rc_Handoff cfg
      in rows OTPRequest (rc_Request cfg) @ rows OTPVerify (rc_Verify cfg) @
         [(''identity_handoff:ip:'', hp_Window h, hp_PerIP h),
          (''identity_handoff:fingerprint:'', hp_Window h, hp_PerFingerprint h),
          (''identity_handoff:app:'', hp_Window h, hp_PerApp h),
          (''identity_handoff:global'', hp_Window h, hp_Global h)])"

definition key_budget :: "RateConfig \<Rightarrow> string \<Rightarrow> (duration \<times> int) option" where
  "key_budget cfg k = map_option snd (find (\<lambda>(pre, _). prefix pre k) (key_table cfg))"

lemma request_keys:
  "list_all (\<lambda>(k, n). key_budget cfg k = Some (rp_Window (rc_Request cfg), n))
    (allow_dims U hmac l OTPRequest (rc_Request cfg) remote fp mail app)"
  by (simp add: allow_dims_def key_budget_def key_table_def Let_def OTPRequest_def)

lemma verify_keys:
  "list_all (\<lambda>(k, n). key_budget cfg k = Some (rp_Window (rc_Verify cfg), n))
    (allow_dims U hmac l OTPVerify (rc_Verify cfg) remote fp mail app)"
  by (simp add: allow_dims_def key_budget_def key_table_def Let_def OTPRequest_def OTPVerify_def)

lemma handoff_keys:
  "list_all (\<lambda>(k, n). key_budget (lm_cfg l) k = Some (hp_Window (rc_Handoff (lm_cfg l)), n))
    (handoff_dims U hmac l remote fp app)"
  by (simp add: handoff_dims_def key_budget_def key_table_def Let_def OTPRequest_def OTPVerify_def)

lemma step_budget_keys:
  assumes "step_budget U hmac l s = Some (w, dims)" "(k, n) \<in> set dims"
  shows "key_budget (lm_cfg l) k = Some (w, n)"
proof -
  have "list_all (\<lambda>(k, n). key_budget (lm_cfg l) k = Some (w, n)) dims"
    using assms(1) request_keys verify_keys handoff_keys
    by (cases s) (auto simp: rate_policy_def split: if_splits)
  with assms(2) show ?thesis by (auto simp: list_all_iff)
qed

lemma step_budget_distinct:
  "step_budget U hmac l s = Some (w, dims) \<Longrightarrow> distinct (map fst dims)"
  by (cases s) (auto simp del: distinct_map simp: allow_keys_distinct handoff_keys_distinct split: option.splits)

lemma pruneTransactions_length: "length (pruneTransactionsLocked now ts) \<le> length ts"
  by (simp add: pruneTransactionsLocked_def gm_rewrite_length)

lemma bind_transaction_effect:
  assumes "l' = bind_transaction U hmac l now tx email fp"
  shows "lm_buckets l' = lm_buckets l \<and> lm_cfg l' = lm_cfg l
    \<and> (gm_wf (lm_transactions l) \<longrightarrow> gm_wf (lm_transactions l'))
    \<and> int (length (lm_transactions l')) \<le> max (int (length (lm_transactions l))) (rc_MaxKeys (lm_cfg l))"
  using pruneTransactions_length [of now "lm_transactions l"]
  by (auto simp: assms bind_transaction_def Let_def length_update map_of_eq_None_iff)

lemma transaction_binding_effect:
  assumes "l' = fst (transaction_binding l now tx)"
  shows "lm_buckets l' = lm_buckets l \<and> lm_cfg l' = lm_cfg l
    \<and> (gm_wf (lm_transactions l) \<longrightarrow> gm_wf (lm_transactions l'))
    \<and> length (lm_transactions l') \<le> length (lm_transactions l)"
  by (auto simp: assms transaction_binding_def length_delete_le split: option.splits)

lemma exec_step_cases:
  assumes "exec_step U hmac l now s = (l', ks)"
  obtains (admit) w dims ok where "step_budget U hmac l s = Some (w, dims)" "admit l now w dims = (l', ok)"
      "ks = (if ok then map fst dims else [])"
  | (other) "step_budget U hmac l s = None" "ks = []" "lm_buckets l' = lm_buckets l" "lm_cfg l' = lm_cfg l"
      "gm_wf (lm_transactions l) \<longrightarrow> gm_wf (lm_transactions l')"
      "int (length (lm_transactions l')) \<le> max (int (length (lm_transactions l))) (rc_MaxKeys (lm_cfg l))"
proof (cases "step_budget U hmac l s")
  case (Some wd)
  then obtain w dims where wd: "step_budget U hmac l s = Some (w, dims)" by (cases wd) auto
  obtain l1 ok where "admit l now w dims = (l1, ok)" by (cases "admit l now w dims") auto
  with wd assms admit show ?thesis
    by (cases s) (auto simp: step_keys_def allow_def allowHandoff_def split: option.splits)
next
  case None
  have "max (int (length (lm_transactions l))) x \<ge> int (length (lm_transactions l))" for x by simp
  then show ?thesis
    using None assms other bind_transaction_effect [of l' U hmac l now] transaction_binding_effect [of l' l now]
    by (cases s) (fastforce simp: step_keys_def allow_def Let_def split: option.splits)+
qed

definition shortest_window :: "RateConfig \<Rightarrow> duration" where
  "shortest_window cfg = min (rp_Window (rc_Request cfg)) (min (rp_Window (rc_Verify cfg)) (hp_Window (rc_Handoff cfg)))"

lemma step_window: "step_budget U hmac l s = Some (w, dims) \<Longrightarrow> shortest_window (lm_cfg l) \<le> w"
  by (cases s) (auto simp: shortest_window_def rate_policy_def split: if_splits)

text \<open>Every bucket whose budget has the shortest window represents the history of its key.\<close>

definition tracks :: "RateConfig \<Rightarrow> time \<Rightarrow> (string \<Rightarrow> time list) \<Rightarrow> Limiter \<Rightarrow> bool" where
  "tracks cfg now H l \<longleftrightarrow> lm_cfg l = cfg \<and> limiter_wf l \<and>
     (\<forall>k W n. key_budget cfg k = Some (W, n) \<longrightarrow> W \<le> shortest_window cfg \<longrightarrow>
        represents W now (H k) (bucket_events (lm_buckets l) k) \<and> (\<forall>t. int (recent W t (H k)) \<le> n))"

lemma admit_frame:
  "admit l now w dims = (l', ok) \<Longrightarrow> lm_cfg l' = lm_cfg l \<and> lm_key l' = lm_key l
    \<and> lm_transactions l' = pruneTransactionsLocked now (lm_transactions l)
    \<and> (limiter_wf l \<longrightarrow> limiter_wf l')"
  by (auto simp: admit_def Let_def limiter_wf_def split: if_splits)

lemma exec_step_tracks:
  assumes tr: "tracks cfg now0 H l" and pos: "0 < shortest_window cfg" and le: "now0 \<le> now"
    and ex: "exec_step U hmac l now s = (l', ks)"
  shows "tracks cfg now (\<lambda>k. H k @ (if k \<in> set ks then [now] else [])) l'"
  using ex
proof (cases rule: exec_step_cases)
  case (admit w dims ok)
  have wf: "gm_wf (lm_buckets l)" and cfg: "lm_cfg l = cfg" using tr by (auto simp: tracks_def limiter_wf_def)
  note eff = admit_buckets [OF admit(2) wf step_budget_distinct [OF admit(1)]]
  have "represents W now (H k @ (if k \<in> set ks then [now] else [])) (bucket_events (lm_buckets l') k)
      \<and> (\<forall>t. int (recent W t (H k @ (if k \<in> set ks then [now] else []))) \<le> n)"
    if k: "key_budget cfg k = Some (W, n)" "W \<le> shortest_window cfg" for k W n
  proof -
    let ?b = "retained (bucket_events (lm_buckets l) k) (now - w)"
    have old: "represents W now0 (H k) (bucket_events (lm_buckets l) k)" "\<forall>t. int (recent W t (H k)) \<le> n"
      using tr k by (auto simp: tracks_def)
    have Ww: "W \<le> w" using step_window [OF admit(1)] k(2) cfg by simp
    then have rep: "represents W now (H k) ?b"
      by (intro loop_window.retain_represents [OF old(1) le]) simp
    show ?thesis
    proof (cases "k \<in> set ks")
      case True
      then obtain m where m: "(k, m) \<in> set dims" "ok" using admit(3) by (auto split: if_splits)
      then have mn: "w = W" "m = n" using step_budget_keys [OF admit(1) m(1)] k cfg by auto
      have "int (length ?b) < n" using eff(2) m mn by blast
      then have "length ?b < nat n" "\<forall>t. recent W t (H k) \<le> nat n" using old(2) by (auto simp: nat_le_iff le_nat_iff)
      moreover have "0 < W" using mn step_window [OF admit(1)] pos cfg by simp
      ultimately have "represents W now (H k @ [now]) (?b @ [now]) \<and> (\<forall>t. recent W t (H k @ [now]) \<le> nat n)"
        by (intro loop_window.admit_bound [OF rep])
      then show ?thesis using True m(2) admit(3) eff(1) \<open>int (length ?b) < n\<close> by (auto simp: nat_le_iff le_nat_iff)
    next
      case False
      then show ?thesis using rep old(2) eff(1) admit(3) by auto
    qed
  qed
  then show ?thesis using tr admit_frame [OF admit(2)] by (auto simp: tracks_def)
next
  case other
  then show ?thesis using tr le by (auto simp: tracks_def limiter_wf_def intro: represents_later)
qed

lemma limiter_run_tracks:
  assumes "tracks cfg now0 H l" "0 < shortest_window cfg" "sorted (now0 # map fst ss)"
    "limiter_run U hmac l ss = (l', h)"
  shows "\<exists>now. tracks cfg now (\<lambda>k. H k @ charged_at k h) l'"
  using assms
proof (induction ss arbitrary: now0 H l h)
  case (Cons p ss)
  obtain now s where p: "p = (now, s)" by (cases p)
  obtain l1 ks where e: "exec_step U hmac l now s = (l1, ks)" by fastforce
  obtain h' where h: "limiter_run U hmac l1 ss = (l', h')" "h = (now, ks) # h'"
    using Cons.prems(4) p e by (auto split: prod.splits)
  have "tracks cfg now (\<lambda>k. H k @ (if k \<in> set ks then [now] else [])) l1"
    using Cons.prems p by (intro exec_step_tracks [OF _ _ _ e]) auto
  from Cons.IH [OF this Cons.prems(2) _ h(1)] Cons.prems(3) p
  obtain now' where "tracks cfg now' (\<lambda>k. (H k @ (if k \<in> set ks then [now] else [])) @ charged_at k h') l'"
    by auto
  moreover have "(\<lambda>k. (H k @ (if k \<in> set ks then [now] else [])) @ charged_at k h') = (\<lambda>k. H k @ charged_at k h)"
    using h(2) by (auto simp: charged_at_def)
  ultimately show ?case by auto
qed (auto simp: charged_at_def)

lemma validPolicyD:
  "validPolicy p \<Longrightarrow> 0 < rp_Window p \<and> 0 < rp_PerIP p \<and> 0 < fingerprintLimit p \<and> 0 < rp_PerEmail p
    \<and> 0 < rp_PerApp p \<and> 0 < rp_Global p"
  by (auto simp: validPolicy_def valid_budget_def fingerprintLimit_def split: if_splits)

lemma validHandoffPolicyD:
  "validHandoffPolicy p \<Longrightarrow> 0 < hp_Window p \<and> 0 < hp_PerIP p \<and> 0 < hp_PerFingerprint p
    \<and> 0 < hp_PerApp p \<and> 0 < hp_Global p"
  by (auto simp: validHandoffPolicy_def valid_budget_def split: if_splits)

lemma NewLimiter_SomeE:
  assumes "NewLimiter key cfg0 = Some l"
  obtains cfg where "l = \<lparr>lm_key = key, lm_cfg = cfg, lm_buckets = [], lm_transactions = []\<rparr>"
    "validPolicy (rc_Request cfg)" "validPolicy (rc_Verify cfg)" "validHandoffPolicy (rc_Handoff cfg)"
    "5 \<le> rc_MaxKeys cfg" "0 < shortest_window cfg"
proof -
  define cfg where "cfg = (if zeroHandoffPolicy (rc_Handoff cfg0)
      then cfg0\<lparr>rc_Handoff := handoffFromRequest (rc_Request cfg0)\<rparr> else cfg0)"
  have c: "validPolicy (rc_Request cfg) \<and> validPolicy (rc_Verify cfg) \<and> validHandoffPolicy (rc_Handoff cfg)
      \<and> 5 \<le> rc_MaxKeys cfg \<and> l = \<lparr>lm_key = key, lm_cfg = cfg, lm_buckets = [], lm_transactions = []\<rparr>"
    using assms unfolding NewLimiter_def Let_def cfg_def [symmetric] by (simp split: if_split_asm)
  then have "0 < shortest_window cfg"
    using validPolicyD validHandoffPolicyD by (simp add: shortest_window_def)
  with c that show ?thesis by blast
qed

lemma key_budget_nonneg:
  assumes "key_budget cfg k = Some (W, n)" "validPolicy (rc_Request cfg)" "validPolicy (rc_Verify cfg)"
    "validHandoffPolicy (rc_Handoff cfg)"
  shows "0 \<le> n"
proof -
  have "\<exists>pre. (pre, W, n) \<in> set (key_table cfg)"
    using assms(1) by (auto simp: key_budget_def find_Some_iff) (metis nth_mem)
  moreover have "list_all (\<lambda>(pre, W, n). 0 \<le> n) (key_table cfg)"
    using validPolicyD [OF assms(2)] validPolicyD [OF assms(3)] validHandoffPolicyD [OF assms(4)]
    by (simp add: key_table_def Let_def)
  ultimately show ?thesis by (auto simp: list_all_iff)
qed

lemma NewLimiter_tracks:
  assumes "NewLimiter key cfg = Some l"
  shows "tracks (lm_cfg l) now (\<lambda>k. []) l" and "0 < shortest_window (lm_cfg l)"
  using assms
  by (auto elim!: NewLimiter_SomeE intro: key_budget_nonneg
      simp: tracks_def limiter_wf_def bucket_events_def recent_def)

lemma admit_length:
  assumes "admit l now w dims = (l', ok)" "length dims \<le> 5"
  shows "int (length (lm_buckets l')) \<le> max (int (length (lm_buckets l))) (rc_MaxKeys (lm_cfg l) + 4)"
proof -
  let ?bs = "pruneLocked (now - w) (lm_buckets l)"
  let ?new = "filter (\<lambda>k. k \<notin> gm_keys ?bs) (map fst dims)"
  have pl: "length ?bs \<le> length (lm_buckets l)" by (simp add: pruneLocked_def gm_rewrite_length)
  have "length ?new \<le> 5"
    using assms(2) order_trans [OF length_filter_le [of "\<lambda>k. k \<notin> gm_keys ?bs" "map fst dims"]] by simp
  moreover have "int (length ?bs) < rc_MaxKeys (lm_cfg l)"
    if "within_limits (rc_MaxKeys (lm_cfg l)) ?bs dims" "?new \<noteq> []"
    using that by (auto simp: within_limits_iff list_all_iff map_of_eq_None_iff filter_empty_conv)
  moreover have "length (charge now (map fst dims) ?bs) \<le> length ?bs + length ?new" by (rule length_charge)
  ultimately show ?thesis
    using assms(1) pl by (cases "?new = []") (auto simp: admit_def Let_def split: if_splits)
qed

lemma step_budget_length: "step_budget U hmac l s = Some (w, dims) \<Longrightarrow> length dims \<le> 5"
  by (cases s) (auto simp: allow_dims_def handoff_dims_def Let_def split: option.splits)

definition within_memory :: "Limiter \<Rightarrow> bool" where
  "within_memory l \<longleftrightarrow> int (length (lm_buckets l)) \<le> rc_MaxKeys (lm_cfg l) + 4
     \<and> int (length (lm_transactions l)) \<le> rc_MaxKeys (lm_cfg l)"

lemma exec_step_memory:
  assumes "exec_step U hmac l now s = (l', ks)" "within_memory l"
  shows "within_memory l' \<and> lm_cfg l' = lm_cfg l"
  using assms(1)
proof (cases rule: exec_step_cases)
  case (admit w dims ok)
  then show ?thesis
    using admit_frame [OF admit(2)] admit_length [OF admit(2) step_budget_length [OF admit(1)]] assms(2)
      pruneTransactions_length [of now "lm_transactions l"]
    by (auto simp: within_memory_def)
qed (use assms in \<open>auto simp: within_memory_def\<close>)

lemma limiter_run_memory:
  "limiter_run U hmac l ss = (l', h) \<Longrightarrow> within_memory l \<Longrightarrow> within_memory l' \<and> lm_cfg l' = lm_cfg l"
proof (induction ss arbitrary: l h)
  case (Cons p ss)
  obtain now s where p: "p = (now, s)" by (cases p)
  obtain l1 ks where e: "exec_step U hmac l now s = (l1, ks)" by fastforce
  with Cons.prems p obtain h' where "limiter_run U hmac l1 ss = (l', h')" by (auto split: prod.splits)
  with Cons.IH exec_step_memory [OF e Cons.prems(2)] show ?case by auto
qed simp

section \<open>Properties\<close>

text \<open>C7. Rolling budgets: in every execution of a fresh limiter whose sections run in the order of
  their clock readings, and for every window that ends at any time, the number of admitted calls
  charged to a key within that window is at most the limit of that key, provided the key's kind has
  the shortest of the three configured windows (with the default configuration every kind has).\<close>

theorem limiter_window_bound:
  assumes "NewLimiter key cfg = Some l"
    and "sorted (map fst steps)" and "limiter_run U hmac l steps = (l', h)"
    and "step_budget U hmac l s = Some (W, dims)" "(k, n) \<in> set dims"
    and "W = shortest_window (lm_cfg l)"
  shows "int (recent W t (charged_at k h)) \<le> n"
proof -
  define now0 where "now0 = (case steps of [] \<Rightarrow> 0 | p # _ \<Rightarrow> fst p)"
  have "sorted (now0 # map fst steps)" using assms(2) by (cases steps) (auto simp: now0_def)
  from limiter_run_tracks [OF NewLimiter_tracks [OF assms(1)] this assms(3)]
  obtain now where "tracks (lm_cfg l) now (\<lambda>k. [] @ charged_at k h) l'" by auto
  with step_budget_keys [OF assms(4,5)] assms(6) show ?thesis by (auto simp: tracks_def)
qed

text \<open>One admission decides on what every bucket retains of the last window: it succeeds exactly
  if each of its keys is below its limit and is known or finds room, and then charges each key once;
  a denied call charges nothing.\<close>

theorem limiter_allow_effect:
  assumes "allow U hmac l now kind remote fp mail app = (l', ok)" "limiter_wf l"
    and "rate_policy l kind = Some p"
    and "dims = allow_dims U hmac l kind p remote fp mail app"
  shows "bucket_events (lm_buckets l') k = retained (bucket_events (lm_buckets l) k) (now - rp_Window p)
      @ (if ok \<and> k \<in> fst ` set dims then [now] else [])
    \<and> (ok \<longleftrightarrow> (\<forall>(k, n) \<in> set dims.
          int (length (retained (bucket_events (lm_buckets l) k) (now - rp_Window p))) < n
          \<and> (k \<in> gm_keys (pruneLocked (now - rp_Window p) (lm_buckets l))
             \<or> int (length (pruneLocked (now - rp_Window p) (lm_buckets l))) < rc_MaxKeys (lm_cfg l))))
    \<and> limiter_wf l'"
proof -
  have wf: "gm_wf (lm_buckets l)" using assms(2) by (simp add: limiter_wf_def)
  have ad: "admit l now (rp_Window p) dims = (l', ok)" using assms(1,3,4) by (simp add: allow_def)
  have dist: "distinct (map fst dims)" using assms(4) allow_keys_distinct by simp
  have "ok \<longleftrightarrow> within_limits (rc_MaxKeys (lm_cfg l)) (pruneLocked (now - rp_Window p) (lm_buckets l)) dims"
    using ad by (auto simp: admit_def Let_def split: if_splits)
  also have "\<dots> \<longleftrightarrow> (\<forall>(k, n) \<in> set dims.
          int (length (retained (bucket_events (lm_buckets l) k) (now - rp_Window p))) < n
          \<and> (k \<in> gm_keys (pruneLocked (now - rp_Window p) (lm_buckets l))
             \<or> int (length (pruneLocked (now - rp_Window p) (lm_buckets l))) < rc_MaxKeys (lm_cfg l)))"
    unfolding within_limits_iff list_all_iff bucket_events_prune [OF wf] map_of_eq_None_iff by blast
  finally show ?thesis
    using admit_buckets(1) [OF ad wf dist, of k] admit_frame [OF ad] assms(2) by (simp only: set_map)
qed

theorem limiter_allow_effect_witness:
  "snd (allow id (\<lambda>k v. [length v]) \<lparr>lm_key = [1], lm_cfg = DefaultConfig, lm_buckets = [], lm_transactions = []\<rparr>
     5 OTPRequest ''192.0.2.1:99'' ''f'' ''m'' ''notes'')"
proof -
  let ?l = "\<lparr>lm_key = [1], lm_cfg = DefaultConfig, lm_buckets = [], lm_transactions = []\<rparr>"
  let ?r = "allow id (\<lambda>k v. [length v]) ?l 5 OTPRequest ''192.0.2.1:99'' ''f'' ''m'' ''notes''"
  have wf: "limiter_wf ?l" by (simp add: limiter_wf_def)
  have pol: "rate_policy ?l OTPRequest = Some (rc_Request DefaultConfig)" by (simp add: rate_policy_def)
  have r: "allow id (\<lambda>k v. [length v]) ?l 5 OTPRequest ''192.0.2.1:99'' ''f'' ''m'' ''notes'' = (fst ?r, snd ?r)" by simp
  have "snd ?r \<longleftrightarrow> (\<forall>(k, n) \<in> set (allow_dims id (\<lambda>k v. [length v]) ?l OTPRequest (rc_Request DefaultConfig)
          ''192.0.2.1:99'' ''f'' ''m'' ''notes'').
        int (length (retained (bucket_events [] k) (5 - 10 * minute))) < n
        \<and> (k \<in> gm_keys (pruneLocked (5 - 10 * minute) []) \<or> int (length (pruneLocked (5 - 10 * minute) [])) < 10000))"
    using limiter_allow_effect [OF r wf pol refl] by (simp add: DefaultConfig_def)
  then show ?thesis
    by (simp add: allow_dims_def bucket_events_def retained_def pruneLocked_def DefaultConfig_def fingerprintLimit_def)
qed

text \<open>Memory: no execution of a fresh limiter holds more than \<open>MaxKeys + 4\<close> buckets or more than
  \<open>MaxKeys\<close> transaction bindings. The bound on buckets is attained, so the documented bound
  \<open>MaxKeys\<close> is not: the room is checked key by key before any of the keys is inserted.\<close>

theorem limiter_memory_bound:
  assumes "NewLimiter key cfg = Some l" "limiter_run U hmac l steps = (l', h)"
  shows "int (length (lm_buckets l')) \<le> rc_MaxKeys (lm_cfg l) + 4
    \<and> int (length (lm_transactions l')) \<le> rc_MaxKeys (lm_cfg l)"
proof -
  have "within_memory l" using assms(1) by (auto elim!: NewLimiter_SomeE simp: within_memory_def)
  then show ?thesis using limiter_run_memory [OF assms(2)] by (auto simp: within_memory_def)
qed

definition small_limiter :: Limiter where
  "small_limiter = \<lparr>lm_key = [1], lm_cfg = DefaultConfig\<lparr>rc_MaxKeys := 5\<rparr>, lm_buckets = [], lm_transactions = []\<rparr>"

definition small_steps :: "(time \<times> limiter_step) list" where
  "small_steps = [(1, StepHandoff ''192.0.2.1:99'' ''f'' ''notes''),
     (2, StepAllow OTPRequest ''192.0.2.1:99'' ''f'' ''m'' ''notes''),
     (3, StepAllow OTPRequest ''192.0.2.1:99'' ''f'' ''m'' ''notes'')]"

definition plain_hmac :: hmac_fun where "plain_hmac k v = [length v]"

lemma small_run:
  "NewLimiter [1] (DefaultConfig\<lparr>rc_MaxKeys := 5\<rparr>) = Some small_limiter"
  "length (lm_buckets (fst (limiter_run id plain_hmac small_limiter small_steps))) = 9"
  "charged_at ''otp_request:email:m'' (snd (limiter_run id plain_hmac small_limiter small_steps)) = [2, 3]"
  by code_simp+

theorem limiter_memory_bound_witness:
  "length (lm_buckets (fst (limiter_run id plain_hmac small_limiter small_steps))) = 9
   \<and> int (length (lm_buckets (fst (limiter_run id plain_hmac small_limiter small_steps)))) \<le> 5 + 4"
proof -
  obtain l' h where r: "limiter_run id plain_hmac small_limiter small_steps = (l', h)" by fastforce
  from limiter_memory_bound [OF small_run(1) r] small_run(2) r show ?thesis
    by (simp add: small_limiter_def)
qed

theorem limiter_window_bound_witness:
  "int (recent (10 * minute) 100 (charged_at ''otp_request:email:m''
     (snd (limiter_run id plain_hmac small_limiter small_steps)))) \<le> 3"
proof -
  obtain l' h where r: "limiter_run id plain_hmac small_limiter small_steps = (l', h)" by fastforce
  let ?s = "StepAllow OTPRequest ''192.0.2.1:99'' ''f'' ''m'' ''notes''"
  let ?d = "allow_dims id plain_hmac small_limiter OTPRequest (rc_Request DefaultConfig) ''192.0.2.1:99'' ''f'' ''m'' ''notes''"
  have b: "step_budget id plain_hmac small_limiter ?s = Some (10 * minute, ?d)"
    by (simp add: rate_policy_def small_limiter_def DefaultConfig_def)
  have "(''otp_request:email:m'', 3) \<in> set ?d"
    by (simp add: allow_dims_def OTPRequest_def DefaultConfig_def)
  moreover have "sorted (map fst small_steps)" by (simp add: small_steps_def)
  moreover have "10 * minute = shortest_window (lm_cfg small_limiter)"
    by (simp add: shortest_window_def small_limiter_def DefaultConfig_def)
  ultimately have "int (recent (10 * minute) 100 (charged_at ''otp_request:email:m'' h)) \<le> 3"
    by (intro limiter_window_bound [OF small_run(1) _ r b])
  then show ?thesis using r by simp
qed

end
