(* ===== verification/Otp_Challenge.thy ===== *)
theory Otp_Challenge
  imports Go_Strings
begin

text \<open>
  The one-time-code challenges of the login, \<open>internal/otp/otp.go\<close>: the service, its store
  interface as a record of operations, and the memory store. HMAC-SHA256 is the parameter \<open>mac\<close>;
  the random reader is an argument (\<open>None\<close> when it fails). The callback that creates a session acts on
  a world of type \<open>'w\<close> and reports success.
\<close>

section \<open>Errors\<close>

datatype otp_error = OtpInvalid | OtpUnavailable

datatype failure_error =
    IssuanceFailure string | Wrapped failure_error | ErrEntropy | ErrPersistence | OtherError

definition IssuanceEntropy :: string where "IssuanceEntropy = ''entropy''"
definition IssuancePersistenceBeginWriteLock :: string where
  "IssuancePersistenceBeginWriteLock = ''persistence_begin_write_lock''"

definition failure_is :: "string \<Rightarrow> failure_error \<Rightarrow> bool" where
  "failure_is category target =
     (case target of
        ErrEntropy \<Rightarrow> category = IssuanceEntropy
      | ErrPersistence \<Rightarrow> category \<noteq> IssuanceEntropy
      | _ \<Rightarrow> False)"

text \<open>\<open>errors.As\<close> and \<open>errors.Is\<close> walk the chain of wrapped errors.\<close>

fun errors_As :: "failure_error \<Rightarrow> string option" where
  "errors_As (IssuanceFailure c) = Some c"
| "errors_As (Wrapped e) = errors_As e"
| "errors_As _ = None"

fun errors_Is :: "failure_error \<Rightarrow> failure_error \<Rightarrow> bool" where
  "errors_Is (IssuanceFailure c) target = (IssuanceFailure c = target \<or> failure_is c target)"
| "errors_Is (Wrapped e) target = (Wrapped e = target \<or> errors_Is e target)"
| "errors_Is e target = (e = target)"

definition FailureCategory :: "failure_error \<Rightarrow> string" where
  "FailureCategory err =
     (case errors_As err of
        Some c \<Rightarrow> c
      | None \<Rightarrow> if errors_Is err ErrEntropy then IssuanceEntropy else IssuancePersistenceBeginWriteLock)"

section \<open>Challenges and the store interface\<close>

record Challenge =
  ch_ID :: string
  ch_AppID :: string
  ch_Email :: string
  ch_CodeHash :: "nat list"
  ch_ExpiresAt :: time
  ch_Attempts :: int
  ch_MaxAttempts :: int
  ch_ConsumedAt :: "time option"
  ch_InvalidatedAt :: "time option"

record Message =
  ms_AppID :: string
  ms_Email :: string
  ms_Code :: string
  ms_ChallengeID :: string

type_synonym 'w session_fun = "Challenge \<Rightarrow> 'w \<Rightarrow> 'w \<times> bool"

record ('s, 'w) OtpStore =
  os_Create :: "'s \<Rightarrow> Challenge \<Rightarrow> 's option"
  os_InvalidateActive :: "'s \<Rightarrow> string \<Rightarrow> string \<Rightarrow> time \<Rightarrow> 's option"
  os_Consume :: "'s \<Rightarrow> 'w \<Rightarrow> string \<Rightarrow> string \<Rightarrow> string \<Rightarrow> time \<Rightarrow> 'w session_fun \<Rightarrow> 's \<times> 'w \<times> bool"

record OtpService =
  sv_Key :: "nat list"
  sv_TTL :: duration
  sv_MaxAttempts :: int

section \<open>The memory store\<close>

type_synonym challenges = "(string, Challenge) gomap"

definition MemoryCreate :: "challenges \<Rightarrow> Challenge \<Rightarrow> challenges option" where
  "MemoryCreate m c = Some (AList.update (ch_ID c) c m)"

definition invalidate_one :: "string \<Rightarrow> string \<Rightarrow> time \<Rightarrow> string \<Rightarrow> Challenge \<Rightarrow> Challenge option" where
  "invalidate_one app email now cid c =
     (if ch_AppID c = app \<and> ch_Email c = email \<and> ch_ConsumedAt c = None \<and> ch_InvalidatedAt c = None
      then Some (c\<lparr>ch_InvalidatedAt := Some now\<rparr>) else Some c)"

definition MemoryInvalidateActive :: "challenges \<Rightarrow> string \<Rightarrow> string \<Rightarrow> time \<Rightarrow> challenges option" where
  "MemoryInvalidateActive m app email now = Some (gm_rewrite (invalidate_one app email now) m)"

definition MemoryConsume :: "challenges \<Rightarrow> 'w \<Rightarrow> string \<Rightarrow> string \<Rightarrow> string \<Rightarrow> time \<Rightarrow> 'w session_fun
      \<Rightarrow> challenges \<times> 'w \<times> bool" where
  "MemoryConsume m w app email cid now fn =
     (case map_of m cid of
        None \<Rightarrow> (m, w, False)
      | Some c \<Rightarrow>
          if ch_AppID c \<noteq> app \<or> ch_Email c \<noteq> email \<or> ch_ConsumedAt c \<noteq> None \<or> ch_InvalidatedAt c \<noteq> None
             \<or> \<not> now < ch_ExpiresAt c \<or> ch_Attempts c \<ge> ch_MaxAttempts c
          then (m, w, False)
          else (case fn c w of
                  (w', False) \<Rightarrow> (AList.update cid (c\<lparr>ch_Attempts := ch_Attempts c + 1\<rparr>) m, w', False)
                | (w', True) \<Rightarrow> (AList.update cid (c\<lparr>ch_ConsumedAt := Some now\<rparr>) m, w', True)))"

definition MemoryStore :: "(challenges, 'w) OtpStore" where
  "MemoryStore = \<lparr>os_Create = MemoryCreate, os_InvalidateActive = MemoryInvalidateActive,
     os_Consume = MemoryConsume\<rparr>"

section \<open>The service\<close>

type_synonym mac_fun = "nat list \<Rightarrow> string \<Rightarrow> nat list"

definition otp_hash :: "mac_fun \<Rightarrow> nat list \<Rightarrow> string \<Rightarrow> string \<Rightarrow> nat list" where
  "otp_hash mac key cid code = mac key (cid @ '':'' @ code)"

definition decimal_digit :: "nat \<Rightarrow> char" where
  "decimal_digit n = ''0123456789'' ! (n mod 10)"

text \<open>\<open>fmt.Sprintf("%06d", n)\<close> for \<open>n\<close> below a million.\<close>

definition six_digits :: "nat \<Rightarrow> string" where
  "six_digits n = map (\<lambda>p. decimal_digit (n div p)) [100000, 10000, 1000, 100, 10, 1]"

definition numericCode :: "nat option \<Rightarrow> string option" where
  "numericCode rnd = map_option six_digits rnd"

definition randomID :: "nat list option \<Rightarrow> string option" where
  "randomID rnd = map_option (\<lambda>b. ''otp_'' @ hex_encode b) rnd"

definition new_challenge :: "mac_fun \<Rightarrow> OtpService \<Rightarrow> string \<Rightarrow> string \<Rightarrow> string \<Rightarrow> string \<Rightarrow> time \<Rightarrow> Challenge" where
  "new_challenge mac sv appID email cid code now =
     (let ttl = (if sv_TTL sv \<le> 0 then 10 * minute else sv_TTL sv)
      in \<lparr>ch_ID = cid, ch_AppID = appID, ch_Email = email, ch_CodeHash = otp_hash mac (sv_Key sv) cid code,
          ch_ExpiresAt = now + ttl, ch_Attempts = 0,
          ch_MaxAttempts = (if sv_MaxAttempts sv = 0 then 5 else sv_MaxAttempts sv),
          ch_ConsumedAt = None, ch_InvalidatedAt = None\<rparr>)"

text \<open>\<open>Request\<close> returns the store, the messages handed to the outbox and its error. The result of the
  outbox is not visible to the caller.\<close>

definition OtpRequest :: "mac_fun \<Rightarrow> ('s, 'w) OtpStore option \<Rightarrow> OtpService \<Rightarrow> 's \<Rightarrow> nat option \<Rightarrow> nat list option
      \<Rightarrow> time \<Rightarrow> string \<Rightarrow> string \<Rightarrow> bool \<Rightarrow> bool \<Rightarrow> 's \<times> Message list \<times> otp_error option" where
  "OtpRequest mac store sv st rndCode rndID now appID email eligible hasOutbox =
     (case store of
        None \<Rightarrow> (st, [], Some OtpUnavailable)
      | Some ops \<Rightarrow>
          if sv_Key sv = [] then (st, [], Some OtpUnavailable)
          else case numericCode rndCode of
            None \<Rightarrow> (st, [], Some OtpUnavailable)
          | Some code \<Rightarrow>
              (case randomID rndID of
                 None \<Rightarrow> (st, [], Some OtpUnavailable)
               | Some cid \<Rightarrow>
                   (case os_InvalidateActive ops st appID email now of
                      None \<Rightarrow> (st, [], Some OtpUnavailable)
                    | Some st1 \<Rightarrow>
                        (case os_Create ops st1 (new_challenge mac sv appID email cid code now) of
                           None \<Rightarrow> (st1, [], Some OtpUnavailable)
                         | Some st2 \<Rightarrow>
                             (st2, if eligible \<and> hasOutbox
                                   then [\<lparr>ms_AppID = appID, ms_Email = email, ms_Code = code, ms_ChallengeID = cid\<rparr>]
                                   else [], None)))))"

definition check_code :: "mac_fun \<Rightarrow> OtpService \<Rightarrow> string \<Rightarrow> string \<Rightarrow> 'w session_fun \<Rightarrow> 'w session_fun" where
  "check_code mac sv cid code createSession c w =
     (if ch_CodeHash c \<noteq> otp_hash mac (sv_Key sv) cid code then (w, False) else createSession c w)"

definition OtpVerify :: "mac_fun \<Rightarrow> ('s, 'w) OtpStore option \<Rightarrow> OtpService \<Rightarrow> 's \<Rightarrow> 'w \<Rightarrow> time \<Rightarrow> string \<Rightarrow> string
      \<Rightarrow> string \<Rightarrow> string \<Rightarrow> 'w session_fun option \<Rightarrow> 's \<times> 'w \<times> bool" where
  "OtpVerify mac store sv st w now appID email cid code createSession =
     (case (store, createSession) of
        (Some ops, Some create) \<Rightarrow>
          if sv_Key sv = [] then (st, w, False)
          else os_Consume ops st w appID email cid now (check_code mac sv cid code create)
      | _ \<Rightarrow> (st, w, False))"

section \<open>The store contract\<close>

definition usable :: "Challenge \<Rightarrow> string \<Rightarrow> string \<Rightarrow> time \<Rightarrow> bool" where
  "usable c app email now \<longleftrightarrow> ch_AppID c = app \<and> ch_Email c = email \<and> ch_ConsumedAt c = None
     \<and> ch_InvalidatedAt c = None \<and> now < ch_ExpiresAt c \<and> ch_Attempts c < ch_MaxAttempts c"

locale otp_store =
  fixes ops :: "('s, 'w) OtpStore" and look :: "'s \<Rightarrow> string \<Rightarrow> Challenge option" and wf :: "'s \<Rightarrow> bool"
  assumes create: "wf s \<Longrightarrow> os_Create ops s c = Some s' \<Longrightarrow> wf s' \<and> look s' = (look s)(ch_ID c \<mapsto> c)"
    and invalidate: "wf s \<Longrightarrow> os_InvalidateActive ops s app email now = Some s' \<Longrightarrow>
      wf s' \<and> look s' cid = Option.bind (look s cid) (invalidate_one app email now cid)"
    and consume: "wf s \<Longrightarrow> os_Consume ops s w app email cid now fn = (s', w', ok) \<Longrightarrow>
      wf s' \<and>
      (case look s cid of
         None \<Rightarrow> look s' = look s \<and> w' = w \<and> \<not> ok
       | Some c \<Rightarrow>
           if usable c app email now
           then fn c w = (w', ok) \<and> look s' = (look s)(cid \<mapsto>
             (if ok then c\<lparr>ch_ConsumedAt := Some now\<rparr> else c\<lparr>ch_Attempts := ch_Attempts c + 1\<rparr>))
           else look s' = look s \<and> w' = w \<and> \<not> ok)"
begin

text \<open>What a verification does to every stored challenge.\<close>

lemma verify_effect:
  assumes "wf s" "OtpVerify mac (Some ops) sv s w now app email cid code (Some cs) = (s', w', ok)" "sv_Key sv \<noteq> []"
  shows "wf s' \<and>
      (case look s cid of
         None \<Rightarrow> look s' = look s \<and> w' = w \<and> \<not> ok
       | Some c \<Rightarrow>
           if usable c app email now
           then check_code mac sv cid code cs c w = (w', ok) \<and> look s' = (look s)(cid \<mapsto>
             (if ok then c\<lparr>ch_ConsumedAt := Some now\<rparr> else c\<lparr>ch_Attempts := ch_Attempts c + 1\<rparr>))
           else look s' = look s \<and> w' = w \<and> \<not> ok)"
  using consume [OF assms(1)] assms(2,3) by (simp add: OtpVerify_def)

lemma request_effect:
  assumes "wf s" "OtpRequest mac (Some ops) sv s rc ri now app email elig ob = (s', ms, None)"
  shows "\<exists>n b. rc = Some n \<and> ri = Some b \<and> wf s' \<and>
    look s' = (\<lambda>i. if i = ''otp_'' @ hex_encode b
                   then Some (new_challenge mac sv app email (''otp_'' @ hex_encode b) (six_digits n) now)
                   else Option.bind (look s i) (invalidate_one app email now i))
    \<and> (ms = [] \<or> ms = [\<lparr>ms_AppID = app, ms_Email = email, ms_Code = six_digits n, ms_ChallengeID = ''otp_'' @ hex_encode b\<rparr>])
    \<and> (elig \<and> ob \<longleftrightarrow> ms \<noteq> [])"
proof -
  obtain n b s1 where r: "rc = Some n" "ri = Some b" "os_InvalidateActive ops s app email now = Some s1"
    "os_Create ops s1 (new_challenge mac sv app email (''otp_'' @ hex_encode b) (six_digits n) now) = Some s'"
    "ms = (if elig \<and> ob then [\<lparr>ms_AppID = app, ms_Email = email, ms_Code = six_digits n,
        ms_ChallengeID = ''otp_'' @ hex_encode b\<rparr>] else [])"
    using assms(2) by (auto simp: OtpRequest_def numericCode_def randomID_def split: option.splits if_splits)
  have cid: "ch_ID (new_challenge mac sv app email i code now) = i" for i code
    by (simp add: new_challenge_def Let_def)
  show ?thesis
    using r invalidate [OF assms(1) r(3)] create [of s1, OF _ r(4)] cid by (auto simp: fun_eq_iff)
qed

end

definition challenge_look :: "challenges \<Rightarrow> string \<Rightarrow> Challenge option" where
  "challenge_look m = map_of m"

abbreviation challenges_wf :: "challenges \<Rightarrow> bool" where
  "challenges_wf m \<equiv> gm_wf m"

interpretation mem_otp: otp_store MemoryStore challenge_look challenges_wf
proof unfold_locales
  fix s s' :: challenges and c
  assume "gm_wf s" "os_Create MemoryStore s c = Some s'"
  then show "gm_wf s' \<and> challenge_look s' = (challenge_look s)(ch_ID c \<mapsto> c)"
    by (auto simp: MemoryStore_def MemoryCreate_def challenge_look_def update_conv')
next
  fix s s' :: challenges and app email now cid
  assume "gm_wf s" "os_InvalidateActive MemoryStore s app email now = Some s'"
  then show "gm_wf s' \<and> challenge_look s' cid = Option.bind (challenge_look s cid) (invalidate_one app email now cid)"
    by (auto simp: MemoryStore_def MemoryInvalidateActive_def challenge_look_def map_of_gm_rewrite)
next
  fix s s' :: challenges and w w' app email cid now fn ok
  assume wf: "gm_wf s" and c: "os_Consume MemoryStore s w app email cid now fn = (s', w', ok)"
  show "gm_wf s' \<and>
      (case challenge_look s cid of
         None \<Rightarrow> challenge_look s' = challenge_look s \<and> w' = w \<and> \<not> ok
       | Some c \<Rightarrow>
           if usable c app email now
           then fn c w = (w', ok) \<and> challenge_look s' = (challenge_look s)(cid \<mapsto>
             (if ok then c\<lparr>ch_ConsumedAt := Some now\<rparr> else c\<lparr>ch_Attempts := ch_Attempts c + 1\<rparr>))
           else challenge_look s' = challenge_look s \<and> w' = w \<and> \<not> ok)"
  proof (cases "map_of s cid")
    case None
    then show ?thesis using wf c by (simp add: MemoryStore_def MemoryConsume_def challenge_look_def)
  next
    case (Some ch)
    obtain w1 ok1 where fn: "fn ch w = (w1, ok1)" by fastforce
    show ?thesis
      using c wf Some fn
      by (cases ok1) (auto simp: MemoryStore_def MemoryConsume_def challenge_look_def usable_def update_conv'
          simp del: map_of_eq_Some_iff split: if_split_asm)
  qed
qed

section \<open>Executions over the memory store\<close>

datatype otp_step =
    RequestStep string string bool nat "nat list" time
  | VerifyStep string string string string time

text \<open>To count the attempts, the store is watched: \<open>watching\<close> hands the store a callback that runs the
  service's own one, comparison of the code included, and logs the challenge with the verdict each
  time the store calls it. Nothing else is recorded, so the log holds what \<open>Consume\<close> really evaluates,
  whatever its guards are. The session callback does not see the log.\<close>

type_synonym attempt_log = "(string \<times> bool) list"

definition watched :: "string \<Rightarrow> ('w \<times> attempt_log) session_fun \<Rightarrow> ('w \<times> attempt_log) session_fun" where
  "watched cid fn c w = (case fn c w of ((w', log), ok) \<Rightarrow> ((w', log @ [(cid, ok)]), ok))"

definition watching :: "('s, 'w \<times> attempt_log) OtpStore \<Rightarrow> ('s, 'w \<times> attempt_log) OtpStore" where
  "watching ops = ops\<lparr>os_Consume := \<lambda>st w app email cid now fn. os_Consume ops st w app email cid now (watched cid fn)\<rparr>"

definition unlogged :: "'w session_fun \<Rightarrow> ('w \<times> attempt_log) session_fun" where
  "unlogged cs c wl = (case cs c (fst wl) of (w', ok) \<Rightarrow> ((w', snd wl), ok))"

text \<open>A step returns the attempts it evaluated.\<close>

fun otp_exec :: "mac_fun \<Rightarrow> OtpService \<Rightarrow> 'w session_fun \<Rightarrow> challenges \<Rightarrow> 'w \<Rightarrow> otp_step
      \<Rightarrow> challenges \<times> 'w \<times> attempt_log" where
  "otp_exec mac sv cs s w (RequestStep app email elig n b now) =
     (fst (OtpRequest mac (Some (MemoryStore :: (challenges, 'w) OtpStore)) sv s (Some n) (Some b) now app email elig True),
      w, [])"
| "otp_exec mac sv cs s w (VerifyStep app email cid code now) =
     (case OtpVerify mac (Some (watching MemoryStore)) sv s (w, []) now app email cid code (Some (unlogged cs)) of
        (s', (w', log), ok) \<Rightarrow> (s', w', log))"

fun otp_run :: "mac_fun \<Rightarrow> OtpService \<Rightarrow> 'w session_fun \<Rightarrow> challenges \<Rightarrow> 'w \<Rightarrow> otp_step list
      \<Rightarrow> challenges \<times> 'w \<times> attempt_log" where
  "otp_run mac sv cs s w [] = (s, w, [])"
| "otp_run mac sv cs s w (st # sts) =
     (case otp_exec mac sv cs s w st of
        (s1, w1, l1) \<Rightarrow> (case otp_run mac sv cs s1 w1 sts of (s2, w2, l2) \<Rightarrow> (s2, w2, l1 @ l2)))"

fun request_id :: "otp_step \<Rightarrow> string list" where
  "request_id (RequestStep app email elig n b now) = [''otp_'' @ hex_encode b]"
| "request_id (VerifyStep app email cid code now) = []"

definition attempt_limit :: "OtpService \<Rightarrow> int" where
  "attempt_limit sv = (if sv_MaxAttempts sv = 0 then 5 else sv_MaxAttempts sv)"

definition attempts_of :: "string \<Rightarrow> attempt_log \<Rightarrow> bool list" where
  "attempts_of cid log = map snd (filter (\<lambda>e. fst e = cid) log)"

lemma attempts_of_simps [simp]:
  "attempts_of cid [] = []"
  "attempts_of cid (l @ l') = attempts_of cid l @ attempts_of cid l'"
  "attempts_of cid [(i, ok)] = (if i = cid then [ok] else [])"
  by (simp_all add: attempts_of_def)

text \<open>Watching changes nothing: the store and the world end as those of \<open>Verify\<close> on the plain store, and
  the log is the verdict on the stored challenge where the store calls back.\<close>

lemma watched_unlogged:
  "watched cid (check_code mac sv cid code (unlogged cs)) c (w, l) =
     (case check_code mac sv cid code cs c w of (w', ok) \<Rightarrow> ((w', l @ [(cid, ok)]), ok))"
  by (simp add: watched_def unlogged_def check_code_def split: prod.splits)

lemma exec_verify:
  assumes "gm_wf s" "sv_Key sv \<noteq> []" "otp_exec mac sv cs s w (VerifyStep app email cid code now) = (s', w', l)"
  obtains ok where "gm_wf s'"
    "OtpVerify mac (Some MemoryStore) sv s w now app email cid code (Some cs) = (s', w', ok)"
    "l = (case map_of s cid of None \<Rightarrow> [] | Some c \<Rightarrow> if usable c app email now then [(cid, ok)] else [])"
    "map_of s' = (case map_of s cid of None \<Rightarrow> map_of s | Some c \<Rightarrow> if usable c app email now
       then (map_of s)(cid \<mapsto> (if ok then c\<lparr>ch_ConsumedAt := Some now\<rparr> else c\<lparr>ch_Attempts := ch_Attempts c + 1\<rparr>))
       else map_of s)"
proof -
  let ?F = "watched cid (check_code mac sv cid code (unlogged cs))"
  obtain ok where c: "MemoryConsume s (w, []) app email cid now ?F = (s', (w', l), ok)"
    using assms(2,3) by (auto simp: OtpVerify_def watching_def MemoryStore_def split: prod.splits)
  then have "os_Consume MemoryStore s (w, []) app email cid now ?F = (s', (w', l), ok)"
    by (simp add: MemoryStore_def)
  note eff = mem_otp.consume [OF assms(1) this, unfolded challenge_look_def]
  have "MemoryConsume s w app email cid now (check_code mac sv cid code cs) = (s', w', ok)"
    using c by (auto simp: MemoryConsume_def watched_unlogged simp del: map_of_eq_Some_iff
        split: option.splits prod.splits if_splits bool.splits)
  then show thesis
    using eff assms(2) by (intro that [of ok])
      (auto simp: OtpVerify_def MemoryStore_def watched_unlogged simp del: map_of_eq_Some_iff
        split: option.splits if_splits prod.splits)
qed

text \<open>The stored counters agree with the log of evaluated attempts.\<close>

definition counters_agree :: "OtpService \<Rightarrow> Challenge option \<Rightarrow> bool list \<Rightarrow> bool" where
  "counters_agree sv co H \<longleftrightarrow>
     (case co of
       None \<Rightarrow> H = []
     | Some c \<Rightarrow> ch_MaxAttempts c = attempt_limit sv
         \<and> int (length (filter Not H)) = ch_Attempts c
         \<and> length (filter (\<lambda>x. x) H) = (if ch_ConsumedAt c = None then 0 else 1)
         \<and> int (length H) \<le> max 0 (attempt_limit sv))"

definition otp_agrees :: "OtpService \<Rightarrow> challenges \<Rightarrow> attempt_log \<Rightarrow> bool" where
  "otp_agrees sv s log \<longleftrightarrow> gm_wf s \<and> (\<forall>cid. counters_agree sv (map_of s cid) (attempts_of cid log))"

lemma filter_split_length: "length xs = length (filter Not xs) + length (filter (\<lambda>x. x) xs)"
  by (induction xs) auto

lemma request_agrees:
  assumes "otp_agrees sv s log" "sv_Key sv \<noteq> []" "map_of s (''otp_'' @ hex_encode b) = None"
  shows "otp_agrees sv (fst (otp_exec mac sv cs s w (RequestStep app email elig n b now))) log"
proof -
  let ?i = "''otp_'' @ hex_encode b"
  have wf: "gm_wf s" using assms(1) by (simp add: otp_agrees_def)
  obtain s' ms e where r: "OtpRequest mac (Some (MemoryStore :: (challenges, 'a) OtpStore)) sv s (Some n) (Some b) now app email elig True = (s', ms, e)"
    by (cases "OtpRequest mac (Some (MemoryStore :: (challenges, 'a) OtpStore)) sv s (Some n) (Some b) now app email elig True") auto
  then have "e = None"
    using assms(2) by (auto simp: OtpRequest_def numericCode_def randomID_def MemoryStore_def MemoryCreate_def
        MemoryInvalidateActive_def)
  note eff = mem_otp.request_effect [OF wf r [unfolded this]]
  then have wf': "gm_wf s'" and look: "map_of s' = (\<lambda>j. if j = ?i
                   then Some (new_challenge mac sv app email ?i (six_digits n) now)
                   else Option.bind (map_of s j) (invalidate_one app email now j))"
    by (auto simp: challenge_look_def)
  have "counters_agree sv (map_of s' cid) (attempts_of cid log)" for cid
  proof (cases "cid = ?i")
    case True
    have "attempts_of ?i log = []" using assms(1,3) by (auto simp: otp_agrees_def counters_agree_def dest: spec [of _ ?i])
    then show ?thesis using True look by (simp add: counters_agree_def new_challenge_def Let_def attempt_limit_def)
  next
    case False
    have "counters_agree sv (map_of s cid) (attempts_of cid log)" using assms(1) by (simp add: otp_agrees_def)
    then show ?thesis
      using look False
      by (cases "map_of s cid") (auto simp: counters_agree_def invalidate_one_def simp del: map_of_eq_Some_iff)
  qed
  then show ?thesis using r wf' by (simp add: otp_agrees_def)
qed

lemma verify_agrees:
  assumes "otp_agrees sv s log" "sv_Key sv \<noteq> []"
    and e: "otp_exec mac sv cs s w (VerifyStep app email cid code now) = (s', w', l)"
  shows "otp_agrees sv s' (log @ l) \<and> (\<forall>i. map_of s i = None \<longrightarrow> map_of s' i = None)"
proof -
  have wf: "gm_wf s" using assms(1) by (simp add: otp_agrees_def)
  obtain ok where wf': "gm_wf s'"
    and "OtpVerify mac (Some MemoryStore) sv s w now app email cid code (Some cs) = (s', w', ok)"
    and l: "l = (case map_of s cid of None \<Rightarrow> [] | Some c \<Rightarrow> if usable c app email now then [(cid, ok)] else [])"
    and eff: "map_of s' = (case map_of s cid of None \<Rightarrow> map_of s | Some c \<Rightarrow> if usable c app email now
       then (map_of s)(cid \<mapsto> (if ok then c\<lparr>ch_ConsumedAt := Some now\<rparr> else c\<lparr>ch_Attempts := ch_Attempts c + 1\<rparr>))
       else map_of s)"
    by (rule exec_verify [OF wf assms(2) e])
  show ?thesis
  proof (cases "map_of s cid")
    case None
    then show ?thesis using eff l assms(1) wf' by (simp add: otp_agrees_def)
  next
    case (Some c)
    show ?thesis
    proof (cases "usable c app email now")
      case False
      then show ?thesis using eff l assms(1) Some wf' by (simp add: otp_agrees_def)
    next
      case True
      then have m: "map_of s' = (map_of s)(cid \<mapsto>
          (if ok then c\<lparr>ch_ConsumedAt := Some now\<rparr> else c\<lparr>ch_Attempts := ch_Attempts c + 1\<rparr>))"
        and l': "l = [(cid, ok)]"
        using eff l Some by auto
      let ?H = "attempts_of cid log"
      have "counters_agree sv (Some c) ?H" using assms(1) Some unfolding otp_agrees_def by metis
      then have "counters_agree sv (map_of s' cid) (?H @ [ok])"
        using filter_split_length [of ?H] True m by (auto simp: counters_agree_def usable_def)
      then show ?thesis
        using m l' wf' assms(1) Some by (cases ok) (simp_all add: otp_agrees_def)
    qed
  qed
qed

lemma otp_run_agrees:
  assumes "otp_agrees sv s log" "sv_Key sv \<noteq> []" "otp_run mac sv cs s w sts = (s', w', l)"
    and "distinct (concat (map request_id sts))" "\<forall>i \<in> set (concat (map request_id sts)). map_of s i = None"
  shows "otp_agrees sv s' (log @ l)"
  using assms
proof (induction sts arbitrary: s w log l)
  case (Cons st sts)
  obtain s1 w1 l1 where e: "otp_exec mac sv cs s w st = (s1, w1, l1)" by (metis prod_cases3)
  obtain l2 where r: "otp_run mac sv cs s1 w1 sts = (s', w', l2)" "l = l1 @ l2"
    using Cons.prems(3) e by (auto split: prod.splits)
  have "otp_agrees sv s1 (log @ l1) \<and> (\<forall>i. map_of s i = None \<and> i \<notin> set (request_id st) \<longrightarrow> map_of s1 i = None)"
  proof (cases st)
    case st: (RequestStep app email elig n b now)
    have fresh: "map_of s (''otp_'' @ hex_encode b) = None" using Cons.prems(5) st by simp
    have ag: "otp_agrees sv s1 (log @ l1)"
      using request_agrees [OF Cons.prems(1,2) fresh, of mac cs w app email elig n now] e st by simp
    have wf: "gm_wf s" using Cons.prems(1) by (simp add: otp_agrees_def)
    have "map_of s1 i = None" if "map_of s i = None" "i \<noteq> ''otp_'' @ hex_encode b" for i
      using e st that wf Cons.prems(2)
      by (auto simp: OtpRequest_def numericCode_def randomID_def MemoryStore_def MemoryCreate_def new_challenge_def
          MemoryInvalidateActive_def update_conv' map_of_gm_rewrite Let_def)
    then show ?thesis using ag st by auto
  next
    case (VerifyStep app email cid code now)
    with verify_agrees [OF Cons.prems(1,2) e [unfolded VerifyStep]] show ?thesis by auto
  qed
  moreover have "set (request_id st) \<inter> set (concat (map request_id sts)) = {}"
    using Cons.prems(4) by auto
  ultimately show ?case
    using Cons.IH [OF _ Cons.prems(2) r(1), of "log @ l1"] Cons.prems(4,5) r(2) by auto
qed simp

lemma counters_bound:
  "counters_agree sv co H \<Longrightarrow> int (length H) \<le> max 0 (attempt_limit sv) \<and> length (filter (\<lambda>x. x) H) \<le> 1"
  by (auto simp: counters_agree_def split: option.splits if_splits)

lemma otp_log_known:
  "otp_agrees sv s log \<Longrightarrow> int (length (attempts_of cid log)) \<le> max 0 (attempt_limit sv)
    \<and> length (filter (\<lambda>x. x) (attempts_of cid log)) \<le> 1"
  unfolding otp_agrees_def by (intro counters_bound) blast

text \<open>A challenge that is consumed or invalidated stays so, until its identifier is issued again.\<close>

definition dead :: "challenges \<Rightarrow> string \<Rightarrow> bool" where
  "dead s cid \<longleftrightarrow> gm_wf s \<and> (\<exists>c. map_of s cid = Some c \<and> (ch_ConsumedAt c \<noteq> None \<or> ch_InvalidatedAt c \<noteq> None))"

lemma exec_dead:
  assumes "dead s cid" "sv_Key sv \<noteq> []" "cid \<notin> set (request_id st)" "otp_exec mac sv cs s w st = (s', w', l)"
  shows "dead s' cid"
proof -
  obtain c where c: "map_of s cid = Some c" "ch_ConsumedAt c \<noteq> None \<or> ch_InvalidatedAt c \<noteq> None" and wf: "gm_wf s"
    using assms(1) by (auto simp: dead_def)
  show ?thesis
  proof (cases st)
    case st: (RequestStep app email elig n b now)
    have "gm_wf s'" "map_of s' cid = Option.bind (map_of s cid) (invalidate_one app email now cid)"
      using assms(2-4) st wf
      by (auto simp: OtpRequest_def numericCode_def randomID_def MemoryStore_def MemoryCreate_def new_challenge_def
          MemoryInvalidateActive_def update_conv' map_of_gm_rewrite Let_def)
    then show ?thesis using c by (auto simp: dead_def invalidate_one_def)
  next
    case (VerifyStep app email i code now)
    obtain ok where wf': "gm_wf s'"
      and "OtpVerify mac (Some MemoryStore) sv s w now app email i code (Some cs) = (s', w', ok)"
      and "l = (case map_of s i of None \<Rightarrow> [] | Some c \<Rightarrow> if usable c app email now then [(i, ok)] else [])"
      and eff: "map_of s' = (case map_of s i of None \<Rightarrow> map_of s | Some c \<Rightarrow>
        if usable c app email now then (map_of s)(i \<mapsto>
          (if ok then c\<lparr>ch_ConsumedAt := Some now\<rparr> else c\<lparr>ch_Attempts := ch_Attempts c + 1\<rparr>))
        else map_of s)"
      by (rule exec_verify [OF wf assms(2) assms(4) [unfolded VerifyStep]])
    have "\<not> usable c app email now" using c by (auto simp: usable_def)
    then have "map_of s' cid = map_of s cid"
      using eff c(1) by (cases "i = cid") (auto simp del: map_of_eq_Some_iff split: option.splits if_splits)
    then show ?thesis using wf' c by (auto simp: dead_def)
  qed
qed

lemma run_dead:
  assumes "dead s cid" "sv_Key sv \<noteq> []" "cid \<notin> set (concat (map request_id sts))"
    "otp_run mac sv cs s w sts = (s', w', l)"
  shows "dead s' cid"
  using assms
proof (induction sts arbitrary: s w l)
  case (Cons st sts)
  obtain s1 w1 l1 where e: "otp_exec mac sv cs s w st = (s1, w1, l1)" by (metis prod_cases3)
  with Cons.prems exec_dead [OF Cons.prems(1,2) _ e] Cons.IH [of s1] show ?case by (auto split: prod.splits)
qed simp

lemma verify_dead:
  assumes "dead s cid" "sv_Key sv \<noteq> []"
  shows "OtpVerify mac (Some MemoryStore) sv s w now app email cid code (Some cs) = (s, w, False)"
  using assms by (auto simp: dead_def OtpVerify_def MemoryStore_def MemoryConsume_def)

section \<open>Properties\<close>

text \<open>C5. Guessing bound and single use: in every execution of requests and verifications whose generated
  identifiers are distinct, the store runs the service's comparison at most \<open>MaxAttempts\<close> times (five by
  default) on a challenge, counting every call of it, and at most one of these calls succeeds and consumes
  the challenge.\<close>

theorem otp_attempts_bounded:
  assumes "sv_Key sv \<noteq> []" "distinct (concat (map request_id sts))"
    and "otp_run mac sv cs [] w sts = (s, w', log)"
  shows "int (length (attempts_of cid log)) \<le> max 0 (attempt_limit sv)
    \<and> length (filter (\<lambda>x. x) (attempts_of cid log)) \<le> 1"
proof -
  have "otp_agrees sv [] []" by (simp add: otp_agrees_def counters_agree_def)
  from otp_run_agrees [OF this assms(1,3,2)] have "otp_agrees sv s log" by simp
  then show ?thesis by (rule otp_log_known)
qed

definition demo_mac :: mac_fun where "demo_mac key v = map of_char v"

definition demo_otp :: OtpService where
  "demo_otp = \<lparr>sv_Key = [1], sv_TTL = 0, sv_MaxAttempts = 2\<rparr>"

definition demo_cs :: "nat session_fun" where "demo_cs c n = (n + 1, True)"

definition demo_otp_steps :: "otp_step list" where
  "demo_otp_steps = [RequestStep ''a1'' ''o@e.org'' True 42 [7] 100,
     VerifyStep ''a1'' ''o@e.org'' ''otp_07'' ''000001'' 101,
     VerifyStep ''a1'' ''o@e.org'' ''otp_07'' ''000042'' 102,
     VerifyStep ''a1'' ''o@e.org'' ''otp_07'' ''000042'' 103]"

theorem otp_attempts_bounded_witness:
  "attempts_of ''otp_07'' (snd (snd (otp_run demo_mac demo_otp demo_cs [] 0 demo_otp_steps))) = [False, True]
   \<and> int (length (attempts_of ''otp_07'' (snd (snd (otp_run demo_mac demo_otp demo_cs [] 0 demo_otp_steps))))) \<le> 2"
proof -
  have log: "snd (snd (otp_run demo_mac demo_otp demo_cs [] 0 demo_otp_steps)) = [(''otp_07'', False), (''otp_07'', True)]"
    by code_simp
  have d: "distinct (concat (map request_id demo_otp_steps))" "sv_Key demo_otp \<noteq> []" by code_simp+
  obtain s w l where r: "otp_run demo_mac demo_otp demo_cs [] 0 demo_otp_steps = (s, w, l)" by (metis prod_cases3)
  from otp_attempts_bounded [OF d(2,1) r, of "''otp_07''"] show ?thesis
    using log r by (simp add: attempt_limit_def demo_otp_def attempts_of_def)
qed

text \<open>C6. Supersession: once a new code was requested for an app and an e-mail address, no earlier
  challenge of that pair can be verified any more, with any code and after any further requests and
  verifications, and such an attempt creates no session.\<close>

theorem otp_request_supersedes:
  assumes "sv_Key sv \<noteq> []" "gm_wf s"
    and "map_of s cid = Some c" "ch_AppID c = app" "ch_Email c = email"
    and "otp_run mac sv cs s w (RequestStep app email elig n b now # sts) = (s', w', log)"
    and "cid \<notin> set (concat (map request_id (RequestStep app email elig n b now # sts)))"
  shows "OtpVerify mac (Some MemoryStore) sv s' w'' now' app' email' cid code (Some cs') = (s', w'', False)"
proof -
  obtain s1 w1 l1 where e: "otp_exec mac sv cs s w (RequestStep app email elig n b now) = (s1, w1, l1)" by (metis prod_cases3)
  then obtain l2 where r: "otp_run mac sv cs s1 w1 sts = (s', w', l2)" using assms(6) by (auto split: prod.splits)
  have "gm_wf s1" "map_of s1 cid = Option.bind (map_of s cid) (invalidate_one app email now cid)"
    using e assms(1,2,7)
    by (auto simp: OtpRequest_def numericCode_def randomID_def MemoryStore_def MemoryCreate_def new_challenge_def
        MemoryInvalidateActive_def update_conv' map_of_gm_rewrite Let_def)
  then have "dead s1 cid" using assms(3-5) by (auto simp: dead_def invalidate_one_def)
  then have "dead s' cid" using run_dead [OF _ assms(1) _ r] assms(7) by simp
  then show ?thesis using assms(1) by (rule verify_dead)
qed

definition demo_challenge :: Challenge where
  "demo_challenge = new_challenge demo_mac demo_otp ''a1'' ''o@e.org'' ''otp_07'' ''000042'' 100"

theorem otp_request_supersedes_witness:
  "\<exists>s. OtpVerify demo_mac (Some MemoryStore) demo_otp s 5 101 ''a1'' ''o@e.org'' ''otp_07'' ''000042'' (Some demo_cs) = (s, 5, False)
    \<and> length s = 2"
proof -
  let ?s = "[(''otp_07'', demo_challenge)]" and ?st = "RequestStep ''a1'' ''o@e.org'' True 1 [8] 100"
  obtain s w l where r: "otp_run demo_mac demo_otp demo_cs ?s 0 [?st] = (s, w, l)" by (metis prod_cases3)
  have n: "length (fst (otp_run demo_mac demo_otp demo_cs ?s 0 [?st])) = 2" "sv_Key demo_otp \<noteq> []"
    "''otp_07'' \<notin> set (concat (map request_id [?st]))" "ch_AppID demo_challenge = ''a1''" "ch_Email demo_challenge = ''o@e.org''"
    by code_simp+
  have "OtpVerify demo_mac (Some MemoryStore) demo_otp s 5 101 ''a1'' ''o@e.org'' ''otp_07'' ''000042'' (Some demo_cs) = (s, 5, False)"
    by (rule otp_request_supersedes [OF n(2) _ _ n(4,5) r n(3)]) simp_all
  with n(1) r show ?thesis by auto
qed

text \<open>Round trip: the code that a successful request hands to the outbox is accepted for its challenge
  before the expiry, by calling the session callback once with the stored challenge and reporting
  its result; a code with another digest is refused without a call.\<close>

theorem otp_request_verify:
  assumes "OtpRequest mac (Some MemoryStore) sv s rc ri now app email True True = (s', [m], None)"
    and "sv_Key sv \<noteq> []" "gm_wf s" "0 \<le> sv_MaxAttempts sv"
    and "now' < now + (if sv_TTL sv \<le> 0 then 10 * minute else sv_TTL sv)"
  shows "\<exists>c. map_of s' (ms_ChallengeID m) = Some c \<and> ch_AppID c = app \<and> ch_Email c = email
    \<and> snd (OtpVerify mac (Some MemoryStore) sv s' w now' app email (ms_ChallengeID m) (ms_Code m) (Some cs)) = cs c w
    \<and> (otp_hash mac (sv_Key sv) (ms_ChallengeID m) code \<noteq> otp_hash mac (sv_Key sv) (ms_ChallengeID m) (ms_Code m) \<longrightarrow>
        snd (OtpVerify mac (Some MemoryStore) sv s' w now' app email (ms_ChallengeID m) code (Some cs)) = (w, False))"
proof -
  obtain n b where look0: "challenge_look s' = (\<lambda>i. if i = ''otp_'' @ hex_encode b
        then Some (new_challenge mac sv app email (''otp_'' @ hex_encode b) (six_digits n) now)
        else Option.bind (challenge_look s i) (invalidate_one app email now i))"
    and wf': "gm_wf s'"
    and "[m] = [] \<or> [m] = [\<lparr>ms_AppID = app, ms_Email = email, ms_Code = six_digits n, ms_ChallengeID = ''otp_'' @ hex_encode b\<rparr>]"
    using mem_otp.request_effect [OF assms(3,1)] by blast
  then have m: "ms_ChallengeID m = ''otp_'' @ hex_encode b" "ms_Code m = six_digits n" by auto
  have eff: "map_of s' (''otp_'' @ hex_encode b) =
      Some (new_challenge mac sv app email (''otp_'' @ hex_encode b) (six_digits n) now)" "gm_wf s'"
    using fun_cong [OF look0, of "''otp_'' @ hex_encode b"] wf' unfolding challenge_look_def by (simp_all del: map_of_eq_Some_iff)
  let ?c = "new_challenge mac sv app email (ms_ChallengeID m) (ms_Code m) now"
  have c: "usable ?c app email now'" "ch_CodeHash ?c = otp_hash mac (sv_Key sv) (ms_ChallengeID m) (ms_Code m)"
    using assms(4,5) by (auto simp: usable_def new_challenge_def Let_def)
  have look: "map_of s' (ms_ChallengeID m) = Some ?c" using eff m by simp
  have ver: "snd (OtpVerify mac (Some MemoryStore) sv s' w now' app email (ms_ChallengeID m) x (Some cs))
      = check_code mac sv (ms_ChallengeID m) x cs ?c w" for x
  proof -
    obtain t w' ok where v: "OtpVerify mac (Some MemoryStore) sv s' w now' app email (ms_ChallengeID m) x (Some cs) = (t, w', ok)"
      by (metis prod_cases3)
    from mem_otp.verify_effect [OF eff(2) v assms(2)] look c(1) v show ?thesis by (simp add: challenge_look_def)
  qed
  have "ch_AppID ?c = app" "ch_Email ?c = email" by (simp_all add: new_challenge_def Let_def)
  with look c(2) ver show ?thesis by (auto simp: check_code_def)
qed

theorem otp_request_verify_witness:
  "\<exists>s (m :: Message) c. map_of s (ms_ChallengeID m) = Some c \<and>
    snd (OtpVerify demo_mac (Some MemoryStore) demo_otp s 0 101 ''a1'' ''o@e.org'' (ms_ChallengeID m) (ms_Code m) (Some demo_cs)) = (1, True)"
proof -
  let ?r = "OtpRequest demo_mac (Some (MemoryStore :: (challenges, nat) OtpStore)) demo_otp [] (Some 42) (Some [7]) 100 ''a1'' ''o@e.org'' True True"
  have "snd ?r = ([\<lparr>ms_AppID = ''a1'', ms_Email = ''o@e.org'', ms_Code = ''000042'', ms_ChallengeID = ''otp_07''\<rparr>], None)"
    by code_simp
  then obtain s where r: "?r = (s, [\<lparr>ms_AppID = ''a1'', ms_Email = ''o@e.org'', ms_Code = ''000042'', ms_ChallengeID = ''otp_07''\<rparr>], None)"
    by (metis prod.collapse)
  have k: "sv_Key demo_otp \<noteq> []" "0 \<le> sv_MaxAttempts demo_otp" "101 < 100 + (if sv_TTL demo_otp \<le> 0 then 10 * minute else sv_TTL demo_otp)"
    by (simp_all add: demo_otp_def)
  let ?m = "\<lparr>ms_AppID = ''a1'', ms_Email = ''o@e.org'', ms_Code = ''000042'', ms_ChallengeID = ''otp_07''\<rparr>"
  have "gm_wf ([] :: challenges)" by simp
  from otp_request_verify [OF r k(1) this k(2,3), of 0 demo_cs "''000001''"]
  obtain c where c: "map_of s (ms_ChallengeID ?m) = Some c"
    "snd (OtpVerify demo_mac (Some MemoryStore) demo_otp s 0 101 ''a1'' ''o@e.org'' (ms_ChallengeID ?m) (ms_Code ?m) (Some demo_cs)) = demo_cs c 0"
    by (elim exE conjE) (rule that)
  have "demo_cs c 0 = (1, True)" by (simp add: demo_cs_def)
  from conjI [OF c(1) trans [OF c(2) this]] show ?thesis by (intro exI)
qed

end
