(* ===== verification/Go_Json.thy ===== *)
theory Go_Json
  imports Go_Strings
begin

text \<open>
  \<open>json.Valid\<close> of the Go standard library: the byte-driven scanner of \<open>encoding/json\<close> with its
  state functions and its stack of open objects and arrays (at most 10000 deep), and
  \<open>strings.ReplaceAll\<close>.
\<close>

datatype json_state =
    BeginValueOrEmpty | BeginValue | BeginStringOrEmpty | BeginString | EndValue | EndTop
  | InString | InStringEsc | InStringEscU nat
  | Neg | Num1 | Num0 | Dot | Dot0 | Exp | ExpSign | Exp0
  | Lit string

datatype json_frame = ObjectKey | ObjectValue | ArrayValue

type_synonym json_scanner = "json_state \<times> json_frame list"

definition json_space :: "char \<Rightarrow> bool" where
  "json_space c \<longleftrightarrow> c = CHR '' '' \<or> c = CHR 0x09 \<or> c = CHR 0x0D \<or> c = CHR 0x0A"

definition maxNestingDepth :: nat where "maxNestingDepth = 10000"

text \<open>\<open>None\<close> is \<open>scanError\<close>.\<close>

definition json_push :: "json_state \<Rightarrow> json_frame \<Rightarrow> json_frame list \<Rightarrow> json_scanner option" where
  "json_push st f stack = (if length (f # stack) \<le> maxNestingDepth then Some (st, f # stack) else None)"

definition json_pop :: "json_frame list \<Rightarrow> json_scanner" where
  "json_pop stack = (if stack = [] then (EndTop, []) else (EndValue, stack))"

fun json_end_value :: "json_frame list \<Rightarrow> char \<Rightarrow> json_scanner option" where
  "json_end_value [] c = (if json_space c then Some (EndTop, []) else None)"
| "json_end_value (ObjectKey # stack) c =
     (if json_space c then Some (EndValue, ObjectKey # stack)
      else if c = CHR '':'' then Some (BeginValue, ObjectValue # stack) else None)"
| "json_end_value (ObjectValue # stack) c =
     (if json_space c then Some (EndValue, ObjectValue # stack)
      else if c = CHR '','' then Some (BeginString, ObjectKey # stack)
      else if c = CHR 0x7D then Some (json_pop stack) else None)"
| "json_end_value (ArrayValue # stack) c =
     (if json_space c then Some (EndValue, ArrayValue # stack)
      else if c = CHR '','' then Some (BeginValue, ArrayValue # stack)
      else if c = CHR 0x5D then Some (json_pop stack) else None)"

definition json_begin_value :: "json_frame list \<Rightarrow> char \<Rightarrow> json_scanner option" where
  "json_begin_value stack c =
     (if json_space c then Some (BeginValue, stack)
      else if c = CHR 0x7B then json_push BeginStringOrEmpty ObjectKey stack
      else if c = CHR 0x5B then json_push BeginValueOrEmpty ArrayValue stack
      else if c = CHR 0x22 then Some (InString, stack)
      else if c = CHR ''-'' then Some (Neg, stack)
      else if c = CHR ''0'' then Some (Num0, stack)
      else if c = CHR ''t'' then Some (Lit ''rue'', stack)
      else if c = CHR ''f'' then Some (Lit ''alse'', stack)
      else if c = CHR ''n'' then Some (Lit ''ull'', stack)
      else if is_digit c then Some (Num1, stack)
      else None)"

definition json_begin_string :: "json_frame list \<Rightarrow> char \<Rightarrow> json_scanner option" where
  "json_begin_string stack c =
     (if json_space c then Some (BeginString, stack)
      else if c = CHR 0x22 then Some (InString, stack) else None)"

definition json_hex :: "char \<Rightarrow> bool" where
  "json_hex c \<longleftrightarrow> is_digit c \<or> c \<in> set ''abcdefABCDEF''"

definition json_number :: "json_frame list \<Rightarrow> char \<Rightarrow> json_scanner option" where
  "json_number stack c =
     (if c = CHR ''.'' then Some (Dot, stack)
      else if c = CHR ''e'' \<or> c = CHR ''E'' then Some (Exp, stack)
      else json_end_value stack c)"

definition json_exp_sign :: "json_frame list \<Rightarrow> char \<Rightarrow> json_scanner option" where
  "json_exp_sign stack c = (if is_digit c then Some (Exp0, stack) else None)"

fun json_step :: "json_state \<Rightarrow> json_frame list \<Rightarrow> char \<Rightarrow> json_scanner option" where
  "json_step BeginValueOrEmpty stack c =
     (if json_space c then Some (BeginValueOrEmpty, stack)
      else if c = CHR 0x5D then json_end_value stack c else json_begin_value stack c)"
| "json_step BeginValue stack c = json_begin_value stack c"
| "json_step BeginStringOrEmpty stack c =
     (if json_space c then Some (BeginStringOrEmpty, stack)
      else if c = CHR 0x7D then json_end_value (ObjectValue # tl stack) c
      else json_begin_string stack c)"
| "json_step BeginString stack c = json_begin_string stack c"
| "json_step EndValue stack c = json_end_value stack c"
| "json_step EndTop stack c = (if json_space c then Some (EndTop, stack) else None)"
| "json_step InString stack c =
     (if c = CHR 0x22 then Some (EndValue, stack)
      else if c = CHR 0x5C then Some (InStringEsc, stack)
      else if (of_char c :: nat) < 0x20 then None
      else Some (InString, stack))"
| "json_step InStringEsc stack c =
     (if c \<in> set ''bfnrt/'' \<or> c = CHR 0x5C \<or> c = CHR 0x22 then Some (InString, stack)
      else if c = CHR ''u'' then Some (InStringEscU 4, stack) else None)"
| "json_step (InStringEscU n) stack c =
     (if json_hex c then Some (if n \<le> 1 then InString else InStringEscU (n - 1), stack) else None)"
| "json_step Neg stack c =
     (if c = CHR ''0'' then Some (Num0, stack) else if is_digit c then Some (Num1, stack) else None)"
| "json_step Num1 stack c = (if is_digit c then Some (Num1, stack) else json_number stack c)"
| "json_step Num0 stack c = json_number stack c"
| "json_step Dot stack c = (if is_digit c then Some (Dot0, stack) else None)"
| "json_step Dot0 stack c =
     (if is_digit c then Some (Dot0, stack)
      else if c = CHR ''e'' \<or> c = CHR ''E'' then Some (Exp, stack)
      else json_end_value stack c)"
| "json_step Exp stack c =
     (if c = CHR ''+'' \<or> c = CHR ''-'' then Some (ExpSign, stack) else json_exp_sign stack c)"
| "json_step ExpSign stack c = json_exp_sign stack c"
| "json_step Exp0 stack c = (if is_digit c then Some (Exp0, stack) else json_end_value stack c)"
| "json_step (Lit w) stack c =
     (case w of [] \<Rightarrow> None
      | d # r \<Rightarrow> if c = d then Some (if r = [] then EndValue else Lit r, stack) else None)"

fun json_scan :: "json_scanner option \<Rightarrow> string \<Rightarrow> json_scanner option" where
  "json_scan sc [] = sc"
| "json_scan None (c # s) = None"
| "json_scan (Some (st, stack)) (c # s) = json_scan (json_step st stack c) s"

text \<open>At the end of the input the scanner is given one space and must then be at the top.\<close>

definition json_eof :: "json_scanner option \<Rightarrow> bool" where
  "json_eof sc =
     (case sc of None \<Rightarrow> False
      | Some (st, stack) \<Rightarrow>
          st = EndTop \<or> (case json_step st stack (CHR '' '') of None \<Rightarrow> False | Some (st', _) \<Rightarrow> st' = EndTop))"

definition json_Valid :: "string \<Rightarrow> bool" where
  "json_Valid s = json_eof (json_scan (Some (BeginValue, [])) s)"

lemma json_scan_None [simp]: "json_scan None s = None"
  by (cases s) auto

lemma json_scan_append: "json_scan sc (s @ t) = json_scan (json_scan sc s) t"
  by (induction sc s rule: json_scan.induct) auto

text \<open>Plain string content, without quotes, escapes or control characters, stays inside the string.\<close>

lemma json_scan_plain:
  "list_all (\<lambda>c. 0x20 \<le> (of_char c :: nat) \<and> c \<noteq> CHR 0x22 \<and> c \<noteq> CHR 0x5C) s \<Longrightarrow>
    json_scan (Some (InString, stack)) s = Some (InString, stack)"
  by (induction s) auto

lemma json_in_string_control:
  assumes "(of_char c :: nat) < 0x20"
  shows "json_step InString stack c = None" "json_step InStringEsc stack c = None"
    "json_step (InStringEscU n) stack c = None"
  using assms by (auto simp: json_hex_def is_digit_def)

function ReplaceAll :: "string \<Rightarrow> string \<Rightarrow> string \<Rightarrow> string" where
  "ReplaceAll s old new =
     (if s = [] \<or> old = [] then s
      else if HasPrefix s old then new @ ReplaceAll (drop (length old) s) old new
      else hd s # ReplaceAll (tl s) old new)"
  by pat_completeness auto
termination by (relation "measure (\<lambda>(s, _, _). length s)") (auto simp: diff_less)

declare ReplaceAll.simps [simp del]

lemma json_Valid_samples:
  "json_Valid ''null'' \<and> json_Valid '' [1, 2.5e+3, -0] '' \<and> \<not> json_Valid ''01'' \<and> \<not> json_Valid ''''
   \<and> \<not> json_Valid ''[1,]'' \<and> json_Valid (''{'' @ [CHR 0x22, CHR ''a'', CHR 0x22] @ '':[]}'') \<and> json_Valid ''{}''
   \<and> \<not> json_Valid (''{'' @ [CHR 0x22, CHR ''a'', CHR 0x22] @ '':}'') \<and> \<not> json_Valid ''nul'' \<and> \<not> json_Valid ''1 2''"
  by code_simp

lemma ReplaceAll_id: "\<not> Contains s old \<Longrightarrow> old \<noteq> [] \<Longrightarrow> ReplaceAll s old new = s"
proof (induction s)
  case (Cons c s)
  then show ?case by (simp add: ReplaceAll.simps [of "c # s"] HasPrefix_def)
qed (simp add: ReplaceAll.simps)

end
