(* ===== verification/KV_Store.thy ===== *)
theory KV_Store
  imports Sessions_Auth Rolling_Window Go_Json
begin

text \<open>
  The app-scoped key-value capability, \<open>internal/kv/kv.go\<close>. The storage interface \<open>Repository\<close> is a
  record of operations on a store; \<open>memoryRepo\<close> is the implementation in the source. The service
  takes the repository as an argument, as the source takes the interface value, and returns the
  updated service together with its result. Every critical section is one operation: \<open>allow\<close> and
  each repository call.
\<close>

section \<open>Limits and data\<close>

datatype kv_error =
    ErrInvalidKey | ErrInvalidValue | ErrVersionConflict | ErrQuotaExceeded | ErrInvalidListLimit
  | ErrCapabilityUnavailable | ErrRateLimited | KVUnauthorized | KVPanic | KVStoreError

record KVLimits =
  kl_KeyBytes :: int
  kl_ValueBytes :: int
  kl_KeysPerApp :: int
  kl_TotalBytesPerApp :: int
  kl_ListLimit :: int
  kl_RequestWindow :: duration
  kl_RequestsPerWindow :: int
  kl_ViewerRequestsPerWindow :: int
  kl_AppRequestsPerWindow :: int
  kl_GlobalRequestsPerWindow :: int
  kl_MaxRateScopes :: int

definition DefaultLimits :: KVLimits where
  "DefaultLimits = \<lparr>kl_KeyBytes = 256, kl_ValueBytes = 64 * 2 ^ 10, kl_KeysPerApp = 10000,
     kl_TotalBytesPerApp = 100 * 2 ^ 20, kl_ListLimit = 100, kl_RequestWindow = minute,
     kl_RequestsPerWindow = 120, kl_ViewerRequestsPerWindow = 120, kl_AppRequestsPerWindow = 600,
     kl_GlobalRequestsPerWindow = 10000, kl_MaxRateScopes = 10000\<rparr>"

definition normalizedLimits :: "KVLimits \<Rightarrow> KVLimits" where
  "normalizedLimits l0 =
     (let d = DefaultLimits;
          l1 = (if kl_RequestWindow l0 \<le> 0 then l0\<lparr>kl_RequestWindow := kl_RequestWindow d\<rparr> else l0);
          l2 = (if kl_RequestsPerWindow l1 \<le> 0 then l1\<lparr>kl_RequestsPerWindow := kl_RequestsPerWindow d\<rparr> else l1);
          l3 = (if kl_ViewerRequestsPerWindow l2 \<le> 0
                then l2\<lparr>kl_ViewerRequestsPerWindow := kl_RequestsPerWindow l2\<rparr> else l2);
          l4 = (if kl_AppRequestsPerWindow l3 \<le> 0
                then l3\<lparr>kl_AppRequestsPerWindow := kl_AppRequestsPerWindow d\<rparr> else l3);
          l5 = (if kl_GlobalRequestsPerWindow l4 \<le> 0
                then l4\<lparr>kl_GlobalRequestsPerWindow := kl_GlobalRequestsPerWindow d\<rparr> else l4)
      in if kl_MaxRateScopes l5 \<le> 0 then l5\<lparr>kl_MaxRateScopes := kl_MaxRateScopes d\<rparr> else l5)"

record KVEntry =
  en_Key :: string
  en_Value :: string
  en_Version :: uint64
  en_UpdatedAt :: time

record KVListResult =
  lr_Entries :: "KVEntry list"
  lr_NextCursor :: string

record KVMutation =
  mu_Key :: string
  mu_Value :: string
  mu_Version :: uint64
  mu_Deleted :: bool

record 'r KVRepository =
  repo_Get :: "'r \<Rightarrow> string \<Rightarrow> string \<Rightarrow> kv_error + KVEntry option"
  repo_Set :: "'r \<Rightarrow> string \<Rightarrow> string \<Rightarrow> string \<Rightarrow> uint64 option \<Rightarrow> 'r \<times> (kv_error + KVEntry)"
  repo_Delete :: "'r \<Rightarrow> string \<Rightarrow> string \<Rightarrow> uint64 option \<Rightarrow> 'r \<times> (kv_error + KVMutation option)"
  repo_List :: "'r \<Rightarrow> string \<Rightarrow> string \<Rightarrow> string \<Rightarrow> int \<Rightarrow> kv_error + KVListResult"

record 'r KVService =
  kv_limits :: KVLimits
  kv_store :: 'r
  kv_sink :: bool
  kv_published :: "(DataAuthorizationContext \<times> KVMutation) list"
  kv_rates :: "(string, time list) gomap"
  kv_global :: "time list"

section \<open>The memory repository\<close>

type_synonym kv_apps = "(string, (string, KVEntry) gomap) gomap"

definition app_entries :: "kv_apps \<Rightarrow> string \<Rightarrow> (string, KVEntry) gomap" where
  "app_entries apps app = (case map_of apps app of None \<Rightarrow> [] | Some es \<Rightarrow> es)"

definition memGet :: "kv_apps \<Rightarrow> string \<Rightarrow> string \<Rightarrow> kv_error + KVEntry option" where
  "memGet apps app key = Inr (map_of (app_entries apps app) key)"

definition zeroEntry :: KVEntry where
  "zeroEntry = \<lparr>en_Key = [], en_Value = [], en_Version = 0, en_UpdatedAt = 0\<rparr>"

definition total_bytes :: "(string, KVEntry) gomap \<Rightarrow> int" where
  "total_bytes entries = sum_list (map (\<lambda>(k, v). int (length (en_Value v))) entries)"

definition memSet :: "KVLimits \<Rightarrow> time \<Rightarrow> kv_apps \<Rightarrow> string \<Rightarrow> string \<Rightarrow> string \<Rightarrow> uint64 option
      \<Rightarrow> kv_apps \<times> (kv_error + KVEntry)" where
  "memSet lim now apps0 app key val expected =
     (let apps = (case map_of apps0 app of None \<Rightarrow> AList.update app [] apps0 | Some _ \<Rightarrow> apps0);
          entries = app_entries apps app;
          exists = map_of entries key \<noteq> None;
          old = (case map_of entries key of None \<Rightarrow> zeroEntry | Some e \<Rightarrow> e)
      in if (case expected of None \<Rightarrow> False | Some v \<Rightarrow> \<not> exists \<or> en_Version old \<noteq> v)
         then (apps, Inl ErrVersionConflict)
         else if \<not> exists \<and> int (length entries) \<ge> kl_KeysPerApp lim then (apps, Inl ErrQuotaExceeded)
         else if total_bytes entries - int (length (en_Value old)) + int (length val) > kl_TotalBytesPerApp lim
         then (apps, Inl ErrQuotaExceeded)
         else
           let e = \<lparr>en_Key = key, en_Value = val, en_Version = en_Version old + 1, en_UpdatedAt = now\<rparr>
           in (AList.update app (AList.update key e entries) apps, Inr e))"

text \<open>\<open>Inr None\<close> is the result \<open>false\<close> of the source, with the zero mutation and no error.\<close>

definition memDelete :: "kv_apps \<Rightarrow> string \<Rightarrow> string \<Rightarrow> uint64 option
      \<Rightarrow> kv_apps \<times> (kv_error + KVMutation option)" where
  "memDelete apps app key expected =
     (case map_of (app_entries apps app) key of
        None \<Rightarrow> (apps, if expected \<noteq> None then Inl ErrVersionConflict else Inr None)
      | Some old \<Rightarrow>
          if (case expected of None \<Rightarrow> False | Some v \<Rightarrow> en_Version old \<noteq> v)
          then (apps, Inl ErrVersionConflict)
          else (AList.update app (AList.delete key (app_entries apps app)) apps,
                Inr (Some \<lparr>mu_Key = key, mu_Value = [], mu_Version = en_Version old + 1, mu_Deleted = True\<rparr>)))"

text \<open>The loop over the sorted keys; the index of a negative slice element is a panic.\<close>

fun list_page :: "(string, KVEntry) gomap \<Rightarrow> int \<Rightarrow> int \<Rightarrow> string option \<Rightarrow> string list \<Rightarrow> KVEntry list
      \<Rightarrow> kv_error + KVListResult" where
  "list_page entries limit i previous [] out = Inr \<lparr>lr_Entries = out, lr_NextCursor = []\<rparr>"
| "list_page entries limit i previous (key # keys) out =
     (if i = limit then
        (case previous of None \<Rightarrow> Inl KVPanic | Some k \<Rightarrow> Inr \<lparr>lr_Entries = out, lr_NextCursor = k\<rparr>)
      else list_page entries limit (i + 1) (Some key) keys
             (out @ [case map_of entries key of None \<Rightarrow> zeroEntry | Some e \<Rightarrow> e]))"

definition list_keys :: "(string, KVEntry) gomap \<Rightarrow> string \<Rightarrow> string \<Rightarrow> string list" where
  "list_keys entries pre cursor = sort (filter (\<lambda>k. HasPrefix k pre \<and> k > cursor) (map fst entries))"

definition memList :: "kv_apps \<Rightarrow> string \<Rightarrow> string \<Rightarrow> string \<Rightarrow> int \<Rightarrow> kv_error + KVListResult" where
  "memList apps app pre cursor limit =
     list_page (app_entries apps app) limit 0 None (list_keys (app_entries apps app) pre cursor) []"

definition memoryRepo :: "KVLimits \<Rightarrow> time \<Rightarrow> kv_apps KVRepository" where
  "memoryRepo lim now = \<lparr>repo_Get = memGet, repo_Set = memSet lim now, repo_Delete = memDelete,
     repo_List = memList\<rparr>"

section \<open>Validation\<close>

definition quote :: string where "quote = [CHR 0x22]"
definition backslash2 :: string where "backslash2 = [CHR 0x5C, CHR 0x5C]"

text \<open>The raw string literals of the source: two backslashes are replaced by four, and a quote by
  two backslashes and a quote.\<close>

definition quoted_key :: "string \<Rightarrow> string" where
  "quoted_key key =
     quote @ ReplaceAll (ReplaceAll key backslash2 (backslash2 @ backslash2)) quote (backslash2 @ quote) @ quote"

definition validKey :: "string \<Rightarrow> int \<Rightarrow> bool" where
  "validKey key maxBytes \<longleftrightarrow> key \<noteq> [] \<and> ValidString key \<and> int (length key) \<le> maxBytes
     \<and> CHR 0x00 \<notin> set key \<and> json_Valid (quoted_key key)"

definition ValidKey :: "string \<Rightarrow> bool" where
  "ValidKey key = validKey key (kl_KeyBytes DefaultLimits)"

definition validateValue :: "string \<Rightarrow> int \<Rightarrow> bool" where
  "validateValue value maxBytes \<longleftrightarrow> length value > 0 \<and> int (length value) \<le> maxBytes \<and> json_Valid value"

definition ValidValue :: "string \<Rightarrow> bool" where
  "ValidValue value = validateValue value (kl_ValueBytes DefaultLimits)"

definition kv_app :: "AuthorizationContext option \<Rightarrow> kv_error + string \<times> string" where
  "kv_app auth =
     (case auth of
        None \<Rightarrow> Inl ErrCapabilityUnavailable
      | Some c \<Rightarrow>
          if \<not> app_KVEnabled (ac_app c) then Inl ErrCapabilityUnavailable
          else (case Scope auth of Inl _ \<Rightarrow> Inl KVUnauthorized | Inr (app, viewer, _) \<Rightarrow> Inr (app, viewer)))"

section \<open>Request budgets\<close>

definition retainRecent :: "time list \<Rightarrow> time \<Rightarrow> time list" where
  "retainRecent events cutoff =
     (let i = skip_expired events cutoff 0 in
      if i = length events then [] else if i = 0 then events else drop i events)"

definition prune_rate :: "time \<Rightarrow> string \<Rightarrow> time list \<Rightarrow> time list option" where
  "prune_rate cutoff k events =
     (let i = skip_expired events cutoff 0 in
      if i = length events then None else if i > 0 then Some (drop i events) else Some events)"

definition viewer_key :: "string \<Rightarrow> string \<Rightarrow> string" where
  "viewer_key app viewer = ''viewer'' @ [CHR 0x00] @ app @ [CHR 0x00] @ viewer"

definition app_key :: "string \<Rightarrow> string" where
  "app_key app = ''app'' @ [CHR 0x00] @ app"

definition rate_events :: "(string, time list) gomap \<Rightarrow> string \<Rightarrow> time list" where
  "rate_events rates k = (case map_of rates k of None \<Rightarrow> [] | Some ev \<Rightarrow> ev)"

definition kv_allow :: "'r KVService \<Rightarrow> time \<Rightarrow> string \<Rightarrow> string \<Rightarrow> 'r KVService \<times> bool" where
  "kv_allow s now app viewer =
     (let lim = kv_limits s;
          cutoff = now - kl_RequestWindow lim;
          rates = gm_rewrite (prune_rate cutoff) (kv_rates s);
          global = retainRecent (kv_global s) cutoff;
          s1 = s\<lparr>kv_rates := rates, kv_global := global\<rparr>;
          vk = viewer_key app viewer;
          ak = app_key app;
          ve = rate_events rates vk;
          ae = rate_events rates ak
      in if int (length ve) \<ge> kl_ViewerRequestsPerWindow lim \<or> int (length ae) \<ge> kl_AppRequestsPerWindow lim
            \<or> int (length global) \<ge> kl_GlobalRequestsPerWindow lim
         then (s1, False)
         else
           let newScopes = (if map_of rates vk = None then 1 else 0) + (if map_of rates ak = None then 1 else 0)
           in if int (length rates) + newScopes > kl_MaxRateScopes lim then (s1, False)
              else (s1\<lparr>kv_rates := AList.update ak (ae @ [now]) (AList.update vk (ve @ [now]) rates),
                       kv_global := global @ [now]\<rparr>, True))"

section \<open>The service\<close>

definition NewKVService :: "KVLimits \<Rightarrow> bool \<Rightarrow> 'r \<Rightarrow> 'r KVService" where
  "NewKVService limits sink store =
     (let l = (if kl_KeyBytes limits = 0 then DefaultLimits else limits)
      in \<lparr>kv_limits = normalizedLimits l, kv_store = store, kv_sink = sink, kv_published = [],
          kv_rates = [], kv_global = []\<rparr>)"

definition publish :: "AuthorizationContext option \<Rightarrow> KVMutation \<Rightarrow> 'r KVService \<Rightarrow> 'r KVService" where
  "publish auth m s =
     (case auth of
        Some c \<Rightarrow> if kv_sink s then s\<lparr>kv_published := kv_published s @ [(viewerData c, m)]\<rparr> else s
      | None \<Rightarrow> s)"

definition KVGet :: "'r KVRepository \<Rightarrow> 'r KVService \<Rightarrow> time \<Rightarrow> AuthorizationContext option \<Rightarrow> string
      \<Rightarrow> 'r KVService \<times> (kv_error + KVEntry option)" where
  "KVGet repo s now auth key =
     (case kv_app auth of
        Inl e \<Rightarrow> (s, Inl e)
      | Inr (app, viewer) \<Rightarrow>
          if \<not> validKey key (kl_KeyBytes (kv_limits s)) then (s, Inl ErrInvalidKey)
          else case kv_allow s now app viewer of
              (s1, False) \<Rightarrow> (s1, Inl ErrRateLimited)
            | (s1, True) \<Rightarrow> (s1, repo_Get repo (kv_store s1) app key))"

definition KVSet :: "'r KVRepository \<Rightarrow> 'r KVService \<Rightarrow> time \<Rightarrow> AuthorizationContext option \<Rightarrow> string \<Rightarrow> string
      \<Rightarrow> uint64 option \<Rightarrow> 'r KVService \<times> (kv_error + KVEntry)" where
  "KVSet repo s now auth key value expected =
     (case kv_app auth of
        Inl e \<Rightarrow> (s, Inl e)
      | Inr (app, viewer) \<Rightarrow>
          if \<not> validKey key (kl_KeyBytes (kv_limits s)) then (s, Inl ErrInvalidKey)
          else if \<not> validateValue value (kl_ValueBytes (kv_limits s)) then (s, Inl ErrInvalidValue)
          else case kv_allow s now app viewer of
              (s1, False) \<Rightarrow> (s1, Inl ErrRateLimited)
            | (s1, True) \<Rightarrow>
                (case repo_Set repo (kv_store s1) app key value expected of
                   (st, Inl e) \<Rightarrow> (s1\<lparr>kv_store := st\<rparr>, Inl e)
                 | (st, Inr e) \<Rightarrow>
                     (publish auth \<lparr>mu_Key = key, mu_Value = value, mu_Version = en_Version e, mu_Deleted = False\<rparr>
                        (s1\<lparr>kv_store := st\<rparr>), Inr e)))"

definition KVDelete :: "'r KVRepository \<Rightarrow> 'r KVService \<Rightarrow> time \<Rightarrow> AuthorizationContext option \<Rightarrow> string
      \<Rightarrow> uint64 option \<Rightarrow> 'r KVService \<times> (kv_error + bool)" where
  "KVDelete repo s now auth key expected =
     (case kv_app auth of
        Inl e \<Rightarrow> (s, Inl e)
      | Inr (app, viewer) \<Rightarrow>
          if \<not> validKey key (kl_KeyBytes (kv_limits s)) then (s, Inl ErrInvalidKey)
          else case kv_allow s now app viewer of
              (s1, False) \<Rightarrow> (s1, Inl ErrRateLimited)
            | (s1, True) \<Rightarrow>
                (case repo_Delete repo (kv_store s1) app key expected of
                   (st, Inl e) \<Rightarrow> (s1\<lparr>kv_store := st\<rparr>, Inl e)
                 | (st, Inr None) \<Rightarrow> (s1\<lparr>kv_store := st\<rparr>, Inr False)
                 | (st, Inr (Some m)) \<Rightarrow> (publish auth m (s1\<lparr>kv_store := st\<rparr>), Inr True)))"

definition KVList :: "'r KVRepository \<Rightarrow> 'r KVService \<Rightarrow> time \<Rightarrow> AuthorizationContext option \<Rightarrow> string \<Rightarrow> string
      \<Rightarrow> int \<Rightarrow> 'r KVService \<times> (kv_error + KVListResult)" where
  "KVList repo s now auth pre cursor limit =
     (case kv_app auth of
        Inl e \<Rightarrow> (s, Inl e)
      | Inr (app, viewer) \<Rightarrow>
          if int (length pre) > kl_KeyBytes (kv_limits s) \<or> int (length cursor) > kl_KeyBytes (kv_limits s)
          then (s, Inl ErrInvalidKey)
          else if limit < 1 \<or> limit > kl_ListLimit (kv_limits s) then (s, Inl ErrInvalidListLimit)
          else case kv_allow s now app viewer of
              (s1, False) \<Rightarrow> (s1, Inl ErrRateLimited)
            | (s1, True) \<Rightarrow> (s1, repo_List repo (kv_store s1) app pre cursor limit))"

section \<open>The repository contract\<close>

text \<open>
  What the service relies on, stated through a lookup \<open>look\<close> on the abstract store. A write that
  succeeds has checked the expected version, advances the version by one and changes one key of
  one app; a failed write changes nothing that can be looked up.
\<close>

locale kv_repository =
  fixes repo :: "'r KVRepository" and look :: "'r \<Rightarrow> string \<Rightarrow> string \<Rightarrow> KVEntry option"
  assumes get_look: "repo_Get repo st app key = Inr x \<Longrightarrow> x = look st app key"
    and set_ok: "repo_Set repo st app key val exp = (st', Inr e) \<Longrightarrow>
      look st' a k = (if a = app \<and> k = key then Some e else look st a k)
      \<and> en_Key e = key \<and> en_Value e = val
      \<and> en_Version e = (case look st app key of None \<Rightarrow> 0 | Some old \<Rightarrow> en_Version old) + 1
      \<and> (exp = None \<or> map_option en_Version (look st app key) = exp)"
    and set_err: "repo_Set repo st app key val exp = (st', Inl err) \<Longrightarrow> look st' a k = look st a k"
    and delete_ok: "repo_Delete repo st app key exp = (st', Inr r) \<Longrightarrow>
      look st' a k = (if a = app \<and> k = key then None else look st a k)
      \<and> (exp = None \<or> map_option en_Version (look st app key) = exp)
      \<and> r = map_option (\<lambda>old. \<lparr>mu_Key = key, mu_Value = [], mu_Version = en_Version old + 1, mu_Deleted = True\<rparr>)
              (look st app key)"
    and delete_err: "repo_Delete repo st app key exp = (st', Inl err) \<Longrightarrow> look st' a k = look st a k"
begin

lemma set_stale:
  assumes "exp = Some v" "map_option en_Version (look st app key) \<noteq> Some v"
  shows "\<exists>err. snd (repo_Set repo st app key val exp) = Inl err"
proof (cases "repo_Set repo st app key val exp")
  case (Pair st' r)
  with set_ok assms show ?thesis by (cases r) fastforce+
qed

lemma service_set:
  assumes "KVSet repo s now auth key val exp = (s', r)"
  shows "(\<exists>e c. r = Inr e \<and> auth = Some c \<and> app_KVEnabled (ac_app c) \<and> validKey key (kl_KeyBytes (kv_limits s))
        \<and> validateValue val (kl_ValueBytes (kv_limits s)) \<and> en_Value e = val
        \<and> en_Version e = (case look (kv_store s) (ac_AppID c) key of None \<Rightarrow> 0 | Some old \<Rightarrow> en_Version old) + 1
        \<and> (exp = None \<or> map_option en_Version (look (kv_store s) (ac_AppID c) key) = exp)
        \<and> look (kv_store s') = (look (kv_store s)) (ac_AppID c := (look (kv_store s) (ac_AppID c)) (key \<mapsto> e))
        \<and> kv_published s' = kv_published s @ (if kv_sink s then [(viewerData c,
            \<lparr>mu_Key = key, mu_Value = val, mu_Version = en_Version e, mu_Deleted = False\<rparr>)] else []))
    \<or> (\<exists>err. r = Inl err \<and> look (kv_store s') = look (kv_store s) \<and> kv_published s' = kv_published s)"
proof (cases "kv_app auth")
  case (Inl e)
  with assms show ?thesis by (auto simp: KVSet_def)
next
  case (Inr av)
  then obtain app viewer c where c: "av = (app, viewer)" "auth = Some c" "app_KVEnabled (ac_app c)" "app = ac_AppID c"
    by (cases av) (auto simp: kv_app_def dest: Scope_InrD split: option.splits if_splits sum.splits prod.splits)
  obtain s1 ok where al: "kv_allow s now app viewer = (s1, ok)" by fastforce
  have s1: "kv_store s1 = kv_store s" "kv_sink s1 = kv_sink s" "kv_published s1 = kv_published s" "kv_limits s1 = kv_limits s"
    using al by (auto simp: kv_allow_def Let_def split: if_splits)
  obtain st q where st: "repo_Set repo (kv_store s) app key val exp = (st, q)" by fastforce
  show ?thesis
  proof (cases q)
    case (Inl err)
    then have "look st = look (kv_store s)" using set_err st by blast
    then show ?thesis using assms Inr Inl c al s1 st
      by (auto simp: KVSet_def split: if_splits bool.splits)
  next
    case q: (Inr e)
    note ok = set_ok [OF st [unfolded q]]
    have "look st = (look (kv_store s)) (app := (look (kv_store s) app) (key \<mapsto> e))"
      using ok by (auto simp: fun_eq_iff)
    then show ?thesis using assms Inr q c al s1 st ok
      by (cases ok) (auto simp: KVSet_def publish_def split: if_splits bool.splits)
  qed
qed

end

definition mem_look :: "kv_apps \<Rightarrow> string \<Rightarrow> string \<Rightarrow> KVEntry option" where
  "mem_look apps app key = map_of (app_entries apps app) key"

lemma app_entries_update:
  "app_entries (AList.update app es apps) a = (if a = app then es else app_entries apps a)"
  by (simp add: app_entries_def gm_lookup_update)

lemma app_entries_fresh:
  "app_entries (case map_of apps app of None \<Rightarrow> AList.update app [] apps | Some _ \<Rightarrow> apps) a = app_entries apps a"
  by (auto simp: app_entries_def gm_lookup_update split: option.splits)

interpretation mem_kv: kv_repository "memoryRepo lim now" mem_look for lim now
proof unfold_locales
  fix st app key val exp st' e a k
  assume "repo_Set (memoryRepo lim now) st app key val exp = (st', Inr e)"
  then show "mem_look st' a k = (if a = app \<and> k = key then Some e else mem_look st a k)
      \<and> en_Key e = key \<and> en_Value e = val
      \<and> en_Version e = (case mem_look st app key of None \<Rightarrow> 0 | Some old \<Rightarrow> en_Version old) + 1
      \<and> (exp = None \<or> map_option en_Version (mem_look st app key) = exp)"
    by (auto simp: memoryRepo_def memSet_def mem_look_def Let_def app_entries_update app_entries_fresh
        gm_lookup_update zeroEntry_def split: if_splits option.splits)
next
  fix st app key val exp st' err a k
  assume "repo_Set (memoryRepo lim now) st app key val exp = (st', Inl err)"
  then show "mem_look st' a k = mem_look st a k"
    by (auto simp: memoryRepo_def memSet_def mem_look_def Let_def app_entries_fresh split: if_splits)
qed (auto simp: memoryRepo_def memGet_def memDelete_def mem_look_def app_entries_update gm_lookup_delete
      split: option.splits if_splits)

section \<open>Executions of the service over the memory repository\<close>

datatype kv_op =
    OpGet "AuthorizationContext option" string
  | OpSet "AuthorizationContext option" string string "uint64 option"
  | OpDelete "AuthorizationContext option" string "uint64 option"
  | OpList "AuthorizationContext option" string string int

text \<open>An operation with its two clock readings, the second one inside the repository.\<close>

fun kv_exec :: "kv_apps KVService \<Rightarrow> time \<Rightarrow> time \<Rightarrow> kv_op \<Rightarrow> kv_apps KVService" where
  "kv_exec s now now2 (OpGet auth key) = fst (KVGet (memoryRepo (kv_limits s) now2) s now auth key)"
| "kv_exec s now now2 (OpSet auth key val exp) =
     fst (KVSet (memoryRepo (kv_limits s) now2) s now auth key val exp)"
| "kv_exec s now now2 (OpDelete auth key exp) =
     fst (KVDelete (memoryRepo (kv_limits s) now2) s now auth key exp)"
| "kv_exec s now now2 (OpList auth pre cursor limit) =
     fst (KVList (memoryRepo (kv_limits s) now2) s now auth pre cursor limit)"

definition kv_run :: "kv_apps KVService \<Rightarrow> (time \<times> time \<times> kv_op) list \<Rightarrow> kv_apps KVService" where
  "kv_run s ops = foldl (\<lambda>s (now, now2, op). kv_exec s now now2 op) s ops"

lemma kv_run_Nil [simp]: "kv_run s [] = s"
  and kv_run_Cons [simp]: "kv_run s ((now, now2, op) # ops) = kv_run (kv_exec s now now2 op) ops"
  by (simp_all add: kv_run_def)

lemma kv_allow_frame:
  "kv_allow s now app viewer = (s1, ok) \<Longrightarrow> kv_store s1 = kv_store s \<and> kv_sink s1 = kv_sink s
    \<and> kv_published s1 = kv_published s \<and> kv_limits s1 = kv_limits s"
  by (auto simp: kv_allow_def Let_def split: if_splits)

lemma publish_frame [simp]:
  "kv_store (publish auth m s) = kv_store s" "kv_limits (publish auth m s) = kv_limits s"
  "kv_rates (publish auth m s) = kv_rates s" "kv_global (publish auth m s) = kv_global s"
  by (auto simp: publish_def split: option.splits)

text \<open>Every operation is refused early, or passes the budget and applies one repository call.\<close>

lemma KVGet_effect:
  "fst (KVGet repo s now auth key) = s \<or> (\<exists>app viewer. fst (KVGet repo s now auth key) = fst (kv_allow s now app viewer))"
  by (simp add: KVGet_def split: sum.split prod.split bool.split) (metis fst_conv)

lemma KVList_effect:
  "fst (KVList repo s now auth pre cursor limit) = s
    \<or> (\<exists>app viewer. fst (KVList repo s now auth pre cursor limit) = fst (kv_allow s now app viewer))"
  by (simp add: KVList_def split: sum.split prod.split bool.split) (metis fst_conv)

lemma KVSet_effect:
  assumes "kv_app auth = Inr (app, viewer)" "validKey key (kl_KeyBytes (kv_limits s))"
    "validateValue val (kl_ValueBytes (kv_limits s))" "kv_allow s now app viewer = (s1, True)"
  shows "kv_rates (fst (KVSet repo s now auth key val exp)) = kv_rates s1
    \<and> kv_global (fst (KVSet repo s now auth key val exp)) = kv_global s1
    \<and> kv_limits (fst (KVSet repo s now auth key val exp)) = kv_limits s
    \<and> kv_store (fst (KVSet repo s now auth key val exp)) = fst (repo_Set repo (kv_store s) app key val exp)"
  using assms kv_allow_frame [OF assms(4)]
  by (cases "repo_Set repo (kv_store s) app key val exp") (simp add: KVSet_def split: sum.split)

lemma KVSet_refused:
  assumes "\<not> (\<exists>app viewer s1. kv_app auth = Inr (app, viewer) \<and> validKey key (kl_KeyBytes (kv_limits s))
    \<and> validateValue val (kl_ValueBytes (kv_limits s)) \<and> kv_allow s now app viewer = (s1, True))"
  shows "fst (KVSet repo s now auth key val exp) = s
    \<or> (\<exists>app viewer. fst (KVSet repo s now auth key val exp) = fst (kv_allow s now app viewer))"
proof (cases "kv_app auth")
  case (Inr av)
  then show ?thesis
    using assms by (cases av; cases "kv_allow s now (fst av) (snd av)")
      (simp add: KVSet_def split: bool.split, metis fst_conv)
qed (simp add: KVSet_def)

lemma KVDelete_effect:
  assumes "kv_app auth = Inr (app, viewer)" "validKey key (kl_KeyBytes (kv_limits s))"
    "kv_allow s now app viewer = (s1, True)"
  shows "kv_rates (fst (KVDelete repo s now auth key exp)) = kv_rates s1
    \<and> kv_global (fst (KVDelete repo s now auth key exp)) = kv_global s1
    \<and> kv_limits (fst (KVDelete repo s now auth key exp)) = kv_limits s
    \<and> kv_store (fst (KVDelete repo s now auth key exp)) = fst (repo_Delete repo (kv_store s) app key exp)"
  using assms kv_allow_frame [OF assms(3)]
  by (cases "repo_Delete repo (kv_store s) app key exp") (simp add: KVDelete_def split: sum.split option.split)

lemma KVDelete_refused:
  assumes "\<not> (\<exists>app viewer s1. kv_app auth = Inr (app, viewer) \<and> validKey key (kl_KeyBytes (kv_limits s))
    \<and> kv_allow s now app viewer = (s1, True))"
  shows "fst (KVDelete repo s now auth key exp) = s
    \<or> (\<exists>app viewer. fst (KVDelete repo s now auth key exp) = fst (kv_allow s now app viewer))"
proof (cases "kv_app auth")
  case (Inr av)
  then show ?thesis
    using assms by (cases av; cases "kv_allow s now (fst av) (snd av)")
      (simp add: KVDelete_def split: bool.split, metis fst_conv)
qed (simp add: KVDelete_def)

lemma kv_exec_cases:
  obtains (refused) "kv_exec s now now2 op = s"
  | (budget) app viewer where "kv_exec s now now2 op = fst (kv_allow s now app viewer)"
  | (set) auth app viewer key val exp s1 where "op = OpSet auth key val exp" "kv_app auth = Inr (app, viewer)"
      "validKey key (kl_KeyBytes (kv_limits s))" "validateValue val (kl_ValueBytes (kv_limits s))"
      "kv_allow s now app viewer = (s1, True)"
      "kv_rates (kv_exec s now now2 op) = kv_rates s1" "kv_global (kv_exec s now now2 op) = kv_global s1"
      "kv_limits (kv_exec s now now2 op) = kv_limits s"
      "kv_store (kv_exec s now now2 op) = fst (memSet (kv_limits s) now2 (kv_store s) app key val exp)"
  | (delete) auth app viewer key exp s1 where "op = OpDelete auth key exp" "kv_app auth = Inr (app, viewer)"
      "validKey key (kl_KeyBytes (kv_limits s))" "kv_allow s now app viewer = (s1, True)"
      "kv_rates (kv_exec s now now2 op) = kv_rates s1" "kv_global (kv_exec s now now2 op) = kv_global s1"
      "kv_limits (kv_exec s now now2 op) = kv_limits s"
      "kv_store (kv_exec s now now2 op) = fst (memDelete (kv_store s) app key exp)"
proof (cases op)
  case (OpGet auth key)
  then show ?thesis using KVGet_effect refused budget by fastforce
next
  case (OpList auth pre cursor limit)
  then show ?thesis using KVList_effect refused budget by fastforce
next
  case op: (OpSet auth key val exp)
  show ?thesis
  proof (cases "\<exists>app viewer s1. kv_app auth = Inr (app, viewer) \<and> validKey key (kl_KeyBytes (kv_limits s))
    \<and> validateValue val (kl_ValueBytes (kv_limits s)) \<and> kv_allow s now app viewer = (s1, True)")
    case True
    then obtain app viewer s1 where g: "kv_app auth = Inr (app, viewer)" "validKey key (kl_KeyBytes (kv_limits s))"
      "validateValue val (kl_ValueBytes (kv_limits s))" "kv_allow s now app viewer = (s1, True)" by blast
    show ?thesis
      using KVSet_effect [OF g, of "memoryRepo (kv_limits s) now2" exp] op
      by (intro set [OF op g]) (simp_all add: memoryRepo_def)
  next
    case False
    then show ?thesis using KVSet_refused [OF False] op refused budget by fastforce
  qed
next
  case op: (OpDelete auth key exp)
  show ?thesis
  proof (cases "\<exists>app viewer s1. kv_app auth = Inr (app, viewer) \<and> validKey key (kl_KeyBytes (kv_limits s))
    \<and> kv_allow s now app viewer = (s1, True)")
    case True
    then obtain app viewer s1 where g: "kv_app auth = Inr (app, viewer)" "validKey key (kl_KeyBytes (kv_limits s))"
      "kv_allow s now app viewer = (s1, True)" by blast
    show ?thesis
      using KVDelete_effect [OF g, of "memoryRepo (kv_limits s) now2" exp] op
      by (intro delete [OF op g]) (simp_all add: memoryRepo_def)
  next
    case False
    then show ?thesis using KVDelete_refused [OF False] op refused budget by fastforce
  qed
qed

section \<open>Quotas\<close>

definition entries_ok :: "KVLimits \<Rightarrow> (string, KVEntry) gomap \<Rightarrow> bool" where
  "entries_ok lim es \<longleftrightarrow> gm_wf es \<and> int (length es) \<le> kl_KeysPerApp lim \<and> total_bytes es \<le> kl_TotalBytesPerApp lim
     \<and> list_all (\<lambda>(k, e). en_Key e = k \<and> validKey k (kl_KeyBytes lim) \<and> validateValue (en_Value e) (kl_ValueBytes lim)) es"

definition store_ok :: "KVLimits \<Rightarrow> kv_apps \<Rightarrow> bool" where
  "store_ok lim apps \<longleftrightarrow> (\<forall>app. entries_ok lim (app_entries apps app))"

lemma total_bytes_update:
  "gm_wf es \<Longrightarrow> total_bytes (AList.update k e es) =
    total_bytes es - (case map_of es k of None \<Rightarrow> 0 | Some old \<Rightarrow> int (length (en_Value old))) + int (length (en_Value e))"
  unfolding total_bytes_def by (subst sum_list_update) (auto split: option.splits)

lemma total_bytes_delete:
  "gm_wf es \<Longrightarrow> total_bytes (AList.delete k es) =
    total_bytes es - (case map_of es k of None \<Rightarrow> 0 | Some old \<Rightarrow> int (length (en_Value old)))"
  unfolding total_bytes_def by (subst sum_list_delete) (auto split: option.splits)

lemma list_all_update: "list_all P es \<Longrightarrow> P (k, e) \<Longrightarrow> list_all P (AList.update k e es)"
  using set_update_subset [of k e es] by (auto simp: list_all_iff)

lemma list_all_delete: "list_all P es \<Longrightarrow> list_all P (AList.delete k es)"
  by (induction es) auto

lemma memSet_store_ok:
  assumes "store_ok lim apps" "validKey key (kl_KeyBytes lim)" "validateValue val (kl_ValueBytes lim)"
  shows "store_ok lim (fst (memSet lim now apps app key val exp))"
proof -
  let ?es = "app_entries apps app"
  let ?e = "\<lparr>en_Key = key, en_Value = val,
      en_Version = en_Version (case map_of ?es key of None \<Rightarrow> zeroEntry | Some e \<Rightarrow> e) + 1, en_UpdatedAt = now\<rparr>"
  have es: "entries_ok lim ?es" using assms(1) by (simp add: store_ok_def)
  have "entries_ok lim (AList.update key ?e ?es)"
    if q: "map_of ?es key = None \<longrightarrow> int (length ?es) < kl_KeysPerApp lim"
      "total_bytes ?es - int (length (en_Value (case map_of ?es key of None \<Rightarrow> zeroEntry | Some e \<Rightarrow> e)))
        + int (length val) \<le> kl_TotalBytesPerApp lim"
  proof -
    have "int (length (AList.update key ?e ?es)) \<le> kl_KeysPerApp lim"
      using es q(1) by (auto simp: entries_ok_def length_update map_of_eq_None_iff)
    moreover have "total_bytes (AList.update key ?e ?es) \<le> kl_TotalBytesPerApp lim"
      using es q(2) by (cases "map_of ?es key") (simp_all add: entries_ok_def total_bytes_update zeroEntry_def)
    ultimately show ?thesis using es assms(2,3) by (simp add: entries_ok_def list_all_update)
  qed
  then show ?thesis using assms(1)
    by (auto simp: memSet_def Let_def store_ok_def app_entries_update app_entries_fresh)
qed

lemma memDelete_store_ok:
  assumes "store_ok lim apps"
  shows "store_ok lim (fst (memDelete apps app key exp))"
proof -
  have es: "entries_ok lim (app_entries apps app)" using assms by (simp add: store_ok_def)
  then have "entries_ok lim (AList.delete key (app_entries apps app))"
    using length_delete_le [of key "app_entries apps app"]
    by (auto simp: entries_ok_def total_bytes_delete list_all_delete split: option.splits)
  then show ?thesis using assms
    by (auto simp: memDelete_def store_ok_def app_entries_update split: option.splits)
qed

lemma kv_allow_fst:
  "kv_store (fst (kv_allow s now app viewer)) = kv_store s" "kv_limits (fst (kv_allow s now app viewer)) = kv_limits s"
  using kv_allow_frame [of s now app viewer "fst (kv_allow s now app viewer)" "snd (kv_allow s now app viewer)"] by auto

lemma kv_exec_store_ok:
  assumes "store_ok (kv_limits s) (kv_store s)"
  shows "store_ok (kv_limits s) (kv_store (kv_exec s now now2 op)) \<and> kv_limits (kv_exec s now now2 op) = kv_limits s"
  using assms memSet_store_ok memDelete_store_ok
  by (cases rule: kv_exec_cases [of s now now2 op]) (simp_all add: kv_allow_fst)

lemma kv_run_store_ok:
  "store_ok (kv_limits s) (kv_store s) \<Longrightarrow>
    store_ok (kv_limits s) (kv_store (kv_run s ops)) \<and> kv_limits (kv_run s ops) = kv_limits s"
proof (induction ops arbitrary: s)
  case (Cons p ops)
  obtain now now2 op where p: "p = (now, now2, op)" by (cases p)
  with Cons.IH [of "kv_exec s now now2 op"] kv_exec_store_ok [OF Cons.prems, of now now2 op]
  show ?case by simp
qed simp

section \<open>Versions\<close>

text \<open>An operation that may remove the key from the app.\<close>

fun may_delete :: "string \<Rightarrow> string \<Rightarrow> kv_op \<Rightarrow> bool" where
  "may_delete app key (OpDelete auth k exp) \<longleftrightarrow> k = key \<and> (\<exists>viewer. kv_app auth = Inr (app, viewer))"
| "may_delete app key _ \<longleftrightarrow> False"

lemma kv_exec_version:
  assumes "mem_look (kv_store s) app key = Some e" "\<not> may_delete app key op"
  shows "\<exists>e'. mem_look (kv_store (kv_exec s now now2 op)) app key = Some e'
    \<and> (en_Version e' = en_Version e \<or> en_Version e' = en_Version e + 1)"
proof (cases rule: kv_exec_cases [of s now now2 op])
  case (set auth a viewer k val exp s1)
  obtain st r where st: "memSet (kv_limits s) now2 (kv_store s) a k val exp = (st, r)" by fastforce
  then have st': "repo_Set (memoryRepo (kv_limits s) now2) (kv_store s) a k val exp = (st, r)"
    by (simp add: memoryRepo_def)
  show ?thesis
  proof (cases r)
    case (Inl err)
    then show ?thesis using mem_kv.set_err st' st set assms(1) by fastforce
  next
    case (Inr e')
    then show ?thesis using mem_kv.set_ok [OF st' [unfolded Inr], of app key] st set(9) assms(1) by auto
  qed
next
  case (delete auth a viewer k exp s1)
  obtain st r where st: "memDelete (kv_store s) a k exp = (st, r)" by fastforce
  then have st': "repo_Delete (memoryRepo (kv_limits s) now2) (kv_store s) a k exp = (st, r)"
    by (simp add: memoryRepo_def)
  have ne: "\<not> (app = a \<and> key = k)" using assms(2) delete(1,2) by auto
  show ?thesis
  proof (cases r)
    case (Inl err)
    then show ?thesis using mem_kv.delete_err [OF st' [unfolded Inl], of app key] st delete(8) assms(1) by auto
  next
    case (Inr m)
    then show ?thesis using mem_kv.delete_ok [OF st' [unfolded Inr], of app key] ne st delete(8) assms(1) by auto
  qed
qed (use assms in \<open>auto simp: kv_allow_fst\<close>)

lemma kv_run_version:
  assumes "mem_look (kv_store s) app key = Some e" "list_all (\<lambda>(now, now2, op). \<not> may_delete app key op) ops"
  shows "\<exists>e' n. mem_look (kv_store (kv_run s ops)) app key = Some e' \<and> n \<le> length ops
    \<and> en_Version e' = en_Version e + of_nat n"
  using assms
proof (induction ops arbitrary: s e)
  case (Cons p ops)
  obtain now now2 op where p: "p = (now, now2, op)" by (cases p)
  obtain e1 where e1: "mem_look (kv_store (kv_exec s now now2 op)) app key = Some e1"
    "en_Version e1 = en_Version e \<or> en_Version e1 = en_Version e + 1"
    using kv_exec_version [OF Cons.prems(1), of op now now2] Cons.prems(2) p by auto
  obtain e' n where "mem_look (kv_store (kv_run s (p # ops))) app key = Some e'" "n \<le> length ops"
    "en_Version e' = en_Version e1 + of_nat n"
    using Cons.IH [OF e1(1)] Cons.prems(2) p by auto
  with e1(2) show ?case
    by (elim disjE) (auto simp: ac_simps intro: exI [of _ n] exI [of _ "Suc n"])
qed (auto intro!: exI [of _ 0])

section \<open>Paging\<close>

text \<open>A client that follows the cursors; \<open>None\<close> when the fuel is used up or a page fails.\<close>

fun all_pages :: "nat \<Rightarrow> kv_apps \<Rightarrow> string \<Rightarrow> string \<Rightarrow> string \<Rightarrow> int \<Rightarrow> KVEntry list option" where
  "all_pages 0 apps app pre cursor limit = None"
| "all_pages (Suc fuel) apps app pre cursor limit =
     (case memList apps app pre cursor limit of
        Inl _ \<Rightarrow> None
      | Inr r \<Rightarrow>
          if lr_NextCursor r = [] then Some (lr_Entries r)
          else map_option (\<lambda>es. lr_Entries r @ es) (all_pages fuel apps app pre (lr_NextCursor r) limit))"

definition entry_at :: "(string, KVEntry) gomap \<Rightarrow> string \<Rightarrow> KVEntry" where
  "entry_at es k = (case map_of es k of None \<Rightarrow> zeroEntry | Some e \<Rightarrow> e)"

lemma list_page_eq:
  assumes "i < limit"
  shows "list_page es limit i prev keys out = Inr \<lparr>
    lr_Entries = out @ map (entry_at es) (take (nat (limit - i)) keys),
    lr_NextCursor = (if int (length keys) > limit - i then keys ! nat (limit - i - 1) else [])\<rparr>"
  using assms
proof (induction keys arbitrary: i prev out)
  case (Cons k ks)
  show ?case
  proof (cases "i + 1 < limit")
    case True
    then have n: "nat (limit - i) = Suc (nat (limit - (i + 1)))" "nat (limit - i - 1) = Suc (nat (limit - (i + 1) - 1))"
      by auto
    from Cons.prems Cons.IH [OF True] True show ?thesis unfolding n by (simp add: entry_at_def)
  next
    case False
    with Cons.prems have i: "limit = i + 1" by simp
    then show ?thesis by (cases ks) (simp_all add: entry_at_def)
  qed
qed simp

lemma sorted_filter_tail:
  fixes ks :: "string list"
  assumes "sorted ks" "distinct ks" "n < length ks"
  shows "filter (\<lambda>k. k > ks ! n) ks = drop (Suc n) ks"
proof -
  have "filter (\<lambda>k. k > ks ! n) (take (Suc n) ks) = []"
    using assms by (auto simp: filter_empty_conv in_set_conv_nth not_less intro!: sorted_nth_mono)
  moreover have "filter (\<lambda>k. k > ks ! n) (drop (Suc n) ks) = drop (Suc n) ks"
  proof (rule filter_True, rule ballI)
    fix k assume "k \<in> set (drop (Suc n) ks)"
    then obtain j where "j < length ks - Suc n" "k = ks ! (Suc n + j)" by (auto simp: in_set_conv_nth)
    then have j: "Suc n + j < length ks" "k = ks ! (Suc n + j)" by auto
    then have "ks ! n \<le> k" "ks ! n \<noteq> k"
      using assms sorted_nth_mono [OF assms(1), of n "Suc n + j"] by (auto simp: nth_eq_iff_index_eq)
    then show "ks ! n < k" by simp
  qed
  ultimately show ?thesis by (metis append_take_drop_id filter_append self_append_conv2)
qed

lemma list_keys_props: "gm_wf es \<Longrightarrow> sorted (list_keys es pre cur) \<and> distinct (list_keys es pre cur)"
  by (simp add: list_keys_def)

lemma list_keys_next:
  assumes "gm_wf es" "n < length (list_keys es pre cur)"
  shows "list_keys es pre (list_keys es pre cur ! n) = drop (Suc n) (list_keys es pre cur)"
proof -
  let ?ks = "list_keys es pre cur"
  have "?ks ! n > cur" using nth_mem [OF assms(2)] by (simp add: list_keys_def)
  then have eq: "filter (\<lambda>k. HasPrefix k pre \<and> k > ?ks ! n) (map fst es)
      = filter (\<lambda>k. k > ?ks ! n) (filter (\<lambda>k. HasPrefix k pre \<and> k > cur) (map fst es))"
    unfolding filter_filter by (intro filter_cong) auto
  have "list_keys es pre (?ks ! n) = filter (\<lambda>k. k > ?ks ! n) ?ks"
    unfolding list_keys_def [of es pre "?ks ! n"] eq by (simp add: list_keys_def filter_sort)
  then show ?thesis using sorted_filter_tail list_keys_props [OF assms(1)] assms(2) by metis
qed

lemma all_pages_eq:
  assumes "gm_wf (app_entries apps app)" "[] \<notin> fst ` set (app_entries apps app)" "1 \<le> limit"
    "length (list_keys (app_entries apps app) pre cursor) < fuel"
  shows "all_pages fuel apps app pre cursor limit
    = Some (map (entry_at (app_entries apps app)) (list_keys (app_entries apps app) pre cursor))"
  using assms(4)
proof (induction fuel arbitrary: cursor)
  case (Suc fuel)
  let ?es = "app_entries apps app" and ?m = "nat (limit - 1)"
  let ?ks = "list_keys ?es pre cursor"
  have page: "memList apps app pre cursor limit = Inr \<lparr>lr_Entries = map (entry_at ?es) (take (Suc ?m) ?ks),
      lr_NextCursor = (if int (length ?ks) > limit then ?ks ! ?m else [])\<rparr>"
    using assms(3) list_page_eq [of 0 limit ?es None ?ks "[]"] by (simp add: memList_def Suc_nat_eq_nat_zadd1)
  show ?case
  proof (cases "int (length ?ks) > limit")
    case True
    then have m: "?m < length ?ks" using assms(3) by auto
    then have "?ks ! ?m \<in> set ?ks" by simp
    then have "?ks ! ?m \<in> fst ` set ?es" by (auto simp: list_keys_def)
    then have ne: "?ks ! ?m \<noteq> []" using assms(2) by metis
    have next_: "list_keys ?es pre (?ks ! ?m) = drop (Suc ?m) ?ks" by (rule list_keys_next [OF assms(1) m])
    have "all_pages fuel apps app pre (?ks ! ?m) limit = Some (map (entry_at ?es) (drop (Suc ?m) ?ks))"
      using Suc.IH [of "?ks ! ?m"] Suc.prems m unfolding next_ by simp
    then show ?thesis using page True ne by (simp add: map_append [symmetric] del: map_append)
  next
    case False
    then have "length ?ks \<le> Suc ?m" using assms(3) by linarith
    then show ?thesis using page False by simp
  qed
qed simp

section \<open>Budgets of the service\<close>

lemma retainRecent_eq: "retainRecent ev c = retained ev c"
  by (simp add: retainRecent_def retained_def Let_def)

interpretation kv_window: window_retention retainRecent
  by unfold_locales (simp add: retainRecent_def drop_skip_expired [symmetric] Let_def)

lemma rate_events_prune:
  "gm_wf rates \<Longrightarrow> rate_events (gm_rewrite (prune_rate c) rates) k = retainRecent (rate_events rates k) c"
  by (auto simp: rate_events_def map_of_gm_rewrite prune_rate_def retainRecent_def Let_def
      split: option.splits)

lemma keys_differ [simp]: "viewer_key a v \<noteq> app_key b" "app_key b \<noteq> viewer_key a v"
  by (simp_all add: viewer_key_def app_key_def)

text \<open>A sequence of calls of \<open>allow\<close>; the second component lists the admitted ones.\<close>

fun allow_run :: "'r KVService \<Rightarrow> (time \<times> string \<times> string) list
      \<Rightarrow> 'r KVService \<times> (time \<times> string \<times> string) list" where
  "allow_run s [] = (s, [])"
| "allow_run s ((now, app, viewer) # calls) =
     (case kv_allow s now app viewer of
        (s1, ok) \<Rightarrow> (case allow_run s1 calls of
          (s2, h) \<Rightarrow> (s2, if ok then (now, app, viewer) # h else h)))"

definition calls_of :: "string \<Rightarrow> (time \<times> string \<times> string) list \<Rightarrow> time list" where
  "calls_of k h = map fst (filter (\<lambda>(t, a, v). k = viewer_key a v \<or> k = app_key a) h)"

definition budget_of :: "KVLimits \<Rightarrow> string \<Rightarrow> int" where
  "budget_of lim k = (if prefix ''app'' k then kl_AppRequestsPerWindow lim else kl_ViewerRequestsPerWindow lim)"

definition kv_tracks :: "KVLimits \<Rightarrow> time \<Rightarrow> (time \<times> string \<times> string) list \<Rightarrow> 'r KVService \<Rightarrow> bool" where
  "kv_tracks lim now h s \<longleftrightarrow> kv_limits s = lim \<and> gm_wf (kv_rates s)
     \<and> int (length (kv_rates s)) \<le> kl_MaxRateScopes lim
     \<and> (\<forall>k. represents (kl_RequestWindow lim) now (calls_of k h) (rate_events (kv_rates s) k)
          \<and> (\<forall>t. int (recent (kl_RequestWindow lim) t (calls_of k h)) \<le> budget_of lim k))
     \<and> represents (kl_RequestWindow lim) now (map fst h) (kv_global s)
     \<and> (\<forall>t. int (recent (kl_RequestWindow lim) t (map fst h)) \<le> kl_GlobalRequestsPerWindow lim)"

lemma admit_step:
  assumes "represents W now0 H b" "now0 \<le> now" "0 < W" "\<forall>t. int (recent W t H) \<le> n"
    "int (length (retainRecent b (now - W))) < n"
  shows "represents W now (H @ [now]) (retainRecent b (now - W) @ [now]) \<and> (\<forall>t. int (recent W t (H @ [now])) \<le> n)"
proof -
  have r: "represents W now H (retainRecent b (now - W))"
    by (rule kv_window.retain_represents [OF assms(1,2)]) simp
  have "length (retainRecent b (now - W)) < nat n" "\<forall>t. recent W t H \<le> nat n"
    using assms(4,5) by (auto simp: le_nat_iff)
  from kv_window.admit_bound [OF r assms(3) this] assms(5) show ?thesis by (auto simp: le_nat_iff)
qed

lemma calls_of_snoc:
  "calls_of k (h @ [(now, a, v)]) = calls_of k h @ (if k = viewer_key a v \<or> k = app_key a then [now] else [])"
  by (simp add: calls_of_def)

lemma rate_events_charge:
  "rate_events (AList.update ak ae (AList.update vk ve rates)) k =
    (if k = ak then ae else if k = vk then ve else rate_events rates k)"
  by (simp add: rate_events_def gm_lookup_update)

lemma kv_allow_cases:
  assumes "kv_allow s now app viewer = (s', ok)"
  defines "c \<equiv> now - kl_RequestWindow (kv_limits s)"
  defines "rates \<equiv> gm_rewrite (prune_rate c) (kv_rates s)" and "global \<equiv> retainRecent (kv_global s) c"
  obtains (denied) "\<not> ok" "kv_rates s' = rates" "kv_global s' = global" "kv_limits s' = kv_limits s"
  | (admitted) "ok" "int (length (rate_events rates (viewer_key app viewer))) < kl_ViewerRequestsPerWindow (kv_limits s)"
      "int (length (rate_events rates (app_key app))) < kl_AppRequestsPerWindow (kv_limits s)"
      "int (length global) < kl_GlobalRequestsPerWindow (kv_limits s)"
      "kv_rates s' = AList.update (app_key app) (rate_events rates (app_key app) @ [now])
        (AList.update (viewer_key app viewer) (rate_events rates (viewer_key app viewer) @ [now]) rates)"
      "kv_global s' = global @ [now]" "kv_limits s' = kv_limits s"
      "int (length (kv_rates s')) \<le> kl_MaxRateScopes (kv_limits s)"
proof (cases ok)
  case True
  have len: "length (AList.update (app_key app) x (AList.update (viewer_key app viewer) y rates)) =
      length rates + (if map_of rates (viewer_key app viewer) = None then 1 else 0)
        + (if map_of rates (app_key app) = None then 1 else 0)" for x y
    by (simp add: length_update dom_update map_of_eq_None_iff)
  from True assms(1) show ?thesis
    by (intro admitted) (auto simp: kv_allow_def Let_def c_def [symmetric] rates_def [symmetric] global_def [symmetric]
        len split: if_splits)
next
  case False
  with assms(1) show ?thesis
    by (intro denied) (auto simp: kv_allow_def Let_def c_def rates_def global_def split: if_splits)
qed

lemma kv_allow_tracks:
  assumes tr: "kv_tracks lim now0 h s" and le: "now0 \<le> now" and W: "0 < kl_RequestWindow lim"
    and al: "kv_allow s now app viewer = (s', ok)"
  shows "kv_tracks lim now (if ok then h @ [(now, app, viewer)] else h) s'"
proof -
  let ?W = "kl_RequestWindow lim" and ?c = "now - kl_RequestWindow lim"
  let ?rates = "gm_rewrite (prune_rate ?c) (kv_rates s)"
  have lim: "kv_limits s = lim" and wf: "gm_wf (kv_rates s)" using tr by (auto simp: kv_tracks_def)
  have ev: "rate_events ?rates k = retainRecent (rate_events (kv_rates s) k) ?c" for k
    by (rule rate_events_prune [OF wf])
  have old: "represents ?W now0 (calls_of k h) (rate_events (kv_rates s) k)"
    "\<forall>t. int (recent ?W t (calls_of k h)) \<le> budget_of lim k" for k
    using tr by (auto simp: kv_tracks_def)
  have oldg: "represents ?W now0 (map fst h) (kv_global s)"
    "\<forall>t. int (recent ?W t (map fst h)) \<le> kl_GlobalRequestsPerWindow lim"
    using tr by (auto simp: kv_tracks_def)
  have keep: "represents ?W now (calls_of k h) (rate_events ?rates k)" for k
    unfolding ev by (rule kv_window.retain_represents [OF old(1) le]) simp
  have keepg: "represents ?W now (map fst h) (retainRecent (kv_global s) ?c)"
    by (rule kv_window.retain_represents [OF oldg(1) le]) simp
  from al show ?thesis
  proof (cases rule: kv_allow_cases)
    case denied
    have "int (length (kv_rates s')) \<le> kl_MaxRateScopes lim"
      using denied(2) gm_rewrite_length [of "prune_rate ?c" "kv_rates s"] tr lim by (auto simp: kv_tracks_def)
    then show ?thesis
      using denied keep keepg old(2) oldg(2) wf lim by (simp add: kv_tracks_def)
  next
    case admitted
    have bv: "budget_of lim (viewer_key app viewer) = kl_ViewerRequestsPerWindow lim"
      and ba: "budget_of lim (app_key app) = kl_AppRequestsPerWindow lim"
      by (auto simp: budget_of_def viewer_key_def app_key_def)
    note charged = admit_step [OF old(1) le W old(2)]
    have v: "represents ?W now (calls_of (viewer_key app viewer) h @ [now]) (rate_events ?rates (viewer_key app viewer) @ [now])
      \<and> (\<forall>t. int (recent ?W t (calls_of (viewer_key app viewer) h @ [now])) \<le> budget_of lim (viewer_key app viewer))"
      using charged [of "viewer_key app viewer"] admitted(2) bv lim by (simp add: ev)
    have a: "represents ?W now (calls_of (app_key app) h @ [now]) (rate_events ?rates (app_key app) @ [now])
      \<and> (\<forall>t. int (recent ?W t (calls_of (app_key app) h @ [now])) \<le> budget_of lim (app_key app))"
      using charged [of "app_key app"] admitted(3) ba lim by (simp add: ev)
    have g: "represents ?W now (map fst h @ [now]) (retainRecent (kv_global s) ?c @ [now])
      \<and> (\<forall>t. int (recent ?W t (map fst h @ [now])) \<le> kl_GlobalRequestsPerWindow lim)"
      using admit_step [OF oldg(1) le W oldg(2)] admitted(4) lim by simp
    have "represents ?W now (calls_of k (h @ [(now, app, viewer)])) (rate_events (kv_rates s') k)
        \<and> (\<forall>t. int (recent ?W t (calls_of k (h @ [(now, app, viewer)]))) \<le> budget_of lim k)" for k
      using v a keep [of k] old(2) [of k] admitted(5) lim by (simp add: calls_of_snoc rate_events_charge)
    then show ?thesis
      using admitted(1,5-8) g wf lim by (simp add: kv_tracks_def)
  qed
qed

lemma allow_run_tracks:
  assumes "kv_tracks lim now0 h0 s" "0 < kl_RequestWindow lim" "sorted (now0 # map fst calls)"
    "allow_run s calls = (s', h)"
  shows "\<exists>now. kv_tracks lim now (h0 @ h) s'"
  using assms
proof (induction calls arbitrary: now0 h0 s h)
  case (Cons p calls)
  obtain now app viewer where p: "p = (now, app, viewer)" by (cases p)
  obtain s1 ok where al: "kv_allow s now app viewer = (s1, ok)" by fastforce
  obtain h' where h: "allow_run s1 calls = (s', h')" "h = (if ok then (now, app, viewer) # h' else h')"
    using Cons.prems(4) p al by (auto split: prod.splits)
  have "kv_tracks lim now (if ok then h0 @ [(now, app, viewer)] else h0) s1"
    using Cons.prems p by (intro kv_allow_tracks [OF _ _ _ al]) auto
  from Cons.IH [OF this Cons.prems(2) _ h(1)] Cons.prems(3) p h(2) show ?case by (auto split: if_splits)
qed auto

lemma normalizedLimits_pos:
  "0 < kl_RequestWindow (normalizedLimits l) \<and> 0 < kl_ViewerRequestsPerWindow (normalizedLimits l)
    \<and> 0 < kl_AppRequestsPerWindow (normalizedLimits l) \<and> 0 < kl_GlobalRequestsPerWindow (normalizedLimits l)
    \<and> 0 < kl_MaxRateScopes (normalizedLimits l)"
  by (simp add: normalizedLimits_def Let_def DefaultLimits_def)

lemma NewKVService_tracks: "kv_tracks (kv_limits (NewKVService l sink st)) now [] (NewKVService l sink st)"
  using normalizedLimits_pos [of l] normalizedLimits_pos [of DefaultLimits]
  by (auto simp: NewKVService_def kv_tracks_def Let_def calls_of_def rate_events_def recent_def budget_of_def)

section \<open>The key grammar\<close>

definition plain_char :: "char \<Rightarrow> bool" where
  "plain_char c \<longleftrightarrow> 0x20 \<le> (of_char c :: nat) \<and> c \<noteq> CHR 0x22 \<and> c \<noteq> CHR 0x5C"

lemma ReplaceAll_absent: "c \<notin> set s \<Longrightarrow> ReplaceAll s (c # d) new = s"
proof (induction s)
  case (Cons x s)
  then show ?case by (simp add: ReplaceAll.simps [of "x # s"] HasPrefix_def)
qed (simp add: ReplaceAll.simps)

lemma ReplaceAll_first:
  "c \<notin> set u \<Longrightarrow> ReplaceAll (u @ c # w) [c] new = u @ new @ ReplaceAll w [c] new"
proof (induction u)
  case Nil
  show ?case by (subst ReplaceAll.simps) (simp add: HasPrefix_def)
next
  case (Cons x u)
  then show ?case by (simp add: ReplaceAll.simps [of "x # u @ c # w"] HasPrefix_def)
qed

lemma json_scan_top_nonspace:
  "\<not> json_space c \<Longrightarrow> st \<in> {EndValue, EndTop} \<Longrightarrow> json_scan (Some (st, [])) (w @ [c]) = None"
proof (induction w arbitrary: st)
  case (Cons x w)
  then show ?case by (cases "json_space x") auto
qed auto

lemma quoted_key_plain:
  assumes "list_all plain_char key"
  shows "json_Valid (quoted_key key)"
proof -
  have a: "CHR 0x5C \<notin> set key" "CHR 0x22 \<notin> set key" using assms by (auto simp: list_all_iff plain_char_def)
  then have q: "quoted_key key = CHR 0x22 # key @ [CHR 0x22]"
    by (simp add: quoted_key_def quote_def backslash2_def ReplaceAll_absent)
  have "json_scan (Some (InString, [])) key = Some (InString, [])"
    using assms by (intro json_scan_plain) (simp add: list_all_iff plain_char_def)
  then show ?thesis
    unfolding q by (simp add: json_Valid_def json_scan_append json_begin_value_def json_space_def json_eof_def)
qed

lemma quoted_key_quote:
  assumes "CHR 0x22 \<in> set key" "CHR 0x5C \<notin> set key" "list_all (\<lambda>c. 0x20 \<le> (of_char c :: nat)) key"
  shows "\<not> json_Valid (quoted_key key)"
proof -
  obtain u w where key: "key = u @ CHR 0x22 # w" "CHR 0x22 \<notin> set u"
    using split_list_first [OF assms(1)] by auto
  have r: "quoted_key key = CHR 0x22 # u @ [CHR 0x5C, CHR 0x5C, CHR 0x22] @ ReplaceAll w [CHR 0x22] (backslash2 @ quote) @ [CHR 0x22]"
    using assms(2) key
    by (simp add: quoted_key_def ReplaceAll_absent ReplaceAll_first) (simp add: quote_def backslash2_def ReplaceAll_absent ReplaceAll_first)
  have "list_all plain_char u" using assms(2,3) key by (auto simp: list_all_iff plain_char_def)
  then have u: "json_scan (Some (InString, [])) u = Some (InString, [])"
    by (intro json_scan_plain) (simp add: list_all_iff plain_char_def)
  have "json_scan (Some (BeginValue, [])) (quoted_key key) = None"
    unfolding r using u json_scan_top_nonspace [of "CHR 0x22" EndValue]
    by (simp add: json_scan_append json_begin_value_def json_space_def)
  then show ?thesis by (simp add: json_Valid_def json_eof_def)
qed

section \<open>Properties\<close>

text \<open>C8. Quotas: whatever operations clients issue against a fresh service, every app has at most
  \<open>KeysPerApp\<close> keys and \<open>TotalBytesPerApp\<close> bytes of values, its keys are distinct, non-empty and
  within the size bound, each is stored under its own name, and every value is valid JSON within
  the size bound.\<close>

theorem kv_quota_invariant:
  assumes "s0 = NewKVService limits sink []" "lim = kv_limits s0"
    and "0 \<le> kl_KeysPerApp lim" "0 \<le> kl_TotalBytesPerApp lim"
    and "es = app_entries (kv_store (kv_run s0 ops)) app"
  shows "distinct (map fst es) \<and> int (length es) \<le> kl_KeysPerApp lim
    \<and> total_bytes es \<le> kl_TotalBytesPerApp lim
    \<and> (\<forall>(k, e) \<in> set es. en_Key e = k \<and> k \<noteq> [] \<and> int (length k) \<le> kl_KeyBytes lim
         \<and> int (length (en_Value e)) \<le> kl_ValueBytes lim \<and> json_Valid (en_Value e))"
proof -
  have "kv_store s0 = []" using assms(1) by (simp add: NewKVService_def Let_def)
  then have "store_ok lim (kv_store s0)"
    using assms(3,4) by (simp add: store_ok_def entries_ok_def app_entries_def total_bytes_def)
  then have "store_ok lim (kv_store (kv_run s0 ops))" using kv_run_store_ok assms(2) by blast
  then show ?thesis unfolding assms(5)
    by (auto simp: store_ok_def entries_ok_def list_all_iff validKey_def validateValue_def)
qed

definition kv_demo_service :: "kv_apps KVService" where
  "kv_demo_service = NewKVService DefaultLimits True []"

definition kv_demo_ops :: "(time \<times> time \<times> kv_op) list" where
  "kv_demo_ops = [(1, 1, OpSet sample_context ''b'' ''[1]'' None), (2, 2, OpSet sample_context ''a'' ''{}'' None),
     (3, 3, OpSet sample_context ''b'' ''null'' (Some 1)), (4, 4, OpSet sample_context ''b'' ''2'' (Some 1))]"

lemma kv_demo_store:
  "app_entries (kv_store (kv_run kv_demo_service kv_demo_ops)) ''a1'' =
    [(''b'', \<lparr>en_Key = ''b'', en_Value = ''null'', en_Version = 2, en_UpdatedAt = 3\<rparr>),
     (''a'', \<lparr>en_Key = ''a'', en_Value = ''{}'', en_Version = 1, en_UpdatedAt = 2\<rparr>)]"
  by code_simp

lemma kv_demo_limits: "kv_limits kv_demo_service = DefaultLimits"
  by code_simp

theorem kv_quota_invariant_witness:
  "total_bytes (app_entries (kv_store (kv_run kv_demo_service kv_demo_ops)) ''a1'') \<le> 100 * 2 ^ 20
   \<and> length (app_entries (kv_store (kv_run kv_demo_service kv_demo_ops)) ''a1'') = 2"
proof -
  have "0 \<le> kl_KeysPerApp DefaultLimits" "0 \<le> kl_TotalBytesPerApp DefaultLimits"
    by (simp_all add: DefaultLimits_def)
  from kv_quota_invariant [OF kv_demo_service_def kv_demo_limits [symmetric] this refl, of kv_demo_ops "''a1''"]
  show ?thesis by (simp add: kv_demo_store DefaultLimits_def)
qed

text \<open>Optimistic concurrency: once a conditional write with version \<open>v\<close> has succeeded, no later
  conditional write of the same key with \<open>v\<close> succeeds, through any interleaving of fewer than
  \<open>2 ^ 64 - 1\<close> operations of any viewers that do not delete the key. (After a delete the version
  restarts at one.)\<close>

theorem kv_cas_exclusive:
  assumes "KVSet (memoryRepo (kv_limits s) now2) s now auth key val (Some v) = (s1, Inr e)"
    and "kv_app auth = Inr (app, viewer)" "kv_app auth' = Inr (app, viewer')"
    and "list_all (\<lambda>(t, t2, op). \<not> may_delete app key op) ops" "length ops < 2 ^ 64 - 1"
  shows "\<exists>err. snd (KVSet (memoryRepo (kv_limits (kv_run s1 ops)) now2') (kv_run s1 ops) now' auth' key val' (Some v)) = Inl err"
proof -
  have app: "ac_AppID c = app" if "kv_app (Some c) = Inr (app, w)" for c w
    using that by (auto simp: kv_app_def split: sum.splits if_splits dest: Scope_InrD)
  have "\<exists>c. auth = Some c \<and> en_Version e = (case mem_look (kv_store s) (ac_AppID c) key of None \<Rightarrow> 0 | Some old \<Rightarrow> en_Version old) + 1
      \<and> map_option en_Version (mem_look (kv_store s) (ac_AppID c) key) = Some v
      \<and> mem_look (kv_store s1) (ac_AppID c) key = Some e"
    using mem_kv.service_set [OF assms(1)] by auto
  then have s1: "mem_look (kv_store s1) app key = Some e" "en_Version e = v + 1"
    using app assms(2) by auto
  obtain e' n where e': "mem_look (kv_store (kv_run s1 ops)) app key = Some e'" "n \<le> length ops"
    "en_Version e' = v + 1 + of_nat n"
    using kv_run_version [OF s1(1) assms(4)] s1(2) by auto
  have "v + 1 + of_nat n \<noteq> v"
  proof
    assume "v + 1 + of_nat n = v"
    then have "(of_nat (Suc n) :: uint64) = 0" by (simp add: algebra_simps)
    then have "2 ^ 64 dvd Suc n" unfolding word_of_nat_eq_0_iff by simp
    then have "2 ^ 64 \<le> Suc n" by (rule dvd_imp_le) simp
    then show False using e'(2) assms(5) by simp
  qed
  then have stale: "map_option en_Version (mem_look (kv_store (kv_run s1 ops)) app key) \<noteq> Some v"
    using e' by simp
  obtain s2 r where r: "KVSet (memoryRepo (kv_limits (kv_run s1 ops)) now2') (kv_run s1 ops) now' auth' key val' (Some v) = (s2, r)"
    by fastforce
  from mem_kv.service_set [OF r] stale app assms(3) r show ?thesis by auto
qed

theorem kv_cas_exclusive_witness:
  "\<exists>err. snd (KVSet (memoryRepo (kv_limits (kv_run (kv_run kv_demo_service (take 3 kv_demo_ops)) [])) 4)
     (kv_run (kv_run kv_demo_service (take 3 kv_demo_ops)) []) 4 sample_context ''b'' ''2'' (Some 1)) = Inl err"
proof -
  let ?s = "kv_run kv_demo_service (take 2 kv_demo_ops)"
  have set: "KVSet (memoryRepo (kv_limits ?s) 3) ?s 3 sample_context ''b'' ''null'' (Some 1)
      = (kv_run kv_demo_service (take 3 kv_demo_ops), Inr \<lparr>en_Key = ''b'', en_Value = ''null'', en_Version = 2, en_UpdatedAt = 3\<rparr>)"
    by code_simp
  have app: "kv_app sample_context = Inr (''a1'', ''u1'')" by code_simp
  show ?thesis by (rule kv_cas_exclusive [OF set app app]) simp_all
qed

text \<open>C9. Paging: a client that follows the cursors from the start receives, after finitely many pages,
  exactly the entries whose key has the prefix, each once and in the byte order of the keys.\<close>

theorem kv_paging_complete:
  assumes "s0 = NewKVService limits sink []" "lim = kv_limits s0"
    and "0 \<le> kl_KeysPerApp lim" "0 \<le> kl_TotalBytesPerApp lim"
    and "apps = kv_store (kv_run s0 ops)" "es = app_entries apps app" "1 \<le> limit" "length es < fuel"
  shows "\<exists>page. all_pages fuel apps app pre [] limit = Some page \<and> distinct (map en_Key page)
    \<and> sorted (map en_Key page) \<and> set page = {e. \<exists>k. map_of es k = Some e \<and> HasPrefix k pre}"
proof -
  have "kv_store s0 = []" using assms(1) by (simp add: NewKVService_def Let_def)
  then have "store_ok lim (kv_store s0)"
    using assms(3,4) by (simp add: store_ok_def entries_ok_def app_entries_def total_bytes_def)
  then have ok: "entries_ok lim es" using kv_run_store_ok assms(2,5,6) by (auto simp: store_ok_def)
  then have wf: "gm_wf es" and ne: "[] \<notin> fst ` set es"
    by (auto simp: entries_ok_def list_all_iff validKey_def)
  let ?ks = "list_keys es pre []"
  have "length ?ks \<le> length es" by (simp add: list_keys_def length_filter_le order_trans [OF length_filter_le])
  then have pages: "all_pages fuel apps app pre [] limit = Some (map (entry_at es) ?ks)"
    using all_pages_eq [of apps app limit pre "[]" fuel] wf ne assms(6-8) by simp
  have ks: "k \<in> set ?ks \<longleftrightarrow> HasPrefix k pre \<and> (\<exists>e. map_of es k = Some e)" for k
    using ne map_of_eq_None_iff [of es k] by (cases "map_of es k"; cases k) (auto simp: list_keys_def)
  have key: "en_Key e = k" if "map_of es k = Some e" for k e
    using ok map_of_SomeD [OF that] by (auto simp: entries_ok_def list_all_iff)
  have at: "entry_at es k = e" if "map_of es k = Some e" for k e
    using that by (simp add: entry_at_def)
  have "en_Key (entry_at es k) = k" if "k \<in> set ?ks" for k
    using that key at unfolding ks by auto
  then have "map en_Key (map (entry_at es) ?ks) = ?ks" by (simp add: map_idI)
  moreover have "set (map (entry_at es) ?ks) = {e. \<exists>k. map_of es k = Some e \<and> HasPrefix k pre}"
  proof (intro set_eqI iffI)
    fix e assume "e \<in> set (map (entry_at es) ?ks)"
    then obtain k where "k \<in> set ?ks" "e = entry_at es k" by auto
    then show "e \<in> {e. \<exists>k. map_of es k = Some e \<and> HasPrefix k pre}" using at unfolding ks by auto
  next
    fix e assume "e \<in> {e. \<exists>k. map_of es k = Some e \<and> HasPrefix k pre}"
    then obtain k where k: "map_of es k = Some e" "HasPrefix k pre" by auto
    then have "k \<in> set ?ks" unfolding ks by auto
    then show "e \<in> set (map (entry_at es) ?ks)" using at [OF k(1)] by (auto intro: rev_image_eqI)
  qed
  ultimately show ?thesis using pages list_keys_props [OF wf, of pre "[]"] by auto
qed

theorem kv_paging_complete_witness:
  "\<exists>page. all_pages 9 (kv_store (kv_run kv_demo_service kv_demo_ops)) ''a1'' [] [] 1 = Some page
    \<and> map en_Key page = [''a'', ''b'']"
proof -
  let ?apps = "kv_store (kv_run kv_demo_service kv_demo_ops)"
  have l: "0 \<le> kl_KeysPerApp DefaultLimits" "0 \<le> kl_TotalBytesPerApp DefaultLimits" "1 \<le> (1::int)"
    by (simp_all add: DefaultLimits_def)
  have "length (app_entries ?apps ''a1'') < 9" by (simp add: kv_demo_store)
  from kv_paging_complete [OF kv_demo_service_def kv_demo_limits [symmetric] l(1,2) refl refl l(3) this, of "[]"]
  obtain page where p: "all_pages 9 ?apps ''a1'' [] [] 1 = Some page" by auto
  have "map_option (map en_Key) (all_pages 9 ?apps ''a1'' [] [] 1) = Some [''a'', ''b'']" by code_simp
  with p show ?thesis by auto
qed

text \<open>Request budgets: for every sequence of calls in the order of their clock readings, within every
  window of the configured length a viewer of an app is admitted at most \<open>ViewerRequestsPerWindow\<close>
  times, an app at most \<open>AppRequestsPerWindow\<close> times and the service at most
  \<open>GlobalRequestsPerWindow\<close> times; and at most \<open>MaxRateScopes\<close> scopes are remembered.\<close>

theorem kv_rate_bounds:
  assumes "s0 = NewKVService limits sink st" "lim = kv_limits s0"
    and "sorted (map fst calls)" "allow_run s0 calls = (s, h)"
  shows "int (recent (kl_RequestWindow lim) t (map fst (filter (\<lambda>(x, a, v). a = app \<and> v = viewer) h))) \<le> kl_ViewerRequestsPerWindow lim
    \<and> int (recent (kl_RequestWindow lim) t (map fst (filter (\<lambda>(x, a, v). a = app) h))) \<le> kl_AppRequestsPerWindow lim
    \<and> int (recent (kl_RequestWindow lim) t (map fst h)) \<le> kl_GlobalRequestsPerWindow lim
    \<and> int (length (kv_rates s)) \<le> kl_MaxRateScopes lim"
proof -
  define now0 where "now0 = (case calls of [] \<Rightarrow> 0 | p # _ \<Rightarrow> fst p)"
  have so: "sorted (now0 # map fst calls)" using assms(3) by (cases calls) (auto simp: now0_def)
  have "0 < kl_RequestWindow lim"
    using assms(1,2) normalizedLimits_pos by (auto simp: NewKVService_def Let_def)
  from allow_run_tracks [OF NewKVService_tracks [of limits sink st] _ so] this assms(1,2,4)
  obtain now where tr: "kv_tracks lim now ([] @ h) s" by blast
  then have b: "int (recent (kl_RequestWindow lim) t (calls_of k h)) \<le> budget_of lim k" for k
    by (simp add: kv_tracks_def)
  have mono: "recent W t (map fst (filter P h)) \<le> recent W t (map fst (filter Q h))" if "\<And>x. P x \<Longrightarrow> Q x" for W P Q
    using that by (induction h) (auto simp: recent_def)
  have "int (recent (kl_RequestWindow lim) t (map fst (filter (\<lambda>(x, a, v). a = app \<and> v = viewer) h)))
      \<le> int (recent (kl_RequestWindow lim) t (calls_of (viewer_key app viewer) h))"
    unfolding calls_of_def using mono [of "\<lambda>(x, a, v). a = app \<and> v = viewer"] by auto
  moreover have "int (recent (kl_RequestWindow lim) t (map fst (filter (\<lambda>(x, a, v). a = app) h)))
      \<le> int (recent (kl_RequestWindow lim) t (calls_of (app_key app) h))"
    unfolding calls_of_def using mono [of "\<lambda>(x, a, v). a = app"] by auto
  moreover have "budget_of lim (viewer_key app viewer) = kl_ViewerRequestsPerWindow lim"
    "budget_of lim (app_key app) = kl_AppRequestsPerWindow lim"
    by (auto simp: budget_of_def viewer_key_def app_key_def)
  ultimately show ?thesis using b [of "viewer_key app viewer"] b [of "app_key app"] tr by (simp add: kv_tracks_def)
qed

definition kv_tight_limits :: KVLimits where
  "kv_tight_limits = DefaultLimits\<lparr>kl_RequestWindow := 10, kl_ViewerRequestsPerWindow := 2\<rparr>"

definition kv_burst :: "(time \<times> string \<times> string) list" where
  "kv_burst = [(1, ''a'', ''v''), (2, ''a'', ''v''), (3, ''a'', ''v''), (11, ''a'', ''v'')]"

theorem kv_rate_bounds_witness:
  "snd (allow_run (NewKVService kv_tight_limits True ()) kv_burst) = [(1, ''a'', ''v''), (2, ''a'', ''v''), (11, ''a'', ''v'')]
   \<and> int (recent 10 11 (map fst (filter (\<lambda>(x, a, v). a = ''a'' \<and> v = ''v'')
       (snd (allow_run (NewKVService kv_tight_limits True ()) kv_burst))))) \<le> 2"
proof -
  let ?s = "NewKVService kv_tight_limits True ()"
  have run: "snd (allow_run ?s kv_burst) = [(1, ''a'', ''v''), (2, ''a'', ''v''), (11, ''a'', ''v'')]"
    by code_simp
  have lim: "kl_RequestWindow (kv_limits ?s) = 10" "kl_ViewerRequestsPerWindow (kv_limits ?s) = 2" by code_simp+
  have s: "sorted (map fst kv_burst)" by (simp add: kv_burst_def)
  have r: "allow_run ?s kv_burst = (fst (allow_run ?s kv_burst), snd (allow_run ?s kv_burst))" by simp
  show ?thesis
    using run kv_rate_bounds [OF refl refl s r, of 11 "''a''" "''v''"] unfolding lim by simp
qed

text \<open>The key grammar: a non-empty UTF-8 key within the size bound and without control characters,
  quotes and backslashes is accepted; a key with a quote and no backslash is rejected, although the
  source escapes quotes before it asks \<open>json.Valid\<close> (its raw literal adds two backslashes, which
  escape each other).\<close>

theorem kv_key_grammar:
  assumes "key \<noteq> []" "ValidString key" "int (length key) \<le> m" "list_all (\<lambda>c. 0x20 \<le> (of_char c :: nat)) key"
    and "CHR 0x5C \<notin> set key"
  shows "validKey key m \<longleftrightarrow> CHR 0x22 \<notin> set key"
proof (cases "CHR 0x22 \<in> set key")
  case False
  then have "list_all plain_char key" using assms(4,5) by (auto simp: list_all_iff plain_char_def)
  then show ?thesis using False assms quoted_key_plain by (auto simp: validKey_def list_all_iff)
next
  case True
  then show ?thesis using quoted_key_quote [OF True assms(5,4)] by (simp add: validKey_def)
qed

theorem kv_key_grammar_witness:
  "validKey ''settings/default'' 256 \<and> \<not> validKey (''a'' @ [CHR 0x22] @ ''b'') 256"
proof -
  have "ValidString ''settings/default''" "list_all (\<lambda>c. 0x20 \<le> (of_char c :: nat)) ''settings/default''"
    "ValidString (''a'' @ [CHR 0x22] @ ''b'')" "list_all (\<lambda>c. 0x20 \<le> (of_char c :: nat)) (''a'' @ [CHR 0x22] @ ''b'')"
    by code_simp+
  then show ?thesis
    using kv_key_grammar [of "''settings/default''" 256] kv_key_grammar [of "''a'' @ [CHR 0x22] @ ''b''" 256] by auto
qed

end
