(* ===== verification/Collections_Service.thy ===== *)
theory Collections_Service
  imports Sessions_Auth Go_Json
begin

text \<open>
  The document collections of an app, \<open>internal/collections/collections.go\<close>: the wire grammar of
  names, identifiers and documents, and the service in front of the repository. The repository is a
  record of operations; its implementation is the SQL adapter, so it stays a parameter here. The
  entropy of a new identifier is an argument (\<open>None\<close> when reading it fails).
\<close>

section \<open>Regular expressions of the grammar\<close>

text \<open>The constructs the two expressions use, with the meaning of an anchored full match.\<close>

datatype rx =
    RxLit string
  | RxClass "char \<Rightarrow> bool"
  | RxRepeat nat nat "char \<Rightarrow> bool"
  | RxSeq rx rx
  | RxOpt rx

fun rx_match :: "rx \<Rightarrow> string \<Rightarrow> bool" where
  "rx_match (RxLit w) s = (s = w)"
| "rx_match (RxClass P) s = (length s = 1 \<and> list_all P s)"
| "rx_match (RxRepeat lo hi P) s = (lo \<le> length s \<and> length s \<le> hi \<and> list_all P s)"
| "rx_match (RxSeq a b) s = list_ex (\<lambda>n. rx_match a (take n s) \<and> rx_match b (drop n s)) [0..<Suc (length s)]"
| "rx_match (RxOpt a) s = (s = [] \<or> rx_match a s)"

definition lower_alnum :: "char \<Rightarrow> bool" where
  "lower_alnum c \<longleftrightarrow> is_lower c \<or> is_digit c"

definition name_char :: "char \<Rightarrow> bool" where
  "name_char c \<longleftrightarrow> lower_alnum c \<or> c = CHR ''_'' \<or> c = CHR ''-''"

definition id_char :: "char \<Rightarrow> bool" where
  "id_char c \<longleftrightarrow> is_upper c \<or> is_lower c \<or> is_digit c \<or> c = CHR ''_'' \<or> c = CHR ''-''"

definition collectionName :: rx where
  "collectionName = RxSeq (RxClass lower_alnum) (RxOpt (RxSeq (RxRepeat 0 62 name_char) (RxClass lower_alnum)))"

definition documentID :: rx where
  "documentID = RxSeq (RxLit ''doc_'') (RxRepeat 22 22 id_char)"

section \<open>Limits, grammar and data\<close>

datatype col_error =
    ErrInvalidCollection | ErrInvalidDocument | ErrInvalidDocumentID | ErrColListLimit | ErrSnapshotTooLarge
  | ErrColVersionConflict | ErrColQuotaExceeded | ColUnauthorized | ColEntropy | ColStoreError | ColContextDone

record ColLimits =
  cl_CollectionBytes :: int
  cl_DocumentBytes :: int
  cl_CollectionsPerApp :: int
  cl_DocumentsPerCollection :: int
  cl_TotalBytesPerApp :: int
  cl_ListLimit :: int
  cl_SnapshotLimit :: int

definition ColDefaultLimits :: ColLimits where
  "ColDefaultLimits = \<lparr>cl_CollectionBytes = 64, cl_DocumentBytes = 64 * 2 ^ 10, cl_CollectionsPerApp = 100,
     cl_DocumentsPerCollection = 10000, cl_TotalBytesPerApp = 100 * 2 ^ 20, cl_ListLimit = 100,
     cl_SnapshotLimit = 1000\<rparr>"

definition validCollection :: "string \<Rightarrow> int \<Rightarrow> bool" where
  "validCollection v maximum \<longleftrightarrow> v \<noteq> [] \<and> ValidString v \<and> int (length v) \<le> maximum \<and> rx_match collectionName v"

definition ValidCollection :: "string \<Rightarrow> bool" where
  "ValidCollection v = validCollection v (cl_CollectionBytes ColDefaultLimits)"

definition validID :: "string \<Rightarrow> bool" where
  "validID v = rx_match documentID v"

text \<open>Decoding a valid JSON text into a map succeeds for an object and for \<open>null\<close>, which leaves it nil.\<close>

definition json_object :: "string \<Rightarrow> bool" where
  "json_object v = (case dropWhile json_space v of [] \<Rightarrow> False | c # _ \<Rightarrow> c = CHR 0x7B)"

definition validDocument :: "string \<Rightarrow> int \<Rightarrow> bool" where
  "validDocument v maximum =
     (if length v = 0 \<or> int (length v) > maximum \<or> \<not> json_Valid v then False else json_object v)"

definition ValidDocument :: "string \<Rightarrow> bool" where
  "ValidDocument v = validDocument v (cl_DocumentBytes ColDefaultLimits)"

definition newDocumentID :: "nat list option \<Rightarrow> string option" where
  "newDocumentID rnd = map_option (\<lambda>b. ''doc_'' @ b64_encode b) rnd"

record Document =
  doc_ID :: string
  doc_Data :: string
  doc_Version :: uint64
  doc_CreatedAt :: time
  doc_UpdatedAt :: time

record ColListResult =
  cr_Documents :: "Document list"
  cr_NextCursor :: string
  cr_Revision :: uint64

record ColSnapshot =
  sn_Collection :: string
  sn_Documents :: "Document list"
  sn_Revision :: uint64

record ColMutation =
  cm_Collection :: string
  cm_ID :: string
  cm_Version :: uint64
  cm_Deleted :: bool
  cm_Revision :: uint64

record 'r ColRepository =
  cr_Create :: "'r \<Rightarrow> string \<Rightarrow> string \<Rightarrow> Document \<Rightarrow> 'r \<times> (col_error + Document \<times> ColMutation)"
  cr_Get :: "'r \<Rightarrow> string \<Rightarrow> string \<Rightarrow> string \<Rightarrow> col_error + Document option"
  cr_Update :: "'r \<Rightarrow> string \<Rightarrow> string \<Rightarrow> string \<Rightarrow> string \<Rightarrow> uint64 option \<Rightarrow> 'r \<times> (col_error + Document \<times> ColMutation)"
  cr_Delete :: "'r \<Rightarrow> string \<Rightarrow> string \<Rightarrow> string \<Rightarrow> uint64 option \<Rightarrow> 'r \<times> (col_error + bool \<times> ColMutation)"
  cr_List :: "'r \<Rightarrow> string \<Rightarrow> string \<Rightarrow> string \<Rightarrow> int \<Rightarrow> col_error + ColListResult"
  cr_Snapshot :: "'r \<Rightarrow> string \<Rightarrow> string \<Rightarrow> int \<Rightarrow> col_error + ColSnapshot"

record 'r ColService =
  cs_store :: 'r
  cs_limits :: ColLimits
  cs_sink :: bool
  cs_published :: "(DataAuthorizationContext \<times> ColMutation) list"

definition NewColService :: "'r \<Rightarrow> ColLimits \<Rightarrow> bool \<Rightarrow> 'r ColService" where
  "NewColService store limits sink =
     \<lparr>cs_store = store, cs_limits = (if cl_CollectionBytes limits = 0 then ColDefaultLimits else limits),
      cs_sink = sink, cs_published = []\<rparr>"

section \<open>The service\<close>

definition col_scope :: "AuthorizationContext option \<Rightarrow> col_error + string" where
  "col_scope auth = (case Scope auth of Inl _ \<Rightarrow> Inl ColUnauthorized | Inr (app, _, _) \<Rightarrow> Inr app)"

definition col_publish :: "AuthorizationContext option \<Rightarrow> ColMutation \<Rightarrow> 'r ColService \<Rightarrow> 'r ColService" where
  "col_publish auth m s =
     (case auth of
        Some c \<Rightarrow> if cs_sink s then s\<lparr>cs_published := cs_published s @ [(viewerData c, m)]\<rparr> else s
      | None \<Rightarrow> s)"

definition ColCreate :: "'r ColRepository \<Rightarrow> 'r ColService \<Rightarrow> nat list option \<Rightarrow> AuthorizationContext option \<Rightarrow> string
      \<Rightarrow> string \<Rightarrow> 'r ColService \<times> (col_error + Document \<times> ColMutation)" where
  "ColCreate repo s rnd auth collection data =
     (case col_scope auth of
        Inl e \<Rightarrow> (s, Inl e)
      | Inr app \<Rightarrow>
          if \<not> validCollection collection (cl_CollectionBytes (cs_limits s)) then (s, Inl ErrInvalidCollection)
          else if \<not> validDocument data (cl_DocumentBytes (cs_limits s)) then (s, Inl ErrInvalidDocument)
          else case newDocumentID rnd of
            None \<Rightarrow> (s, Inl ColEntropy)
          | Some docid \<Rightarrow>
              (case cr_Create repo (cs_store s) app collection
                      \<lparr>doc_ID = docid, doc_Data = data, doc_Version = 0, doc_CreatedAt = zero_time,
                       doc_UpdatedAt = zero_time\<rparr> of
                 (st, Inl e) \<Rightarrow> (s\<lparr>cs_store := st\<rparr>, Inl e)
               | (st, Inr (doc, m)) \<Rightarrow> (col_publish auth m (s\<lparr>cs_store := st\<rparr>), Inr (doc, m))))"

definition ColGet :: "'r ColRepository \<Rightarrow> 'r ColService \<Rightarrow> AuthorizationContext option \<Rightarrow> string
      \<Rightarrow> string \<Rightarrow> col_error + Document option" where
  "ColGet repo s auth collection docid =
     (case col_scope auth of
        Inl e \<Rightarrow> Inl e
      | Inr app \<Rightarrow>
          if \<not> validCollection collection (cl_CollectionBytes (cs_limits s)) then Inl ErrInvalidCollection
          else if \<not> validID docid then Inl ErrInvalidDocumentID
          else cr_Get repo (cs_store s) app collection docid)"

definition ColUpdate :: "'r ColRepository \<Rightarrow> 'r ColService \<Rightarrow> AuthorizationContext option \<Rightarrow> string \<Rightarrow> string
      \<Rightarrow> string \<Rightarrow> uint64 option \<Rightarrow> 'r ColService \<times> (col_error + Document \<times> ColMutation)" where
  "ColUpdate repo s auth collection docid data expected =
     (case col_scope auth of
        Inl e \<Rightarrow> (s, Inl e)
      | Inr app \<Rightarrow>
          if \<not> validCollection collection (cl_CollectionBytes (cs_limits s)) then (s, Inl ErrInvalidCollection)
          else if \<not> validID docid then (s, Inl ErrInvalidDocumentID)
          else if \<not> validDocument data (cl_DocumentBytes (cs_limits s)) then (s, Inl ErrInvalidDocument)
          else case cr_Update repo (cs_store s) app collection docid data expected of
                 (st, Inl e) \<Rightarrow> (s\<lparr>cs_store := st\<rparr>, Inl e)
               | (st, Inr (doc, m)) \<Rightarrow> (col_publish auth m (s\<lparr>cs_store := st\<rparr>), Inr (doc, m)))"

definition ColDelete :: "'r ColRepository \<Rightarrow> 'r ColService \<Rightarrow> AuthorizationContext option \<Rightarrow> string \<Rightarrow> string
      \<Rightarrow> uint64 option \<Rightarrow> 'r ColService \<times> (col_error + bool \<times> ColMutation)" where
  "ColDelete repo s auth collection docid expected =
     (case col_scope auth of
        Inl e \<Rightarrow> (s, Inl e)
      | Inr app \<Rightarrow>
          if \<not> validCollection collection (cl_CollectionBytes (cs_limits s)) then (s, Inl ErrInvalidCollection)
          else if \<not> validID docid then (s, Inl ErrInvalidDocumentID)
          else case cr_Delete repo (cs_store s) app collection docid expected of
                 (st, Inl e) \<Rightarrow> (s\<lparr>cs_store := st\<rparr>, Inl e)
               | (st, Inr (deleted, m)) \<Rightarrow>
                   (if deleted then col_publish auth m (s\<lparr>cs_store := st\<rparr>) else s\<lparr>cs_store := st\<rparr>,
                    Inr (deleted, m)))"

definition ColList :: "'r ColRepository \<Rightarrow> 'r ColService \<Rightarrow> AuthorizationContext option \<Rightarrow> string
      \<Rightarrow> string \<Rightarrow> int \<Rightarrow> col_error + ColListResult" where
  "ColList repo s auth collection cursor limit =
     (case col_scope auth of
        Inl e \<Rightarrow> Inl e
      | Inr app \<Rightarrow>
          if \<not> validCollection collection (cl_CollectionBytes (cs_limits s)) then Inl ErrInvalidCollection
          else if cursor \<noteq> [] \<and> \<not> validID cursor then Inl ErrInvalidDocumentID
          else if limit < 1 \<or> limit > cl_ListLimit (cs_limits s) then Inl ErrColListLimit
          else cr_List repo (cs_store s) app collection cursor limit)"

definition ColSnapshotOf :: "'r ColRepository \<Rightarrow> 'r ColService \<Rightarrow> AuthorizationContext option \<Rightarrow> string
      \<Rightarrow> col_error + ColSnapshot" where
  "ColSnapshotOf repo s auth collection =
     (case col_scope auth of
        Inl e \<Rightarrow> Inl e
      | Inr app \<Rightarrow>
          if \<not> validCollection collection (cl_CollectionBytes (cs_limits s)) then Inl ErrInvalidCollection
          else cr_Snapshot repo (cs_store s) app collection (cl_SnapshotLimit (cs_limits s)))"

section \<open>Facts about the grammar\<close>

lemma rx_match_seq: "rx_match (RxSeq a b) s \<longleftrightarrow> (\<exists>u v. s = u @ v \<and> rx_match a u \<and> rx_match b v)"
proof
  assume "rx_match (RxSeq a b) s"
  then obtain n where "rx_match a (take n s)" "rx_match b (drop n s)"
    unfolding rx_match.simps(4) list_ex_iff by blast
  then show "\<exists>u v. s = u @ v \<and> rx_match a u \<and> rx_match b v" by (metis append_take_drop_id)
next
  assume "\<exists>u v. s = u @ v \<and> rx_match a u \<and> rx_match b v"
  then obtain u v where "s = u @ v" "rx_match a u" "rx_match b v" by blast
  then show "rx_match (RxSeq a b) s"
    unfolding rx_match.simps(4) list_ex_iff by (intro bexI [of _ "length u"]) auto
qed

lemma rx_match_class: "rx_match (RxClass P) s \<longleftrightarrow> (\<exists>c. s = [c] \<and> P c)"
  by (auto simp: length_Suc_conv)

lemma collectionName_iff:
  "rx_match collectionName v \<longleftrightarrow>
    (\<exists>c. v = [c] \<and> lower_alnum c)
    \<or> (\<exists>c m d. v = c # m @ [d] \<and> lower_alnum c \<and> lower_alnum d \<and> length m \<le> 62 \<and> list_all name_char m)"
proof
  assume "rx_match collectionName v"
  then obtain c w where cw: "v = [c] @ w" "lower_alnum c" "w = [] \<or> rx_match (RxSeq (RxRepeat 0 62 name_char) (RxClass lower_alnum)) w"
    unfolding collectionName_def rx_match_seq [of "RxClass _"] rx_match_class rx_match.simps(5) by blast
  then show "(\<exists>c. v = [c] \<and> lower_alnum c)
    \<or> (\<exists>c m d. v = c # m @ [d] \<and> lower_alnum c \<and> lower_alnum d \<and> length m \<le> 62 \<and> list_all name_char m)"
  proof (cases "w = []")
    case False
    then obtain m d where "w = m @ [d]" "rx_match (RxRepeat 0 62 name_char) m" "lower_alnum d"
      using cw(3) unfolding rx_match_seq rx_match_class by blast
    with cw(1,2) have "v = c # m @ [d] \<and> lower_alnum c \<and> lower_alnum d \<and> length m \<le> 62 \<and> list_all name_char m"
      by simp
    then show ?thesis by blast
  qed (use cw in simp)
next
  assume "(\<exists>c. v = [c] \<and> lower_alnum c)
    \<or> (\<exists>c m d. v = c # m @ [d] \<and> lower_alnum c \<and> lower_alnum d \<and> length m \<le> 62 \<and> list_all name_char m)"
  then obtain c w where "v = [c] @ w" "lower_alnum c"
    "w = [] \<or> (\<exists>m d. w = m @ [d] \<and> rx_match (RxRepeat 0 62 name_char) m \<and> lower_alnum d)"
  proof (elim disjE exE conjE)
    fix c m d
    assume that: "\<And>c w. v = [c] @ w \<Longrightarrow> lower_alnum c \<Longrightarrow>
        w = [] \<or> (\<exists>m d. w = m @ [d] \<and> rx_match (RxRepeat 0 62 name_char) m \<and> lower_alnum d) \<Longrightarrow> thesis"
      and "v = c # m @ [d]" "lower_alnum c" "lower_alnum d" "length m \<le> 62" "list_all name_char m"
    then show thesis by (intro that [of c "m @ [d]"]) auto
  qed simp
  then show "rx_match collectionName v"
    unfolding collectionName_def rx_match_seq rx_match_class rx_match.simps(5) by blast
qed

lemma validID_iff: "validID v \<longleftrightarrow> (\<exists>r. v = ''doc_'' @ r \<and> length r = 22 \<and> list_all id_char r)"
  unfolding validID_def documentID_def rx_match_seq by auto

lemma collectionName_chars: "rx_match collectionName v \<Longrightarrow> list_all name_char v"
  unfolding collectionName_iff by (auto simp: name_char_def)

lemma name_char_ascii: "name_char c \<Longrightarrow> (of_char c :: nat) < 128"
  unfolding name_char_def lower_alnum_def is_lower_def is_digit_def
  by (elim disjE) simp_all

lemma collectionName_ascii:
  assumes "rx_match collectionName v"
  shows "is_ascii v"
  using collectionName_chars [OF assms] name_char_ascii unfolding is_ascii_def list_all_iff by blast

lemma collectionName_length: "rx_match collectionName v \<Longrightarrow> 1 \<le> length v \<and> length v \<le> 64"
  unfolding collectionName_iff by auto

lemma ValidCollection_iff: "ValidCollection v \<longleftrightarrow> rx_match collectionName v"
  using ascii_ValidString collectionName_ascii collectionName_length [of v]
  by (auto simp: ValidCollection_def validCollection_def ColDefaultLimits_def)

section \<open>Properties\<close>

text \<open>An identifier the server issues from sixteen random bytes is accepted by the identifier grammar
  of every later request.\<close>

theorem document_id_valid:
  assumes "length b = 16"
  shows "\<exists>i. newDocumentID (Some b) = Some i \<and> validID i \<and> length i = 26"
proof -
  have "length (b64_encode b) = 22" using assms by (simp add: length_b64_encode)
  moreover have "list_all id_char (b64_encode b)"
    using b64_encode_b64 [of b] by (auto simp: list_all_iff is_b64_def id_char_def)
  ultimately show ?thesis by (auto simp: newDocumentID_def validID_iff)
qed

theorem document_id_valid_witness:
  "\<exists>i. newDocumentID (Some (replicate 16 255)) = Some i \<and> validID i \<and> length i = 26"
  by (rule document_id_valid) simp

text \<open>The write path of the service, for any repository: the store changes or a mutation is published
  only for a scoped context, a name of the grammar and a document that is a JSON object within the
  size limit; a published mutation is the one the repository returned for exactly that app, and an
  error publishes nothing.\<close>

theorem collections_create_guarded:
  assumes "ColCreate repo s rnd auth collection data = (s', r)"
    and "cs_store s' \<noteq> cs_store s \<or> cs_published s' \<noteq> cs_published s \<or> (\<exists>x. r = Inr x)"
  shows "\<exists>c i. auth = Some c \<and> ac_AppID c \<noteq> [] \<and> rx_match collectionName collection
    \<and> json_Valid data \<and> json_object data \<and> int (length data) \<le> cl_DocumentBytes (cs_limits s)
    \<and> newDocumentID rnd = Some i
    \<and> (cs_store s', r) = cr_Create repo (cs_store s) (ac_AppID c) collection
         \<lparr>doc_ID = i, doc_Data = data, doc_Version = 0, doc_CreatedAt = zero_time, doc_UpdatedAt = zero_time\<rparr>
    \<and> cs_published s' = cs_published s @
        (case r of Inl _ \<Rightarrow> [] | Inr (d, m) \<Rightarrow> if cs_sink s then [(viewerData c, m)] else [])"
proof -
  obtain app where sc: "col_scope auth = Inr app" using assms by (cases "col_scope auth") (auto simp: ColCreate_def)
  then obtain c where c: "auth = Some c" "ac_AppID c = app" "app \<noteq> []"
    by (auto simp: col_scope_def dest!: Scope_InrD split: sum.splits)
  have g: "validCollection collection (cl_CollectionBytes (cs_limits s))" "validDocument data (cl_DocumentBytes (cs_limits s))"
    "newDocumentID rnd \<noteq> None"
    using assms sc by (cases "newDocumentID rnd"; auto simp: ColCreate_def split: if_splits)+
  then obtain i where i: "newDocumentID rnd = Some i" by auto
  obtain st q where q: "cr_Create repo (cs_store s) app collection
         \<lparr>doc_ID = i, doc_Data = data, doc_Version = 0, doc_CreatedAt = zero_time, doc_UpdatedAt = zero_time\<rparr> = (st, q)"
    by fastforce
  have "cs_store s' = st \<and> r = q \<and> cs_published s' = cs_published s @
        (case q of Inl _ \<Rightarrow> [] | Inr (d, m) \<Rightarrow> if cs_sink s then [(viewerData c, m)] else [])"
    using assms(1) sc c g i q
    by (cases q) (auto simp: ColCreate_def col_publish_def)
  then show ?thesis
    using c g i q by (auto simp: validCollection_def validDocument_def split: if_splits)
qed

definition demo_col_repo :: "nat ColRepository" where
  "demo_col_repo = \<lparr>
     cr_Create = (\<lambda>n app c d. (n + 1, Inr (d, \<lparr>cm_Collection = c, cm_ID = doc_ID d, cm_Version = 1, cm_Deleted = False, cm_Revision = 1\<rparr>))),
     cr_Get = (\<lambda>n app c i. Inr None), cr_Update = (\<lambda>n app c i d e. (n, Inl ErrColVersionConflict)),
     cr_Delete = (\<lambda>n app c i e. (n, Inl ErrColVersionConflict)),
     cr_List = (\<lambda>n app c cur l. Inr \<lparr>cr_Documents = [], cr_NextCursor = [], cr_Revision = 0\<rparr>),
     cr_Snapshot = (\<lambda>n app c l. Inl ErrSnapshotTooLarge)\<rparr>"

definition demo_col_create :: "nat ColService \<times> (col_error + Document \<times> ColMutation)" where
  "demo_col_create = ColCreate demo_col_repo (NewColService 0 ColDefaultLimits True) (Some (replicate 16 1)) sample_context
     ''notes'' '' {}''"

theorem collections_create_guarded_witness:
  "length (cs_published (fst demo_col_create)) = 1 \<and> rx_match collectionName ''notes''"
proof -
  have d: "cs_store (fst demo_col_create) = 1" "cs_store (NewColService 0 ColDefaultLimits True) = (0 :: nat)"
    "length (cs_published (fst demo_col_create)) = 1"
    by code_simp+
  have "ColCreate demo_col_repo (NewColService 0 ColDefaultLimits True) (Some (replicate 16 1)) sample_context ''notes'' '' {}''
      = (fst demo_col_create, snd demo_col_create)"
    by (simp add: demo_col_create_def)
  from collections_create_guarded [OF this] d show ?thesis by auto
qed

end
