(* ===== verification/Live_Hub.thy ===== *)
theory Live_Hub
  imports KV_Store Collections_Service
begin

text \<open>
  The in-memory notification hub, \<open>internal/live/hub.go\<close>, and the frame grammar of its clients,
  \<open>internal/live/protocol.go\<close>.

  A connection is a number that is never reused, as the source uses the address of the connection. The
  mutex is released before an envelope is sent, so publishing is two kinds of steps: collecting
  the targets is one atomic section, and every \<open>Send\<close> is a step of its own that may come after any
  other section. \<open>pending\<close> holds the sends (and the closes of a revocation) that were collected and not
  yet executed; an execution interleaves them freely, in any order. Whether a \<open>Send\<close> fails is an
  argument of its step.
\<close>

section \<open>Data\<close>

datatype live_error = ErrInvalidChannel | ErrLimit | ErrClosed | LiveUnauthorized

record LiveLimits =
  ll_ConnectionsPerApp :: int
  ll_ConnectionsPerViewer :: int
  ll_SubscriptionsPerConnection :: int
  ll_PayloadBytes :: int

definition LiveDefaultLimits :: LiveLimits where
  "LiveDefaultLimits = \<lparr>ll_ConnectionsPerApp = 100, ll_ConnectionsPerViewer = 5,
     ll_SubscriptionsPerConnection = 32, ll_PayloadBytes = 32 * 2 ^ 10\<rparr>"

record Envelope =
  env_V :: int
  env_Type :: string
  env_Channel :: string
  env_Event :: string
  env_Payload :: string
  env_Key :: string
  env_ID :: string
  env_Collection :: string
  env_Version :: uint64
  env_Revision :: uint64
  env_Deleted :: bool

definition empty_envelope :: Envelope where
  "empty_envelope = \<lparr>env_V = 1, env_Type = [], env_Channel = [], env_Event = [], env_Payload = [], env_Key = [],
     env_ID = [], env_Collection = [], env_Version = 0, env_Revision = 0, env_Deleted = False\<rparr>"

record connection =
  co_app :: string
  co_identity :: string
  co_session :: string
  co_subscriptions :: "string list"
  co_kvPrefixes :: "string list"
  co_collections :: "string list"

text \<open>The hub, and what the transports observed: envelopes handed to \<open>Send\<close> with the app they were
  published for, and closes.\<close>

record Hub =
  hb_limits :: LiveLimits
  hb_connections :: "(nat, connection) gomap"
  hb_next :: nat
  hb_sends :: "(nat \<times> string \<times> Envelope) list"
  hb_closes :: "(nat \<times> int) list"
  hb_sent :: "(nat \<times> string \<times> Envelope) list"
  hb_closed :: "(nat \<times> int) list"

definition NewHub :: "LiveLimits \<Rightarrow> Hub" where
  "NewHub l = \<lparr>hb_limits = (if ll_ConnectionsPerApp l = 0 then LiveDefaultLimits else l),
     hb_connections = [], hb_next = 0, hb_sends = [], hb_closes = [], hb_sent = [], hb_closed = []\<rparr>"

section \<open>Grammar\<close>

definition validChannel :: "string \<Rightarrow> bool" where
  "validChannel v \<longleftrightarrow> v \<noteq> [] \<and> length v \<le> 128 \<and> \<not> HasPrefix v ''_tinker'' \<and> CHR 0x00 \<notin> set v"

text \<open>\<open>strings.ContainsRune(v, 0)\<close> looks for the byte zero, which is no part of a longer encoding.\<close>

definition live_validCollection :: "string \<Rightarrow> bool" where
  "live_validCollection v =
     (if length v < 1 \<or> length v > 64 \<or> \<not> lower_alnum (v ! 0) then False
      else if \<not> lower_alnum (v ! (length v - 1)) then False
      else list_all (\<lambda>i. lower_alnum (v ! i) \<or> v ! i = CHR ''_'' \<or> v ! i = CHR ''-'') [1..<length v - 1])"

definition validPrefix :: "string \<Rightarrow> bool" where
  "validPrefix p \<longleftrightarrow> \<not> (length p > 256 \<or> CHR 0x00 \<in> set p)"

section \<open>Sections under the mutex\<close>

text \<open>Sets of strings are lists without duplicates.\<close>

definition set_add :: "string \<Rightarrow> string list \<Rightarrow> string list" where
  "set_add x xs = (if x \<in> set xs then xs else xs @ [x])"

definition set_del :: "string \<Rightarrow> string list \<Rightarrow> string list" where
  "set_del x xs = filter (\<lambda>y. y \<noteq> x) xs"

definition subscription_count :: "connection \<Rightarrow> int" where
  "subscription_count c =
     int (length (co_subscriptions c)) + int (length (co_kvPrefixes c)) + int (length (co_collections c))"

definition app_count :: "string \<Rightarrow> (nat, connection) gomap \<Rightarrow> int" where
  "app_count app cs = int (length (filter (\<lambda>(i, c). co_app c = app) cs))"

definition viewer_count :: "string \<Rightarrow> string \<Rightarrow> (nat, connection) gomap \<Rightarrow> int" where
  "viewer_count app ident cs = int (length (filter (\<lambda>(i, c). co_app c = app \<and> co_identity c = ident) cs))"

definition Attach :: "Hub \<Rightarrow> AuthorizationContext option \<Rightarrow> bool \<Rightarrow> Hub \<times> (live_error + nat)" where
  "Attach h auth hasTransport =
     (case Scope auth of
        Inl _ \<Rightarrow> (h, Inl LiveUnauthorized)
      | Inr (app, ident, session) \<Rightarrow>
          if \<not> hasTransport then (h, Inl ErrClosed)
          else if app_count app (hb_connections h) \<ge> ll_ConnectionsPerApp (hb_limits h)
               \<or> viewer_count app ident (hb_connections h) \<ge> ll_ConnectionsPerViewer (hb_limits h)
          then (h, Inl ErrLimit)
          else (h\<lparr>hb_connections := AList.update (hb_next h)
                    \<lparr>co_app = app, co_identity = ident, co_session = session, co_subscriptions = [],
                     co_kvPrefixes = [], co_collections = []\<rparr> (hb_connections h),
                  hb_next := Suc (hb_next h)\<rparr>, Inr (hb_next h)))"

text \<open>An update of one attached connection.\<close>

definition on_connection :: "Hub \<Rightarrow> nat \<Rightarrow> (connection \<Rightarrow> live_error + connection) \<Rightarrow> Hub \<times> live_error option" where
  "on_connection h i f =
     (case map_of (hb_connections h) i of
        None \<Rightarrow> (h, Some ErrClosed)
      | Some c \<Rightarrow>
          (case f c of
             Inl e \<Rightarrow> (h, Some e)
           | Inr c' \<Rightarrow> (h\<lparr>hb_connections := AList.update i c' (hb_connections h)\<rparr>, None)))"

definition Subscribe :: "Hub \<Rightarrow> nat \<Rightarrow> string \<Rightarrow> Hub \<times> live_error option" where
  "Subscribe h i channel =
     (if \<not> validChannel channel then (h, Some ErrInvalidChannel)
      else on_connection h i (\<lambda>c.
        if subscription_count c \<ge> ll_SubscriptionsPerConnection (hb_limits h) then Inl ErrLimit
        else Inr (c\<lparr>co_subscriptions := set_add channel (co_subscriptions c)\<rparr>)))"

definition Unsubscribe :: "Hub \<Rightarrow> nat \<Rightarrow> string \<Rightarrow> Hub \<times> live_error option" where
  "Unsubscribe h i channel =
     on_connection h i (\<lambda>c. Inr (c\<lparr>co_subscriptions := set_del channel (co_subscriptions c)\<rparr>))"

definition SubscribeKV :: "Hub \<Rightarrow> nat \<Rightarrow> string \<Rightarrow> Hub \<times> live_error option" where
  "SubscribeKV h i p =
     (if \<not> validPrefix p then (h, Some ErrInvalidChannel)
      else on_connection h i (\<lambda>c.
        if subscription_count c \<ge> ll_SubscriptionsPerConnection (hb_limits h) then Inl ErrLimit
        else Inr (c\<lparr>co_kvPrefixes := set_add p (co_kvPrefixes c)\<rparr>)))"

definition UnsubscribeKV :: "Hub \<Rightarrow> nat \<Rightarrow> string \<Rightarrow> Hub \<times> live_error option" where
  "UnsubscribeKV h i p =
     (if \<not> validPrefix p then (h, Some ErrInvalidChannel)
      else on_connection h i (\<lambda>c. Inr (c\<lparr>co_kvPrefixes := set_del p (co_kvPrefixes c)\<rparr>)))"

definition SubscribeCollection :: "Hub \<Rightarrow> nat \<Rightarrow> string \<Rightarrow> Hub \<times> live_error option" where
  "SubscribeCollection h i collection =
     (if \<not> live_validCollection collection then (h, Some ErrInvalidChannel)
      else on_connection h i (\<lambda>c.
        if collection \<in> set (co_collections c) then Inr c
        else if subscription_count c \<ge> ll_SubscriptionsPerConnection (hb_limits h) then Inl ErrLimit
        else Inr (c\<lparr>co_collections := set_add collection (co_collections c)\<rparr>)))"

definition UnsubscribeCollection :: "Hub \<Rightarrow> nat \<Rightarrow> string \<Rightarrow> Hub \<times> live_error option" where
  "UnsubscribeCollection h i collection =
     (if \<not> live_validCollection collection then (h, Some ErrInvalidChannel)
      else on_connection h i (\<lambda>c. Inr (c\<lparr>co_collections := set_del collection (co_collections c)\<rparr>)))"

section \<open>Publishing: the targets are collected under the mutex\<close>

definition collect :: "Hub \<Rightarrow> string \<Rightarrow> (connection \<Rightarrow> bool) \<Rightarrow> Envelope \<Rightarrow> Hub" where
  "collect h app wants e =
     h\<lparr>hb_sends := hb_sends h @
        map (\<lambda>(i, c). (i, app, e)) (filter (\<lambda>(i, c). co_app c = app \<and> wants c) (hb_connections h))\<rparr>"

definition Publish :: "Hub \<Rightarrow> nat \<Rightarrow> string \<Rightarrow> string \<Rightarrow> string \<Rightarrow> Hub \<times> live_error option" where
  "Publish h i channel event payload =
     (if \<not> validChannel channel \<or> event = [] \<or> length event > 128 \<or> \<not> json_Valid payload
         \<or> int (length payload) > ll_PayloadBytes (hb_limits h)
      then (h, Some ErrInvalidChannel)
      else case map_of (hb_connections h) i of
          None \<Rightarrow> (h, Some ErrClosed)
        | Some sender \<Rightarrow>
            (collect h (co_app sender) (\<lambda>c. channel \<in> set (co_subscriptions c))
               (empty_envelope\<lparr>env_Type := ''event'', env_Channel := channel, env_Event := event,
                  env_Payload := payload\<rparr>), None))"

definition PublishKVChange :: "Hub \<Rightarrow> DataAuthorizationContext option \<Rightarrow> KVMutation \<Rightarrow> Hub" where
  "PublishKVChange h auth m =
     (case auth of
        None \<Rightarrow> h
      | Some a \<Rightarrow>
          if dac_AppID a = [] then h
          else collect h (dac_AppID a) (\<lambda>c. list_ex (\<lambda>p. HasPrefix (mu_Key m) p) (co_kvPrefixes c))
                 (empty_envelope\<lparr>env_Type := ''kv.changed'', env_Key := mu_Key m, env_Version := mu_Version m,
                    env_Deleted := mu_Deleted m\<rparr>))"

definition PublishCollectionChange :: "Hub \<Rightarrow> DataAuthorizationContext option \<Rightarrow> ColMutation \<Rightarrow> Hub" where
  "PublishCollectionChange h auth m =
     (case auth of
        None \<Rightarrow> h
      | Some a \<Rightarrow>
          if dac_AppID a = [] then h
          else collect h (dac_AppID a) (\<lambda>c. cm_Collection m \<in> set (co_collections c))
                 (empty_envelope\<lparr>env_Type := ''collection.changed'', env_Collection := cm_Collection m,
                    env_ID := cm_ID m, env_Version := cm_Version m, env_Revision := cm_Revision m,
                    env_Deleted := cm_Deleted m\<rparr>))"

section \<open>Closing, revoking and sending\<close>

definition close_connection :: "Hub \<Rightarrow> nat \<Rightarrow> int \<Rightarrow> Hub" where
  "close_connection h i code =
     (case map_of (hb_connections h) i of
        None \<Rightarrow> h
      | Some c \<Rightarrow> h\<lparr>hb_connections := AList.delete i (hb_connections h), hb_closed := hb_closed h @ [(i, code)]\<rparr>)"

text \<open>\<open>Revoke\<close> collects its targets under the mutex and closes them one after the other.\<close>

definition Revoke :: "Hub \<Rightarrow> string \<Rightarrow> string \<Rightarrow> Hub" where
  "Revoke h appID sessionID =
     h\<lparr>hb_closes := hb_closes h @ map (\<lambda>(i, c). (i, 1008))
         (filter (\<lambda>(i, c). co_app c = appID \<and> (sessionID = [] \<or> co_session c = sessionID)) (hb_connections h))\<rparr>"

definition remove_nth :: "nat \<Rightarrow> 'a list \<Rightarrow> 'a list" where
  "remove_nth n xs = take n xs @ drop (Suc n) xs"

text \<open>The \<open>n\<close>-th pending send; a failing transport is closed as a slow consumer.\<close>

definition deliver :: "Hub \<Rightarrow> nat \<Rightarrow> bool \<Rightarrow> Hub" where
  "deliver h n fails =
     (if n < length (hb_sends h) then
        let (i, app, e) = hb_sends h ! n;
            h1 = h\<lparr>hb_sends := remove_nth n (hb_sends h), hb_sent := hb_sent h @ [(i, app, e)]\<rparr>
        in if fails then close_connection h1 i 1013 else h1
      else h)"

definition close_next :: "Hub \<Rightarrow> nat \<Rightarrow> Hub" where
  "close_next h n =
     (if n < length (hb_closes h) then
        let (i, code) = hb_closes h ! n
        in close_connection (h\<lparr>hb_closes := remove_nth n (hb_closes h)\<rparr>) i code
      else h)"

section \<open>Frames of the clients\<close>

record ClientFrame =
  cf_V :: int
  cf_Type :: string
  cf_Channel :: string
  cf_Event :: string
  cf_Payload :: string
  cf_Prefix :: string
  cf_Collection :: string

text \<open>\<open>json.Unmarshal\<close> into the struct is the parameter \<open>unmarshal\<close>; \<open>None\<close> is \<open>ErrInvalidFrame\<close>.\<close>

definition ParseClientFrame :: "(string \<Rightarrow> ClientFrame option) \<Rightarrow> string \<Rightarrow> int \<Rightarrow> ClientFrame option" where
  "ParseClientFrame unmarshal raw payloadLimit =
     (if raw = [] \<or> int (length raw) > payloadLimit then None
      else case unmarshal raw of
          None \<Rightarrow> None
        | Some f \<Rightarrow>
            if cf_V f \<noteq> 1 then None
            else if cf_Type f = ''subscribe'' \<or> cf_Type f = ''unsubscribe''
            then (if \<not> validChannel (cf_Channel f) then None else Some f)
            else if cf_Type f = ''subscribe_kv'' \<or> cf_Type f = ''unsubscribe_kv''
            then (if length (cf_Prefix f) > 256 then None else Some f)
            else if cf_Type f = ''subscribe_collection'' \<or> cf_Type f = ''unsubscribe_collection''
            then (if \<not> live_validCollection (cf_Collection f) then None else Some f)
            else if cf_Type f = ''publish''
            then (if \<not> validChannel (cf_Channel f) \<or> cf_Event f = [] \<or> length (cf_Event f) > 128
                     \<or> \<not> json_Valid (cf_Payload f) \<or> int (length (cf_Payload f)) > payloadLimit
                  then None else Some f)
            else None)"

section \<open>Executions\<close>

datatype live_event =
    EvAttach "AuthorizationContext option" bool
  | EvSubscribe nat string
  | EvUnsubscribe nat string
  | EvSubscribeKV nat string
  | EvUnsubscribeKV nat string
  | EvSubscribeCollection nat string
  | EvUnsubscribeCollection nat string
  | EvPublish nat string string string
  | EvKVChange "DataAuthorizationContext option" KVMutation
  | EvCollectionChange "DataAuthorizationContext option" ColMutation
  | EvRevoke string string
  | EvClose nat
  | EvDeliver nat bool
  | EvCloseNext nat

fun live_exec :: "Hub \<Rightarrow> live_event \<Rightarrow> Hub" where
  "live_exec h (EvAttach auth t) = fst (Attach h auth t)"
| "live_exec h (EvSubscribe i ch) = fst (Subscribe h i ch)"
| "live_exec h (EvUnsubscribe i ch) = fst (Unsubscribe h i ch)"
| "live_exec h (EvSubscribeKV i p) = fst (SubscribeKV h i p)"
| "live_exec h (EvUnsubscribeKV i p) = fst (UnsubscribeKV h i p)"
| "live_exec h (EvSubscribeCollection i c) = fst (SubscribeCollection h i c)"
| "live_exec h (EvUnsubscribeCollection i c) = fst (UnsubscribeCollection h i c)"
| "live_exec h (EvPublish i ch ev payload) = fst (Publish h i ch ev payload)"
| "live_exec h (EvKVChange auth m) = PublishKVChange h auth m"
| "live_exec h (EvCollectionChange auth m) = PublishCollectionChange h auth m"
| "live_exec h (EvRevoke app session) = Revoke h app session"
| "live_exec h (EvClose i) = close_connection h i 1000"
| "live_exec h (EvDeliver n fails) = deliver h n fails"
| "live_exec h (EvCloseNext n) = close_next h n"

definition live_run :: "Hub \<Rightarrow> live_event list \<Rightarrow> Hub" where
  "live_run h evs = foldl live_exec h evs"

lemma live_run_simps [simp]:
  "live_run h [] = h" "live_run h (e # evs) = live_run (live_exec h e) evs"
  "live_run h (evs @ evs') = live_run (live_run h evs) evs'"
  by (simp_all add: live_run_def)

text \<open>Five kinds of sections cover every event: none, a new connection, the update of one, collecting
  targets (of sends or closes), removing a connection, and a send.\<close>

definition same_owner :: "connection \<Rightarrow> connection \<Rightarrow> bool" where
  "same_owner c c' \<longleftrightarrow> co_app c' = co_app c \<and> co_identity c' = co_identity c \<and> co_session c' = co_session c"

definition subs_ok :: "int \<Rightarrow> connection \<Rightarrow> bool" where
  "subs_ok m c \<longleftrightarrow> subscription_count c \<le> m \<and> distinct (co_subscriptions c) \<and> distinct (co_kvPrefixes c)
     \<and> distinct (co_collections c)"

lemma set_add_props: "distinct (set_add x xs) = distinct xs" "length (set_add x xs) \<le> Suc (length xs)"
  by (auto simp: set_add_def)

lemma set_del_props: "distinct xs \<Longrightarrow> distinct (set_del x xs)" "length (set_del x xs) \<le> length xs"
  by (auto simp: set_del_def)

lemma remove_nth_subset: "set (remove_nth n xs) \<subseteq> set xs"
  by (auto simp: remove_nth_def dest: in_set_takeD in_set_dropD)

lemma subs_add:
  assumes "subs_ok m c" "subscription_count c < m"
  shows "subs_ok m (c\<lparr>co_subscriptions := set_add x (co_subscriptions c)\<rparr>)"
    "subs_ok m (c\<lparr>co_kvPrefixes := set_add x (co_kvPrefixes c)\<rparr>)"
    "subs_ok m (c\<lparr>co_collections := set_add x (co_collections c)\<rparr>)"
  using assms set_add_props(2) [of x "co_subscriptions c"] set_add_props(2) [of x "co_kvPrefixes c"]
    set_add_props(2) [of x "co_collections c"]
  by (simp_all add: subs_ok_def subscription_count_def set_add_props(1))

lemma subs_del:
  assumes "subs_ok m c"
  shows "subs_ok m (c\<lparr>co_subscriptions := set_del x (co_subscriptions c)\<rparr>)"
    "subs_ok m (c\<lparr>co_kvPrefixes := set_del x (co_kvPrefixes c)\<rparr>)"
    "subs_ok m (c\<lparr>co_collections := set_del x (co_collections c)\<rparr>)"
  using assms set_del_props(2) [of x "co_subscriptions c"] set_del_props(2) [of x "co_kvPrefixes c"]
    set_del_props(2) [of x "co_collections c"]
  by (simp_all add: subs_ok_def subscription_count_def set_del_props(1))

text \<open>An event that is refused, or is the update of one connection by its owner.\<close>

definition conn_update :: "Hub \<Rightarrow> Hub \<Rightarrow> bool" where
  "conn_update h h' \<longleftrightarrow> h' = h \<or> (\<exists>i c c'. map_of (hb_connections h) i = Some c \<and> same_owner c c'
     \<and> (subs_ok (ll_SubscriptionsPerConnection (hb_limits h)) c \<longrightarrow> subs_ok (ll_SubscriptionsPerConnection (hb_limits h)) c')
     \<and> h' = h\<lparr>hb_connections := AList.update i c' (hb_connections h)\<rparr>)"

lemma conn_update_on:
  assumes "\<And>c c'. f c = Inr c' \<Longrightarrow> same_owner c c'
    \<and> (subs_ok (ll_SubscriptionsPerConnection (hb_limits h)) c \<longrightarrow> subs_ok (ll_SubscriptionsPerConnection (hb_limits h)) c')"
  shows "conn_update h (fst (on_connection h i f))"
proof (cases "map_of (hb_connections h) i")
  case None
  then show ?thesis by (simp add: on_connection_def conn_update_def)
next
  case (Some c)
  show ?thesis
  proof (cases "f c")
    case (Inl e)
    then show ?thesis using Some by (simp add: on_connection_def conn_update_def)
  next
    case (Inr c')
    then show ?thesis using Some assms [OF Inr]
      by (auto simp: on_connection_def conn_update_def simp del: map_of_eq_Some_iff)
  qed
qed

lemma conn_update_refl [simp]: "conn_update h h"
  by (simp add: conn_update_def)

lemma subscriptions_update:
  "conn_update h (fst (Subscribe h i x))" "conn_update h (fst (Unsubscribe h i x))"
  "conn_update h (fst (SubscribeKV h i x))" "conn_update h (fst (UnsubscribeKV h i x))"
  "conn_update h (fst (SubscribeCollection h i x))" "conn_update h (fst (UnsubscribeCollection h i x))"
  by (auto simp: Subscribe_def Unsubscribe_def SubscribeKV_def UnsubscribeKV_def SubscribeCollection_def
      UnsubscribeCollection_def same_owner_def not_le subs_add subs_del intro!: conn_update_on split: if_split_asm)

lemma publish_effect:
  "fst (Publish h i ch ev payload) = h \<or> (\<exists>app wants e. fst (Publish h i ch ev payload) = collect h app wants e)"
  "PublishKVChange h auth m = h \<or> (\<exists>app wants e. PublishKVChange h auth m = collect h app wants e)"
  "PublishCollectionChange h auth cm = h \<or> (\<exists>app wants e. PublishCollectionChange h auth cm = collect h app wants e)"
  by (simp_all add: Publish_def PublishKVChange_def PublishCollectionChange_def split: option.split) blast+

lemma live_exec_cases:
  obtains (attach) auth c app ident ses where "ev = EvAttach auth True" "Scope auth = Inr (app, ident, ses)"
      "app_count app (hb_connections h) < ll_ConnectionsPerApp (hb_limits h)"
      "viewer_count app ident (hb_connections h) < ll_ConnectionsPerViewer (hb_limits h)"
      "c = \<lparr>co_app = app, co_identity = ident, co_session = ses, co_subscriptions = [], co_kvPrefixes = [], co_collections = []\<rparr>"
      "live_exec h ev = h\<lparr>hb_connections := AList.update (hb_next h) c (hb_connections h), hb_next := Suc (hb_next h)\<rparr>"
  | (update) "conn_update h (live_exec h ev)"
  | (collecting) app wants e where "live_exec h ev = collect h app wants e"
  | (revoking) app session where "live_exec h ev = Revoke h app session"
  | (closing) i code where "live_exec h ev = close_connection h i code"
  | (sending) n fails where "live_exec h ev = deliver h n fails"
  | (closing_next) n where "live_exec h ev = close_next h n"
proof (cases ev)
  case (EvAttach auth t)
  show ?thesis
  proof (cases "Scope auth")
    case (Inl e)
    then show ?thesis using EvAttach update by (simp add: Attach_def)
  next
    case (Inr s)
    obtain app ident ses where s: "s = (app, ident, ses)" by (metis prod_cases3)
    show ?thesis
    proof (cases "t \<and> app_count app (hb_connections h) < ll_ConnectionsPerApp (hb_limits h)
        \<and> viewer_count app ident (hb_connections h) < ll_ConnectionsPerViewer (hb_limits h)")
      case True
      then show ?thesis using EvAttach Inr s by (intro attach [OF _ _ _ _ refl]) (auto simp: Attach_def)
    next
      case False
      then have "live_exec h ev = h" using EvAttach Inr s by (auto simp: Attach_def)
      then show ?thesis using update by simp
    qed
  qed
next
  case (EvPublish i ch e p)
  with publish_effect(1) [of h i ch e p] show ?thesis using update collecting by auto
next
  case (EvKVChange auth m)
  with publish_effect(2) [of h auth m] show ?thesis using update collecting by auto
next
  case (EvCollectionChange auth m)
  with publish_effect(3) [of h auth m] show ?thesis using update collecting by auto
qed (use update revoking closing sending closing_next subscriptions_update [of h] in simp_all)

section \<open>Bounds\<close>

lemma filter_update_same:
  "map_of m i = Some c \<Longrightarrow> P (i, c) = P (i, c') \<Longrightarrow> length (filter P (AList.update i c' m)) = length (filter P m)"
  by (induction m) (auto split: if_splits)

lemma filter_update_le: "length (filter P (AList.update i c m)) \<le> length (filter P m) + (if P (i, c) then 1 else 0)"
  by (induction m) auto

lemma filter_delete_le: "length (filter P (AList.delete i m)) \<le> length (filter P m)"
  by (induction m) auto

definition hub_ok :: "Hub \<Rightarrow> bool" where
  "hub_ok h \<longleftrightarrow> gm_wf (hb_connections h)
     \<and> (\<forall>i c. map_of (hb_connections h) i = Some c \<longrightarrow> i < hb_next h \<and> subs_ok (ll_SubscriptionsPerConnection (hb_limits h)) c)
     \<and> (\<forall>app. app_count app (hb_connections h) \<le> ll_ConnectionsPerApp (hb_limits h))
     \<and> (\<forall>app ident. viewer_count app ident (hb_connections h) \<le> ll_ConnectionsPerViewer (hb_limits h))"

lemma counts_update_same:
  assumes "map_of cs i = Some c" "same_owner c c'"
  shows "app_count app (AList.update i c' cs) = app_count app cs"
    "viewer_count app ident (AList.update i c' cs) = viewer_count app ident cs"
  using assms(2) filter_update_same [OF assms(1)]
  by (simp_all add: app_count_def viewer_count_def same_owner_def)

lemma counts_update_le:
  "app_count app (AList.update i c cs) \<le> app_count app cs + (if co_app c = app then 1 else 0)"
  "viewer_count app ident (AList.update i c cs) \<le>
    viewer_count app ident cs + (if co_app c = app \<and> co_identity c = ident then 1 else 0)"
  using filter_update_le [of "\<lambda>(i, c). co_app c = app" i c cs]
    filter_update_le [of "\<lambda>(i, c). co_app c = app \<and> co_identity c = ident" i c cs]
  by (auto simp: app_count_def viewer_count_def)

lemma counts_delete_le:
  "app_count app (AList.delete i cs) \<le> app_count app cs"
  "viewer_count app ident (AList.delete i cs) \<le> viewer_count app ident cs"
  by (simp_all add: app_count_def viewer_count_def filter_delete_le)

lemma hub_ok_update:
  assumes "hub_ok h" "conn_update h h'"
  shows "hub_ok h'"
proof -
  from assms(2) consider "h' = h" | i c c' where "map_of (hb_connections h) i = Some c" "same_owner c c'"
    "subs_ok (ll_SubscriptionsPerConnection (hb_limits h)) c \<longrightarrow> subs_ok (ll_SubscriptionsPerConnection (hb_limits h)) c'"
    "h' = h\<lparr>hb_connections := AList.update i c' (hb_connections h)\<rparr>"
    unfolding conn_update_def by blast
  then show ?thesis
  proof cases
    case 2
    then show ?thesis
      using assms(1) counts_update_same [OF 2(1,2)] unfolding hub_ok_def
      by (simp add: gm_lookup_update del: map_of_eq_Some_iff)
  qed (use assms in simp)
qed

lemma hub_ok_close: "hub_ok h \<Longrightarrow> hub_ok (close_connection h i code)"
  using order_trans [OF counts_delete_le(1)] order_trans [OF counts_delete_le(2)]
  by (auto simp: close_connection_def hub_ok_def gm_lookup_delete simp del: map_of_eq_Some_iff split: option.split)

text \<open>The events that touch no connection, or close one.\<close>

definition same_table :: "Hub \<Rightarrow> Hub \<Rightarrow> bool" where
  "same_table h h' \<longleftrightarrow> hb_connections h' = hb_connections h \<and> hb_next h' = hb_next h \<and> hb_limits h' = hb_limits h"

definition table_or_close :: "Hub \<Rightarrow> Hub \<Rightarrow> bool" where
  "table_or_close h h' \<longleftrightarrow> (\<exists>h1. same_table h h1 \<and> (h' = h1 \<or> (\<exists>i code. h' = close_connection h1 i code)))"

lemma table_or_closeI:
  "same_table h h1 \<Longrightarrow> table_or_close h h1"
  "same_table h h1 \<Longrightarrow> table_or_close h (close_connection h1 i code)"
  unfolding table_or_close_def by blast+

lemma table_or_close_deliver: "table_or_close h (deliver h n fails)"
  by (cases "hb_sends h ! n") (simp add: deliver_def Let_def table_or_closeI same_table_def)

lemma table_or_close_next: "table_or_close h (close_next h n)"
  by (cases "hb_closes h ! n") (simp add: close_next_def Let_def table_or_closeI same_table_def)

lemma table_or_close_simple:
  "table_or_close h (collect h app wants e)" "table_or_close h (Revoke h app session)"
  "table_or_close h (close_connection h i code)"
  by (simp_all add: table_or_closeI same_table_def collect_def Revoke_def)

lemma close_connection_frame:
  "hb_limits (close_connection h i code) = hb_limits h" "hb_next (close_connection h i code) = hb_next h"
  by (simp_all add: close_connection_def split: option.split)

lemma hub_ok_table_or_close:
  assumes "hub_ok h" "table_or_close h h'"
  shows "hub_ok h' \<and> hb_limits h' = hb_limits h"
proof -
  obtain h1 where h1: "same_table h h1" "h' = h1 \<or> (\<exists>i code. h' = close_connection h1 i code)"
    using assms(2) by (auto simp: table_or_close_def)
  then have "hub_ok h1" using assms(1) by (simp add: same_table_def hub_ok_def)
  then show ?thesis using h1 hub_ok_close close_connection_frame by (auto simp: same_table_def)
qed

lemma hub_ok_exec:
  assumes ok: "hub_ok h" and nn: "0 \<le> ll_SubscriptionsPerConnection (hb_limits h)"
  shows "hub_ok (live_exec h ev) \<and> hb_limits (live_exec h ev) = hb_limits h"
proof (cases rule: live_exec_cases [of ev h])
  case (attach auth c app ident ses)
  have sub: "subs_ok (ll_SubscriptionsPerConnection (hb_limits h)) c"
    using attach(5) nn by (simp add: subs_ok_def subscription_count_def)
  have "app_count a (AList.update (hb_next h) c (hb_connections h)) \<le> ll_ConnectionsPerApp (hb_limits h)" for a
    using counts_update_le(1) [of a "hb_next h" c "hb_connections h"] attach(3,5) ok
    by (auto simp: hub_ok_def split: if_splits intro: order_trans)
  moreover have "viewer_count a v (AList.update (hb_next h) c (hb_connections h)) \<le> ll_ConnectionsPerViewer (hb_limits h)" for a v
    using counts_update_le(2) [of a v "hb_next h" c "hb_connections h"] attach(4,5) ok
    by (auto simp: hub_ok_def split: if_splits intro: order_trans)
  ultimately show ?thesis using ok sub attach(6)
    by (auto simp: hub_ok_def gm_lookup_update less_Suc_eq simp del: map_of_eq_Some_iff)
next
  case update
  then show ?thesis using hub_ok_update [OF ok] by (auto simp: conn_update_def)
qed (use hub_ok_table_or_close [OF ok] table_or_close_simple table_or_close_deliver table_or_close_next in metis)+

lemma live_run_ok:
  "hub_ok h \<Longrightarrow> 0 \<le> ll_SubscriptionsPerConnection (hb_limits h) \<Longrightarrow>
    hub_ok (live_run h evs) \<and> hb_limits (live_run h evs) = hb_limits h"
  by (induction evs arbitrary: h) (simp_all add: hub_ok_exec)

lemma NewHub_ok:
  "0 \<le> ll_ConnectionsPerApp (hb_limits (NewHub l)) \<Longrightarrow> 0 \<le> ll_ConnectionsPerViewer (hb_limits (NewHub l)) \<Longrightarrow> hub_ok (NewHub l)"
  by (simp add: hub_ok_def NewHub_def app_count_def viewer_count_def)

section \<open>Isolation and revocation\<close>

text \<open>What is known of a connection that was attached for an app, from then on.\<close>

definition belongs :: "nat \<Rightarrow> string \<Rightarrow> Hub \<Rightarrow> bool" where
  "belongs i app h \<longleftrightarrow> i < hb_next h
     \<and> (\<forall>c. map_of (hb_connections h) i = Some c \<longrightarrow> co_app c = app)
     \<and> (\<forall>a e. (i, a, e) \<in> set (hb_sends h) \<union> set (hb_sent h) \<longrightarrow> a = app)"

lemma belongs_close: "belongs i app h \<Longrightarrow> belongs i app (close_connection h j code)"
  by (cases "map_of (hb_connections h) j") (simp_all add: belongs_def close_connection_def gm_lookup_delete)

lemma belongs_exec:
  assumes b: "belongs i app h" and wf: "gm_wf (hb_connections h)"
  shows "belongs i app (live_exec h ev)"
proof (cases rule: live_exec_cases [of ev h])
  case (attach auth c a ident ses)
  then show ?thesis using b by (auto simp: belongs_def gm_lookup_update simp del: map_of_eq_Some_iff)
next
  case update
  then show ?thesis using b
    by (auto simp: conn_update_def belongs_def gm_lookup_update same_owner_def simp del: map_of_eq_Some_iff split: if_splits)
next
  case (collecting a wants e)
  have "a = app" if "(i, c) \<in> set (hb_connections h)" "co_app c = a" for c
    using that b wf by (auto simp: belongs_def)
  then show ?thesis using b collecting by (auto simp: belongs_def collect_def)
next
  case (closing j code)
  then show ?thesis using belongs_close [OF b] by simp
next
  case (sending n fails)
  have "belongs i app (h\<lparr>hb_sends := remove_nth n (hb_sends h), hb_sent := hb_sent h @ [hb_sends h ! n]\<rparr>)"
    if "n < length (hb_sends h)"
  proof -
    let ?h = "h\<lparr>hb_sends := remove_nth n (hb_sends h), hb_sent := hb_sent h @ [hb_sends h ! n]\<rparr>"
    have "set (hb_sends ?h) \<union> set (hb_sent ?h) \<subseteq> set (hb_sends h) \<union> set (hb_sent h)"
      using remove_nth_subset [of n "hb_sends h"] nth_mem [OF that] by auto
    then have "\<forall>a e. (i, a, e) \<in> set (hb_sends ?h) \<union> set (hb_sent ?h) \<longrightarrow> a = app"
      using b unfolding belongs_def by blast
    then show ?thesis using b by (simp add: belongs_def)
  qed
  then show ?thesis using b sending belongs_close
    by (cases "hb_sends h ! n") (simp add: deliver_def Let_def)
next
  case (closing_next n)
  have "belongs i app (h\<lparr>hb_closes := x\<rparr>)" for x using b by (simp add: belongs_def)
  then show ?thesis using b closing_next belongs_close
    by (cases "hb_closes h ! n") (simp add: close_next_def Let_def)
qed (use b in \<open>auto simp: Revoke_def belongs_def\<close>)

text \<open>A connection that a revocation has collected, or that is gone.\<close>

definition revoking_conn :: "nat \<Rightarrow> Hub \<Rightarrow> bool" where
  "revoking_conn i h \<longleftrightarrow> i < hb_next h
     \<and> (map_of (hb_connections h) i \<noteq> None \<longrightarrow> (i, 1008) \<in> set (hb_closes h))"

lemma in_remove_nth: "x \<in> set xs \<Longrightarrow> n < length xs \<Longrightarrow> xs ! n \<noteq> x \<Longrightarrow> x \<in> set (remove_nth n xs)"
proof -
  assume a: "x \<in> set xs" "n < length xs" "xs ! n \<noteq> x"
  have "xs = take n xs @ xs ! n # drop (Suc n) xs" using a(2) by (rule id_take_nth_drop)
  then have "set xs = set (take n xs) \<union> {xs ! n} \<union> set (drop (Suc n) xs)" by (metis Un_insert_right list.simps(15) set_append sup_bot_right Un_commute insert_is_Un)
  then show ?thesis using a by (auto simp: remove_nth_def)
qed

lemma close_lookup: "map_of (hb_connections (close_connection h j code)) i =
    (if i = j then None else map_of (hb_connections h) i)"
  by (cases "map_of (hb_connections h) j") (simp_all add: close_connection_def gm_lookup_delete)

lemma revoking_close: "revoking_conn i h \<Longrightarrow> revoking_conn i (close_connection h j code)"
  by (cases "map_of (hb_connections h) j") (simp_all add: revoking_conn_def close_connection_def gm_lookup_delete)

lemma revoking_exec:
  assumes b: "revoking_conn i h"
  shows "revoking_conn i (live_exec h ev)"
proof (cases rule: live_exec_cases [of ev h])
  case (attach auth c a ident ses)
  then show ?thesis using b by (simp add: revoking_conn_def gm_lookup_update)
next
  case update
  then show ?thesis using b unfolding conn_update_def
  proof (elim disjE exE conjE)
    fix j c c'
    assume "map_of (hb_connections h) j = Some c" "live_exec h ev = h\<lparr>hb_connections := AList.update j c' (hb_connections h)\<rparr>"
    then show ?thesis using b by (auto simp: revoking_conn_def gm_lookup_update simp del: map_of_eq_Some_iff)
  qed simp
next
  case (closing j code)
  then show ?thesis using revoking_close [OF b] by simp
next
  case (sending n fails)
  have "revoking_conn i (h\<lparr>hb_sends := x, hb_sent := y\<rparr>)" for x y using b by (simp add: revoking_conn_def)
  then show ?thesis using b sending revoking_close
    by (cases "hb_sends h ! n") (simp add: deliver_def Let_def)
next
  case (closing_next n)
  obtain j code where jc: "hb_closes h ! n = (j, code)" by fastforce
  show ?thesis
  proof (cases "n < length (hb_closes h)")
    case True
    then have ev: "live_exec h ev = close_connection (h\<lparr>hb_closes := remove_nth n (hb_closes h)\<rparr>) j code"
      using closing_next jc by (simp add: close_next_def)
    show ?thesis
    proof (cases "j = i")
      case True
      then show ?thesis using b unfolding ev revoking_conn_def close_lookup close_connection_frame by simp
    next
      case False
      then have "(i, 1008) \<in> set (hb_closes h) \<Longrightarrow> (i, 1008) \<in> set (remove_nth n (hb_closes h))"
        using in_remove_nth [of "(i, 1008)" "hb_closes h" n] True jc by simp
      then have "revoking_conn i (h\<lparr>hb_closes := remove_nth n (hb_closes h)\<rparr>)" using b by (simp add: revoking_conn_def)
      then show ?thesis unfolding ev by (rule revoking_close)
    qed
  qed (use b closing_next in \<open>simp add: close_next_def\<close>)
qed (use b in \<open>auto simp: collect_def Revoke_def revoking_conn_def\<close>)

lemma revoking_run: "revoking_conn i h \<Longrightarrow> revoking_conn i (live_run h evs)"
  by (induction evs arbitrary: h) (simp_all add: revoking_exec)

lemma gone_exec:
  assumes "i < hb_next h" "map_of (hb_connections h) i = None"
  shows "i < hb_next (live_exec h ev) \<and> map_of (hb_connections (live_exec h ev)) i = None"
proof (cases rule: live_exec_cases [of ev h])
  case update
  then show ?thesis using assms unfolding conn_update_def
    by (elim disjE exE conjE) (auto simp: gm_lookup_update simp del: map_of_eq_Some_iff)
next
  case (sending n fails)
  then show ?thesis using assms
    by (cases "hb_sends h ! n") (simp add: deliver_def Let_def close_lookup close_connection_frame del: map_of_eq_None_iff)
next
  case (closing_next n)
  then show ?thesis using assms
    by (cases "hb_closes h ! n") (simp add: close_next_def Let_def close_lookup close_connection_frame del: map_of_eq_None_iff)
qed (use assms in \<open>simp_all add: gm_lookup_update collect_def Revoke_def close_lookup close_connection_frame del: map_of_eq_None_iff\<close>)

lemma gone_run:
  "i < hb_next h \<Longrightarrow> map_of (hb_connections h) i = None \<Longrightarrow> map_of (hb_connections (live_run h evs)) i = None"
proof (induction evs arbitrary: h)
  case (Cons ev evs)
  then show ?case using gone_exec [OF Cons.prems, of ev] by simp
qed simp

lemma belongs_run:
  "belongs i app h \<Longrightarrow> hub_ok h \<Longrightarrow> 0 \<le> ll_SubscriptionsPerConnection (hb_limits h) \<Longrightarrow> belongs i app (live_run h evs)"
proof (induction evs arbitrary: h)
  case (Cons ev evs)
  have "gm_wf (hb_connections h)" using Cons.prems(2) by (simp add: hub_ok_def)
  then show ?case
    using Cons.IH [of "live_exec h ev"] hub_ok_exec [OF Cons.prems(2,3), of ev] belongs_exec [OF Cons.prems(1)] Cons.prems(3)
    by simp
qed simp

text \<open>Pending and executed sends only name connections that exist or existed.\<close>

definition sends_old :: "Hub \<Rightarrow> bool" where
  "sends_old h \<longleftrightarrow> (\<forall>i a e. (i, a, e) \<in> set (hb_sends h) \<union> set (hb_sent h) \<longrightarrow> i < hb_next h)"

lemma sends_old_exec:
  assumes b: "sends_old h" and ok: "hub_ok h"
  shows "sends_old (live_exec h ev)"
proof (cases rule: live_exec_cases [of ev h])
  case (collecting a wants e)
  have "i < hb_next h" if "(i, c) \<in> set (hb_connections h)" for i c
    using that ok by (auto simp: hub_ok_def)
  then show ?thesis using b collecting by (auto simp: sends_old_def collect_def)
next
  case (sending n fails)
  obtain i a e where x: "hb_sends h ! n = (i, a, e)" by (metis prod_cases3)
  let ?h = "h\<lparr>hb_sends := remove_nth n (hb_sends h), hb_sent := hb_sent h @ [(i, a, e)]\<rparr>"
  have "sends_old ?h" if n: "n < length (hb_sends h)"
  proof -
    have "set (hb_sends ?h) \<union> set (hb_sent ?h) \<subseteq> set (hb_sends h) \<union> set (hb_sent h)"
      using remove_nth_subset [of n "hb_sends h"] nth_mem [OF n] x by auto
    then have "\<forall>i a e. (i, a, e) \<in> set (hb_sends ?h) \<union> set (hb_sent ?h) \<longrightarrow> i < hb_next h"
      using b unfolding sends_old_def by blast
    then show ?thesis by (simp add: sends_old_def)
  qed
  moreover have "sends_old g \<Longrightarrow> sends_old (close_connection g j code)" for g j code
    by (simp add: sends_old_def close_connection_def split: option.split)
  ultimately show ?thesis using b sending x by (simp add: deliver_def Let_def)
qed (use b in \<open>auto simp: sends_old_def conn_update_def Revoke_def close_connection_def close_next_def Let_def less_Suc_eq
      split: option.splits prod.splits\<close>)

lemma live_run_sends_old:
  "sends_old h \<Longrightarrow> hub_ok h \<Longrightarrow> 0 \<le> ll_SubscriptionsPerConnection (hb_limits h) \<Longrightarrow> sends_old (live_run h evs)"
  by (induction evs arbitrary: h) (simp_all add: sends_old_exec hub_ok_exec)

definition sane_limits :: "LiveLimits \<Rightarrow> bool" where
  "sane_limits l \<longleftrightarrow> 0 \<le> ll_ConnectionsPerApp l \<and> 0 \<le> ll_ConnectionsPerViewer l \<and> 0 \<le> ll_SubscriptionsPerConnection l"

lemma reachable_facts:
  assumes "sane_limits (hb_limits (NewHub l))"
  shows "hub_ok (live_run (NewHub l) evs)" "sends_old (live_run (NewHub l) evs)"
    "hb_limits (live_run (NewHub l) evs) = hb_limits (NewHub l)"
    "0 \<le> ll_SubscriptionsPerConnection (hb_limits (live_run (NewHub l) evs))"
proof -
  have ok: "hub_ok (NewHub l)" and nn: "0 \<le> ll_SubscriptionsPerConnection (hb_limits (NewHub l))"
    using NewHub_ok assms by (auto simp: sane_limits_def)
  have "sends_old (NewHub l)" by (simp add: sends_old_def NewHub_def)
  then show "hub_ok (live_run (NewHub l) evs)" "sends_old (live_run (NewHub l) evs)"
    "hb_limits (live_run (NewHub l) evs) = hb_limits (NewHub l)"
    "0 \<le> ll_SubscriptionsPerConnection (hb_limits (live_run (NewHub l) evs))"
    using live_run_ok [OF ok nn] live_run_sends_old [OF _ ok nn] nn by auto
qed

lemma live_run_mono: "hb_next h \<le> hb_next (live_run h evs)"
proof (induction evs arbitrary: h)
  case (Cons ev evs)
  have "hb_next h \<le> hb_next (live_exec h ev)"
    by (cases rule: live_exec_cases [of ev h])
      (auto simp: conn_update_def collect_def Revoke_def close_connection_def deliver_def close_next_def Let_def
        split: option.splits prod.splits)
  then show ?case using Cons [of "live_exec h ev"] by simp
qed simp

section \<open>The two grammars of a collection name\<close>

lemma live_validCollection_iff:
  "live_validCollection v \<longleftrightarrow>
    (\<exists>c. v = [c] \<and> lower_alnum c)
    \<or> (\<exists>c m d. v = c # m @ [d] \<and> lower_alnum c \<and> lower_alnum d \<and> length m \<le> 62 \<and> list_all name_char m)"
proof -
  consider "v = []" | c where "v = [c]" | c m d where "v = c # m @ [d]"
    by (metis neq_Nil_conv rev_exhaust)
  then show ?thesis
  proof cases
    case 3
    have mid: "list_all (\<lambda>i. lower_alnum (v ! i) \<or> v ! i = CHR ''_'' \<or> v ! i = CHR ''-'') [1..<length v - 1] = list_all name_char m"
    proof -
      have "map ((!) v) [1..<length v - 1] = m"
      proof (intro nth_equalityI)
        fix i assume "i < length (map ((!) v) [1..<length v - 1])"
        then have "i < length m" using 3 by (simp del: upt_Suc)
        then show "map ((!) v) [1..<length v - 1] ! i = m ! i" using 3 by (simp add: nth_append del: upt_Suc)
      qed (use 3 in \<open>simp del: upt_Suc\<close>)
      then have "list_all name_char m = list_all name_char (map ((!) v) [1..<length v - 1])" by simp
      then show ?thesis by (simp add: name_char_def list_all_iff)
    qed
    have "v ! 0 = c" "v ! (length v - 1) = d" using 3 by (auto simp: nth_append)
    then show ?thesis using 3 mid by (auto simp: live_validCollection_def)
  qed (auto simp: live_validCollection_def)
qed

section \<open>Properties\<close>

text \<open>Bounds: in every interleaving of the hub's sections, an app has at most \<open>ConnectionsPerApp\<close> attached
  connections, a viewer of it at most \<open>ConnectionsPerViewer\<close>, and a connection at most
  \<open>SubscriptionsPerConnection\<close> subscriptions of the three kinds together.\<close>

theorem live_hub_bounded:
  assumes "sane_limits (hb_limits (NewHub l))" "h = live_run (NewHub l) evs" "lim = hb_limits (NewHub l)"
  shows "app_count app (hb_connections h) \<le> ll_ConnectionsPerApp lim
    \<and> viewer_count app ident (hb_connections h) \<le> ll_ConnectionsPerViewer lim
    \<and> (\<forall>c \<in> set (hb_connections h). subscription_count (snd c) \<le> ll_SubscriptionsPerConnection lim)"
proof -
  have ok: "hub_ok h" "hb_limits h = lim" using reachable_facts [OF assms(1)] assms(2,3) by auto
  have "subscription_count (snd p) \<le> ll_SubscriptionsPerConnection lim" if "p \<in> set (hb_connections h)" for p
    using ok that by (cases p) (auto simp: hub_ok_def subs_ok_def)
  then show ?thesis using ok by (auto simp: hub_ok_def)
qed

text \<open>C11. Isolation: every envelope that is ever sent to a connection was published for the app whose
  authorized viewer attached that connection, in every interleaving of publications, subscriptions,
  slow consumers, closes and revocations.\<close>

theorem live_hub_isolation:
  assumes "sane_limits (hb_limits (NewHub l))" "h = live_run (NewHub l) evs"
    and "Attach h (Some c) True = (h1, Inr i)"
    and "(i, app, e) \<in> set (hb_sent (live_run h1 evs'))"
  shows "app = ac_AppID c"
proof -
  note f = reachable_facts [OF assms(1), of evs, folded assms(2)]
  have h1: "h1 = live_exec h (EvAttach (Some c) True)" using assms(3) by simp
  have "hub_ok h1" "hb_limits h1 = hb_limits h" using hub_ok_exec [OF f(1,4), of "EvAttach (Some c) True"] h1 by auto
  moreover have "belongs i (ac_AppID c) h1"
  proof -
    have "i = hb_next h" "h1 = h\<lparr>hb_connections := AList.update (hb_next h)
        \<lparr>co_app = ac_AppID c, co_identity = id_ID (ac_Identity c), co_session = ac_SessionID c,
         co_subscriptions = [], co_kvPrefixes = [], co_collections = []\<rparr> (hb_connections h), hb_next := Suc (hb_next h)\<rparr>"
      using assms(3) by (auto simp: Attach_def dest!: Scope_InrD split: sum.splits prod.splits if_splits)
    moreover have "(hb_next h, a, e) \<notin> set (hb_sends h) \<union> set (hb_sent h)" for a e
      using f(2) unfolding sends_old_def by blast
    ultimately show ?thesis by (auto simp: belongs_def gm_lookup_update)
  qed
  ultimately have "belongs i (ac_AppID c) (live_run h1 evs')" using belongs_run f(4) by metis
  then show ?thesis using assms(4) unfolding belongs_def by blast
qed

text \<open>C12. Revocation: once a revocation that matches an attached connection has executed its closes, the
  connection is detached for good: after any further events it can no longer subscribe or publish,
  whatever frames its client still has buffered.\<close>

theorem live_hub_revoked:
  assumes "map_of (hb_connections h) i = Some c" "i < hb_next h"
    and "co_app c = app" "session = [] \<or> co_session c = session"
    and "h1 = live_run (Revoke h app session) evs" "(i, 1008) \<notin> set (hb_closes h1)"
    and "h2 = live_run h1 evs'"
  shows "map_of (hb_connections h2) i = None
    \<and> (\<forall>ch. fst (Subscribe h2 i ch) = h2 \<and> snd (Subscribe h2 i ch) \<noteq> None)
    \<and> (\<forall>ch ev payload. fst (Publish h2 i ch ev payload) = h2 \<and> snd (Publish h2 i ch ev payload) \<noteq> None)"
proof -
  have "(i, c) \<in> set (hb_connections h)" using assms(1) by (rule map_of_SomeD)
  then have "(i, 1008) \<in> set (hb_closes (Revoke h app session))"
    using assms(3,4) by (force simp: Revoke_def)
  then have "revoking_conn i (Revoke h app session)" using assms(2) by (simp add: revoking_conn_def Revoke_def)
  then have "revoking_conn i h1" using revoking_run assms(5) by metis
  then have "map_of (hb_connections h1) i = None" "i < hb_next h1" using assms(6) by (auto simp: revoking_conn_def)
  then have "map_of (hb_connections h2) i = None" using gone_run assms(7) by metis
  then show ?thesis by (auto simp: Subscribe_def on_connection_def Publish_def simp del: map_of_eq_None_iff)
qed

definition demo_hub :: Hub where
  "demo_hub = live_run (NewHub LiveDefaultLimits) [EvAttach sample_context True, EvSubscribe 0 ''room'']"

theorem live_hub_bounded_witness:
  "app_count ''a1'' (hb_connections demo_hub) = 1 \<and> app_count ''a1'' (hb_connections demo_hub) \<le> 100"
proof -
  have s: "sane_limits (hb_limits (NewHub LiveDefaultLimits))" "ll_ConnectionsPerApp (hb_limits (NewHub LiveDefaultLimits)) = 100"
    "app_count ''a1'' (hb_connections demo_hub) = 1"
    by code_simp+
  from live_hub_bounded [OF s(1) demo_hub_def refl, of "''a1''"] s(2,3) show ?thesis by simp
qed

theorem live_hub_isolation_witness:
  "hb_sent (live_run demo_hub [EvAttach sample_context True, EvSubscribe 1 ''room'', EvPublish 0 ''room'' ''hi'' ''1'', EvDeliver 1 False])
     = [(1, ac_AppID (the sample_context), empty_envelope\<lparr>env_Type := ''event'', env_Channel := ''room'', env_Event := ''hi'', env_Payload := ''1''\<rparr>)]
   \<and> ac_AppID (the sample_context) = ''a1''"
proof -
  let ?evs = "[EvSubscribe 1 ''room'', EvPublish 0 ''room'' ''hi'' ''1'', EvDeliver 1 False]"
  have s: "sane_limits (hb_limits (NewHub LiveDefaultLimits))" "snd (Attach demo_hub sample_context True) = Inr 1"
    "hb_sent (live_run (fst (Attach demo_hub sample_context True)) ?evs)
      = [(1, ''a1'', empty_envelope\<lparr>env_Type := ''event'', env_Channel := ''room'', env_Event := ''hi'', env_Payload := ''1''\<rparr>)]"
    by code_simp+
  have "Attach demo_hub (Some (the sample_context)) True = (fst (Attach demo_hub sample_context True), Inr 1)"
    using s(2) by (metis option.collapse option.distinct(1) prod.collapse sample_context_def)
  from live_hub_isolation [OF s(1) demo_hub_def this, of "''a1''" _ ?evs] s(3) show ?thesis by simp
qed

theorem live_hub_revoked_witness:
  "snd (Publish (live_run (Revoke demo_hub ''a1'' ''s1'') [EvCloseNext 0]) 0 ''room'' ''hi'' ''1'') \<noteq> None"
proof -
  let ?c = "\<lparr>co_app = ''a1'', co_identity = ''u1'', co_session = ''s1'', co_subscriptions = [''room''], co_kvPrefixes = [], co_collections = []\<rparr>"
  have s: "map_of (hb_connections demo_hub) 0 = Some ?c" "0 < hb_next demo_hub"
    "(0, 1008) \<notin> set (hb_closes (live_run (Revoke demo_hub ''a1'' ''s1'') [EvCloseNext 0]))"
    by code_simp+
  have "co_app ?c = ''a1''" "''s1'' = [] \<or> co_session ?c = ''s1''" by simp_all
  from live_hub_revoked [OF s(1,2) this refl s(3), of _ "[]"] show ?thesis by simp
qed

text \<open>The hand-written grammar of a collection name in the live hub accepts exactly the names that the
  regular expression and the size limit of the collections service accept.\<close>

theorem live_collection_grammar_agrees: "live_validCollection v = ValidCollection v"
  unfolding ValidCollection_iff live_validCollection_iff collectionName_iff by simp

end
