(* ===== verification/Go_Utf8.thy ===== *)
theory Go_Utf8
  imports Go_Strings
begin

text \<open>
  Valid UTF-8 strings are exactly the encodings of sequences of Unicode scalar values, and trimming
  one keeps a contiguous part of its runes.
\<close>


lemma digit64: "b < (64::nat) \<Longrightarrow> (a * 64 + b) div 64 = a \<and> (a * 64 + b) mod 64 = b"
  by simp

lemma digits64_3:
  assumes "y < (64::nat)" "z < 64"
  shows "(x * 4096 + y * 64 + z) div 4096 = x \<and> (x * 4096 + y * 64 + z) div 64 mod 64 = y
    \<and> (x * 4096 + y * 64 + z) mod 64 = z"
proof -
  let ?r = "x * 4096 + y * 64 + z"
  have r: "?r = (x * 64 + y) * 64 + z" by simp
  have d: "?r div 64 = x * 64 + y" "?r mod 64 = z" unfolding r using digit64 [OF assms(2)] by blast+
  have "?r div 4096 = ?r div 64 div 64" using div_mult2_eq [of ?r 64 64] by simp
  then show ?thesis unfolding d using digit64 [OF assms(1)] by simp
qed

lemma digits64_4:
  assumes "y < (64::nat)" "z < 64" "u < 64"
  shows "(x * 262144 + y * 4096 + z * 64 + u) div 262144 = x
    \<and> (x * 262144 + y * 4096 + z * 64 + u) div 4096 mod 64 = y
    \<and> (x * 262144 + y * 4096 + z * 64 + u) div 64 mod 64 = z \<and> (x * 262144 + y * 4096 + z * 64 + u) mod 64 = u"
proof -
  let ?r = "x * 262144 + y * 4096 + z * 64 + u"
  have r: "?r = (x * 4096 + y * 64 + z) * 64 + u" by simp
  have d: "?r div 64 = x * 4096 + y * 64 + z" "?r mod 64 = u" unfolding r using digit64 [OF assms(3)] by blast+
  have "?r div 4096 = ?r div 64 div 64" "?r div 262144 = ?r div 64 div 4096"
    using div_mult2_eq [of ?r 64 64] div_mult2_eq [of ?r 64 4096] by simp_all
  moreover have "(x * 4096 + y * 64 + z) div 64 = x * 64 + y"
    using digit64 [OF assms(2), of "x * 64 + y"] by (simp add: algebra_simps)
  ultimately show ?thesis unfolding d using digits64_3 [OF assms(1,2)] digit64 [OF assms(1)] by simp
qed

lemma decode_rune_inverse:
  assumes "bs \<noteq> []" "decode_rune bs \<noteq> (RuneError, 1)"
  shows "valid_scalar (fst (decode_rune bs))
    \<and> bs = encode_scalar (fst (decode_rune bs)) @ drop (snd (decode_rune bs)) bs"
proof -
  obtain a r where bs: "bs = a # r" using assms(1) by (cases bs) auto
  consider "a < 0x80" | "0xC2 \<le> a" "a \<le> 0xDF" | "0xE0 \<le> a" "a \<le> 0xEF" | "0xF0 \<le> a" "a \<le> 0xF4"
    using assms(2) by (simp add: bs decode_rune_def split: if_splits)
  then show ?thesis
  proof cases
    case 1
    then show ?thesis by (simp add: bs decode_rune_def encode_scalar_def valid_scalar_def)
  next
    case 2
    with assms(2) obtain b t where r: "r = b # t" "cont_byte b"
      by (simp add: bs decode_rune_def split: list.splits if_splits)
    define x y where "x = a - 0xC0" and "y = b - 0x80"
    have xy: "a = 0xC0 + x" "b = 0x80 + y" "2 \<le> x" "x < 32" "y < 64"
      using 2 r by (auto simp: x_def y_def cont_byte_def)
    show ?thesis using xy(3-)
      by (simp add: bs r(1) decode_rune_def cont_byte_def xy(1,2) encode_scalar_def valid_scalar_def)
  next
    case 3
    with assms(2) obtain b c t where r: "r = b # c # t" "decode3 a b c \<noteq> (RuneError, 1)"
      by (simp add: bs decode_rune_def split: list.splits if_splits)
    define x y z where "x = a - 0xE0" and "y = b - 0x80" and "z = c - 0x80"
    have xy: "a = 0xE0 + x" "b = 0x80 + y" "c = 0x80 + z" "x < 16" "y < 64" "z < 64"
        "x = 0 \<longrightarrow> 32 \<le> y" "x = 13 \<longrightarrow> y \<le> 31"
      using 3 r(2) by (auto simp: x_def y_def z_def decode3_def cont_byte_def split: if_splits)
    have d: "decode_rune bs = (x * 4096 + y * 64 + z, 3)"
      using xy(4-) by (simp add: bs r(1) decode_rune_def decode3_def cont_byte_def xy(1-3))
    let ?r = "x * 4096 + y * 64 + z"
    have e: "?r div 4096 = x" "?r div 64 mod 64 = y" "?r mod 64 = z" using digits64_3 [OF xy(5,6)] by blast+
    have "0x800 \<le> ?r" "?r < 0x10000" using xy(4-) by (cases "x = 0"; simp)+
    moreover have "valid_scalar ?r"
      using xy(4-) unfolding valid_scalar_def by (cases "x < 13"; cases "x = 13"; simp)
    ultimately show ?thesis
      by (simp add: d) (simp add: encode_scalar_def e bs r(1) xy(1-3))
  next
    case 4
    with assms(2) obtain b c d t where r: "r = b # c # d # t" "decode4 a b c d \<noteq> (RuneError, 1)"
      by (simp add: bs decode_rune_def split: list.splits if_splits)
    define x y z u where "x = a - 0xF0" and "y = b - 0x80" and "z = c - 0x80" and "u = d - 0x80"
    have xy: "a = 0xF0 + x" "b = 0x80 + y" "c = 0x80 + z" "d = 0x80 + u" "x < 5" "y < 64" "z < 64" "u < 64"
        "x = 0 \<longrightarrow> 16 \<le> y" "x = 4 \<longrightarrow> y \<le> 15"
      using 4 r(2) by (auto simp: x_def y_def z_def u_def decode4_def cont_byte_def split: if_splits)
    have dd: "decode_rune bs = (x * 262144 + y * 4096 + z * 64 + u, 4)"
      using xy(5-) by (simp add: bs r(1) decode_rune_def decode4_def cont_byte_def xy(1-4))
    let ?r = "x * 262144 + y * 4096 + z * 64 + u"
    have e: "?r div 262144 = x" "?r div 4096 mod 64 = y" "?r div 64 mod 64 = z" "?r mod 64 = u" using digits64_4 [OF xy(6,7,8)] by blast+
    have "0x10000 \<le> ?r" using xy(5-) by (cases "x = 0"; simp)
    moreover have "?r \<le> 0x10FFFF" using xy(5-) by (cases "x < 4"; cases "x = 4"; simp)
    ultimately show ?thesis
      by (simp add: dd) (simp add: encode_scalar_def valid_scalar_def e bs r(1) xy(1-4))
  qed
qed

text \<open>A valid string is the encoding of its runes, and of nothing else.\<close>

lemma valid_runes_nat:
  "list_all (\<lambda>p. p \<noteq> (RuneError, 1)) (runes_nat bs) \<Longrightarrow>
   list_all valid_scalar (map fst (runes_nat bs)) \<and> bs = concat (map encode_scalar (map fst (runes_nat bs)))"
proof (induction bs rule: runes_nat.induct)
  case (1 bs)
  show ?case
  proof (cases "bs = []")
    case False
    note r = runes_nat_ne [OF False]
    from 1(2) have d: "decode_rune bs \<noteq> (RuneError, 1)"
      and v: "list_all (\<lambda>p. p \<noteq> (RuneError, 1)) (runes_nat (drop (snd (decode_rune bs)) bs))"
      by (simp_all add: r)
    from 1(1) [OF False v] decode_rune_inverse [OF False d] show ?thesis
      by (simp add: r)
  qed simp
qed

lemma runes_nat_concat:
  "list_all valid_scalar rs \<Longrightarrow>
   runes_nat (concat (map encode_scalar rs)) = map (\<lambda>r. (r, length (encode_scalar r))) rs"
  by (induction rs) (simp_all add: runes_nat_encode)

lemma encode_scalar_no_error: "(r, length (encode_scalar r)) \<noteq> (RuneError, 1)"
  by (auto simp: encode_scalar_def)

lemma ValidString_iff:
  "ValidString s \<longleftrightarrow> (\<exists>rs. list_all valid_scalar rs \<and> bytes s = concat (map encode_scalar rs))"
proof
  assume "ValidString s"
  then show "\<exists>rs. list_all valid_scalar rs \<and> bytes s = concat (map encode_scalar rs)"
    unfolding ValidString_def by (intro exI conjI) (use valid_runes_nat in blast)+
next
  assume "\<exists>rs. list_all valid_scalar rs \<and> bytes s = concat (map encode_scalar rs)"
  then obtain rs where "list_all valid_scalar rs" "bytes s = concat (map encode_scalar rs)" by blast
  then show "ValidString s"
    using encode_scalar_no_error by (auto simp: ValidString_def runes_nat_concat list_all_iff simp del: Pair_inject)
qed

text \<open>An encoding is one leading byte followed by continuation bytes.\<close>

lemma encode_scalar_shape:
  assumes "valid_scalar r"
  obtains a t where "encode_scalar r = a # t" "\<not> cont_byte a" "list_all cont_byte t"
proof -
  have "\<not> cont_byte (hd (encode_scalar r)) \<and> list_all cont_byte (tl (encode_scalar r))"
    using assms by (auto simp: encode_scalar_def cont_byte_def valid_scalar_def)
  then show ?thesis using that [of "hd (encode_scalar r)" "tl (encode_scalar r)"] by simp
qed

lemma encode_suffix_unique:
  assumes "valid_scalar r" "valid_scalar q" "x @ encode_scalar r = y @ encode_scalar q"
  shows "x = y \<and> encode_scalar r = encode_scalar q"
proof -
  obtain a t where r: "encode_scalar r = a # t" "\<not> cont_byte a" "list_all cont_byte t"
    using encode_scalar_shape [OF assms(1)] .
  obtain b u where q: "encode_scalar q = b # u" "\<not> cont_byte b" "list_all cont_byte u"
    using encode_scalar_shape [OF assms(2)] .
  from assms(3) consider w where "x = y @ w" "w @ a # t = b # u" | w where "y = x @ w" "a # t = w @ b # u"
    unfolding r(1) q(1) append_eq_append_conv2 by blast
  then have "x = y \<and> a # t = b # u"
  proof cases
    case 1
    with r(2) q(3) show ?thesis by (cases w) auto
  next
    case 2
    with q(2) r(3) show ?thesis by (cases w) auto
  qed
  then show ?thesis by (simp add: r(1) q(1))
qed

lemma encode_scalar_inj: "valid_scalar r \<Longrightarrow> valid_scalar q \<Longrightarrow> encode_scalar r = encode_scalar q \<Longrightarrow> r = q"
  by (metis decode_encode_scalar prod.inject)

definition space_runes :: "nat list" where
  "space_runes = [0x20, 0x09, 0x0A, 0x0B, 0x0C, 0x0D, 0x85, 0xA0, 0x1680, 0x2000, 0x2001, 0x2002, 0x2003, 0x2004,
     0x2005, 0x2006, 0x2007, 0x2008, 0x2009, 0x200A, 0x2028, 0x2029, 0x202F, 0x205F, 0x3000]"

lemma space_seqs_runes: "map bytes space_seqs = map encode_scalar space_runes"
  by (simp add: space_seqs_def space_runes_def bytes_def encode_scalar_def)

lemma space_runes_valid: "list_all valid_scalar space_runes"
  by (simp add: space_runes_def valid_scalar_def)

lemma space_seq_rune: 
  assumes "q \<in> set space_seqs" obtains r where "valid_scalar r" "bytes q = encode_scalar r"
proof -
  from assms have "bytes q \<in> set (map bytes space_seqs)" by simp
  then show ?thesis using that space_runes_valid unfolding space_seqs_runes by (auto simp: list_all_iff)
qed

definition scalars :: "nat list \<Rightarrow> nat list \<Rightarrow> bool" where
  "scalars rs bs \<longleftrightarrow> list_all valid_scalar rs \<and> bs = concat (map encode_scalar rs)"

lemma trim_front_sublist:
  assumes "scalars rs (bytes s)" 
  shows "\<exists>n. scalars (drop n rs) (bytes (trim_with space_seqs s))"
  using assms
proof (induction "space_seqs" s arbitrary: rs rule: trim_with.induct)
  case (1 s)
  show ?case
  proof (cases "length (drop_seq space_seqs s) = length s")
    case True
    with 1(2) show ?thesis by (subst trim_with.simps) (auto intro: exI [of _ 0])
  next
    case False
    then obtain q where q: "q \<in> set space_seqs" "q \<noteq> []" "s = q @ drop_seq space_seqs s"
      by (metis drop_seq_cases)
    obtain r where r: "valid_scalar r" "bytes q = encode_scalar r" using space_seq_rune [OF q(1)] .
    have b: "bytes s = encode_scalar r @ bytes (drop_seq space_seqs s)"
      by (subst q(3)) (simp add: bytes_def r(2) [unfolded bytes_def])
    with 1(2) have ne: "rs \<noteq> []" by (auto simp: scalars_def)
    then obtain r' rs' where rs: "rs = r' # rs'" by (cases rs) auto
    with 1(2) have v: "valid_scalar r'" "list_all valid_scalar rs'"
      and e: "encode_scalar r @ bytes (drop_seq space_seqs s) = encode_scalar r' @ concat (map encode_scalar rs')"
      by (auto simp: scalars_def b)
    from decode_encode_scalar [OF r(1)] decode_encode_scalar [OF v(1)] e have "r = r'" by (metis prod.inject)
    with e v have "scalars rs' (bytes (drop_seq space_seqs s))" by (simp add: scalars_def)
    from 1(1) [OF False this] obtain n where "scalars (drop n rs') (bytes (trim_with space_seqs (drop_seq space_seqs s)))" by blast
    with False show ?thesis by (subst trim_with.simps) (auto simp: rs intro!: exI [of _ "Suc n"])
  qed
qed

lemma trim_back_sublist:
  assumes "qs = map rev space_seqs" "scalars rs (bytes (rev t))"
  shows "\<exists>n. scalars (take n rs) (bytes (rev (trim_with qs t)))"
  using assms
proof (induction qs t arbitrary: rs rule: trim_with.induct)
  case (1 qs t)
  let ?d = "drop_seq qs t"
  show ?case
  proof (cases "length ?d = length t")
    case True
    with 1(3) show ?thesis by (subst trim_with.simps) (auto intro: exI [of _ "length rs"])
  next
    case False
    obtain q where q: "q \<in> set space_seqs" "t = rev q @ ?d"
    proof (rule drop_seq_cases [of qs t])
      assume "drop_seq qs t = t"
      with False show ?thesis by simp
    next
      fix q' assume "q' \<in> set qs" "t = q' @ ?d"
      then show ?thesis using 1(2) by (intro that [of "rev q'"]) auto
    qed
    obtain r where r: "valid_scalar r" "bytes q = encode_scalar r" using space_seq_rune [OF q(1)] .
    have b: "bytes (rev t) = bytes (rev ?d) @ encode_scalar r"
      by (subst q(2)) (simp add: bytes_def r(2) [unfolded bytes_def])
    with 1(3) have "rs \<noteq> []" by (auto simp: scalars_def)
    then obtain r' rs' where rs: "rs = rs' @ [r']" by (cases rs rule: rev_cases) auto
    with 1(3) have v: "valid_scalar r'" "list_all valid_scalar rs'"
      and e: "bytes (rev ?d) @ encode_scalar r = concat (map encode_scalar rs') @ encode_scalar r'"
      by (auto simp: scalars_def b)
    from encode_suffix_unique [OF r(1) v(1) e] v have "scalars rs' (bytes (rev ?d))"
      by (simp add: scalars_def)
    from 1(1) [OF False 1(2) this] obtain n where n: "scalars (take n rs') (bytes (rev (trim_with qs ?d)))"
      by blast
    have "take (min n (length rs')) rs = take n rs'" by (simp add: rs min_def)
    with n False show ?thesis by (subst trim_with.simps) (auto intro!: exI [of _ "min n (length rs')"])
  qed
qed

lemma scalars_runes: "scalars rs (bytes s) \<Longrightarrow> runes s = rs \<and> RuneCountInString s = length rs \<and> ValidString s"
  by (auto simp: scalars_def runes_def RuneCountInString_def runes_nat_concat ValidString_iff o_def)

text \<open>Trimming a valid string keeps a contiguous part of its runes.\<close>

lemma TrimSpace_valid:
  assumes "ValidString s"
  shows "ValidString (TrimSpace s) \<and> set (runes (TrimSpace s)) \<subseteq> set (runes s)"
proof -
  obtain rs where rs: "scalars rs (bytes s)" using assms by (auto simp: ValidString_iff scalars_def)
  obtain n m where "scalars (take m (drop n rs)) (bytes (TrimSpace s))"
    using trim_front_sublist [OF rs] trim_back_sublist [OF refl, of _ "rev (trim_with space_seqs s)"]
    unfolding TrimSpace_def by (metis rev_rev_ident)
  from scalars_runes [OF this] scalars_runes [OF rs] show ?thesis
    by (metis order_trans set_drop_subset set_take_subset)
qed

end
