(* ===== verification/Release_Manifest.thy ===== *)
theory Release_Manifest
  imports Identity_Access Go_Utf8
begin

text \<open>
  The deployment state machine, \<open>internal/releases/releases.go\<close>, and the app manifest,
  \<open>internal/releases/manifest.go\<close>. The YAML library is a parameter: \<open>decode\<close> gives the node tree of
  the first document, \<open>at_end\<close> says that no second document follows, \<open>strict\<close> decodes into the raw
  structure with unknown fields refused, and \<open>marshal\<close> renders it.
\<close>

section \<open>The deployment state machine\<close>

text \<open>\<open>State\<close> is a string type; a value outside the declared constants is \<open>OtherState\<close>.\<close>

datatype State =
    Uploading | Uploaded | Validating | Staged | Verified | Active | Superseded | Rejected | Failed
  | OtherState string

datatype release_error = ErrTransition | ErrActivationIncomplete

definition Terminal :: "State \<Rightarrow> bool" where
  "Terminal s \<longleftrightarrow> s = Rejected \<or> s = Failed \<or> s = Superseded"

fun transition_table :: "State \<Rightarrow> State list" where
  "transition_table Uploading = [Uploaded, Failed]"
| "transition_table Uploaded = [Validating, Rejected]"
| "transition_table Validating = [Staged, Rejected]"
| "transition_table Staged = [Verified, Failed]"
| "transition_table Verified = [Active, Failed]"
| "transition_table Active = [Superseded]"
| "transition_table _ = []"

definition Transition :: "State \<Rightarrow> State \<Rightarrow> release_error option" where
  "Transition source target = (if target \<notin> set (transition_table source) then Some ErrTransition else None)"

record Deployment =
  dp_ID :: string
  dp_AppID :: string
  dp_ReleaseHash :: string
  dp_State :: State

record ActivationRequirements =
  ar_PolicyReady :: bool
  ar_CertificateReady :: bool
  ar_DenialProbePassed :: bool

definition CanActivate :: "'a Deployment_scheme \<Rightarrow> ActivationRequirements \<Rightarrow> release_error option" where
  "CanActivate d r =
     (if dp_State d \<noteq> Verified then Some ErrTransition
      else if \<not> ar_PolicyReady r \<or> \<not> ar_CertificateReady r \<or> \<not> ar_DenialProbePassed r
      then Some ErrActivationIncomplete
      else None)"

definition PlanActivation :: "Deployment option \<Rightarrow> Deployment \<Rightarrow> ActivationRequirements \<Rightarrow> release_error + Deployment list" where
  "PlanActivation previous nxt r =
     (case CanActivate nxt r of
        Some e \<Rightarrow> Inl e
      | None \<Rightarrow>
          let out = [nxt\<lparr>dp_State := Active\<rparr>] in
          (case previous of
             None \<Rightarrow> Inr out
           | Some p \<Rightarrow>
               if dp_AppID p \<noteq> dp_AppID nxt \<or> dp_State p \<noteq> Active then Inl ErrTransition
               else Inr (out @ [p\<lparr>dp_State := Superseded\<rparr>])))"

text \<open>The longest path to a terminal state.\<close>

fun state_rank :: "State \<Rightarrow> nat" where
  "state_rank Uploading = 6"
| "state_rank Uploaded = 5"
| "state_rank Validating = 4"
| "state_rank Staged = 3"
| "state_rank Verified = 2"
| "state_rank Active = 1"
| "state_rank _ = 0"

lemma Transition_rank: "Transition a b = None \<Longrightarrow> state_rank b < state_rank a"
  by (cases a) (auto simp: Transition_def split: if_splits)

lemma state_rank_le: "state_rank s \<le> 6"
  by (cases s) simp_all

lemma Terminal_no_transition: "Terminal s \<Longrightarrow> Transition s t = Some ErrTransition"
  by (auto simp: Terminal_def Transition_def)

section \<open>YAML nodes\<close>

datatype yaml_kind = DocumentNode | SequenceNode | MappingNode | ScalarNode | AliasNode

datatype yaml_node =
  YNode (yn_kind: yaml_kind) (yn_tag: string) (yn_value: string) (yn_alias: bool) (yn_content: "yaml_node list")

text \<open>The keys of a mapping are the nodes at even positions.\<close>

fun even_values :: "yaml_node list \<Rightarrow> string list" where
  "even_values [] = []"
| "even_values [k] = [yn_value k]"
| "even_values (k # v # r) = yn_value k # even_values r"

definition safe_tags :: "string list" where
  "safe_tags = [[], ''!!map'', ''!!seq'', ''!!str'', ''!!int'', ''!!bool'', ''!!null'']"

fun safe :: "yaml_node \<Rightarrow> bool" where
  "safe (YNode kind tag value alias content) =
     (if alias \<or> tag \<notin> set safe_tags then False
      else if kind = MappingNode \<and> \<not> distinct (even_values content) then False
      else list_all safe content)"

fun find_field :: "string \<Rightarrow> yaml_node list \<Rightarrow> yaml_node option" where
  "find_field key (k # v # r) = (if yn_value k = key then Some v else find_field key r)"
| "find_field key _ = None"

definition mappingField :: "yaml_node option \<Rightarrow> string \<Rightarrow> yaml_node option" where
  "mappingField node key =
     (case node of
        None \<Rightarrow> None
      | Some n \<Rightarrow>
          let n = (if yn_kind n = DocumentNode \<and> length (yn_content n) = 1 then hd (yn_content n) else n)
          in if yn_kind n \<noteq> MappingNode then None else find_field key (yn_content n))"

section \<open>The manifest\<close>

record Manifest =
  mf_Version :: int
  mf_Name :: string
  mf_Description :: string
  mf_Tags :: "string list"
  mf_AccessMode :: string
  mf_Indexing :: bool
  mf_Emails :: "string list"
  mf_Domains :: "string list"
  mf_KV :: bool
  mf_Blobs :: bool
  mf_Realtime :: bool
  mf_SPAFallback :: string
  mf_BuildOutput :: string

record rawManifest =
  raw_Version :: int
  raw_Name :: string
  raw_Description :: string
  raw_Tags :: "string list"
  raw_BuildOutput :: string
  raw_Mode :: string
  raw_Indexing :: "bool option"
  raw_Emails :: "string list"
  raw_Domains :: "string list"
  raw_KV :: bool
  raw_Blobs :: bool
  raw_Realtime :: bool
  raw_Fallback :: string

definition ValidSlug :: "(nat \<Rightarrow> nat) \<Rightarrow> string \<Rightarrow> bool" where
  "ValidSlug U v = Valid U v"

definition HasBrowserCapability :: "Manifest \<Rightarrow> bool" where
  "HasBrowserCapability m \<longleftrightarrow> mf_KV m \<or> mf_Blobs m \<or> mf_Realtime m"

definition tag_edge :: "char \<Rightarrow> bool" where
  "tag_edge c \<longleftrightarrow> is_lower c \<or> is_digit c"

definition tag_ok :: "string \<Rightarrow> bool" where
  "tag_ok tag =
     (if length tag < 1 \<or> length tag > 24 then False
      else if \<not> list_all (\<lambda>c. tag_edge c \<or> c = CHR ''-'') tag then False
      else tag_edge (hd tag) \<and> tag_edge (last tag))"

fun tags_unseen :: "string list \<Rightarrow> string list \<Rightarrow> bool" where
  "tags_unseen seen [] = True"
| "tags_unseen seen (tag # tags) =
     (if \<not> tag_ok tag then False else if tag \<in> set seen then False else tags_unseen (tag # seen) tags)"

definition canonicalTags :: "string list \<Rightarrow> bool" where
  "canonicalTags tags = (if length tags > 8 then False else tags_unseen [] tags)"

text \<open>\<open>unicode.IsControl\<close>: the two blocks of control characters.\<close>

definition IsControl :: "nat \<Rightarrow> bool" where
  "IsControl r \<longleftrightarrow> r < 0x20 \<or> (0x7F \<le> r \<and> r < 0xA0)"

definition NormalizeDescription :: "string \<Rightarrow> string option" where
  "NormalizeDescription value =
     (if \<not> ValidString value then None
      else if list_ex (\<lambda>r. IsControl r \<or> r = 0x2028 \<or> r = 0x2029) (runes value) then None
      else
        let t = TrimSpace value in if RuneCountInString t > 280 then None else Some t)"

definition manifest_label :: "string \<Rightarrow> bool" where
  "manifest_label l =
     (if length l = 0 \<or> length l > 63 \<or> hd l = CHR ''-'' \<or> last l = CHR ''-'' then False
      else list_all label_char l)"

definition manifest_validDomain :: "string \<Rightarrow> bool" where
  "manifest_validDomain d =
     (if d = [] \<or> length d > 253 \<or> ContainsAny d (''@/ '' @ [CHR 0x09, CHR 0x0D, CHR 0x0A]) then False
      else list_all manifest_label (Split (CHR ''.'') d))"

text \<open>The two allow-lists: normalized, without duplicates.\<close>

fun allow_emails :: "(nat \<Rightarrow> nat) \<Rightarrow> string list \<Rightarrow> string list \<Rightarrow> string list option" where
  "allow_emails U acc [] = Some acc"
| "allow_emails U acc (v # vs) =
     (case Normalize U v of
        Inl _ \<Rightarrow> None
      | Inr e \<Rightarrow> if e \<in> set acc then None else allow_emails U (acc @ [e]) vs)"

fun allow_domains :: "(nat \<Rightarrow> nat) \<Rightarrow> string list \<Rightarrow> string list \<Rightarrow> string list option" where
  "allow_domains U acc [] = Some acc"
| "allow_domains U acc (v # vs) =
     (let d = ToLower U (TrimSpace v) in
      if \<not> manifest_validDomain d \<or> d \<in> set acc then None else allow_domains U (acc @ [d]) vs)"

record Yaml =
  y_decode :: "string \<Rightarrow> yaml_node option"
  y_at_end :: "string \<Rightarrow> bool"
  y_strict :: "string \<Rightarrow> rawManifest option"
  y_marshal :: "rawManifest \<Rightarrow> string option"

text \<open>The checks that depend on the version; the result carries the indexing flag and the tags.\<close>

definition version_rules :: "yaml_node option \<Rightarrow> yaml_node option \<Rightarrow> rawManifest \<Rightarrow> Manifest \<Rightarrow> Manifest option" where
  "version_rules tagsNode indexingNode raw m =
     (if mf_Version m = 1 then
        (if mf_AccessMode m \<noteq> ''private'' \<or> indexingNode \<noteq> None \<or> tagsNode \<noteq> None then None else Some m)
      else if (case tagsNode of None \<Rightarrow> False | Some n \<Rightarrow> yn_kind n \<noteq> SequenceNode) then None
      else if (case indexingNode of None \<Rightarrow> False
               | Some n \<Rightarrow> yn_kind n \<noteq> ScalarNode \<or> yn_tag n \<noteq> ''!!bool'') then None
      else if mf_AccessMode m \<noteq> ''private'' \<and> mf_AccessMode m \<noteq> ''public'' then None
      else
        let m1 = m\<lparr>mf_Indexing := (case raw_Indexing raw of None \<Rightarrow> mf_Indexing m | Some b \<Rightarrow> b)\<rparr> in
        if mf_AccessMode m1 \<noteq> ''public'' \<and> mf_Indexing m1 then None
        else if \<not> canonicalTags (mf_Tags m1) then None
        else if mf_AccessMode m1 = ''public'' \<and> HasBrowserCapability m1 then None
        else Some (m1\<lparr>mf_Tags := sort (mf_Tags m1)\<rparr>))"

text \<open>The manifest as the raw structure fills it, with the defaults of the output and the mode.\<close>

definition raw_manifest :: "(nat \<Rightarrow> nat) \<Rightarrow> rawManifest \<Rightarrow> string \<Rightarrow> Manifest" where
  "raw_manifest U raw description =
     \<lparr>mf_Version = raw_Version raw, mf_Name = ToLower U (raw_Name raw), mf_Description = description,
      mf_Tags = raw_Tags raw, mf_AccessMode = (if raw_Mode raw = [] then ''private'' else raw_Mode raw),
      mf_Indexing = False, mf_Emails = [], mf_Domains = [], mf_KV = raw_KV raw, mf_Blobs = raw_Blobs raw,
      mf_Realtime = raw_Realtime raw, mf_SPAFallback = raw_Fallback raw,
      mf_BuildOutput = (if raw_BuildOutput raw = [] then ''.'' else raw_BuildOutput raw)\<rparr>"

definition ParseManifest :: "(nat \<Rightarrow> nat) \<Rightarrow> Yaml \<Rightarrow> string \<Rightarrow> Manifest option" where
  "ParseManifest U y data =
     (case y_decode y data of
        None \<Rightarrow> None
      | Some n \<Rightarrow>
          if \<not> safe n then None
          else
            let tagsNode = mappingField (Some n) ''tags'';
                indexingNode = mappingField (mappingField (Some n) ''access'') ''indexing''
            in if \<not> y_at_end y data then None
            else case y_strict y data of
              None \<Rightarrow> None
            | Some raw \<Rightarrow>
                (case NormalizeDescription (raw_Description raw) of
                   None \<Rightarrow> None
                 | Some description \<Rightarrow>
                     let m = raw_manifest U raw description
                     in if IsAbs (mf_BuildOutput m) \<or> path_Clean (mf_BuildOutput m) \<noteq> mf_BuildOutput m
                           \<or> Contains (mf_BuildOutput m) [CHR 0x5C] \<or> HasPrefix (mf_BuildOutput m) ''../'' then None
                     else if \<not> ValidSlug U (mf_Name m) \<or> (mf_Version m \<noteq> 1 \<and> mf_Version m \<noteq> 2) then None
                     else case version_rules tagsNode indexingNode raw m of
                       None \<Rightarrow> None
                     | Some m1 \<Rightarrow>
                         if mf_SPAFallback m1 \<noteq> [] \<and> (IsAbs (mf_SPAFallback m1)
                             \<or> path_Clean (mf_SPAFallback m1) \<noteq> mf_SPAFallback m1
                             \<or> Contains (mf_SPAFallback m1) [CHR 0x5C]) then None
                         else case allow_emails U [] (raw_Emails raw) of
                           None \<Rightarrow> None
                         | Some es \<Rightarrow>
                             (case allow_domains U [] (raw_Domains raw) of
                                None \<Rightarrow> None
                              | Some ds \<Rightarrow> Some (m1\<lparr>mf_Emails := sort es, mf_Domains := sort ds\<rparr>))))"

definition ValidStoredManifest :: "(nat \<Rightarrow> nat) \<Rightarrow> Manifest \<Rightarrow> bool" where
  "ValidStoredManifest U m =
     (if (mf_Version m \<noteq> 1 \<and> mf_Version m \<noteq> 2) \<or> \<not> ValidSlug U (mf_Name m) then False
      else if NormalizeDescription (mf_Description m) \<noteq> Some (mf_Description m) then False
      else
        let mode = (if mf_AccessMode m = [] then ''private'' else mf_AccessMode m) in
        if mf_Version m = 1 then mode = ''private'' \<and> \<not> mf_Indexing m \<and> length (mf_Tags m) = 0
        else if (mode \<noteq> ''private'' \<and> mode \<noteq> ''public'') \<or> (mode \<noteq> ''public'' \<and> mf_Indexing m)
                \<or> \<not> canonicalTags (mf_Tags m) \<or> \<not> sorted (mf_Tags m) then False
        else mode \<noteq> ''public'' \<or> \<not> HasBrowserCapability m)"

definition encode_manifest :: "(nat \<Rightarrow> nat) \<Rightarrow> Yaml \<Rightarrow> Manifest \<Rightarrow> string option" where
  "encode_manifest U y m =
     (case NormalizeDescription (mf_Description m) of
        None \<Rightarrow> None
      | Some description \<Rightarrow>
          if (mf_Version m \<noteq> 0 \<and> mf_Version m \<noteq> 1 \<and> mf_Version m \<noteq> 2) \<or> \<not> ValidSlug U (mf_Name m) then None
          else
            let mode = (if mf_AccessMode m = [] then ''private'' else mf_AccessMode m) in
            if (mode \<noteq> ''private'' \<and> mode \<noteq> ''public'') \<or> (mode \<noteq> ''public'' \<and> mf_Indexing m)
               \<or> \<not> canonicalTags (mf_Tags m) \<or> (mode = ''public'' \<and> HasBrowserCapability m) then None
            else y_marshal y \<lparr>raw_Version = 2, raw_Name = mf_Name m, raw_Description = description,
                   raw_Tags = sort (mf_Tags m),
                   raw_BuildOutput = (if mf_BuildOutput m = [] then ''.'' else mf_BuildOutput m),
                   raw_Mode = mode, raw_Indexing = Some (mf_Indexing m), raw_Emails = mf_Emails m,
                   raw_Domains = mf_Domains m, raw_KV = mf_KV m, raw_Blobs = mf_Blobs m,
                   raw_Realtime = mf_Realtime m, raw_Fallback = mf_SPAFallback m\<rparr>)"

definition GenerateManifest :: "(nat \<Rightarrow> nat) \<Rightarrow> Yaml \<Rightarrow> Manifest \<Rightarrow> string option" where
  "GenerateManifest U y m =
     (case encode_manifest U y m of
        None \<Rightarrow> None
      | Some b \<Rightarrow>
          (case ParseManifest U y b of
             None \<Rightarrow> None
           | Some canonical \<Rightarrow>
               (case encode_manifest U y canonical of
                  None \<Rightarrow> None
                | Some b2 \<Rightarrow> if ParseManifest U y b2 = None then None else Some b2)))"

section \<open>Normal forms\<close>

lemma NormalizeDescription_idem:
  assumes "NormalizeDescription v = Some t" shows "NormalizeDescription t = Some t"
proof -
  from assms have v: "ValidString v" and t: "t = TrimSpace v" "\<not> RuneCountInString t > 280"
    and ctl: "\<not> list_ex (\<lambda>r. IsControl r \<or> r = 0x2028 \<or> r = 0x2029) (runes v)"
    by (auto simp: NormalizeDescription_def Let_def split: if_splits)
  have "ValidString t" "set (runes t) \<subseteq> set (runes v)" using TrimSpace_valid [OF v] by (simp_all add: t(1))
  moreover from this(2) ctl have "\<not> list_ex (\<lambda>r. IsControl r \<or> r = 0x2028 \<or> r = 0x2029) (runes t)"
    unfolding list_ex_iff by blast
  ultimately show ?thesis using t by (simp add: NormalizeDescription_def)
qed

lemma tags_unseen_iff:
  "tags_unseen seen ts \<longleftrightarrow> list_all tag_ok ts \<and> distinct ts \<and> set ts \<inter> set seen = {}"
  by (induction ts arbitrary: seen) auto

lemma canonicalTags_iff: "canonicalTags ts \<longleftrightarrow> length ts \<le> 8 \<and> list_all tag_ok ts \<and> distinct ts"
  by (auto simp: canonicalTags_def tags_unseen_iff)

lemma canonicalTags_sort [simp]: "canonicalTags (sort ts) = canonicalTags ts"
  by (simp add: canonicalTags_iff list_all_iff)

text \<open>What the version rules establish, and the fields they leave alone.\<close>

lemma version_rules_SomeD:
  assumes "version_rules tn ix raw m = Some m'" "mf_Version m = 1 \<or> mf_Version m = 2" "\<not> mf_Indexing m"
  shows "m' = m\<lparr>mf_Indexing := mf_Indexing m', mf_Tags := mf_Tags m'\<rparr>"
    and "mf_Version m = 1 \<Longrightarrow> m' = m \<and> mf_AccessMode m = ''private'' \<and> tn = None"
    and "mf_Version m = 2 \<Longrightarrow> (mf_AccessMode m = ''private'' \<and> \<not> mf_Indexing m' \<or> mf_AccessMode m = ''public'')
      \<and> canonicalTags (mf_Tags m') \<and> sorted (mf_Tags m')
      \<and> \<not> (mf_AccessMode m = ''public'' \<and> HasBrowserCapability m)"
  using assms by (auto simp: version_rules_def Let_def HasBrowserCapability_def split: if_splits)

lemma allow_emails_SomeD:
  "allow_emails U acc vs = Some es \<Longrightarrow> distinct acc \<Longrightarrow>
    distinct es \<and> set es = set acc \<union> {e. \<exists>v \<in> set vs. Normalize U v = Inr e}"
proof (induction vs arbitrary: acc)
  case (Cons v vs)
  then obtain e where e: "Normalize U v = Inr e" "e \<notin> set acc" "allow_emails U (acc @ [e]) vs = Some es"
    by (auto split: sum.splits if_splits)
  from Cons.IH [OF e(3)] Cons.prems(2) e(1,2) show ?case by auto
qed simp

lemma allow_domains_SomeD:
  "allow_domains U acc vs = Some ds \<Longrightarrow> distinct acc \<Longrightarrow> list_all manifest_validDomain acc \<Longrightarrow>
    distinct ds \<and> list_all manifest_validDomain ds"
proof (induction vs arbitrary: acc)
  case (Cons v vs)
  let ?d = "ToLower U (TrimSpace v)"
  from Cons.prems(1) have d: "manifest_validDomain ?d" "?d \<notin> set acc" "allow_domains U (acc @ [?d]) vs = Some ds"
    by (auto simp: Let_def split: if_splits)
  from Cons.IH [OF d(3)] Cons.prems(2,3) d(1,2) show ?case by auto
qed simp

text \<open>Everything a parsed manifest passed, with the manifest before the version rules.\<close>

lemma ParseManifest_SomeE:
  assumes "ParseManifest U y d = Some m"
  obtains n raw desc m0 m1 es ds where
    "y_decode y d = Some n" "safe n" "y_at_end y d" "y_strict y d = Some raw"
    "NormalizeDescription (raw_Description raw) = Some desc"
    "m0 = raw_manifest U raw desc"
    "\<not> (IsAbs (mf_BuildOutput m0) \<or> path_Clean (mf_BuildOutput m0) \<noteq> mf_BuildOutput m0
       \<or> Contains (mf_BuildOutput m0) [CHR 0x5C] \<or> HasPrefix (mf_BuildOutput m0) ''../'')"
    "ValidSlug U (mf_Name m0)" "mf_Version m0 = 1 \<or> mf_Version m0 = 2"
    "version_rules (mappingField (Some n) ''tags'') (mappingField (mappingField (Some n) ''access'') ''indexing'')
       raw m0 = Some m1"
    "\<not> (mf_SPAFallback m1 \<noteq> [] \<and> (IsAbs (mf_SPAFallback m1) \<or> path_Clean (mf_SPAFallback m1) \<noteq> mf_SPAFallback m1
       \<or> Contains (mf_SPAFallback m1) [CHR 0x5C]))"
    "allow_emails U [] (raw_Emails raw) = Some es" "allow_domains U [] (raw_Domains raw) = Some ds"
    "m = m1\<lparr>mf_Emails := sort es, mf_Domains := sort ds\<rparr>"
  using assms unfolding ParseManifest_def Let_def guard_iffs not_not
  by (elim exE conjE) (rule that, assumption+, rule refl, blast+)

section \<open>Properties\<close>

text \<open>The deployment states form an acyclic machine: along every sequence of allowed transitions the
  states are all different, at most six transitions follow each other, and a terminal state allows none.\<close>

theorem transitions_acyclic:
  assumes "successively (\<lambda>a b. Transition a b = None) ss"
  shows "distinct ss \<and> length ss \<le> 7 \<and> list_all (\<lambda>s. \<not> Terminal s) (butlast ss)"
proof -
  have "sorted_wrt (\<lambda>a b. state_rank b < state_rank a) ss"
    using successively_mono [OF assms, of "\<lambda>a b. state_rank b < state_rank a"] Transition_rank
    by (simp add: successively_conv_sorted_wrt transp_def)
  then have "distinct (map state_rank ss)" by (induction ss) auto
  moreover have "set (map state_rank ss) \<subseteq> {..6}" using state_rank_le by auto
  ultimately have "length ss \<le> 7"
    using card_mono [of "{..6::nat}" "set (map state_rank ss)"] distinct_card [of "map state_rank ss"] by simp
  moreover have "list_all (\<lambda>s. \<not> Terminal s) (butlast ss)" using assms
    by (induction ss rule: induct_list012) (auto simp: Terminal_no_transition)
  ultimately show ?thesis using \<open>distinct (map state_rank ss)\<close> by (simp add: distinct_map)
qed

text \<open>A concrete instance.\<close>

theorem transitions_acyclic_witness:
  "distinct [Uploading, Uploaded, Validating, Staged, Verified, Active, Superseded] \<and> \<not> Terminal Active"
  using transitions_acyclic [of "[Uploading, Uploaded, Validating, Staged, Verified, Active, Superseded]"]
  by (simp add: Transition_def)

text \<open>C20. A manifest the parser accepts is one the store accepts: its version, name, description, access mode,
  indexing flag and tags satisfy the storage check, its allow-lists are sorted and free of duplicates, and
  the build output is a relative clean path that does not start with \<open>../\<close> (the parent directory itself is
  not excluded). The strict decoder yields tags only if the document has a tags field.\<close>

theorem parse_manifest_stored_valid:
  assumes "ParseManifest U y d = Some m"
    and "\<And>n raw. y_decode y d = Some n \<Longrightarrow> y_strict y d = Some raw \<Longrightarrow> mappingField (Some n) ''tags'' = None
      \<Longrightarrow> raw_Tags raw = []"
  shows "ValidStoredManifest U m \<and> sorted (mf_Emails m) \<and> distinct (mf_Emails m)
    \<and> sorted (mf_Domains m) \<and> distinct (mf_Domains m) \<and> list_all manifest_validDomain (mf_Domains m)
    \<and> path_Clean (mf_BuildOutput m) = mf_BuildOutput m \<and> \<not> IsAbs (mf_BuildOutput m)
    \<and> \<not> HasPrefix (mf_BuildOutput m) ''../''"
proof (rule ParseManifest_SomeE [OF assms(1)])
  fix n raw desc m0 m1 es ds
  assume dec: "y_decode y d = Some n" "y_strict y d = Some raw"
    and desc: "NormalizeDescription (raw_Description raw) = Some desc" and m0: "m0 = raw_manifest U raw desc"
    and build: "\<not> (IsAbs (mf_BuildOutput m0) \<or> path_Clean (mf_BuildOutput m0) \<noteq> mf_BuildOutput m0
       \<or> Contains (mf_BuildOutput m0) [CHR 0x5C] \<or> HasPrefix (mf_BuildOutput m0) ''../'')"
    and name: "ValidSlug U (mf_Name m0)" "mf_Version m0 = 1 \<or> mf_Version m0 = 2"
    and ver: "version_rules (mappingField (Some n) ''tags'')
       (mappingField (mappingField (Some n) ''access'') ''indexing'') raw m0 = Some m1"
    and al: "allow_emails U [] (raw_Emails raw) = Some es" "allow_domains U [] (raw_Domains raw) = Some ds"
    and m: "m = m1\<lparr>mf_Emails := sort es, mf_Domains := sort ds\<rparr>"
  have ix: "\<not> mf_Indexing m0" by (simp add: m0 raw_manifest_def)
  note v = version_rules_SomeD [OF ver name(2) ix]
  have tags: "mf_Version m0 = 1 \<Longrightarrow> mf_Tags m0 = []"
    using assms(2) [OF dec] v(2) by (simp add: m0 raw_manifest_def)
  have f: "mf_Version m = mf_Version m0" "mf_Name m = mf_Name m0" "mf_Description m = desc"
    "mf_AccessMode m = mf_AccessMode m0" "mf_Tags m = mf_Tags m1" "mf_Indexing m = mf_Indexing m1"
    "mf_BuildOutput m = mf_BuildOutput m0" "HasBrowserCapability m = HasBrowserCapability m0"
    unfolding m by (subst v(1); simp add: HasBrowserCapability_def m0 raw_manifest_def)+
  have "ValidStoredManifest U m"
  proof (cases "mf_Version m0 = 1")
    case True
    with v(2) tags ix name(1) NormalizeDescription_idem [OF desc] show ?thesis
      by (simp add: ValidStoredManifest_def f)
  next
    case False
    with v(3) name NormalizeDescription_idem [OF desc] show ?thesis
      by (auto simp: ValidStoredManifest_def f)
  qed
  moreover have "mf_Emails m = sort es" "mf_Domains m = sort ds" by (simp_all add: m)
  ultimately show ?thesis
    using build allow_emails_SomeD [OF al(1)] allow_domains_SomeD [OF al(2)]
    by (simp add: f list_all_iff)
qed

text \<open>A public version 2 document with one allow-listed address and domain.\<close>

abbreviation (input) scalar_node :: "string \<Rightarrow> yaml_node" where
  "scalar_node v \<equiv> YNode ScalarNode ''!!str'' v False []"

definition demo_manifest_node :: yaml_node where
  "demo_manifest_node = YNode DocumentNode [] [] False [YNode MappingNode ''!!map'' [] False
     [scalar_node ''version'', YNode ScalarNode ''!!int'' ''2'' False [],
      scalar_node ''name'', scalar_node ''demo'',
      scalar_node ''tags'', YNode SequenceNode ''!!seq'' [] False [scalar_node ''web'', scalar_node ''art''],
      scalar_node ''access'', YNode MappingNode ''!!map'' [] False
        [scalar_node ''mode'', scalar_node ''public'',
         scalar_node ''indexing'', YNode ScalarNode ''!!bool'' ''true'' False []]]]"

definition demo_raw_manifest :: rawManifest where
  "demo_raw_manifest = \<lparr>raw_Version = 2, raw_Name = ''Demo'', raw_Description = '' A demo '',
     raw_Tags = [''web'', ''art''], raw_BuildOutput = ''dist'', raw_Mode = ''public'', raw_Indexing = Some True,
     raw_Emails = [''B@x.org'', ''a@x.org''], raw_Domains = [''X.org''], raw_KV = False, raw_Blobs = False,
     raw_Realtime = False, raw_Fallback = ''index.html''\<rparr>"

definition demo_yaml :: Yaml where
  "demo_yaml = \<lparr>y_decode = (\<lambda>d. Some demo_manifest_node), y_at_end = (\<lambda>d. True),
     y_strict = (\<lambda>d. Some demo_raw_manifest), y_marshal = (\<lambda>r. None)\<rparr>"

lemma demo_manifest_parses:
  "map_option (\<lambda>m. (mf_Emails m, mf_Tags m, mf_Name m)) (ParseManifest (\<lambda>n. n) demo_yaml ''x'')
    = Some ([''B@x.org'', ''a@x.org''], [''art'', ''web''], ''demo'')"
  by code_simp

text \<open>A concrete instance.\<close>

theorem parse_manifest_stored_valid_witness:
  "\<exists>m. ParseManifest (\<lambda>n. n) demo_yaml ''x'' = Some m \<and> ValidStoredManifest (\<lambda>n. n) m \<and> mf_Tags m = [''art'', ''web'']"
proof -
  obtain m where m: "ParseManifest (\<lambda>n. n) demo_yaml ''x'' = Some m" "mf_Tags m = [''art'', ''web'']"
    using demo_manifest_parses by auto
  have "mappingField (Some demo_manifest_node) ''tags'' \<noteq> None" by code_simp
  then have tags: "raw_Tags raw = []" if "y_decode demo_yaml ''x'' = Some n" "y_strict demo_yaml ''x'' = Some raw" "mappingField (Some n) ''tags'' = None" for n raw
    using that by (simp add: demo_yaml_def)
  have "ValidStoredManifest (\<lambda>n. n) m"
    by (rule parse_manifest_stored_valid [OF m(1), THEN conjunct1]) (rule tags)
  with m show ?thesis by blast
qed

end
