(* ===== verification/Go_Files.thy ===== *)
theory Go_Files
  imports Go_Utf8
begin

text \<open>
  The file system as the source uses it. An absolute path in cleaned form is the list of its elements
  (the root directory is the empty list), so \<open>filepath.Join\<close>, \<open>filepath.Dir\<close> and \<open>filepath.Rel\<close> of
  absolute paths are functions on such lists. Nodes are directories, regular files and anything else
  (symbolic links, devices), with permission bits. Paths are physical: following a symbolic link is not modelled.
  A link is only seen where the code itself looks at it, by \<open>Lstat\<close> or by an exclusive creation, and refused
  there like the code does; where the system would follow a link to a directory on the way of a path, the model
  refuses it too, so a statement that depends on this assumes that no such node lies on the way. Every call that can fail for reasons outside the model
  counts in \<open>fs_calls\<close> and asks the parameter \<open>fault\<close> whether it does, so a theorem over all
  \<open>fault\<close> covers every combination of failures.
\<close>

section \<open>Paths\<close>

type_synonym fpath = "string list"

text \<open>\<open>filepath.Join(root, n)\<close> for an absolute \<open>root\<close>.\<close>

definition path_Join :: "fpath \<Rightarrow> string \<Rightarrow> fpath" where
  "path_Join root n = clean_elems True [] (root @ Split slash n)"

text \<open>\<open>filepath.Rel\<close> of two absolute paths: what remains after the common elements, behind one \<open>..\<close> for
  each element of the base that is left.\<close>

fun rel_elems :: "fpath \<Rightarrow> fpath \<Rightarrow> fpath" where
  "rel_elems (b # bs) (t # ts) =
     (if b = t then rel_elems bs ts else replicate (length (b # bs)) dotdot @ t # ts)"
| "rel_elems bs ts = replicate (length bs) dotdot @ ts"

definition path_Rel :: "fpath \<Rightarrow> fpath \<Rightarrow> string" where
  "path_Rel base targ = (let es = rel_elems base targ in if es = [] then ''.'' else Join slash es)"

lemma rel_elems_prefix: "rel_elems base (base @ ts) = ts"
  by (induction base) (cases ts, simp_all)

lemma rel_elems_cases: "(\<exists>ts. targ = base @ ts) \<or> (\<exists>es. rel_elems base targ = dotdot # es)"
proof (induction base arbitrary: targ)
  case (Cons b base)
  show ?case
  proof (cases targ)
    case (Cons t ts)
    with Cons.IH [of ts] show ?thesis by auto
  qed simp
qed simp

text \<open>A relative path that does not climb comes from a target below the base.\<close>

lemma path_Rel_inside:
  assumes "path_Rel base targ \<noteq> dotdot" "\<not> HasPrefix (path_Rel base targ) (dotdot @ [slash])"
  obtains ts where "targ = base @ ts"
proof -
  have False if "rel_elems base targ = dotdot # es" for es
    using assms that by (cases es) (auto simp: path_Rel_def HasPrefix_def)
  then show ?thesis using rel_elems_cases [of targ base] that by blast
qed

section \<open>Nodes and calls\<close>

text \<open>Permission bits, octal in the source.\<close>

abbreviation mode755 :: nat where "mode755 \<equiv> 493"
abbreviation mode644 :: nat where "mode644 \<equiv> 420"
abbreviation mode555 :: nat where "mode555 \<equiv> 365"
abbreviation mode444 :: nat where "mode444 \<equiv> 292"

datatype fnode = FDir nat | FFile nat string | FOther

record FS =
  fs_nodes :: "(fpath, fnode) gomap"
  fs_calls :: nat

definition fs_lookup :: "FS \<Rightarrow> fpath \<Rightarrow> fnode option" where
  "fs_lookup fs p = (if p = [] then Some (FDir mode755) else map_of (fs_nodes fs) p)"

definition fs_put :: "fpath \<Rightarrow> fnode \<Rightarrow> FS \<Rightarrow> FS" where
  "fs_put p n fs = fs\<lparr>fs_nodes := AList.update p n (fs_nodes fs)\<rparr>"

definition fs_tick :: "FS \<Rightarrow> FS" where
  "fs_tick fs = fs\<lparr>fs_calls := Suc (fs_calls fs)\<rparr>"

fun is_dir :: "fnode option \<Rightarrow> bool" where
  "is_dir (Some (FDir _)) = True" | "is_dir _ = False"

fun is_file :: "fnode option \<Rightarrow> bool" where
  "is_file (Some (FFile _ _)) = True" | "is_file _ = False"

datatype fs_error = FsNotExist | FsFault | FsRefused

text \<open>A call without an effect on the nodes: \<open>Sync\<close>, \<open>Close\<close>, opening a directory.\<close>

definition fs_touch :: "(nat \<Rightarrow> bool) \<Rightarrow> FS \<Rightarrow> FS \<times> fs_error option" where
  "fs_touch fault fs = (fs_tick fs, if fault (fs_calls fs) then Some FsFault else None)"

definition Lstat :: "(nat \<Rightarrow> bool) \<Rightarrow> FS \<Rightarrow> fpath \<Rightarrow> FS \<times> (fs_error + fnode)" where
  "Lstat fault fs p =
     (fs_tick fs,
      if fault (fs_calls fs) then Inl FsFault
      else case fs_lookup fs p of None \<Rightarrow> Inl FsNotExist | Some n \<Rightarrow> Inr n)"

text \<open>\<open>os.MkdirAll\<close>: the missing directories from the top down; a failure leaves the ones made so far. On a path
  with a link to a directory, which \<open>os.MkdirAll\<close> would follow, this is not its model: see \<open>no_links\<close>.\<close>

fun mkdir_all :: "(nat \<Rightarrow> bool) \<Rightarrow> nat \<Rightarrow> FS \<Rightarrow> fpath \<Rightarrow> fpath \<Rightarrow> FS \<times> fs_error option" where
  "mkdir_all fault mode fs d [] = (fs, None)"
| "mkdir_all fault mode fs d (e # es) =
     (case fs_lookup fs (d @ [e]) of
        Some (FDir m) \<Rightarrow> mkdir_all fault mode fs (d @ [e]) es
      | Some _ \<Rightarrow> (fs, Some FsRefused)
      | None \<Rightarrow>
          if fault (fs_calls fs) then (fs_tick fs, Some FsFault)
          else mkdir_all fault mode (fs_put (d @ [e]) (FDir mode) (fs_tick fs)) (d @ [e]) es)"

definition MkdirAll :: "(nat \<Rightarrow> bool) \<Rightarrow> FS \<Rightarrow> fpath \<Rightarrow> FS \<times> fs_error option" where
  "MkdirAll fault fs p = mkdir_all fault mode755 fs [] p"

text \<open>Only directories and regular files on the way to a directory and below it.\<close>

definition no_links :: "FS \<Rightarrow> fpath \<Rightarrow> bool" where
  "no_links fs dir \<longleftrightarrow> (\<forall>q. prefix q dir \<or> prefix dir q \<longrightarrow> fs_lookup fs q \<noteq> Some FOther)"

text \<open>\<open>os.OpenFile\<close> with \<open>O_CREATE|O_EXCL\<close>: the path must be free and its directory exist.\<close>

definition create_excl :: "(nat \<Rightarrow> bool) \<Rightarrow> FS \<Rightarrow> fpath \<Rightarrow> nat \<Rightarrow> FS \<times> fs_error option" where
  "create_excl fault fs p mode =
     (if fault (fs_calls fs) then (fs_tick fs, Some FsFault)
      else if fs_lookup fs p \<noteq> None \<or> \<not> is_dir (fs_lookup fs (butlast p)) then (fs_tick fs, Some FsRefused)
      else (fs_put p (FFile mode []) (fs_tick fs), None))"

text \<open>Writing to an open regular file appends.\<close>

definition append_file :: "(nat \<Rightarrow> bool) \<Rightarrow> FS \<Rightarrow> fpath \<Rightarrow> string \<Rightarrow> FS \<times> fs_error option" where
  "append_file fault fs p data =
     (if fault (fs_calls fs) then (fs_tick fs, Some FsFault)
      else case fs_lookup fs p of
          Some (FFile m c) \<Rightarrow> (fs_put p (FFile m (c @ data)) (fs_tick fs), None)
        | _ \<Rightarrow> (fs_tick fs, Some FsRefused))"

definition chmod_node :: "nat \<Rightarrow> fnode \<Rightarrow> fnode" where
  "chmod_node mode n = (case n of FDir _ \<Rightarrow> FDir mode | FFile _ c \<Rightarrow> FFile mode c | FOther \<Rightarrow> FOther)"

definition Chmod :: "(nat \<Rightarrow> bool) \<Rightarrow> FS \<Rightarrow> fpath \<Rightarrow> nat \<Rightarrow> FS \<times> fs_error option" where
  "Chmod fault fs p mode =
     (if fault (fs_calls fs) then (fs_tick fs, Some FsFault)
      else case fs_lookup fs p of
          None \<Rightarrow> (fs_tick fs, Some FsNotExist)
        | Some n \<Rightarrow> (fs_put p (chmod_node mode n) (fs_tick fs), None))"

text \<open>\<open>os.Rename\<close> of a directory: the new name must be free, with nothing below it, and its directory
  exist; the tree moves.\<close>

definition move_path :: "fpath \<Rightarrow> fpath \<Rightarrow> fpath \<Rightarrow> fpath" where
  "move_path src dst p = (if prefix src p then dst @ drop (length src) p else p)"

definition Rename :: "(nat \<Rightarrow> bool) \<Rightarrow> FS \<Rightarrow> fpath \<Rightarrow> fpath \<Rightarrow> FS \<times> fs_error option" where
  "Rename fault fs src dst =
     (if fault (fs_calls fs) then (fs_tick fs, Some FsFault)
      else if \<not> is_dir (fs_lookup fs src) then (fs_tick fs, Some FsNotExist)
      else if list_ex (prefix dst) (map fst (fs_nodes fs)) \<or> \<not> is_dir (fs_lookup fs (butlast dst)) \<or> prefix src dst
      then (fs_tick fs, Some FsRefused)
      else ((fs_tick fs)\<lparr>fs_nodes := map (\<lambda>(p, n). (move_path src dst p, n)) (fs_nodes fs)\<rparr>, None))"

definition RemoveAll :: "FS \<Rightarrow> fpath \<Rightarrow> FS" where
  "RemoveAll fs p = (fs_tick fs)\<lparr>fs_nodes := filter (\<lambda>(q, n). \<not> prefix p q) (fs_nodes fs)\<rparr>"

text \<open>\<open>filepath.WalkDir\<close> visits a directory before its children and the children by name, which is the
  lexicographic order of the element lists relative to the root of the walk (\<open>[]\<close> the root itself).\<close>

definition walk_order :: "FS \<Rightarrow> fpath \<Rightarrow> fpath list" where
  "walk_order fs root = sort (map (drop (length root)) (filter (prefix root) (map fst (fs_nodes fs))))"

section \<open>Facts\<close>

abbreviation fs_wf :: "FS \<Rightarrow> bool" where
  "fs_wf fs \<equiv> gm_wf (fs_nodes fs)"

lemma fs_lookup_put [gomap_simps, simp]:
  "fs_lookup (fs_put p n fs) q = (if q = [] then Some (FDir mode755) else if q = p then Some n else fs_lookup fs q)"
  by (auto simp: fs_lookup_def fs_put_def gomap_simps)

lemma fs_lookup_root [simp]: "fs_lookup fs [] = Some (FDir mode755)"
  by (simp add: fs_lookup_def)

lemma fs_lookup_tick [simp]: "fs_lookup (fs_tick fs) = fs_lookup fs"
  by (auto simp: fs_lookup_def fs_tick_def)

lemma fs_nodes_tick [simp]: "fs_nodes (fs_tick fs) = fs_nodes fs"
  by (simp add: fs_tick_def)

lemma fs_wf_put [simp]: "fs_wf fs \<Longrightarrow> fs_wf (fs_put p n fs)"
  by (simp add: fs_put_def)

text \<open>Changes confined to a set of paths, all of them new.\<close>

definition fs_grows :: "(fpath \<Rightarrow> bool) \<Rightarrow> FS \<Rightarrow> FS \<Rightarrow> bool" where
  "fs_grows P fs fs' \<longleftrightarrow> (\<forall>p. fs_lookup fs' p \<noteq> fs_lookup fs p \<longrightarrow>
     P p \<and> fs_lookup fs p = None \<and> fs_lookup fs' p \<noteq> Some FOther)"

lemma fs_grows_refl [simp]: "fs_grows P fs fs"
  by (simp add: fs_grows_def)

lemma fs_grows_tick [simp]: "fs_grows P fs (fs_tick fs)"
  by (simp add: fs_grows_def)

lemma fs_grows_trans: "fs_grows P a b \<Longrightarrow> fs_grows P b c \<Longrightarrow> fs_grows P a c"
  unfolding fs_grows_def by metis

lemma fs_grows_put: "fs_lookup fs p = None \<Longrightarrow> P p \<Longrightarrow> n \<noteq> FOther \<Longrightarrow> fs_grows P fs (fs_put p n fs)"
  by (simp add: fs_grows_def)

lemma fs_grows_mono: "fs_grows P a b \<Longrightarrow> (\<And>p. P p \<Longrightarrow> Q p) \<Longrightarrow> fs_grows Q a b"
  by (auto simp: fs_grows_def)

lemma fs_grows_keeps: "fs_grows P a b \<Longrightarrow> fs_lookup a p = Some n \<Longrightarrow> fs_lookup b p = Some n"
  unfolding fs_grows_def by (metis option.distinct(1))

lemma fs_grows_no_links: "fs_grows P a b \<Longrightarrow> no_links a dir \<Longrightarrow> no_links b dir"
  unfolding fs_grows_def no_links_def by metis

text \<open>The regular files; adding one at a free path appends it.\<close>

definition file_nodes :: "FS \<Rightarrow> (fpath \<times> fnode) list" where
  "file_nodes fs = filter (\<lambda>x. is_file (Some (snd x))) (fs_nodes fs)"

lemma update_absent: "k \<notin> gm_keys m \<Longrightarrow> AList.update k v m = m @ [(k, v)]"
  by (induction m) auto

lemma update_last: "k \<notin> gm_keys m \<Longrightarrow> AList.update k v (m @ [(k, w)]) = m @ [(k, v)]"
  by (induction m) auto

lemma fs_put_absent: "fs_lookup fs p = None \<Longrightarrow> fs_nodes (fs_put p n fs) = fs_nodes fs @ [(p, n)]"
  by (simp add: fs_put_def fs_lookup_def map_of_eq_None_iff update_absent split: if_splits)

lemma file_nodes_tick [simp]: "file_nodes (fs_tick fs) = file_nodes fs"
  by (simp add: file_nodes_def)

text \<open>\<open>MkdirAll\<close> adds directories only, and only on the way to its argument.\<close>

lemma mkdir_all_grows:
  "mkdir_all fault mode fs d es = (fs', r) \<Longrightarrow>
    fs_grows (\<lambda>p. strict_prefix d p \<and> prefix p (d @ es)) fs fs' \<and> (fs_wf fs \<longrightarrow> fs_wf fs')
    \<and> file_nodes fs' = file_nodes fs
    \<and> (\<exists>ds. fs_nodes fs' = fs_nodes fs @ ds \<and> list_all (\<lambda>x. prefix (fst x) (d @ es)) ds)
    \<and> (r = None \<longrightarrow> is_dir (fs_lookup fs d) \<longrightarrow> is_dir (fs_lookup fs' (d @ es)))"
proof (induction fault mode fs d es rule: mkdir_all.induct)
  case (2 fault mode fs d e es)
  let ?p = "d @ [e]"
  have mono: "fs_grows (\<lambda>p. strict_prefix ?p p \<and> prefix p (?p @ es)) x y \<Longrightarrow>
      fs_grows (\<lambda>p. strict_prefix d p \<and> prefix p (d @ e # es)) x y" for x y
    by (erule fs_grows_mono) (auto simp: strict_prefix_def prefix_def)
  consider m where "fs_lookup fs ?p = Some (FDir m)"
    | n where "fs_lookup fs ?p = Some n" "\<And>m. n \<noteq> FDir m"
    | "fs_lookup fs ?p = None" "fault (fs_calls fs)" | "fs_lookup fs ?p = None" "\<not> fault (fs_calls fs)"
  proof (cases "fs_lookup fs ?p")
    case (Some n)
    then show ?thesis using that(1,2) by (cases n) simp_all
  qed (use that(3,4) in blast)
  then show ?case
  proof cases
    case 1
    with "2.IH"(2) [OF 1 refl] "2.prems" mono show ?thesis by auto
  next
    case (2 n)
    with "2.prems" show ?thesis by (cases n) auto
  next
    case 3
    with "2.prems" show ?thesis by auto
  next
    case 4
    let ?fs = "fs_put ?p (FDir mode) (fs_tick fs)"
    from 4 "2.prems" have "mkdir_all fault mode ?fs ?p es = (fs', r)" by simp
    from "2.IH"(1) [OF 4 this] have g: "fs_grows (\<lambda>p. strict_prefix d p \<and> prefix p (d @ e # es)) ?fs fs'"
      and w: "fs_wf ?fs \<longrightarrow> fs_wf fs'" and f: "file_nodes fs' = file_nodes ?fs"
      and ds: "\<exists>ds. fs_nodes fs' = fs_nodes ?fs @ ds \<and> list_all (\<lambda>x. prefix (fst x) (?p @ es)) ds"
      and dd: "r = None \<longrightarrow> is_dir (fs_lookup ?fs ?p) \<longrightarrow> is_dir (fs_lookup fs' (?p @ es))" using mono by blast+
    have w': "fs_wf fs \<longrightarrow> fs_wf fs'" using w by simp
    have "fs_grows (\<lambda>p. strict_prefix d p \<and> prefix p (d @ e # es)) fs ?fs"
      by (rule fs_grows_trans [OF fs_grows_tick fs_grows_put]) (use 4(1) in \<open>auto simp: strict_prefix_def prefix_def\<close>)
    with g have "fs_grows (\<lambda>p. strict_prefix d p \<and> prefix p (d @ e # es)) fs fs'" by (blast intro: fs_grows_trans)
    moreover have put: "fs_nodes ?fs = fs_nodes fs @ [(?p, FDir mode)]"
      using 4(1) fs_put_absent [of "fs_tick fs" ?p "FDir mode"] by simp
    moreover from ds have "\<exists>ds. fs_nodes fs' = fs_nodes fs @ ds \<and> list_all (\<lambda>x. prefix (fst x) (d @ e # es)) ds"
      by (auto simp: put)
    moreover have "file_nodes ?fs = file_nodes fs"
      using 4(1) fs_put_absent [of "fs_tick fs" ?p "FDir mode"] by (simp add: file_nodes_def)
    ultimately show ?thesis using w' f dd by simp
  qed
qed auto

end
