(* ===== verification/Release_Files.thy ===== *)
theory Release_Files
  imports Static_Runtime Go_Files Go_Net
begin

text \<open>
  Immutable releases on disk, \<open>internal/releases/filesystem.go\<close>: hashing a release tree and publishing a
  staged one under its digest. SHA-256 is the parameter \<open>sha\<close>; \<open>race\<close> is what other processes do to the
  file system between the inspection of the destination and the rename.
\<close>

section \<open>Inspection\<close>

datatype rfs_error = RfsNotExist | ErrReleaseFS | RfsIO

fun rfs_of :: "fs_error \<Rightarrow> rfs_error" where
  "rfs_of FsNotExist = RfsNotExist" | "rfs_of FsFault = RfsIO" | "rfs_of FsRefused = RfsIO"

text \<open>One visit of the walk below the root: \<open>Inl\<close> an error, \<open>None\<close> a directory.\<close>

definition visit_file :: "(string \<Rightarrow> nat list) \<Rightarrow> (nat \<Rightarrow> bool) \<Rightarrow> FS \<Rightarrow> fpath \<Rightarrow> fpath \<Rightarrow> FS \<times> (rfs_error + File option)" where
  "visit_file sha fault fs root q =
     (case Lstat fault fs (root @ q) of
        (fs1, Inl e) \<Rightarrow> (fs1, Inl (rfs_of e))
      | (fs1, Inr FOther) \<Rightarrow> (fs1, Inl ErrReleaseFS)
      | (fs1, Inr (FDir m)) \<Rightarrow> (fs1, Inr None)
      | (fs1, Inr (FFile m c)) \<Rightarrow>
          let rel = path_Rel root (root @ q) in
          if rel = ''.'' \<or> HasPrefix rel ''..'' \<or> Contains rel [CHR 0x5C] then (fs1, Inl ErrReleaseFS)
          else (case fs_touch fault fs1 of
                  (fs2, Some e) \<Rightarrow> (fs2, Inl (rfs_of e))
                | (fs2, None) \<Rightarrow>
                    (fs2, Inr (Some \<lparr>file_Path = rel, file_Hash = hex_encode (sha c), file_Size = int (length c)\<rparr>))))"

fun walk_files :: "(string \<Rightarrow> nat list) \<Rightarrow> (nat \<Rightarrow> bool) \<Rightarrow> FS \<Rightarrow> fpath \<Rightarrow> fpath list \<Rightarrow> FS \<times> (rfs_error + File list)" where
  "walk_files sha fault fs root [] = (fs, Inr [])"
| "walk_files sha fault fs root (q # qs) =
     (if q = [] then walk_files sha fault fs root qs
      else case visit_file sha fault fs root q of
          (fs1, Inl e) \<Rightarrow> (fs1, Inl e)
        | (fs1, Inr f) \<Rightarrow>
            (case walk_files sha fault fs1 root qs of
               (fs2, Inl e) \<Rightarrow> (fs2, Inl e)
             | (fs2, Inr fl) \<Rightarrow> (fs2, Inr (case f of None \<Rightarrow> fl | Some x \<Rightarrow> x # fl))))"

definition manifest_line :: "File \<Rightarrow> string" where
  "manifest_line f = file_Path f @ CHR 0x00 # file_Hash f @ CHR 0x00 # format_int (file_Size f) @ [CHR 0x00]"

definition file_manifest :: "(string \<Rightarrow> nat list) \<Rightarrow> File list \<Rightarrow> FileManifest" where
  "file_manifest sha fl =
     (let files = sort_key file_Path fl
      in \<lparr>fm_Files = files, fm_Hash = hex_encode (sha (concat (map manifest_line files)))\<rparr>)"

definition Inspect :: "(string \<Rightarrow> nat list) \<Rightarrow> (nat \<Rightarrow> bool) \<Rightarrow> FS \<Rightarrow> fpath \<Rightarrow> FS \<times> (rfs_error + FileManifest)" where
  "Inspect sha fault fs staging =
     (case Lstat fault fs staging of
        (fs1, Inl e) \<Rightarrow> (fs1, Inl (rfs_of e))
      | (fs1, Inr n) \<Rightarrow>
          if \<not> is_dir (Some n) then (fs1, Inl ErrReleaseFS)
          else (case walk_files sha fault fs1 staging (walk_order fs1 staging) of
                  (fs2, Inl e) \<Rightarrow> (fs2, Inl e)
                | (fs2, Inr fl) \<Rightarrow> (fs2, Inr (file_manifest sha fl))))"

section \<open>Sealing and publishing\<close>

fun seal_walk :: "(nat \<Rightarrow> bool) \<Rightarrow> FS \<Rightarrow> fpath \<Rightarrow> fpath list \<Rightarrow> FS \<times> rfs_error option" where
  "seal_walk fault fs root [] = (fs, None)"
| "seal_walk fault fs root (q # qs) =
     (case Lstat fault fs (root @ q) of
        (fs1, Inl e) \<Rightarrow> (fs1, Some (rfs_of e))
      | (fs1, Inr FOther) \<Rightarrow> (fs1, Some ErrReleaseFS)
      | (fs1, Inr (FDir m)) \<Rightarrow>
          if q = [] then seal_walk fault fs1 root qs
          else (case Chmod fault fs1 (root @ q) mode555 of
                  (fs2, Some e) \<Rightarrow> (fs2, Some (rfs_of e))
                | (fs2, None) \<Rightarrow> seal_walk fault fs2 root qs)
      | (fs1, Inr (FFile m c)) \<Rightarrow>
          (case Chmod fault fs1 (root @ q) mode444 of
             (fs2, Some e) \<Rightarrow> (fs2, Some (rfs_of e))
           | (fs2, None) \<Rightarrow> seal_walk fault fs2 root qs))"

text \<open>\<open>syncTree\<close>: files while walking, then the directories; it changes no node.\<close>

fun touch_times :: "(nat \<Rightarrow> bool) \<Rightarrow> nat \<Rightarrow> FS \<Rightarrow> FS \<times> rfs_error option" where
  "touch_times fault 0 fs = (fs, None)"
| "touch_times fault (Suc n) fs =
     (case fs_touch fault fs of (fs1, Some e) \<Rightarrow> (fs1, Some (rfs_of e)) | (fs1, None) \<Rightarrow> touch_times fault n fs1)"

fun sync_walk :: "(nat \<Rightarrow> bool) \<Rightarrow> FS \<Rightarrow> fpath \<Rightarrow> nat \<Rightarrow> fpath list \<Rightarrow> FS \<times> rfs_error option" where
  "sync_walk fault fs root dirs [] = touch_times fault dirs fs"
| "sync_walk fault fs root dirs (q # qs) =
     (case Lstat fault fs (root @ q) of
        (fs1, Inl e) \<Rightarrow> (fs1, Some (rfs_of e))
      | (fs1, Inr FOther) \<Rightarrow> (fs1, Some ErrReleaseFS)
      | (fs1, Inr (FDir m)) \<Rightarrow> sync_walk fault fs1 root (Suc dirs) qs
      | (fs1, Inr (FFile m c)) \<Rightarrow>
          (case fs_touch fault fs1 of
             (fs2, Some e) \<Rightarrow> (fs2, Some (rfs_of e))
           | (fs2, None) \<Rightarrow> sync_walk fault fs2 root dirs qs))"

definition sealAndSyncTree :: "(nat \<Rightarrow> bool) \<Rightarrow> FS \<Rightarrow> fpath \<Rightarrow> FS \<times> rfs_error option" where
  "sealAndSyncTree fault fs root =
     (case seal_walk fault fs root (walk_order fs root) of
        (fs1, Some e) \<Rightarrow> (fs1, Some e)
      | (fs1, None) \<Rightarrow> sync_walk fault fs1 root 0 (walk_order fs1 root))"

text \<open>After the rename: the root of the release is sealed and the directories are synced.\<close>

definition seal_root :: "(nat \<Rightarrow> bool) \<Rightarrow> FS \<Rightarrow> fpath \<Rightarrow> FS \<times> rfs_error option" where
  "seal_root fault fs dest =
     (case Chmod fault fs dest mode555 of
        (fs1, Some e) \<Rightarrow> (fs1, Some (rfs_of e))
      | (fs1, None) \<Rightarrow> touch_times fault 2 fs1)"

text \<open>Making the candidate complete before it becomes visible.\<close>

definition prepare :: "(nat \<Rightarrow> bool) \<Rightarrow> FS \<Rightarrow> fpath \<Rightarrow> fpath \<Rightarrow> FS \<times> rfs_error option" where
  "prepare fault fs staging parent =
     (case sealAndSyncTree fault fs staging of
        (fs1, Some e) \<Rightarrow> (fs1, Some e)
      | (fs1, None) \<Rightarrow>
          (case MkdirAll fault fs1 parent of
             (fs2, Some e) \<Rightarrow> (fs2, Some (rfs_of e))
           | (fs2, None) \<Rightarrow> touch_times fault 1 fs2))"

definition install :: "(string \<Rightarrow> nat list) \<Rightarrow> (nat \<Rightarrow> bool) \<Rightarrow> FS \<Rightarrow> fpath \<Rightarrow> fpath \<Rightarrow> FileManifest
      \<Rightarrow> FS \<times> (rfs_error + fpath \<times> FileManifest)" where
  "install sha fault fs staging dest m =
     (case Rename fault fs staging dest of
        (fs1, Some e) \<Rightarrow>
          (case Inspect sha fault fs1 dest of
             (fs2, Inr existing) \<Rightarrow>
               if FileManifestEqual m existing then (fs2, Inr (dest, m)) else (fs2, Inl (rfs_of e))
           | (fs2, Inl _) \<Rightarrow> (fs2, Inl (rfs_of e)))
      | (fs1, None) \<Rightarrow>
          (case seal_root fault fs1 dest of
             (fs2, Some e) \<Rightarrow> (fs2, Inl e)
           | (fs2, None) \<Rightarrow> (fs2, Inr (dest, m))))"

definition release_dir :: "fpath \<Rightarrow> string \<Rightarrow> string \<Rightarrow> fpath" where
  "release_dir dataRoot appID h = dataRoot @ [''releases'', appID, h]"

definition Finalize :: "(string \<Rightarrow> nat list) \<Rightarrow> (nat \<Rightarrow> bool) \<Rightarrow> (FS \<Rightarrow> FS) \<Rightarrow> FS \<Rightarrow> fpath \<Rightarrow> string \<Rightarrow> fpath
      \<Rightarrow> FS \<times> (rfs_error + fpath \<times> FileManifest)" where
  "Finalize sha fault race fs dataRoot appID staging =
     (case Inspect sha fault fs staging of
        (fs1, Inl e) \<Rightarrow> (fs1, Inl e)
      | (fs1, Inr m) \<Rightarrow>
          if \<not> ValidReleaseID appID then (fs1, Inl ErrReleaseFS)
          else
            let dest = release_dir dataRoot appID (fm_Hash m) in
            (case Inspect sha fault fs1 dest of
               (fs2, Inr existing) \<Rightarrow>
                 if \<not> FileManifestEqual m existing then (fs2, Inl ErrReleaseFS) else (fs2, Inr (dest, m))
             | (fs2, Inl RfsNotExist) \<Rightarrow>
                 (case prepare fault fs2 staging (butlast dest) of
                    (fs3, Some e) \<Rightarrow> (fs3, Inl e)
                  | (fs3, None) \<Rightarrow> install sha fault (race fs3) staging dest m)
             | (fs2, Inl e) \<Rightarrow> (fs2, Inl e)))"

section \<open>What a tree holds\<close>

definition spec_file :: "(string \<Rightarrow> nat list) \<Rightarrow> FS \<Rightarrow> fpath \<Rightarrow> fpath \<Rightarrow> File list" where
  "spec_file sha fs root q =
     (case fs_lookup fs (root @ q) of
        Some (FFile m c) \<Rightarrow>
          if q = [] then [] else [\<lparr>file_Path = Join slash q, file_Hash = hex_encode (sha c), file_Size = int (length c)\<rparr>]
      | _ \<Rightarrow> [])"

definition release_manifest :: "(string \<Rightarrow> nat list) \<Rightarrow> FS \<Rightarrow> fpath \<Rightarrow> FileManifest" where
  "release_manifest sha fs root = file_manifest sha (concat (map (spec_file sha fs root) (walk_order fs root)))"

lemma fs_touch_nodes: "fs_touch fault fs = (fs', r) \<Longrightarrow> fs_nodes fs' = fs_nodes fs"
  by (auto simp: fs_touch_def)

lemma Lstat_nodes: "Lstat fault fs p = (fs', r) \<Longrightarrow> fs_nodes fs' = fs_nodes fs"
  by (auto simp: Lstat_def)

lemma Lstat_InrD: "Lstat fault fs p = (fs', Inr n) \<Longrightarrow> fs_lookup fs p = Some n"
  by (auto simp: Lstat_def split: if_splits option.splits)

lemma fs_lookup_cong: "fs_nodes fs' = fs_nodes fs \<Longrightarrow> fs_lookup fs' = fs_lookup fs"
  by (auto simp: fs_lookup_def)

lemma spec_file_cong: "fs_nodes fs' = fs_nodes fs \<Longrightarrow> spec_file sha fs' root = spec_file sha fs root"
  by (auto simp: spec_file_def fs_lookup_cong [of fs' fs])

lemma visit_file_spec:
  assumes "visit_file sha fault fs root q = (fs', r)" "q \<noteq> []"
  shows "fs_nodes fs' = fs_nodes fs \<and> (\<forall>f. r = Inr f \<longrightarrow> spec_file sha fs root q = (case f of None \<Rightarrow> [] | Some x \<Rightarrow> [x]))"
proof (cases "Lstat fault fs (root @ q)")
  case (Pair fs1 s)
  note l = Lstat_nodes [OF Pair]
  have rel: "path_Rel root (root @ q) = Join slash q" using assms(2) by (simp add: path_Rel_def rel_elems_prefix)
  show ?thesis
  proof (cases s)
    case (Inl e)
    with assms Pair l show ?thesis by (auto simp: visit_file_def)
  next
    case (Inr n)
    with Pair have n: "fs_lookup fs (root @ q) = Some n" by (simp add: Lstat_InrD)
    obtain fs2 t where t: "fs_touch fault fs1 = (fs2, t)" by fastforce
    with l have "fs_nodes fs2 = fs_nodes fs" using fs_touch_nodes by metis
    with assms Pair Inr n l t show ?thesis
      by (cases n; cases t) (auto simp: visit_file_def spec_file_def rel Let_def split: if_splits)
  qed
qed

lemma walk_files_spec:
  "walk_files sha fault fs root qs = (fs', r) \<Longrightarrow>
    fs_nodes fs' = fs_nodes fs \<and> (\<forall>fl. r = Inr fl \<longrightarrow> fl = concat (map (spec_file sha fs root) qs))"
proof (induction qs arbitrary: fs fs' r)
  case (Cons q qs)
  show ?case
  proof (cases "q = []")
    case True
    have "is_dir (fs_lookup fs root) \<or> spec_file sha fs root [] = []" by (auto simp: spec_file_def split: option.splits fnode.splits)
    then have "spec_file sha fs root [] = []" by (auto simp: spec_file_def split: option.splits fnode.splits)
    with True Cons show ?thesis by simp
  next
    case False
    obtain fs1 s where v: "visit_file sha fault fs root q = (fs1, s)" by fastforce
    note vs = visit_file_spec [OF v False]
    show ?thesis
    proof (cases s)
      case (Inl e)
      with v vs Cons.prems False show ?thesis by auto
    next
      case (Inr f)
      obtain fs2 w where w: "walk_files sha fault fs1 root qs = (fs2, w)" by fastforce
      from Cons.IH [OF w] vs have "fs_nodes fs2 = fs_nodes fs"
        "\<And>fl. w = Inr fl \<Longrightarrow> fl = concat (map (spec_file sha fs root) qs)"
        by (simp_all add: spec_file_cong [of fs1 fs])
      with v w vs Inr Cons.prems False show ?thesis by (cases w; cases f) auto
    qed
  qed
qed simp

text \<open>A tree the inspection accepts: directories and regular files with acceptable names only.\<close>

definition good_node :: "fpath \<Rightarrow> fnode option \<Rightarrow> bool" where
  "good_node q n = (case n of
       Some (FDir m) \<Rightarrow> True
     | Some (FFile m c) \<Rightarrow> q = [] \<or> \<not> (HasPrefix (Join slash q) ''..'' \<or> Join slash q = ''.'' \<or> Contains (Join slash q) [CHR 0x5C])
     | _ \<Rightarrow> q = [])"

definition tree_ok :: "FS \<Rightarrow> fpath \<Rightarrow> bool" where
  "tree_ok fs root \<longleftrightarrow> is_dir (fs_lookup fs root) \<and> list_all (\<lambda>q. good_node q (fs_lookup fs (root @ q))) (walk_order fs root)"

lemma visit_file_good:
  assumes "visit_file sha fault fs root q = (fs', r)" "q \<noteq> []"
  shows "(\<forall>f. r = Inr f \<longrightarrow> good_node q (fs_lookup fs (root @ q)))
    \<and> (fault = (\<lambda>n. False) \<longrightarrow> good_node q (fs_lookup fs (root @ q)) \<longrightarrow> (\<exists>f. r = Inr f))"
proof -
  have rel: "path_Rel root (root @ q) = Join slash q" using assms(2) by (simp add: path_Rel_def rel_elems_prefix)
  show ?thesis
  proof (cases "fs_lookup fs (root @ q)")
    case None
    with assms show ?thesis by (auto simp: visit_file_def Lstat_def good_node_def split: if_splits)
  next
    case (Some n)
    with assms rel show ?thesis
      by (cases n) (auto simp: visit_file_def Lstat_def good_node_def fs_touch_def Let_def split: if_splits)
  qed
qed

lemma walk_files_good:
  "walk_files sha fault fs root qs = (fs', r) \<Longrightarrow>
    (\<forall>fl. r = Inr fl \<longrightarrow> list_all (\<lambda>q. q \<noteq> [] \<longrightarrow> good_node q (fs_lookup fs (root @ q))) qs)
    \<and> (fault = (\<lambda>n. False) \<longrightarrow> list_all (\<lambda>q. q \<noteq> [] \<longrightarrow> good_node q (fs_lookup fs (root @ q))) qs \<longrightarrow> (\<exists>fl. r = Inr fl))"
proof (induction qs arbitrary: fs fs' r)
  case (Cons q qs)
  show ?case
  proof (cases "q = []")
    case True
    with Cons.prems have "walk_files sha fault fs root qs = (fs', r)" by simp
    from Cons.IH [OF this] True show ?thesis unfolding list.pred_inject by blast
  next
    case False
    obtain fs1 s where v: "visit_file sha fault fs root q = (fs1, s)" by fastforce
    note vg = visit_file_good [OF v False] and vn = visit_file_spec [OF v False, THEN conjunct1]
    show ?thesis
    proof (cases s)
      case (Inl e)
      with v vg Cons.prems False show ?thesis by auto
    next
      case (Inr f)
      obtain fs2 w where w: "walk_files sha fault fs1 root qs = (fs2, w)" by fastforce
      from Cons.IH [OF w] have "(\<forall>fl. w = Inr fl \<longrightarrow> list_all (\<lambda>q. q \<noteq> [] \<longrightarrow> good_node q (fs_lookup fs (root @ q))) qs)
        \<and> (fault = (\<lambda>n. False) \<longrightarrow> list_all (\<lambda>q. q \<noteq> [] \<longrightarrow> good_node q (fs_lookup fs (root @ q))) qs \<longrightarrow> (\<exists>fl. w = Inr fl))"
        by (simp add: fs_lookup_cong [OF vn])
      moreover from vg Inr have "good_node q (fs_lookup fs (root @ q))" by blast
      ultimately show ?thesis using v w Inr Cons.prems False by (cases w) auto
    qed
  qed
qed simp

lemma walk_order_cong: "map fst (fs_nodes fs') = map fst (fs_nodes fs) \<Longrightarrow> walk_order fs' root = walk_order fs root"
  by (simp add: walk_order_def)

lemma Inspect_spec:
  assumes "Inspect sha fault fs root = (fs', r)"
  shows "fs_nodes fs' = fs_nodes fs \<and> (\<forall>m. r = Inr m \<longrightarrow> m = release_manifest sha fs root \<and> is_dir (fs_lookup fs root))"
proof (cases "Lstat fault fs root")
  case (Pair fs1 s)
  note l = Lstat_nodes [OF Pair]
  show ?thesis
  proof (cases s)
    case (Inl e)
    with assms Pair l show ?thesis by (auto simp: Inspect_def)
  next
    case (Inr n)
    obtain fs2 w where w: "walk_files sha fault fs1 root (walk_order fs1 root) = (fs2, w)" by fastforce
    from walk_files_spec [OF w] l have "fs_nodes fs2 = fs_nodes fs"
      "\<And>fl. w = Inr fl \<Longrightarrow> fl = concat (map (spec_file sha fs root) (walk_order fs root))"
      by (simp_all add: spec_file_cong [of fs1 fs] walk_order_cong [of fs1 fs])
    with assms Pair Inr w l Lstat_InrD [of fault fs root fs1 n] show ?thesis
      by (cases w) (auto simp: Inspect_def release_manifest_def split: if_splits)
  qed
qed

lemma Inspect_good:
  assumes "Inspect sha fault fs root = (fs', r)"
  shows "(\<forall>m. r = Inr m \<longrightarrow> tree_ok fs root) \<and> (fault = (\<lambda>n. False) \<longrightarrow> tree_ok fs root \<longrightarrow> r = Inr (release_manifest sha fs root))"
proof (cases "Lstat fault fs root")
  case (Pair fs1 s)
  note l = Lstat_nodes [OF Pair]
  show ?thesis
  proof (cases s)
    case (Inl e)
    with assms Pair show ?thesis by (auto simp: Inspect_def Lstat_def tree_ok_def split: if_splits option.splits)
  next
    case (Inr n)
    with Pair have n: "fs_lookup fs root = Some n" by (simp add: Lstat_InrD)
    obtain fs2 w where w: "walk_files sha fault fs1 root (walk_order fs1 root) = (fs2, w)" by fastforce
    have ne: "list_all (\<lambda>q. q \<noteq> [] \<longrightarrow> good_node q (fs_lookup fs (root @ q))) qs = list_all (\<lambda>q. good_node q (fs_lookup fs (root @ q))) qs"
      if "is_dir (Some n)" for qs
      using that n by (induction qs) (auto simp: good_node_def split: fnode.splits option.splits)
    from walk_files_good [OF w] have "(\<forall>fl. w = Inr fl \<longrightarrow> is_dir (Some n) \<longrightarrow> tree_ok fs root) \<and> (fault = (\<lambda>n. False) \<longrightarrow> tree_ok fs root \<longrightarrow> (\<exists>fl. w = Inr fl))"
      unfolding fs_lookup_cong [OF l] walk_order_cong [of fs1 fs, OF arg_cong [OF l]] tree_ok_def n using ne by auto
    moreover from Inspect_spec [OF assms] have "\<forall>m. r = Inr m \<longrightarrow> m = release_manifest sha fs root" by blast
    ultimately show ?thesis using assms Pair Inr w n
      by (cases w) (auto simp: Inspect_def tree_ok_def split: if_splits)
  qed
qed

section \<open>Changing permissions only\<close>

text \<open>The same tree up to permission bits, which change only below \<open>root\<close> and only to the sealed ones.\<close>

definition sealed :: "fnode option \<Rightarrow> bool" where
  "sealed n = (case n of Some (FDir m) \<Rightarrow> m = mode555 | Some (FFile m c) \<Rightarrow> m = mode444 | _ \<Rightarrow> True)"

definition shape :: "fnode option \<Rightarrow> fnode option" where
  "shape n = map_option (chmod_node 0) n"

definition seal_change :: "bool \<Rightarrow> fnode option \<Rightarrow> fnode option \<Rightarrow> bool" where
  "seal_change inside n n' \<longleftrightarrow> n' = n \<or> inside \<and> sealed n' \<and> shape n' = shape n"

definition chmods :: "fpath \<Rightarrow> FS \<Rightarrow> FS \<Rightarrow> bool" where
  "chmods root fs fs' \<longleftrightarrow> map fst (fs_nodes fs') = map fst (fs_nodes fs)
     \<and> (\<forall>p. seal_change (prefix root p) (fs_lookup fs p) (fs_lookup fs' p))"

lemma seal_change_trans: "seal_change i a b \<Longrightarrow> seal_change i b c \<Longrightarrow> seal_change i a c"
  by (auto simp: seal_change_def)

lemma chmodsD: "chmods root a b \<Longrightarrow> seal_change (prefix root p) (fs_lookup a p) (fs_lookup b p)"
  by (simp add: chmods_def)

lemma chmods_nodes: "fs_nodes fs' = fs_nodes fs \<Longrightarrow> chmods root fs fs'"
  using fs_lookup_cong [of fs' fs] by (simp add: chmods_def seal_change_def)

lemma chmods_trans: "chmods root a b \<Longrightarrow> chmods root b c \<Longrightarrow> chmods root a c"
proof -
  assume ab: "chmods root a b" and bc: "chmods root b c"
  have "seal_change (prefix root p) (fs_lookup a p) (fs_lookup c p)" for p
    by (rule seal_change_trans [OF chmodsD [OF ab] chmodsD [OF bc]])
  moreover have "map fst (fs_nodes c) = map fst (fs_nodes a)" using ab bc unfolding chmods_def by argo
  ultimately show ?thesis unfolding chmods_def by blast
qed

lemma chmods_sealed: "chmods root a b \<Longrightarrow> sealed (fs_lookup a p) \<Longrightarrow> sealed (fs_lookup b p)"
  by (drule chmodsD [of _ _ _ p]) (auto simp: seal_change_def)

lemma chmods_outside: "chmods root a b \<Longrightarrow> \<not> prefix root p \<Longrightarrow> fs_lookup b p = fs_lookup a p"
  by (drule chmodsD [of _ _ _ p]) (auto simp: seal_change_def)

lemma chmods_walk: "chmods root a b \<Longrightarrow> walk_order b r = walk_order a r"
  unfolding chmods_def by (blast intro: walk_order_cong)

lemma spec_file_shape:
  assumes "shape (fs_lookup b (r' @ q)) = shape (fs_lookup a (r @ q))"
  shows "spec_file sha b r' q = spec_file sha a r q"
proof (cases "fs_lookup a (r @ q)")
  case None
  with assms show ?thesis by (simp add: shape_def spec_file_def)
next
  case (Some n)
  with assms obtain n' where "fs_lookup b (r' @ q) = Some n'" "chmod_node 0 n' = chmod_node 0 n"
    by (auto simp: shape_def)
  with Some show ?thesis by (cases n; cases n') (simp_all add: spec_file_def chmod_node_def)
qed

lemma chmods_shape: "chmods root a b \<Longrightarrow> shape (fs_lookup b p) = shape (fs_lookup a p)"
  by (drule chmodsD [of _ _ _ p]) (auto simp: seal_change_def)

lemma manifest_shape:
  assumes "walk_order b r' = walk_order a r" "\<And>q. shape (fs_lookup b (r' @ q)) = shape (fs_lookup a (r @ q))"
  shows "release_manifest sha b r' = release_manifest sha a r"
proof -
  have "spec_file sha b r' = spec_file sha a r" using spec_file_shape [OF assms(2)] by blast
  with assms(1) show ?thesis by (simp add: release_manifest_def)
qed

lemma good_node_shape: "shape n = shape n' \<Longrightarrow> good_node q n = good_node q n'"
  by (cases n; cases n') (auto simp: shape_def good_node_def chmod_node_def split: fnode.splits)

lemma is_dir_shape: "shape n = shape n' \<Longrightarrow> is_dir n = is_dir n'"
  by (cases n rule: is_dir.cases; cases n' rule: is_dir.cases) (auto simp: shape_def chmod_node_def)

lemma tree_ok_shape:
  assumes "walk_order b r' = walk_order a r" "\<And>q. shape (fs_lookup b (r' @ q)) = shape (fs_lookup a (r @ q))"
  shows "tree_ok b r' = tree_ok a r"
  using assms(1) good_node_shape [OF assms(2)] is_dir_shape [OF assms(2) [of "[]"]] by (simp add: tree_ok_def)

lemma Chmod_chmods:
  assumes "Chmod fault fs p mode = (fs', r)" "prefix root p" "p \<noteq> []"
    and "fs_lookup fs p = Some (FDir m) \<and> mode = mode555 \<or> fs_lookup fs p = Some (FFile m c) \<and> mode = mode444"
  shows "chmods root fs fs' \<and> (r = None \<longrightarrow> sealed (fs_lookup fs' p))"
proof -
  obtain n where n: "fs_lookup fs p = Some n" using assms(4) by auto
  then have "map_of (fs_nodes fs) p = Some n" using assms(3) by (simp add: fs_lookup_def)
  then have "p \<in> gm_keys (fs_nodes fs)" by (force dest: map_of_SomeD)
  then have k: "map fst (AList.update p x (fs_nodes fs)) = map fst (fs_nodes fs)" for x
    by (simp add: update_keys)
  from assms n show ?thesis
    by (auto simp: Chmod_def chmods_def k fs_put_def [of p _ "fs_tick fs"] fs_lookup_def gomap_simps sealed_def
        chmod_node_def seal_change_def shape_def split: if_splits)
qed

lemma seal_walk_chmods:
  "seal_walk fault fs root qs = (fs', r) \<Longrightarrow> root \<noteq> [] \<Longrightarrow>
    chmods root fs fs' \<and> (r = None \<longrightarrow> (\<forall>q \<in> set qs. q \<noteq> [] \<longrightarrow> sealed (fs_lookup fs' (root @ q))))"
proof (induction qs arbitrary: fs fs' r)
  case (Cons q qs)
  obtain fs1 s where l: "Lstat fault fs (root @ q) = (fs1, s)" by fastforce
  note ln = Lstat_nodes [OF l]
  have step: ?case if "chmods root fs fs2" "seal_walk fault fs2 root qs = (fs', r)"
      "q = [] \<or> sealed (fs_lookup fs2 (root @ q))" for fs2
    using that Cons.IH [OF that(2) Cons.prems(2)] chmods_trans chmods_sealed by (metis set_ConsD)
  show ?case
  proof (cases s)
    case (Inl e)
    with l ln Cons.prems show ?thesis by (auto simp: chmods_nodes)
  next
    case (Inr n)
    with l have n: "fs_lookup fs1 (root @ q) = Some n" by (simp add: Lstat_InrD fs_lookup_cong [OF ln])
    show ?thesis
    proof (cases n)
      case FOther
      with l ln Inr Cons.prems show ?thesis by (auto simp: chmods_nodes)
    next
      case (FDir m)
      show ?thesis
      proof (cases "q = []")
        case True
        show ?thesis by (rule step [of fs1]) (use True FDir l ln Inr Cons.prems in \<open>auto simp: chmods_nodes\<close>)
      next
        case False
        obtain fs2 c where c: "Chmod fault fs1 (root @ q) mode555 = (fs2, c)" by fastforce
        from Chmod_chmods [OF c, of root m] n FDir False
        have c1: "chmods root fs1 fs2" "c = None \<longrightarrow> sealed (fs_lookup fs2 (root @ q))" by auto
        note cc = chmods_trans [OF chmods_nodes [OF ln] c1(1)] c1(2)
        show ?thesis
        proof (cases c)
          case None
          show ?thesis by (rule step [of fs2]) (use cc None c FDir l Inr False Cons.prems in auto)
        qed (use cc c FDir l Inr False Cons.prems in auto)
      qed
    next
      case (FFile m d)
      obtain fs2 c where c: "Chmod fault fs1 (root @ q) mode444 = (fs2, c)" by fastforce
      from Chmod_chmods [OF c, of root m d] n FFile Cons.prems(2)
      have c1: "chmods root fs1 fs2" "c = None \<longrightarrow> sealed (fs_lookup fs2 (root @ q))" by auto
      note cc = chmods_trans [OF chmods_nodes [OF ln] c1(1)] c1(2)
      show ?thesis
      proof (cases c)
        case None
        show ?thesis by (rule step [of fs2]) (use cc None c FFile l Inr Cons.prems in auto)
      qed (use cc c FFile l Inr Cons.prems in auto)
    qed
  qed
qed (simp add: chmods_nodes)

lemma touch_times_nodes: "touch_times fault n fs = (fs', r) \<Longrightarrow> fs_nodes fs' = fs_nodes fs"
proof (induction n arbitrary: fs)
  case (Suc n)
  obtain fs1 t where t: "fs_touch fault fs = (fs1, t)" by fastforce
  with Suc.prems Suc.IH [of fs1] fs_touch_nodes [OF t] show ?case by (cases t) auto
qed simp

lemma sync_walk_nodes: "sync_walk fault fs root d qs = (fs', r) \<Longrightarrow> fs_nodes fs' = fs_nodes fs"
proof (induction qs arbitrary: fs d)
  case (Cons q qs)
  obtain fs1 s where l: "Lstat fault fs (root @ q) = (fs1, s)" by fastforce
  note ln = Lstat_nodes [OF l]
  show ?case
  proof (cases s)
    case (Inr n)
    show ?thesis
    proof (cases n)
      case (FDir m)
      with Inr l Cons.prems have "sync_walk fault fs1 root (Suc d) qs = (fs', r)" by simp
      from Cons.IH [OF this] ln show ?thesis by simp
    next
      case (FFile m c)
      obtain fs2 t where t: "fs_touch fault fs1 = (fs2, t)" by fastforce
      note tn = fs_touch_nodes [OF t]
      show ?thesis
      proof (cases t)
        case None
        with FFile Inr l t Cons.prems have "sync_walk fault fs2 root d qs = (fs', r)" by simp
        from Cons.IH [OF this] tn ln show ?thesis by simp
      qed (use FFile Inr l t tn ln Cons.prems in simp)
    qed (use Inr l ln Cons.prems in simp)
  qed (use l ln Cons.prems in simp)
qed (simp add: touch_times_nodes)

lemma prepare_effect:
  assumes "prepare fault fs staging parent = (fs', r)" "staging \<noteq> []"
  shows "\<exists>fs1 ds. chmods staging fs fs1 \<and> fs_nodes fs' = fs_nodes fs1 @ ds
    \<and> list_all (\<lambda>x. prefix (fst x) parent) ds \<and> fs_grows (\<lambda>p. prefix p parent) fs1 fs'
    \<and> (r = None \<longrightarrow> (\<forall>q \<in> set (walk_order fs staging). q \<noteq> [] \<longrightarrow> sealed (fs_lookup fs1 (staging @ q))))"
proof -
  obtain fa ra where a: "seal_walk fault fs staging (walk_order fs staging) = (fa, ra)" by fastforce
  note sa = seal_walk_chmods [OF a assms(2)]
  show ?thesis
  proof (cases ra)
    case (Some e)
    with a assms(1) sa show ?thesis
      by (intro exI [of _ fa] exI [of _ "[]"]) (auto simp: prepare_def sealAndSyncTree_def)
  next
    case None
    obtain fb rb where b: "sync_walk fault fa staging 0 (walk_order fa staging) = (fb, rb)" by fastforce
    have cb: "chmods staging fs fb" using sa chmods_nodes [OF sync_walk_nodes [OF b]] chmods_trans by blast
    have sb: "\<forall>q \<in> set (walk_order fs staging). q \<noteq> [] \<longrightarrow> sealed (fs_lookup fb (staging @ q))"
      using sa None chmods_sealed [OF chmods_nodes [OF sync_walk_nodes [OF b]]] by blast
    show ?thesis
    proof (cases rb)
      case (Some e)
      with a b assms(1) cb None show ?thesis
        by (intro exI [of _ fb] exI [of _ "[]"]) (auto simp: prepare_def sealAndSyncTree_def)
    next
      case none: None
      obtain fc rc where c: "MkdirAll fault fb parent = (fc, rc)" by fastforce
      note mg = mkdir_all_grows [OF c [unfolded MkdirAll_def], unfolded append_Nil]
      from mg obtain ds where
        ds: "fs_nodes fc = fs_nodes fb @ ds" "list_all (\<lambda>x. prefix (fst x) parent) ds" by blast
      have gr: "fs_grows (\<lambda>p. prefix p parent) fb fc"
        by (rule fs_grows_mono [of "\<lambda>p. strict_prefix [] p \<and> prefix p parent"]) (use mg in simp_all)
      obtain fd rd where d: "touch_times fault 1 fc = (fd, rd)" by fastforce
      have "fs_nodes fs' = fs_nodes fc"
        using assms(1) a b c d None none touch_times_nodes [OF d]
        by (cases rc) (auto simp: prepare_def sealAndSyncTree_def)
      with ds gr cb sb show ?thesis
        by (intro exI [of _ fb] exI [of _ ds]) (auto simp: fs_grows_def fs_lookup_cong [of fs' fc])
    qed
  qed
qed

section \<open>Moving a tree\<close>

lemma Rename_None:
  assumes "Rename fault fs src dst = (fs', None)"
  shows "list_all (\<lambda>x. \<not> prefix dst (fst x)) (fs_nodes fs)" "\<not> prefix src dst" "src \<noteq> []"
    "fs_nodes fs' = map (\<lambda>(p, n). (move_path src dst p, n)) (fs_nodes fs)"
  using assms by (auto simp: Rename_def list_ex_iff list_all_iff split: if_splits)

lemma move_prefix: "prefix dst (move_path src dst p) \<longleftrightarrow> prefix src p \<or> prefix dst p"
  by (simp add: move_path_def)

lemma Rename_walk:
  assumes "Rename fault fs src dst = (fs', None)"
  shows "walk_order fs' dst = walk_order fs src"
proof -
  note r = Rename_None [OF assms]
  have "map (drop (length dst)) (filter (prefix dst) (map (\<lambda>x. move_path src dst (fst x)) ns))
      = map (drop (length src)) (filter (prefix src) (map fst ns))"
    if "list_all (\<lambda>x. \<not> prefix dst (fst x)) ns" for ns :: "(fpath \<times> fnode) list"
    using that by (induction ns) (auto simp: move_path_def)
  from this [OF r(1)] show ?thesis
    by (simp add: walk_order_def r(4) comp_def split_beta)
qed

lemma move_path_eq:
  assumes "\<not> prefix dst a"
  shows "dst @ q = move_path src dst a \<longleftrightarrow> src @ q = a"
    and "\<not> prefix src p \<Longrightarrow> \<not> prefix dst p \<Longrightarrow> p = move_path src dst a \<longleftrightarrow> p = a"
  using assms by (auto simp: move_path_def prefix_def)

lemma map_of_move:
  assumes "list_all (\<lambda>x. \<not> prefix dst (fst x)) ns"
  shows "map_of (map (\<lambda>(p, n). (move_path src dst p, n)) ns) (dst @ q) = map_of ns (src @ q)"
    and "\<not> prefix src p \<Longrightarrow> \<not> prefix dst p \<Longrightarrow> map_of (map (\<lambda>(p, n). (move_path src dst p, n)) ns) p = map_of ns p"
  using assms by (induction ns) (simp_all add: move_path_eq split_beta)

lemma Rename_lookup:
  assumes "Rename fault fs src dst = (fs', None)" "dst \<noteq> []"
  shows "fs_lookup fs' (dst @ q) = fs_lookup fs (src @ q)"
    and "\<not> prefix src p \<Longrightarrow> fs_lookup fs p \<noteq> None \<Longrightarrow> fs_lookup fs' p = fs_lookup fs p"
proof -
  note r = Rename_None [OF assms(1)]
  show "fs_lookup fs' (dst @ q) = fs_lookup fs (src @ q)"
    using map_of_move(1) [OF r(1)] r(3) assms(2) by (simp add: fs_lookup_def r(4))
  assume p: "\<not> prefix src p" "fs_lookup fs p \<noteq> None"
  show "fs_lookup fs' p = fs_lookup fs p"
  proof (cases "p = []")
    case False
    with p(2) have "p \<in> gm_keys (fs_nodes fs)" by (force simp: fs_lookup_def dest: map_of_SomeD)
    then have "\<not> prefix dst p" using r(1) by (auto simp: list_all_iff)
    with map_of_move(2) [OF r(1) p(1)] False show ?thesis by (simp add: fs_lookup_def r(4))
  qed simp
qed

lemma Rename_Some: "Rename fault fs src dst = (fs', Some e) \<Longrightarrow> fs_nodes fs' = fs_nodes fs"
  by (auto simp: Rename_def split: if_splits)

lemma seal_root_effect:
  assumes "seal_root fault fs dest = (fs', r)" "dest \<noteq> []" "is_dir (fs_lookup fs dest)"
  shows "chmods dest fs fs' \<and> (\<forall>p. p \<noteq> dest \<longrightarrow> fs_lookup fs' p = fs_lookup fs p)
    \<and> (r = None \<longrightarrow> sealed (fs_lookup fs' dest))"
proof -
  obtain fs1 c where c: "Chmod fault fs dest mode555 = (fs1, c)" by fastforce
  obtain m where m: "fs_lookup fs dest = Some (FDir m)" using assms(3) by (cases "fs_lookup fs dest" rule: is_dir.cases) auto
  have cc: "chmods dest fs fs1 \<and> (c = None \<longrightarrow> sealed (fs_lookup fs1 dest))"
    using Chmod_chmods [OF c, of dest m] m assms(2) by simp
  have o: "\<forall>p. p \<noteq> dest \<longrightarrow> fs_lookup fs1 p = fs_lookup fs p"
    using c m by (auto simp: Chmod_def split: if_splits)
  obtain fs2 t where t: "touch_times fault 2 fs1 = (fs2, t)" by fastforce
  note tn = touch_times_nodes [OF t]
  show ?thesis
  proof (cases c)
    case None
    with assms(1) c t have "fs' = fs2" by (simp add: seal_root_def split: option.splits prod.splits)
    with cc o None tn show ?thesis using chmods_trans [OF _ chmods_nodes [OF tn]] fs_lookup_cong [OF tn] by auto
  next
    case (Some e)
    with assms(1) c have "fs' = fs1" "r \<noteq> None" by (auto simp: seal_root_def)
    with cc o show ?thesis by blast
  qed
qed

section \<open>Publishing a release\<close>

text \<open>What other processes may do: they add nodes but change none, and leave the staging directory alone.\<close>

definition rival :: "fpath \<Rightarrow> (FS \<Rightarrow> FS) \<Rightarrow> bool" where
  "rival staging race \<longleftrightarrow> (\<forall>fs. walk_order (race fs) staging = walk_order fs staging
     \<and> (\<forall>q. fs_lookup (race fs) (staging @ q) = fs_lookup fs (staging @ q))
     \<and> (\<forall>p. fs_lookup fs p \<noteq> None \<longrightarrow> fs_lookup (race fs) p = fs_lookup fs p))"

lemma install_effect:
  assumes "install sha fault fs staging dest m = (fs', r)" "dest \<noteq> []" "\<not> prefix staging dest \<Longrightarrow> m = release_manifest sha fs staging \<and> tree_ok fs staging"
  shows "(\<forall>p. \<not> prefix staging p \<longrightarrow> fs_lookup fs p \<noteq> None \<longrightarrow> fs_lookup fs' p = fs_lookup fs p)
    \<and> (\<forall>x. r = Inr x \<longrightarrow> x = (dest, m) \<and> release_manifest sha fs' dest = m \<and> tree_ok fs' dest
        \<and> (fs_lookup fs dest = None \<longrightarrow> \<not> prefix staging dest
            \<and> ((\<forall>q \<in> set (walk_order fs staging). q \<noteq> [] \<longrightarrow> sealed (fs_lookup fs (staging @ q)))
              \<longrightarrow> (\<forall>q \<in> set (walk_order fs' dest). sealed (fs_lookup fs' (dest @ q))))))"
proof -
  obtain fs1 e where rn: "Rename fault fs staging dest = (fs1, e)" by fastforce
  show ?thesis
  proof (cases e)
    case (Some err)
    obtain fs2 i where i: "Inspect sha fault fs1 dest = (fs2, i)" by fastforce
    note sp = Inspect_spec [OF i] and rs = Rename_Some [OF rn [unfolded Some]]
    have nodes: "fs_nodes fs' = fs_nodes fs"
      using assms(1) rn Some i sp rs by (cases i) (auto simp: install_def split: if_splits)
    have "x = (dest, m) \<and> release_manifest sha fs' dest = m \<and> tree_ok fs' dest \<and> fs_lookup fs dest \<noteq> None" if "r = Inr x" for x
    proof (cases i)
      case (Inl y)
      with assms(1) rn Some i that show ?thesis by (simp add: install_def)
    next
      case (Inr ex)
      with assms(1) rn Some i that have "x = (dest, m)" "m = ex" "fs' = fs2"
        by (auto simp: install_def FileManifestEqual_iff split: if_splits)
      moreover from sp Inr have "ex = release_manifest sha fs1 dest" "is_dir (fs_lookup fs1 dest)" by auto
      moreover have "release_manifest sha fs' dest = release_manifest sha fs1 dest"
        using nodes rs by (intro manifest_shape walk_order_cong) (auto simp: fs_lookup_def)
      moreover have "tree_ok fs' dest = tree_ok fs1 dest"
        using nodes rs by (intro tree_ok_shape walk_order_cong) (auto simp: fs_lookup_def)
      moreover have "tree_ok fs1 dest" using Inspect_good [OF i] Inr by blast
      moreover have "fs_lookup fs1 dest = fs_lookup fs dest" using rs by (simp add: fs_lookup_def)
      ultimately show ?thesis by (cases "fs_lookup fs dest") auto
    qed
    with fs_lookup_cong [OF nodes] show ?thesis by auto
  next
    case None
    note rn = rn [unfolded None]
    note rl = Rename_lookup [OF rn assms(2)] and rw = Rename_walk [OF rn]
    have d: "is_dir (fs_lookup fs1 dest)"
      using rl(1) [of "[]"] rn by (auto simp: Rename_def split: if_splits)
    obtain fs2 s where s: "seal_root fault fs1 dest = (fs2, s)" by fastforce
    note sr = seal_root_effect [OF s assms(2) d]
    have fs': "fs' = fs2" "\<And>x. r = Inr x \<Longrightarrow> x = (dest, m) \<and> s = None"
      using assms(1) rn s by (cases s; auto simp: install_def)+
    have "p \<noteq> dest" if "fs_lookup fs p \<noteq> None" for p
    proof
      assume "p = dest"
      with that assms(2) obtain y where "(dest, y) \<in> set (fs_nodes fs)"
        by (auto simp: fs_lookup_def dest: map_of_SomeD)
      with Rename_None(1) [OF rn] show False by (auto simp: list_all_iff)
    qed
    then have keep: "\<forall>p. \<not> prefix staging p \<longrightarrow> fs_lookup fs p \<noteq> None \<longrightarrow> fs_lookup fs' p = fs_lookup fs p"
      using sr rl(2) fs'(1) by metis
    have c2: "chmods dest fs1 fs'" using sr fs'(1) by blast
    have same: "walk_order fs' dest = walk_order fs staging" using chmods_walk [OF c2] rw by simp
    have shp: "shape (fs_lookup fs' (dest @ q)) = shape (fs_lookup fs (staging @ q))" for q
      using chmods_shape [OF c2] rl(1) by simp
    have "release_manifest sha fs' dest = release_manifest sha fs staging" "tree_ok fs' dest = tree_ok fs staging"
      by (rule manifest_shape [OF same shp], rule tree_ok_shape [OF same shp])
    moreover have "sealed (fs_lookup fs' (dest @ q))"
      if "s = None" "\<forall>q \<in> set (walk_order fs staging). q \<noteq> [] \<longrightarrow> sealed (fs_lookup fs (staging @ q))"
        "q \<in> set (walk_order fs' dest)" for q
    proof (cases "q = []")
      case True
      with sr that(1) fs'(1) show ?thesis by simp
    next
      case False
      from that(3) have "q \<in> set (walk_order fs staging)" using chmods_walk [OF c2] rw by simp
      with that(2) False have "sealed (fs_lookup fs1 (dest @ q))" using rl(1) by simp
      with c2 show ?thesis by (rule chmods_sealed)
    qed
    moreover note np = Rename_None(2) [OF rn]
    ultimately show ?thesis using keep fs'(2) assms(3) [OF np] by blast
  qed
qed

lemma Finalize_effect:
  assumes "Finalize sha fault race fs dataRoot appID staging = (fs', r)" "rival staging race" "staging \<noteq> []"
  shows "(\<forall>p. \<not> prefix staging p \<longrightarrow> fs_lookup fs p \<noteq> None \<longrightarrow> fs_lookup fs' p = fs_lookup fs p)
    \<and> (\<forall>dest m. r = Inr (dest, m) \<longrightarrow>
        dest = release_dir dataRoot appID (fm_Hash m) \<and> m = release_manifest sha fs staging
        \<and> release_manifest sha fs' dest = m \<and> tree_ok fs' dest \<and> tree_ok fs staging \<and> ValidReleaseID appID
        \<and> (fs_lookup fs dest = None \<longrightarrow> (\<forall>x. fs_lookup x dest = None \<longrightarrow> fs_lookup (race x) dest = None)
            \<longrightarrow> (\<forall>q \<in> set (walk_order fs' dest). sealed (fs_lookup fs' (dest @ q)))))"
proof -
  obtain fs1 i where i: "Inspect sha fault fs staging = (fs1, i)" by fastforce
  note isp = Inspect_spec [OF i]
  have l1: "fs_lookup fs1 = fs_lookup fs" using isp fs_lookup_cong by blast
  show ?thesis
  proof (cases "\<exists>m. i = Inr m \<and> ValidReleaseID appID")
    case False
    with assms(1) i have "fs' = fs1" "\<forall>x. r \<noteq> Inr x" by (cases i; auto simp: Finalize_def)+
    with l1 show ?thesis by auto
  next
    case True
    then obtain m where m: "i = Inr m" "ValidReleaseID appID" by blast
    with isp have ms: "m = release_manifest sha fs staging" by blast
    have tok: "tree_ok fs staging" using Inspect_good [OF i] m(1) by blast
    let ?d = "release_dir dataRoot appID (fm_Hash m)"
    obtain fs2 j where j: "Inspect sha fault fs1 ?d = (fs2, j)" by fastforce
    note js = Inspect_spec [OF j]
    have n2: "fs_nodes fs2 = fs_nodes fs" using js isp by simp
    note l2 = fs_lookup_cong [OF n2]
    have m2: "release_manifest sha fs2 q = release_manifest sha fs q" for q
      by (rule manifest_shape [OF walk_order_cong]) (simp_all add: n2 l2)
    note fin = assms(1) [unfolded Finalize_def i prod.case m(1) sum.case Let_def j]
    consider (err) "fs' = fs2" "\<forall>x. r \<noteq> Inr x"
      | (same) "fs' = fs2" "r = Inr (?d, m)" "j = Inr m"
      | (fresh) "j = Inl RfsNotExist"
    proof (cases j)
      case (Inl y)
      with fin m(2) have "fs' = fs2 \<and> (\<forall>x. r \<noteq> Inr x) \<or> y = RfsNotExist" by (cases y) auto
      with Inl that show ?thesis by blast
    next
      case (Inr x)
      with fin m(2) FileManifestEqual_iff [of m x] have "fs' = fs2 \<and> (\<forall>y. r \<noteq> Inr y) \<or> fs' = fs2 \<and> r = Inr (?d, m) \<and> m = x"
        by (cases "m = x") auto
      with Inr that show ?thesis by blast
    qed
    then show ?thesis
    proof cases
      case err
      with l2 show ?thesis by auto
    next
      case same
      from js same(3) have "m = release_manifest sha fs1 ?d" "is_dir (fs_lookup fs1 ?d)" by auto
      moreover have "release_manifest sha fs1 ?d = release_manifest sha fs2 ?d"
        using js by (intro manifest_shape [OF walk_order_cong]) (auto simp: fs_lookup_def)
      moreover have "fs_lookup fs ?d \<noteq> None" using calculation(2) l1 by (cases "fs_lookup fs ?d") auto
      moreover have "tree_ok fs1 ?d" using Inspect_good [OF j] same(3) by blast
      moreover have "tree_ok fs1 ?d = tree_ok fs2 ?d"
        using js by (intro tree_ok_shape [OF walk_order_cong]) (auto simp: fs_lookup_def)
      ultimately show ?thesis using same l2 ms m(2) tok by auto
    next
      case fresh
      obtain fs3 e where pr: "prepare fault fs2 staging (butlast ?d) = (fs3, e)" by fastforce
      from prepare_effect [OF pr assms(3)] obtain fa ds where fa: "chmods staging fs2 fa" "fs_nodes fs3 = fs_nodes fa @ ds"
        "list_all (\<lambda>x. prefix (fst x) (butlast ?d)) ds" "fs_grows (\<lambda>p. prefix p (butlast ?d)) fa fs3"
        and sl: "e = None \<longrightarrow> (\<forall>q \<in> set (walk_order fs2 staging). q \<noteq> [] \<longrightarrow> sealed (fs_lookup fa (staging @ q)))"
        by blast
      have keep3: "fs_lookup fs3 p = fs_lookup fs p" if "\<not> prefix staging p" "fs_lookup fs p \<noteq> None" for p
        using that chmods_outside [OF fa(1) that(1)] fs_grows_keeps [OF fa(4)] l2 by force
      show ?thesis
      proof (cases e)
        case (Some x)
        with fin fresh pr m(2) have "fs' = fs3" "\<forall>x. r \<noteq> Inr x" by auto
        with keep3 show ?thesis by auto
      next
        case None
        with fin fresh pr m(2) have ins: "install sha fault (race fs3) staging ?d m = (fs', r)" by simp
        have stage: "walk_order (race fs3) staging = walk_order fs2 staging"
            "fs_lookup (race fs3) (staging @ q) = fs_lookup fa (staging @ q)" if np: "\<not> prefix staging ?d" for q
        proof -
          have up: "\<not> prefix staging p" if "prefix p (butlast ?d)" for p
            using np that by (meson prefix_order.trans prefixeq_butlast)
          have "filter (prefix staging) (map fst ds) = []"
            using fa(3) up by (auto simp: filter_empty_conv list_all_iff)
          then have "walk_order fs3 staging = walk_order fa staging" by (simp add: walk_order_def fa(2))
          then show "walk_order (race fs3) staging = walk_order fs2 staging"
            using assms(2) chmods_walk [OF fa(1)] by (simp add: rival_def)
          have "fs_lookup fs3 (staging @ q) = fs_lookup fa (staging @ q)"
            using fa(4) up [of "staging @ q"] by (auto simp: fs_grows_def)
          then show "fs_lookup (race fs3) (staging @ q) = fs_lookup fa (staging @ q)"
            using assms(2) by (simp add: rival_def)
        qed
        have mr: "m = release_manifest sha (race fs3) staging \<and> tree_ok (race fs3) staging" if "\<not> prefix staging ?d"
        proof
          show "m = release_manifest sha (race fs3) staging" unfolding ms m2 [symmetric]
            by (rule manifest_shape [symmetric]) (simp_all add: stage [OF that] chmods_shape [OF fa(1)])
          have "tree_ok (race fs3) staging = tree_ok fs2 staging"
            by (rule tree_ok_shape) (simp_all add: stage [OF that] chmods_shape [OF fa(1)])
          moreover have "tree_ok fs2 staging = tree_ok fs staging"
            by (rule tree_ok_shape [OF walk_order_cong]) (simp_all add: n2 l2)
          ultimately show "tree_ok (race fs3) staging" using tok by simp
        qed
        have dne: "?d \<noteq> []" by (simp add: release_dir_def)
        note ie = install_effect [OF ins dne mr]
        have "fs_lookup (race fs3) p = fs_lookup fs p" if "\<not> prefix staging p" "fs_lookup fs p \<noteq> None" for p
          using keep3 [OF that] that(2) assms(2) by (simp add: rival_def)
        then have keep: "\<forall>p. \<not> prefix staging p \<longrightarrow> fs_lookup fs p \<noteq> None \<longrightarrow> fs_lookup fs' p = fs_lookup fs p"
          using ie by metis
        have free: "fs_lookup fs3 ?d = None" if "fs_lookup fs ?d = None"
        proof -
          have "fs_lookup fa ?d = None" using chmods_shape [OF fa(1), of ?d] that l2 by (simp add: shape_def)
          moreover have "\<not> prefix ?d (butlast ?d)"
            using prefix_length_le [of ?d "butlast ?d"] by (auto simp: release_dir_def)
          ultimately show ?thesis using fa(4) unfolding fs_grows_def by metis
        qed
        show ?thesis
        proof (intro conjI keep allI impI)
          fix dest m' assume x: "r = Inr (dest, m')"
          with ie have e: "dest = ?d" "m' = m" by auto
          show "dest = release_dir dataRoot appID (fm_Hash m')" "m' = release_manifest sha fs staging"
            "release_manifest sha fs' dest = m'" "tree_ok fs' dest" "tree_ok fs staging" "ValidReleaseID appID"
            using e ms ie x tok m(2) by auto
          assume "fs_lookup fs dest = None" "\<forall>x. fs_lookup x dest = None \<longrightarrow> fs_lookup (race x) dest = None"
          with e free have "fs_lookup (race fs3) ?d = None" by blast
          with ie x have np: "\<not> prefix staging ?d"
            and s: "(\<forall>q \<in> set (walk_order (race fs3) staging). q \<noteq> [] \<longrightarrow> sealed (fs_lookup (race fs3) (staging @ q)))
              \<longrightarrow> (\<forall>q \<in> set (walk_order fs' ?d). sealed (fs_lookup fs' (?d @ q)))" by blast+
          from sl None s show "\<forall>q \<in> set (walk_order fs' dest). sealed (fs_lookup fs' (dest @ q))"
            by (simp add: stage [OF np] e(1))
        qed
      qed
    qed
  qed
qed


text \<open>C19. Publishing is immutable and faithful. Whatever fails and however it ends, \<open>Finalize\<close> changes no
  existing node outside the staging directory, so no published release is ever modified. When it succeeds,
  the release directory is named by the digest of the staged tree and holds exactly that tree, also when a
  concurrent process installed it first; and a newly installed tree is read-only throughout. The other
  processes are assumed to add nodes only and to leave the private staging directory alone.\<close>

theorem finalize_immutable:
  assumes "Finalize sha fault race fs dataRoot appID staging = (fs', r)" "rival staging race" "staging \<noteq> []"
  shows "(\<forall>p. \<not> prefix staging p \<longrightarrow> fs_lookup fs p \<noteq> None \<longrightarrow> fs_lookup fs' p = fs_lookup fs p)
    \<and> (\<forall>dest m. r = Inr (dest, m) \<longrightarrow>
        dest = release_dir dataRoot appID (fm_Hash m) \<and> m = release_manifest sha fs staging
        \<and> release_manifest sha fs' dest = m
        \<and> (fs_lookup fs dest = None \<longrightarrow> (\<forall>x. fs_lookup x dest = None \<longrightarrow> fs_lookup (race x) dest = None)
            \<longrightarrow> (\<forall>q \<in> set (walk_order fs' dest). sealed (fs_lookup fs' (dest @ q)))))"
  using Finalize_effect [OF assms] by blast

text \<open>A staged tree with one file.\<close>

definition demo_stage_fs :: FS where
  "demo_stage_fs = \<lparr>fs_nodes = [([''d''], FDir 493), ([''d'', ''s''], FDir 493), ([''d'', ''s'', ''a''], FFile 420 ''hi'')],
     fs_calls = 0\<rparr>"

definition demo_finalize :: "FS \<times> (rfs_error + fpath \<times> FileManifest)" where
  "demo_finalize = Finalize (\<lambda>s. [7]) (\<lambda>n. False) (\<lambda>fs. fs) demo_stage_fs [''d''] ''app'' [''d'', ''s'']"

lemma demo_finalize_result:
  "map_sum (\<lambda>e. e) fst (snd demo_finalize) = Inr [''d'', ''releases'', ''app'', ''07'']
    \<and> walk_order (fst demo_finalize) [''d'', ''releases'', ''app'', ''07''] = [[], [''a'']]"
  by code_simp

text \<open>A concrete instance.\<close>

theorem finalize_immutable_witness:
  "\<exists>m. snd demo_finalize = Inr ([''d'', ''releases'', ''app'', ''07''], m)
    \<and> release_manifest (\<lambda>s. [7]) (fst demo_finalize) [''d'', ''releases'', ''app'', ''07''] = m
    \<and> sealed (fs_lookup (fst demo_finalize) [''d'', ''releases'', ''app'', ''07'', ''a''])"
proof -
  let ?d = "[''d'', ''releases'', ''app'', ''07'']"
  obtain m where m: "snd demo_finalize = Inr (?d, m)"
    using demo_finalize_result by (cases "snd demo_finalize") auto
  have e: "Finalize (\<lambda>s. [7]) (\<lambda>n. False) (\<lambda>fs. fs) demo_stage_fs [''d''] ''app'' [''d'', ''s'']
      = (fst demo_finalize, snd demo_finalize)" by (simp add: demo_finalize_def)
  have "rival [''d'', ''s''] (\<lambda>fs. fs)" by (simp add: rival_def)
  from finalize_immutable [OF e this, THEN conjunct2, THEN spec, THEN spec, THEN mp, OF _ m]
  have "release_manifest (\<lambda>s. [7]) (fst demo_finalize) ?d = m"
    "fs_lookup demo_stage_fs ?d = None \<longrightarrow>
       (\<forall>q \<in> set (walk_order (fst demo_finalize) ?d). sealed (fs_lookup (fst demo_finalize) (?d @ q)))" by blast+
  moreover have "fs_lookup demo_stage_fs ?d = None" by (simp add: demo_stage_fs_def fs_lookup_def)
  ultimately show ?thesis using m demo_finalize_result by simp
qed

end
