(* ===== verification/Archive_Extract.thy ===== *)
theory Archive_Extract
  imports Go_Files "HOL-Library.Signed_Division"
begin

text \<open>
  Uploads and archives: the bounded copy of \<open>internal/uploads/uploads.go\<close> and the extraction of
  \<open>internal/archive/archive.go\<close> into a staging directory. The gzip, tar and zip readers are the
  standard library: a tar stream is the list of what \<open>Next\<close> returns (\<open>None\<close> an error, the end of the
  list \<open>io.EOF\<close>), a zip archive the list of its files; the bytes an entry's reader yields are a string
  and a flag telling whether it then fails. The context is a flag at each point where it is asked.
\<close>

section \<open>Copying an upload\<close>

datatype copy_error = ErrQuota | CopyCtx | CopyRead | CopyWrite

record Result =
  up_Bytes :: int
  up_SHA256 :: "nat list"

text \<open>One turn of the loop: whether the context is done, the bytes read, and the error of the read.\<close>

datatype read_status = ReadMore | ReadEOF | ReadFail

record read_step =
  rd_Done :: bool
  rd_Data :: string
  rd_Status :: read_status

text \<open>The result and what was written; a stream that ends early keeps the loop waiting, which is
  \<open>CopyRead\<close> here. \<open>wfault n\<close> says that the \<open>n\<close>-th write fails.\<close>

fun copy_loop :: "(string \<Rightarrow> nat list) \<Rightarrow> (nat \<Rightarrow> bool) \<Rightarrow> int \<Rightarrow> nat \<Rightarrow> string \<Rightarrow> read_step list
      \<Rightarrow> string \<times> (copy_error + Result)" where
  "copy_loop sha wfault limit k out [] = (out, Inl CopyRead)"
| "copy_loop sha wfault limit k out (r # rs) =
     (if rd_Done r then (out, Inl CopyCtx)
      else if length (rd_Data r) > 0 \<and> int (length (rd_Data r)) > limit - int (length out)
      then (out, Inl ErrQuota)
      else if length (rd_Data r) > 0 \<and> wfault k then (out, Inl CopyWrite)
      else
        let out' = out @ rd_Data r in
        case rd_Status r of
          ReadEOF \<Rightarrow> (out', Inr \<lparr>up_Bytes = int (length out'), up_SHA256 = sha out'\<rparr>)
        | ReadFail \<Rightarrow> (out', Inl CopyRead)
        | ReadMore \<Rightarrow> copy_loop sha wfault limit (if rd_Data r = [] then k else Suc k) out' rs)"

definition Copy :: "(string \<Rightarrow> nat list) \<Rightarrow> (nat \<Rightarrow> bool) \<Rightarrow> read_step list \<Rightarrow> int \<Rightarrow> string \<times> (copy_error + Result)" where
  "Copy sha wfault src limit = (if limit \<le> 0 then ([], Inl ErrQuota) else copy_loop sha wfault limit 0 [] src)"

section \<open>Names and budgets\<close>

datatype arch_error = ErrUnsafe | ArchCtx | ArchIO

record ArchLimits =
  al_MaxEntries :: int
  al_MaxDepth :: int
  al_MaxExpanded :: int
  al_MaxFile :: int

definition limits_valid :: "ArchLimits \<Rightarrow> bool" where
  "limits_valid l \<longleftrightarrow> al_MaxEntries l > 0 \<and> al_MaxDepth l > 0 \<and> al_MaxExpanded l > 0 \<and> al_MaxFile l > 0"

record entry =
  ent_name :: string
  ent_size :: int
  ent_mode :: "32 word"
  ent_dir :: bool
  ent_data :: string
  ent_fails :: bool
  ent_ctx :: bool

record budget =
  bu_l :: ArchLimits
  bu_n :: int
  bu_total :: int
  bu_seen :: "string list"

definition clean :: "string \<Rightarrow> int \<Rightarrow> arch_error + string" where
  "clean name maxDepth =
     (if name = [] \<or> Contains name [CHR 0x5C] \<or> HasPrefix name ''/'' \<or> Contains name '':'' \<or> \<not> ValidString name
      then Inl ErrUnsafe
      else if list_ex (\<lambda>r. r > 0x7F) (runes name) then Inl ErrUnsafe
      else
        let c = path_Clean name in
        if c = ''.'' \<or> HasPrefix c ''../'' \<or> Contains c ''//'' then Inl ErrUnsafe
        else if int (length (Split slash c)) > maxDepth then Inl ErrUnsafe
        else Inr c)"

text \<open>\<open>os.FileMode\<close> bits.\<close>

definition ModeDir :: "32 word" where "ModeDir = push_bit 31 1"
definition ModeSymlink :: "32 word" where "ModeSymlink = push_bit 27 1"
definition ModeSetuid :: "32 word" where "ModeSetuid = push_bit 23 1"
definition ModeSetgid :: "32 word" where "ModeSetgid = push_bit 22 1"
definition ModeSticky :: "32 word" where "ModeSticky = push_bit 20 1"

unbundle bit_operations_syntax

definition ModeType :: "32 word" where
  "ModeType = ModeDir OR ModeSymlink OR push_bit 25 1 OR push_bit 24 1 OR push_bit 26 1 OR push_bit 21 1
     OR push_bit 19 1"

definition privileged_mode :: "32 word \<Rightarrow> bool" where
  "privileged_mode m \<longleftrightarrow> m AND (ModeSetuid OR ModeSetgid OR ModeSticky) \<noteq> 0"

text \<open>\<open>io.LimitReader(r, size+1)\<close>, the addition in 64 bits.\<close>

definition limit_reader :: "int \<Rightarrow> string \<Rightarrow> string" where
  "limit_reader n data = (if n \<le> 0 then [] else take (nat n) data)"

definition writeEntry :: "(nat \<Rightarrow> bool) \<Rightarrow> FS \<Rightarrow> fpath \<Rightarrow> entry \<Rightarrow> FS \<times> arch_error option" where
  "writeEntry fault fs target e =
     (case create_excl fault fs target mode644 of
        (fs1, Some _) \<Rightarrow> (fs1, Some ArchIO)
      | (fs1, None) \<Rightarrow>
          let n = wrap64 (ent_size e + 1);
              data = limit_reader n (ent_data e)
          in case append_file fault fs1 target data of
               (fs2, Some _) \<Rightarrow> (fs2, Some ErrUnsafe)
             | (fs2, None) \<Rightarrow>
                 if (ent_fails e \<and> int (length data) < n) \<or> int (length data) \<noteq> ent_size e
                 then (fs2, Some ErrUnsafe)
                 else (case fs_touch fault fs2 of
                         (fs3, Some _) \<Rightarrow> (fs3, Some ArchIO)
                       | (fs3, None) \<Rightarrow> (fs3, None)))"

definition placeEntry :: "(nat \<Rightarrow> bool) \<Rightarrow> FS \<Rightarrow> fpath \<Rightarrow> entry \<Rightarrow> FS \<times> arch_error option" where
  "placeEntry fault fs target e =
     (if ent_dir e then
        (case MkdirAll fault fs target of (fs1, Some _) \<Rightarrow> (fs1, Some ArchIO) | (fs1, None) \<Rightarrow> (fs1, None))
      else
        (case MkdirAll fault fs (butlast target) of
           (fs1, Some _) \<Rightarrow> (fs1, Some ArchIO)
         | (fs1, None) \<Rightarrow> writeEntry fault fs1 target e))"

definition put :: "(nat \<Rightarrow> nat) \<Rightarrow> (nat \<Rightarrow> bool) \<Rightarrow> FS \<Rightarrow> budget \<Rightarrow> fpath \<Rightarrow> entry \<Rightarrow> FS \<times> budget \<times> arch_error option" where
  "put U fault fs b root e =
     (if ent_ctx e then (fs, b, Some ArchCtx)
      else case clean (ent_name e) (al_MaxDepth (bu_l b)) of
        Inl err \<Rightarrow> (fs, b, Some err)
      | Inr n \<Rightarrow>
          if ent_size e < 0 \<or> ent_size e > al_MaxFile (bu_l b)
             \<or> bu_total b > al_MaxExpanded (bu_l b) - ent_size e
          then (fs, b, Some ErrUnsafe)
          else if bu_n b \<ge> al_MaxEntries (bu_l b) then (fs, b, Some ErrUnsafe)
          else if ToLower U n \<in> set (bu_seen b) then (fs, b, Some ErrUnsafe)
          else
            let b1 = b\<lparr>bu_seen := ToLower U n # bu_seen b, bu_n := bu_n b + 1,
                       bu_total := bu_total b + ent_size e\<rparr>;
                target = path_Join root n;
                rel = path_Rel root target
            in if privileged_mode (ent_mode e) then (fs, b1, Some ErrUnsafe)
               else if rel = ''..'' \<or> HasPrefix rel ''../'' then (fs, b1, Some ErrUnsafe)
               else (case placeEntry fault fs target e of (fs1, r) \<Rightarrow> (fs1, b1, r)))"

section \<open>The two archive formats\<close>

record tar_header =
  th_Name :: string
  th_Size :: int
  th_Mode :: int
  th_Typeflag :: char
  th_data :: string
  th_fails :: bool
  th_ctx :: bool

definition tar_entry :: "tar_header \<Rightarrow> entry" where
  "tar_entry h = \<lparr>ent_name = th_Name h, ent_size = th_Size h, ent_mode = word_of_int (th_Mode h),
     ent_dir = (th_Typeflag h = CHR ''5''), ent_data = th_data h, ent_fails = th_fails h, ent_ctx = th_ctx h\<rparr>"

fun tar_loop :: "(nat \<Rightarrow> nat) \<Rightarrow> (nat \<Rightarrow> bool) \<Rightarrow> fpath \<Rightarrow> FS \<Rightarrow> budget \<Rightarrow> tar_header option list \<Rightarrow> FS \<times> arch_error option" where
  "tar_loop U fault root fs b [] = (fs, None)"
| "tar_loop U fault root fs b (None # hs) = (fs, Some ErrUnsafe)"
| "tar_loop U fault root fs b (Some h # hs) =
     (if th_Typeflag h \<noteq> CHR ''0'' \<and> th_Typeflag h \<noteq> CHR ''5'' then (fs, Some ErrUnsafe)
      else case put U fault fs b root (tar_entry h) of
          (fs1, b1, Some err) \<Rightarrow> (fs1, Some err)
        | (fs1, b1, None) \<Rightarrow> tar_loop U fault root fs1 b1 hs)"

definition new_budget :: "ArchLimits \<Rightarrow> budget" where
  "new_budget l = \<lparr>bu_l = l, bu_n = 0, bu_total = 0, bu_seen = []\<rparr>"

text \<open>\<open>stream\<close> is \<open>None\<close> when the gzip header is refused.\<close>

definition ExtractTarGz :: "(nat \<Rightarrow> nat) \<Rightarrow> (nat \<Rightarrow> bool) \<Rightarrow> FS \<Rightarrow> tar_header option list option \<Rightarrow> fpath \<Rightarrow> ArchLimits
      \<Rightarrow> FS \<times> arch_error option" where
  "ExtractTarGz U fault fs stream root l =
     (if \<not> limits_valid l then (fs, Some ErrUnsafe)
      else case stream of
          None \<Rightarrow> (fs, Some ErrUnsafe)
        | Some hs \<Rightarrow> tar_loop U fault root fs (new_budget l) hs)"

record zip_file =
  zf_Name :: string
  zf_Size64 :: "64 word"
  zf_Mode :: "32 word"
  zf_opens :: bool
  zf_data :: string
  zf_fails :: bool
  zf_ctx :: bool

definition zip_is_dir :: "zip_file \<Rightarrow> bool" where
  "zip_is_dir f \<longleftrightarrow> zf_Mode f AND ModeDir \<noteq> 0"

definition zip_entry :: "zip_file \<Rightarrow> entry" where
  "zip_entry f = \<lparr>ent_name = zf_Name f, ent_size = sint (zf_Size64 f), ent_mode = zf_Mode f,
     ent_dir = zip_is_dir f, ent_data = zf_data f, ent_fails = zf_fails f, ent_ctx = zf_ctx f\<rparr>"

fun zip_loop :: "(nat \<Rightarrow> nat) \<Rightarrow> (nat \<Rightarrow> bool) \<Rightarrow> fpath \<Rightarrow> FS \<Rightarrow> budget \<Rightarrow> zip_file list \<Rightarrow> FS \<times> arch_error option" where
  "zip_loop U fault root fs b [] = (fs, None)"
| "zip_loop U fault root fs b (f # zs) =
     (if zf_Mode f AND ModeType \<noteq> 0 \<and> \<not> zip_is_dir f then (fs, Some ErrUnsafe)
      else if \<not> zf_opens f then (fs, Some ErrUnsafe)
      else case put U fault fs b root (zip_entry f) of
          (fs1, b1, Some err) \<Rightarrow> (fs1, Some err)
        | (fs1, b1, None) \<Rightarrow> zip_loop U fault root fs1 b1 zs)"

definition ExtractZip :: "(nat \<Rightarrow> nat) \<Rightarrow> (nat \<Rightarrow> bool) \<Rightarrow> FS \<Rightarrow> zip_file list \<Rightarrow> fpath \<Rightarrow> ArchLimits \<Rightarrow> FS \<times> arch_error option" where
  "ExtractZip U fault fs z root l =
     (if \<not> limits_valid l then (fs, Some ErrUnsafe) else zip_loop U fault root fs (new_budget l) z)"

section \<open>Accepted names\<close>

lemma set_clean_elems: "set (clean_elems rooted st es) \<subseteq> insert dotdot (set st \<union> set es)"
proof (induction rooted st es rule: clean_elems.induct)
  case (2 rooted st e es)
  then show ?case by (cases st) (simp_all, auto)
qed auto

lemma set_Join: "set (Join d ws) \<subseteq> insert d (\<Union> (set ` set ws))"
  by (induction d ws rule: Join.induct) auto

lemma is_ascii_iff: "is_ascii s \<longleftrightarrow> (\<forall>c \<in> set s. (of_char c :: nat) < 128)"
  by (simp add: is_ascii_def list_all_iff)

lemma path_Clean_ascii:
  assumes "is_ascii s" shows "is_ascii (path_Clean s)"
proof -
  let ?es = "clean_elems (HasPrefix s [slash]) [] (Split slash s)"
  have "set e \<subseteq> set s \<union> set dotdot" if "e \<in> set ?es" for e
    using that set_clean_elems [of "HasPrefix s [slash]" "[]" "Split slash s"] set_Split_subset by fastforce
  then have "set (Join slash ?es) \<subseteq> set s \<union> set dotdot \<union> {slash}" using set_Join [of slash ?es] by blast
  then have "set (path_Clean s) \<subseteq> set s \<union> {CHR ''.'', slash}"
    by (auto simp: path_Clean_def Let_def split: if_splits)
  then show ?thesis using assms unfolding is_ascii_iff by fastforce
qed

lemma runes_ascii:
  assumes "ValidString s" "\<not> list_ex (\<lambda>r. r > 0x7F) (runes s)"
  shows "is_ascii s"
proof -
  obtain rs where rs: "scalars rs (bytes s)" using assms(1) by (auto simp: ValidString_iff scalars_def)
  then have "\<forall>r \<in> set rs. r < 128" using assms(2) scalars_runes by (fastforce simp: list_ex_iff)
  then have "concat (map encode_scalar rs) = rs" by (induction rs) (simp_all add: encode_scalar_def)
  with rs have "bytes s = rs" by (simp add: scalars_def)
  with \<open>\<forall>r \<in> set rs. r < 128\<close> show ?thesis by (auto simp: is_ascii_iff bytes_def)
qed

text \<open>An accepted name is a clean relative path of bounded depth, or the single parent element.\<close>

lemma clean_InrE:
  assumes "clean name d = Inr n"
  obtains es where "n = Join slash es" "es = [dotdot] \<or> es \<noteq> [] \<and> list_all proper_elem es"
    "int (length es) \<le> d" "Split slash n = es" "is_ascii n"
proof -
  from assms have g: "ValidString name" "\<not> list_ex (\<lambda>r. r > 0x7F) (runes name)" "\<not> HasPrefix name [slash]"
    and n: "n = path_Clean name" "n \<noteq> ''.''" "\<not> HasPrefix n ''../''" "int (length (Split slash n)) \<le> d"
    by (auto simp: clean_def Let_def split: if_splits)
  obtain es where es: "cleaned False es" "n = Join slash es" "es \<noteq> []"
    using path_Clean_elems [of name] g(3) n(1,2) by (auto split: if_splits)
  have split: "Split slash n = es"
    unfolding es(2) by (rule Split_Join) (use es cleaned_no_slash in auto)
  obtain k qs where kq: "es = replicate k dotdot @ qs" "list_all proper_elem qs"
    using es(1) by (auto simp: cleaned_def)
  have "es = [dotdot] \<or> list_all proper_elem es"
  proof (cases k)
    case (Suc j)
    then have e: "es = dotdot # replicate j dotdot @ qs" by (simp add: kq(1))
    have False if "replicate j dotdot @ qs = x # xs" for x xs
      using n(3) by (simp add: es(2) e that HasPrefix_def)
    then show ?thesis using e by (cases "replicate j dotdot @ qs") simp_all
  qed (use kq in simp)
  with es(3) have d: "es = [dotdot] \<or> es \<noteq> [] \<and> list_all proper_elem es" by blast
  have "is_ascii n" unfolding n(1) by (rule path_Clean_ascii, rule runes_ascii) (rule g)+
  from that [OF es(2) d _ split this] n(4) show ?thesis by (simp only: split)
qed

lemma path_Join_proper:
  "list_all proper_elem root \<Longrightarrow> list_all proper_elem (Split slash n) \<Longrightarrow> path_Join root n = root @ Split slash n"
  by (simp add: path_Join_def clean_elems_id)

lemma clean_elems_append: "list_all proper_elem es \<Longrightarrow> clean_elems r st (es @ fs) = clean_elems r (rev es @ st) fs"
  by (induction es arbitrary: st) (simp_all add: proper_elem_def)

text \<open>The target of an accepted entry lies strictly below the staging directory.\<close>

lemma target_below:
  assumes "clean name d = Inr n" "list_all proper_elem root" "root \<noteq> []"
    and "path_Rel root (path_Join root n) \<noteq> ''..''" "\<not> HasPrefix (path_Rel root (path_Join root n)) ''../''"
  obtains es where "path_Join root n = root @ es" "es \<noteq> []" "list_all proper_elem es" "n = Join slash es"
    "int (length es) \<le> d" "is_ascii n"
proof (rule clean_InrE [OF assms(1)])
  fix es
  assume es: "n = Join slash es" "es = [dotdot] \<or> es \<noteq> [] \<and> list_all proper_elem es"
    "int (length es) \<le> d" "Split slash n = es" "is_ascii n"
  have "es \<noteq> [dotdot]"
  proof
    assume e: "es = [dotdot]"
    obtain r x where r: "root = r @ [x]" using assms(3) by (cases root rule: rev_cases) auto
    have "path_Join root n = clean_elems True (rev root) [dotdot]"
      using clean_elems_append [OF assms(2), of True "[]" "[dotdot]"] by (simp add: path_Join_def es(4) e)
    moreover have "x \<noteq> dotdot" using assms(2) by (simp add: r proper_elem_def)
    ultimately have "path_Join root n = r" by (simp add: r)
    moreover obtain ts where "path_Join root n = root @ ts"
      using assms(4,5) by (auto intro: path_Rel_inside)
    ultimately show False by (simp add: r)
  qed
  with es path_Join_proper [OF assms(2)] show ?thesis by (intro that [of es]) auto
qed

section \<open>The effect of one entry\<close>

definition below :: "fpath \<Rightarrow> fpath \<Rightarrow> bool" where
  "below root p \<longleftrightarrow> (\<exists>es. p = root @ es \<and> es \<noteq> [] \<and> list_all proper_elem es)"

definition confined :: "fpath \<Rightarrow> fpath \<Rightarrow> bool" where
  "confined root p \<longleftrightarrow> below root p \<or> prefix p root"

lemma below_prefix: "below root p \<Longrightarrow> prefix q p \<Longrightarrow> confined root q"
proof -
  assume "below root p" "prefix q p"
  then obtain es r where es: "p = root @ es" "list_all proper_elem es" "root @ es = q @ r"
    unfolding below_def prefix_def by blast
  show ?thesis
  proof (cases "prefix q root")
    case False
    with es(3) obtain us where us: "q = root @ us" "us @ r = es"
      by (metis append_eq_append_conv2 prefixI)
    with es(2) False show ?thesis by (auto simp: confined_def below_def)
  qed (simp add: confined_def)
qed

lemma MkdirAll_effect:
  "MkdirAll fault fs p = (fs', r) \<Longrightarrow>
    fs_grows (\<lambda>q. prefix q p) fs fs' \<and> (fs_wf fs \<longrightarrow> fs_wf fs') \<and> file_nodes fs' = file_nodes fs"
  unfolding MkdirAll_def
  by (drule mkdir_all_grows) (auto elim: fs_grows_mono)

lemma writeEntry_effect:
  assumes "writeEntry fault fs t e = (fs', r)" "t \<noteq> []"
  shows "fs_grows (\<lambda>p. p = t) fs fs' \<and> (fs_wf fs \<longrightarrow> fs_wf fs')
    \<and> (r = None \<longrightarrow> (\<exists>data. int (length data) = ent_size e
          \<and> file_nodes fs' = file_nodes fs @ [(t, FFile mode644 data)]))"
proof (cases "create_excl fault fs t mode644")
  case (Pair fs1 r1)
  show ?thesis
  proof (cases r1)
    case (Some x)
    with Pair assms show ?thesis
      by (auto simp: writeEntry_def create_excl_def split: if_splits)
  next
    case None
    with Pair have free: "fs_lookup fs t = None" and fs1: "fs1 = fs_put t (FFile mode644 []) (fs_tick fs)"
      by (auto simp: create_excl_def split: if_splits)
    let ?d = "limit_reader (wrap64 (ent_size e + 1)) (ent_data e)"
    let ?fs2 = "fs_put t (FFile mode644 ?d) (fs_tick fs1)"
    have look: "fs_lookup fs1 t = Some (FFile mode644 [])" using assms(2) by (simp add: fs1)
    have g1: "fs_grows (\<lambda>p. p = t) fs fs1" unfolding fs1
      by (rule fs_grows_trans [OF fs_grows_tick fs_grows_put]) (simp_all add: free)
    have g2: "fs_grows (\<lambda>p. p = t) fs ?fs2"
      using free assms(2) by (auto simp: fs_grows_def fs1)
    have w: "fs_wf fs \<longrightarrow> fs_wf fs1 \<and> fs_wf ?fs2" by (simp add: fs1)
    have "fs_nodes fs1 = fs_nodes fs @ [(t, FFile mode644 [])]"
      unfolding fs1 using fs_put_absent [of "fs_tick fs" t] free by simp
    moreover have "t \<notin> gm_keys (fs_nodes fs)"
      using free assms(2) by (simp add: fs_lookup_def map_of_eq_None_iff)
    ultimately have n: "file_nodes ?fs2 = file_nodes fs @ [(t, FFile mode644 ?d)]"
      by (simp add: fs_put_def file_nodes_def update_last)
    from assms(1) Pair None look consider "fs' = fs_tick fs1" "r \<noteq> None"
      | "fs' = ?fs2" "r \<noteq> None" | "fs' = fs_tick ?fs2" "r \<noteq> None"
      | "fs' = fs_tick ?fs2" "int (length ?d) = ent_size e"
      by (auto simp: writeEntry_def append_file_def fs_touch_def Let_def split: if_splits)
    then show ?thesis
      using g1 g2 w n by cases (auto intro: fs_grows_trans)
  qed
qed

lemma put_effect:
  assumes "put U fault fs b root e = (fs', b', r)" "list_all proper_elem root" "root \<noteq> []"
  shows "fs_grows (confined root) fs fs' \<and> (fs_wf fs \<longrightarrow> fs_wf fs')
    \<and> (r = None \<longrightarrow> (\<exists>es. below root (root @ es) \<and> int (length es) \<le> al_MaxDepth (bu_l b) \<and> is_ascii (Join slash es)
        \<and> 0 \<le> ent_size e \<and> ent_size e \<le> al_MaxFile (bu_l b) \<and> bu_total b + ent_size e \<le> al_MaxExpanded (bu_l b)
        \<and> bu_n b < al_MaxEntries (bu_l b) \<and> map lower_char (Join slash es) \<notin> set (bu_seen b)
        \<and> b' = b\<lparr>bu_seen := map lower_char (Join slash es) # bu_seen b, bu_n := bu_n b + 1,
                 bu_total := bu_total b + ent_size e\<rparr>
        \<and> (file_nodes fs' = file_nodes fs
           \<or> (\<exists>data. int (length data) = ent_size e
                \<and> file_nodes fs' = file_nodes fs @ [(root @ es, FFile mode644 data)]))))"
proof -
  consider "fs' = fs" "r \<noteq> None"
    | n where "clean (ent_name e) (al_MaxDepth (bu_l b)) = Inr n" "0 \<le> ent_size e"
      "ent_size e \<le> al_MaxFile (bu_l b)" "bu_total b + ent_size e \<le> al_MaxExpanded (bu_l b)"
      "bu_n b < al_MaxEntries (bu_l b)" "ToLower U n \<notin> set (bu_seen b)"
      "path_Rel root (path_Join root n) \<noteq> ''..''" "\<not> HasPrefix (path_Rel root (path_Join root n)) ''../''"
      "b' = b\<lparr>bu_seen := ToLower U n # bu_seen b, bu_n := bu_n b + 1, bu_total := bu_total b + ent_size e\<rparr>"
      "placeEntry fault fs (path_Join root n) e = (fs', r)"
  proof (cases "clean (ent_name e) (al_MaxDepth (bu_l b))")
    case (Inr n)
    obtain fs1 r1 where pl: "placeEntry fault fs (path_Join root n) e = (fs1, r1)" by fastforce
    from assms(1) have "fs' = fs \<and> r \<noteq> None
      \<or> 0 \<le> ent_size e \<and> ent_size e \<le> al_MaxFile (bu_l b) \<and> bu_total b + ent_size e \<le> al_MaxExpanded (bu_l b)
         \<and> bu_n b < al_MaxEntries (bu_l b) \<and> ToLower U n \<notin> set (bu_seen b)
         \<and> path_Rel root (path_Join root n) \<noteq> ''..'' \<and> \<not> HasPrefix (path_Rel root (path_Join root n)) ''../''
         \<and> b' = b\<lparr>bu_seen := ToLower U n # bu_seen b, bu_n := bu_n b + 1, bu_total := bu_total b + ent_size e\<rparr>
         \<and> fs1 = fs' \<and> r1 = r"
      unfolding put_def Inr sum.case Let_def pl prod.case by (auto split: if_splits)
    then show ?thesis using that Inr pl by blast
  qed (use assms(1) in \<open>auto simp: put_def split: if_splits intro: that(1)\<close>)
  then show ?thesis
  proof cases
    case (2 n)
    obtain es where es: "path_Join root n = root @ es" "es \<noteq> []" "list_all proper_elem es" "n = Join slash es"
      "int (length es) \<le> al_MaxDepth (bu_l b)" "is_ascii n"
      by (rule target_below [OF 2(1) assms(2,3) 2(7,8)])
    have bl: "below root (root @ es)" using es by (auto simp: below_def)
    have lower: "ToLower U n = map lower_char (Join slash es)" using es by (simp add: ToLower_ascii)
    have mk: "fs_grows (confined root) x y" if "fs_grows (\<lambda>q. prefix q p) x y" "prefix p (root @ es)" for p x y
      using that by (elim fs_grows_mono) (meson below_prefix [OF bl] prefix_order.trans)
    have bp: "prefix (butlast (root @ es)) (root @ es)" by (rule prefixeq_butlast)
    have "fs_grows (confined root) fs fs' \<and> (fs_wf fs \<longrightarrow> fs_wf fs') \<and> (r = None \<longrightarrow> file_nodes fs' = file_nodes fs
           \<or> (\<exists>data. int (length data) = ent_size e
                \<and> file_nodes fs' = file_nodes fs @ [(root @ es, FFile mode644 data)]))"
    proof (cases "ent_dir e")
      case True
      then obtain r1 where "MkdirAll fault fs (root @ es) = (fs', r1)"
        using 2(10) by (auto simp: placeEntry_def es(1) split: option.splits prod.splits)
      from MkdirAll_effect [OF this] mk show ?thesis by blast
    next
      case False
      obtain fs1 r1 where m: "MkdirAll fault fs (butlast (root @ es)) = (fs1, r1)" by fastforce
      note me = MkdirAll_effect [OF m]
      with bp mk have g: "fs_grows (confined root) fs fs1" by blast
      show ?thesis
      proof (cases r1)
        case (Some x)
        with m False 2(10) me g show ?thesis by (auto simp: placeEntry_def es(1))
      next
        case None
        with m False 2(10) have w: "writeEntry fault fs1 (root @ es) e = (fs', r)" by (simp add: placeEntry_def es(1))
        from writeEntry_effect [OF w] es(2) have we: "fs_grows (\<lambda>p. p = root @ es) fs1 fs'" "fs_wf fs1 \<longrightarrow> fs_wf fs'"
          "r = None \<longrightarrow> (\<exists>data. int (length data) = ent_size e
              \<and> file_nodes fs' = file_nodes fs1 @ [(root @ es, FFile mode644 data)])" by simp_all
        have "fs_grows (confined root) fs1 fs'"
          by (rule fs_grows_mono [OF we(1)]) (use bl in \<open>simp add: confined_def\<close>)
        with g we me show ?thesis by (metis fs_grows_trans)
      qed
    qed
    moreover note 2(6) [unfolded lower] 2(9) [unfolded lower]
    moreover have "is_ascii (Join slash es)" using es(4,6) by simp
    ultimately show ?thesis using bl es(5) 2(2-5) by blast
  qed auto
qed

section \<open>Invariants of the extraction loops\<close>

text \<open>Both loops put one entry after the other; an invariant of single entries is one of the extraction.
  \<open>Q\<close> holds whatever happens, \<open>J\<close> as long as no entry was refused.\<close>

locale entry_invariant =
  fixes U :: "nat \<Rightarrow> nat" and fault :: "nat \<Rightarrow> bool" and root :: fpath
    and J :: "FS \<Rightarrow> budget \<Rightarrow> bool" and Q :: "FS \<Rightarrow> bool"
  assumes weaken: "J fs b \<Longrightarrow> Q fs"
    and entry: "J fs b \<Longrightarrow> put U fault fs b root e = (fs', b', r) \<Longrightarrow> Q fs' \<and> (r = None \<longrightarrow> J fs' b')"
begin

lemma tar_entries: "J fs b \<Longrightarrow> tar_loop U fault root fs b hs = (fs', r) \<Longrightarrow> Q fs' \<and> (r = None \<longrightarrow> (\<exists>b'. J fs' b'))"
proof (induction hs arbitrary: fs b)
  case (Cons x hs)
  show ?case
  proof (cases x)
    case None
    with Cons.prems weaken show ?thesis by auto
  next
    case (Some h)
    obtain fs1 b1 r1 where p: "put U fault fs b root (tar_entry h) = (fs1, b1, r1)" by (metis prod_cases3)
    with Cons.prems entry have "Q fs1 \<and> (r1 = None \<longrightarrow> J fs1 b1)" by blast
    with Cons.prems Cons.IH [of fs1 b1] p Some weaken show ?thesis by (cases r1) (auto split: if_splits)
  qed
qed (use weaken in auto)

lemma zip_entries: "J fs b \<Longrightarrow> zip_loop U fault root fs b zs = (fs', r) \<Longrightarrow> Q fs' \<and> (r = None \<longrightarrow> (\<exists>b'. J fs' b'))"
proof (induction zs arbitrary: fs b)
  case (Cons f zs)
  obtain fs1 b1 r1 where p: "put U fault fs b root (zip_entry f) = (fs1, b1, r1)" by (metis prod_cases3)
  with Cons.prems entry have "Q fs1 \<and> (r1 = None \<longrightarrow> J fs1 b1)" by blast
  with Cons.prems Cons.IH [of fs1 b1] p weaken show ?case by (cases r1) (auto split: if_splits)
qed (use weaken in auto)

end

text \<open>Everything new lies below the staging directory or is a directory on the way to it.\<close>

definition inside :: "fpath \<Rightarrow> FS \<Rightarrow> FS \<Rightarrow> bool" where
  "inside root fs0 fs \<longleftrightarrow> (list_all proper_elem root \<and> root \<noteq> [] \<longrightarrow> fs_grows (confined root) fs0 fs)"

interpretation staged: entry_invariant U fault root "\<lambda>fs b. inside root fs0 fs" "inside root fs0"
  for U fault root fs0
proof
  fix fs b e fs' b' r
  assume "inside root fs0 fs" "put U fault fs b root e = (fs', b', r)"
  then show "inside root fs0 fs' \<and> (r = None \<longrightarrow> inside root fs0 fs')"
    using put_effect fs_grows_trans unfolding inside_def by blast
qed

text \<open>The regular files added so far are charged to the budget.\<close>

definition node_size :: "fpath \<times> fnode \<Rightarrow> int" where
  "node_size x = (case snd x of FFile m c \<Rightarrow> int (length c) | _ \<Rightarrow> 0)"

definition entry_key :: "fpath \<Rightarrow> fpath \<times> fnode \<Rightarrow> string" where
  "entry_key root x = map lower_char (Join slash (drop (length root) (fst x)))"

definition charged :: "ArchLimits \<Rightarrow> fpath \<Rightarrow> FS \<Rightarrow> FS \<Rightarrow> budget \<Rightarrow> bool" where
  "charged l root fs0 fs b \<longleftrightarrow> bu_l b = l \<and> 0 \<le> bu_n b \<and> 0 \<le> bu_total b
     \<and> (list_all proper_elem root \<and> root \<noteq> [] \<and> limits_valid l \<longrightarrow>
        (\<exists>added. file_nodes fs = file_nodes fs0 @ added
          \<and> int (length added) \<le> bu_n b \<and> bu_n b \<le> al_MaxEntries l
          \<and> sum_list (map node_size added) \<le> bu_total b \<and> bu_total b \<le> al_MaxExpanded l
          \<and> list_all (\<lambda>x. node_size x \<le> al_MaxFile l \<and> below root (fst x)
               \<and> int (length (fst x) - length root) \<le> al_MaxDepth l) added
          \<and> distinct (map (entry_key root) added) \<and> set (map (entry_key root) added) \<subseteq> set (bu_seen b)))"

lemma charged_put:
  assumes "charged l root fs0 fs b" "put U fault fs b root e = (fs', b', None)"
  shows "charged l root fs0 fs' b'"
proof (cases "list_all proper_elem root \<and> root \<noteq> [] \<and> limits_valid l")
  case True
  from assms(1) True obtain added where b: "bu_l b = l" "0 \<le> bu_n b" "0 \<le> bu_total b"
    and a: "file_nodes fs = file_nodes fs0 @ added" "int (length added) \<le> bu_n b"
      "sum_list (map node_size added) \<le> bu_total b"
      "list_all (\<lambda>x. node_size x \<le> al_MaxFile l \<and> below root (fst x)
               \<and> int (length (fst x) - length root) \<le> al_MaxDepth l) added"
      "distinct (map (entry_key root) added)" "set (map (entry_key root) added) \<subseteq> set (bu_seen b)"
    unfolding charged_def by blast
  from put_effect [OF assms(2)] True obtain es where e: "below root (root @ es)"
      "int (length es) \<le> al_MaxDepth (bu_l b)" "0 \<le> ent_size e" "ent_size e \<le> al_MaxFile (bu_l b)"
      "bu_total b + ent_size e \<le> al_MaxExpanded (bu_l b)" "bu_n b < al_MaxEntries (bu_l b)"
      "map lower_char (Join slash es) \<notin> set (bu_seen b)"
      "b' = b\<lparr>bu_seen := map lower_char (Join slash es) # bu_seen b, bu_n := bu_n b + 1,
                 bu_total := bu_total b + ent_size e\<rparr>"
      "file_nodes fs' = file_nodes fs
         \<or> (\<exists>data. int (length data) = ent_size e
              \<and> file_nodes fs' = file_nodes fs @ [(root @ es, FFile mode644 data)])" by blast
  from e(9) show ?thesis
  proof
    assume "file_nodes fs' = file_nodes fs"
    with a b e True show ?thesis unfolding charged_def by (intro conjI impI exI [of _ added]) auto
  next
    assume "\<exists>data. int (length data) = ent_size e
              \<and> file_nodes fs' = file_nodes fs @ [(root @ es, FFile mode644 data)]"
    then obtain data where d: "int (length data) = ent_size e"
      "file_nodes fs' = file_nodes fs @ [(root @ es, FFile mode644 data)]" by blast
    let ?x = "(root @ es, FFile mode644 data)"
    have k: "entry_key root ?x = map lower_char (Join slash es)" by (simp add: entry_key_def)
    have s: "node_size ?x = ent_size e" by (simp add: node_size_def d(1))
    from e(7) a(6) have "entry_key root ?x \<notin> set (map (entry_key root) added)" by (auto simp only: k)
    with a b e d k s True show ?thesis
      unfolding charged_def by (intro conjI impI exI [of _ "added @ [?x]"]) auto
  qed
next
  case False
  have "bu_l b' = bu_l b \<and> bu_n b' = bu_n b + 1 \<and> bu_total b' = bu_total b + ent_size e \<and> 0 \<le> ent_size e"
    using assms(2) by (auto simp: put_def Let_def split: if_splits sum.splits option.splits prod.splits)
  with False assms(1) show ?thesis unfolding charged_def by auto
qed

interpretation budgeted: entry_invariant U fault root "charged l root fs0" "\<lambda>fs. True" for U fault root l fs0
  by unfold_locales (auto intro: charged_put)

section \<open>Properties\<close>

text \<open>C17. Extraction never leaves the staging directory: with no symbolic link on the way to it or in it, whatever
  the archive holds, whichever calls fail and however the extraction ends, a path whose node changed did not
  exist before, it is a directory or a regular file now, and it is a descendant of the staging directory with
  proper elements only, or one of the directories on the way to it (the staging directory included) that were
  missing.\<close>

theorem extract_confined:
  assumes "list_all proper_elem root" "root \<noteq> []" "no_links fs root"
    and "ExtractTarGz U fault fs stream root l = (fs', r) \<or> ExtractZip U fault fs z root l = (fs', r)"
    and "fs_lookup fs' p \<noteq> fs_lookup fs p"
  shows "fs_lookup fs p = None \<and> no_links fs' root
    \<and> ((\<exists>es. p = root @ es \<and> es \<noteq> [] \<and> list_all proper_elem es) \<or> prefix p root)"
proof -
  have i: "inside root fs fs" by (simp add: inside_def)
  from assms(4) have "inside root fs fs'"
  proof
    assume "ExtractTarGz U fault fs stream root l = (fs', r)"
    then show ?thesis using i staged.tar_entries [OF i]
      by (cases stream) (auto simp: ExtractTarGz_def split: if_splits)
  next
    assume "ExtractZip U fault fs z root l = (fs', r)"
    then show ?thesis using i staged.zip_entries [OF i] by (auto simp: ExtractZip_def split: if_splits)
  qed
  then have g: "fs_grows (confined root) fs fs'" using assms(1,2) by (simp add: inside_def)
  from fs_grows_no_links [OF g assms(3)] g assms(5) show ?thesis
    by (auto simp: fs_grows_def confined_def below_def)
qed

text \<open>C18. A successful extraction stays within every limit: the regular files it adds are at most
  \<open>MaxEntries\<close>, each at most \<open>MaxFile\<close> and together at most \<open>MaxExpanded\<close> bytes, at most
  \<open>MaxDepth\<close> elements below the staging directory, and no two of them have names that differ only in
  case. Every earlier file is untouched.\<close>

theorem extract_budget:
  assumes "list_all proper_elem root" "root \<noteq> []"
    and "ExtractTarGz U fault fs stream root l = (fs', None) \<or> ExtractZip U fault fs z root l = (fs', None)"
  shows "\<exists>added. file_nodes fs' = file_nodes fs @ added
    \<and> int (length added) \<le> al_MaxEntries l \<and> sum_list (map node_size added) \<le> al_MaxExpanded l
    \<and> list_all (\<lambda>x. node_size x \<le> al_MaxFile l \<and> below root (fst x)
         \<and> int (length (fst x) - length root) \<le> al_MaxDepth l) added
    \<and> distinct (map (entry_key root) added)"
proof -
  have v: "limits_valid l" using assms(3) by (auto simp: ExtractTarGz_def ExtractZip_def split: if_splits)
  then have c: "charged l root fs fs (new_budget l)"
    unfolding charged_def new_budget_def by (auto simp: limits_valid_def intro: exI [of _ "[]"])
  have "\<exists>b'. charged l root fs fs' b'" using assms(3)
  proof
    assume "ExtractTarGz U fault fs stream root l = (fs', None)"
    then show ?thesis using v budgeted.tar_entries [OF c]
      by (cases stream) (auto simp: ExtractTarGz_def split: if_splits)
  next
    assume "ExtractZip U fault fs z root l = (fs', None)"
    then show ?thesis using v budgeted.zip_entries [OF c] by (auto simp: ExtractZip_def split: if_splits)
  qed
  with v assms(1,2) show ?thesis unfolding charged_def by force
qed

text \<open>One file in a directory, as a zip archive.\<close>

definition demo_zip :: "zip_file list" where
  "demo_zip = [\<lparr>zf_Name = ''css/a.css'', zf_Size64 = 2, zf_Mode = 420, zf_opens = True, zf_data = ''hi'',
     zf_fails = False, zf_ctx = False\<rparr>]"

definition demo_arch_limits :: ArchLimits where
  "demo_arch_limits = \<lparr>al_MaxEntries = 3, al_MaxDepth = 2, al_MaxExpanded = 10, al_MaxFile = 5\<rparr>"

definition demo_fs :: FS where
  "demo_fs = \<lparr>fs_nodes = [([''data''], FDir 493)], fs_calls = 0\<rparr>"

definition demo_extract :: "FS \<times> arch_error option" where
  "demo_extract = ExtractZip (\<lambda>n. n) (\<lambda>n. False) demo_fs demo_zip [''data'', ''stage''] demo_arch_limits"

lemma demo_extract_result:
  "demo_extract = (\<lparr>fs_nodes = [([''data''], FDir 493), ([''data'', ''stage''], FDir 493),
     ([''data'', ''stage'', ''css''], FDir 493), ([''data'', ''stage'', ''css'', ''a.css''], FFile 420 ''hi'')],
     fs_calls = 5\<rparr>, None)"
  by code_simp

lemmas demo_extract_eq = demo_extract_result [unfolded demo_extract_def]

text \<open>A concrete instance.\<close>

theorem extract_confined_witness:
  "fs_lookup demo_fs [''data'', ''stage'', ''css''] = None \<and> fs_lookup (fst demo_extract) [''data'', ''stage'', ''css''] \<noteq> None"
proof -
  have "fs_lookup (fst demo_extract) [''data'', ''stage'', ''css''] = Some (FDir 493)"
    by (simp add: demo_extract_result fs_lookup_def)
  moreover have "fs_lookup demo_fs [''data'', ''stage'', ''css''] = None" by (simp add: demo_fs_def fs_lookup_def)
  moreover have "no_links demo_fs [''data'', ''stage'']"
    by (auto simp: no_links_def demo_fs_def fs_lookup_def split: if_splits)
  ultimately show ?thesis
    using extract_confined [OF _ _ _ disjI2 [OF demo_extract_eq], of "[''data'', ''stage'', ''css'']"]
    by (simp add: proper_elem_def demo_extract_result)
qed

text \<open>A concrete instance.\<close>

theorem extract_budget_witness:
  "\<exists>added. file_nodes (fst demo_extract) = file_nodes demo_fs @ added \<and> length added \<le> 3"
  using extract_budget [OF _ _ disjI2 [OF demo_extract_eq]]
  by (auto simp: proper_elem_def demo_arch_limits_def demo_extract_result)

text \<open>What the loop wrote, \<open>n\<close> turns being complete at the end of a successful copy.\<close>

inductive copied :: "(string \<Rightarrow> nat list) \<Rightarrow> read_step list \<Rightarrow> string \<Rightarrow> string \<Rightarrow> copy_error + Result \<Rightarrow> bool" for sha where
  copied_stop: "copied sha rs out out (Inl e)"
| copied_fail: "copied sha (x # rs) out (out @ rd_Data x) (Inl e)"
| copied_eof: "rd_Status x = ReadEOF \<Longrightarrow> out' = out @ rd_Data x \<Longrightarrow>
    copied sha (x # rs) out out' (Inr \<lparr>up_Bytes = int (length out'), up_SHA256 = sha out'\<rparr>)"
| copied_more: "copied sha rs (out @ rd_Data x) out' r \<Longrightarrow> copied sha (x # rs) out out' r"

lemma copy_loop_copied:
  "copy_loop sha wfault limit k out rs = (out', r) \<Longrightarrow> int (length out) \<le> limit \<Longrightarrow>
    int (length out') \<le> limit \<and> copied sha rs out out' r"
proof (induction sha wfault limit k out rs rule: copy_loop.induct)
  case (2 sha wfault limit k out x rs)
  show ?case
  proof (cases "rd_Done x \<or> length (rd_Data x) > 0 \<and> int (length (rd_Data x)) > limit - int (length out)
      \<or> length (rd_Data x) > 0 \<and> wfault k")
    case True
    with 2(2,3) show ?thesis by (auto split: if_splits intro: copied_stop)
  next
    case False
    then have len: "int (length (out @ rd_Data x)) \<le> limit" using 2(3) by (cases "rd_Data x") auto
    show ?thesis
    proof (cases "rd_Status x")
      case ReadMore
      with 2(1) [OF _ _ _ refl ReadMore] 2(2) False len show ?thesis by (auto simp: Let_def intro: copied_more)
    next
      case ReadEOF
      with copied_eof [OF ReadEOF refl, of sha rs out] 2(2) False len show ?thesis by (auto simp: Let_def)
    next
      case ReadFail
      with copied_fail [of sha x rs out] 2(2) False len show ?thesis by (auto simp: Let_def)
    qed
  qed
qed (auto intro: copied_stop)

lemma copied_prefix: "copied sha rs out out' r \<Longrightarrow> \<exists>u. prefix u (concat (map rd_Data rs)) \<and> out' = out @ u"
  by (induction rule: copied.induct) (auto simp: prefix_def)

lemma copied_complete:
  "copied sha rs out out' (Inr res) \<Longrightarrow> up_Bytes res = int (length out') \<and> up_SHA256 res = sha out'
    \<and> (\<exists>n<length rs. out' = out @ concat (map rd_Data (take (Suc n) rs)) \<and> rd_Status (rs ! n) = ReadEOF)"
proof (induction rs out out' "Inr res :: copy_error + Result" rule: copied.induct)
  case (copied_more rs out x out')
  then obtain n where "n < length rs" "out' = (out @ rd_Data x) @ concat (map rd_Data (take (Suc n) rs))"
    "rd_Status (rs ! n) = ReadEOF" by blast
  with copied_more show ?case by (intro conjI exI [of _ "Suc n"]) simp_all
qed auto

text \<open>An upload is copied exactly or refused: never more than \<open>limit\<close> bytes are written, what is written
  is a prefix of what was read, and a successful copy wrote everything up to the end of the stream, with
  its length and digest in the result.\<close>

theorem upload_copy_exact:
  assumes "Copy sha wfault src limit = (out, r)"
  shows "int (length out) \<le> max 0 limit \<and> prefix out (concat (map rd_Data src))
    \<and> (\<forall>res. r = Inr res \<longrightarrow> up_Bytes res = int (length out) \<and> up_SHA256 res = sha out
        \<and> (\<exists>n<length src. out = concat (map rd_Data (take (Suc n) src)) \<and> rd_Status (src ! n) = ReadEOF))"
proof (cases "limit \<le> 0")
  case False
  with copy_loop_copied [of sha wfault limit 0 "[]" src out r] assms
  have "int (length out) \<le> limit" and c: "copied sha src [] out r" by (simp_all add: Copy_def)
  moreover have "prefix out (concat (map rd_Data src))" using copied_prefix [OF c] by auto
  ultimately show ?thesis using copied_complete [of sha src "[]" out] by auto
qed (use assms in \<open>auto simp: Copy_def\<close>)

text \<open>A concrete instance.\<close>

theorem upload_copy_exact_witness:
  "\<exists>res. Copy bytes (\<lambda>n. False) [\<lparr>rd_Done = False, rd_Data = ''ab'', rd_Status = ReadMore\<rparr>,
      \<lparr>rd_Done = False, rd_Data = ''c'', rd_Status = ReadEOF\<rparr>] 3 = (''abc'', Inr res) \<and> up_SHA256 res = bytes ''abc''"
proof -
  let ?src = "[\<lparr>rd_Done = False, rd_Data = ''ab'', rd_Status = ReadMore\<rparr>, \<lparr>rd_Done = False, rd_Data = ''c'', rd_Status = ReadEOF\<rparr>]"
  obtain res where e: "Copy bytes (\<lambda>n. False) ?src 3 = (''abc'', Inr res)" by (simp add: Copy_def Let_def)
  from upload_copy_exact [OF e] e show ?thesis by blast
qed

end
