(* ===== verification/Deployments.thy ===== *)
theory Deployments
  imports Release_Manifest Release_Files Archive_Extract
begin

text \<open>
  The deployment workflow, \<open>internal/deployments\<close>: service, memory repository, startup recovery
  (\<open>service.go\<close>), filesystem evidence (\<open>recovery.go\<close>), release validation (\<open>validation.go\<close>) and the
  activation store (\<open>activation.go\<close>). A repository is a record of operations over its state \<open>'r\<close>. The operations
  are functions of one run of the code; \<open>interfere\<close> is what happens between the first lookup of an activation and
  its lock. How requests interleave, call by call, is the subject of \<open>Deployment_Runs\<close>.
\<close>

section \<open>Records and repositories\<close>

datatype dep_error =
    ErrDenied | ErrIdempotency | ErrProbe | ErrRateLimited | ErrReplay | DepTransition | DepNotExist | DepIO
  | DepUpload copy_error | DepArchive arch_error | ErrReleaseValidation | DepRelease rfs_error | DepReadOnly | DepStore
  | ErrGate | PolicyNotReady | CertificateNotReady | CandidateProbeFailed | CommitFailed

record Actor =
  actr_ID :: string
  actr_Active :: bool

record Record = Deployment +
  rec_OwnerID :: string
  rec_AppSlug :: string
  rec_IdempotencyKey :: string
  rec_Staging :: fpath
  rec_ArchiveHash :: "nat list"
  rec_Manifest :: "Manifest option"
  rec_Files :: "File list"
  rec_PublicAcknowledged :: bool
  rec_RecoveryCorrupt :: bool

definition zero_record :: Record where
  "zero_record = \<lparr>dp_ID = [], dp_AppID = [], dp_ReleaseHash = [], dp_State = OtherState [], rec_OwnerID = [],
     rec_AppSlug = [], rec_IdempotencyKey = [], rec_Staging = [], rec_ArchiveHash = replicate 32 0,
     rec_Manifest = None, rec_Files = [], rec_PublicAcknowledged = False, rec_RecoveryCorrupt = False\<rparr>"

record 'r Repository =
  rp_Create :: "'r \<Rightarrow> Record \<Rightarrow> 'r \<times> dep_error option"
  rp_Get :: "'r \<Rightarrow> string \<Rightarrow> dep_error + Record"
  rp_Active :: "'r \<Rightarrow> string \<Rightarrow> dep_error + Record option"
  rp_CommitActivation :: "'r \<Rightarrow> Record \<Rightarrow> Record option \<Rightarrow> string \<Rightarrow> 'r \<times> dep_error option"
  rp_ActivationReplay :: "'r \<Rightarrow> Record \<Rightarrow> string \<Rightarrow> dep_error + bool"
  rp_Fail :: "'r \<Rightarrow> string \<Rightarrow> 'r \<times> dep_error option"
  rp_RecoveryRecords :: "'r \<Rightarrow> dep_error + Record list"
  rp_ApplyRecovery :: "'r \<Rightarrow> string \<Rightarrow> State \<Rightarrow> 'r \<times> dep_error option"
  rp_Attempts :: "('r \<Rightarrow> string \<Rightarrow> time \<Rightarrow> dep_error + int) option"

section \<open>The memory repository\<close>

record MemoryRepository =
  mr_Records :: "(string, Record) gomap"
  mr_Current :: "(string, string) gomap"
  mr_FailCommit :: "dep_error option"
  mr_ActivationAudits :: "(string, string) gomap"

definition current_id :: "(string, string) gomap \<Rightarrow> string \<Rightarrow> string" where
  "current_id m app = (case map_of m app of None \<Rightarrow> [] | Some i \<Rightarrow> i)"

definition MemReplay :: "MemoryRepository \<Rightarrow> Record \<Rightarrow> string \<Rightarrow> dep_error + bool" where
  "MemReplay m nxt requestID =
     (case map_of (mr_ActivationAudits m) requestID of
        None \<Rightarrow> Inr False
      | Some target \<Rightarrow>
          if target \<noteq> dp_ID nxt \<or> dp_State nxt \<noteq> Active \<or> current_id (mr_Current m) (dp_AppID nxt) \<noteq> dp_ID nxt
          then Inl ErrReplay else Inr True)"

definition MemCreate :: "MemoryRepository \<Rightarrow> Record \<Rightarrow> MemoryRepository \<times> dep_error option" where
  "MemCreate m r =
     (case map_of (mr_Records m) (dp_ID r) of
        Some old \<Rightarrow>
          if rec_IdempotencyKey old \<noteq> rec_IdempotencyKey r then (m, Some ErrIdempotency)
          else (m\<lparr>mr_Records := AList.update (dp_ID r) r (mr_Records m)\<rparr>, None)
      | None \<Rightarrow> (m\<lparr>mr_Records := AList.update (dp_ID r) r (mr_Records m)\<rparr>, None))"

definition MemGet :: "MemoryRepository \<Rightarrow> string \<Rightarrow> dep_error + Record" where
  "MemGet m i = (case map_of (mr_Records m) i of None \<Rightarrow> Inl DepNotExist | Some r \<Rightarrow> Inr r)"

text \<open>Reading a missing key of a Go map gives the zero value.\<close>

definition record_at :: "(string, Record) gomap \<Rightarrow> string \<Rightarrow> Record" where
  "record_at m i = (case map_of m i of None \<Rightarrow> zero_record | Some r \<Rightarrow> r)"

definition MemActive :: "MemoryRepository \<Rightarrow> string \<Rightarrow> dep_error + Record option" where
  "MemActive m app =
     (let i = current_id (mr_Current m) app in if i = [] then Inr None else Inr (Some (record_at (mr_Records m) i)))"

definition MemCommit :: "MemoryRepository \<Rightarrow> Record \<Rightarrow> Record option \<Rightarrow> string \<Rightarrow> MemoryRepository \<times> dep_error option" where
  "MemCommit m nxt old requestID =
     (case mr_FailCommit m of
        Some e \<Rightarrow> (m, Some e)
      | None \<Rightarrow>
          let records = AList.update (dp_ID nxt) (nxt\<lparr>dp_State := Active\<rparr>) (mr_Records m);
              records' = (case old of None \<Rightarrow> records
                          | Some o' \<Rightarrow> AList.update (dp_ID o') (o'\<lparr>dp_State := Superseded\<rparr>) records)
          in (m\<lparr>mr_Records := records', mr_Current := AList.update (dp_AppID nxt) (dp_ID nxt) (mr_Current m),
                mr_ActivationAudits := AList.update requestID (dp_ID nxt) (mr_ActivationAudits m)\<rparr>, None))"

definition MemFail :: "MemoryRepository \<Rightarrow> string \<Rightarrow> MemoryRepository \<times> dep_error option" where
  "MemFail m i =
     (m\<lparr>mr_Records := AList.update i ((record_at (mr_Records m) i)\<lparr>dp_State := Failed\<rparr>) (mr_Records m)\<rparr>, None)"

definition MemRecoveryRecords :: "MemoryRepository \<Rightarrow> dep_error + Record list" where
  "MemRecoveryRecords m = Inr (map snd (mr_Records m))"

definition MemApplyRecovery :: "MemoryRepository \<Rightarrow> string \<Rightarrow> State \<Rightarrow> MemoryRepository \<times> dep_error option" where
  "MemApplyRecovery m i nxt =
     (case map_of (mr_Records m) i of
        None \<Rightarrow> (m, Some DepNotExist)
      | Some r \<Rightarrow>
          let m1 = m\<lparr>mr_Records := AList.update i (r\<lparr>dp_State := nxt\<rparr>) (mr_Records m)\<rparr>
          in if nxt = Failed \<and> current_id (mr_Current m) (dp_AppID r) = i
             then (m1\<lparr>mr_Current := AList.delete (dp_AppID r) (mr_Current m)\<rparr>, None) else (m1, None))"

definition mem_ops :: "MemoryRepository Repository" where
  "mem_ops = \<lparr>rp_Create = MemCreate, rp_Get = MemGet, rp_Active = MemActive, rp_CommitActivation = MemCommit,
     rp_ActivationReplay = MemReplay, rp_Fail = MemFail, rp_RecoveryRecords = MemRecoveryRecords,
     rp_ApplyRecovery = MemApplyRecovery, rp_Attempts = None\<rparr>"

section \<open>Recovery at startup\<close>

definition Recover :: "Record \<Rightarrow> bool \<Rightarrow> State" where
  "Recover r releaseExists =
     (if rec_RecoveryCorrupt r then Failed
      else if dp_State r \<in> {Uploading, Uploaded, Validating, Staged} then Failed
      else if dp_State r \<in> {Verified, Active, Superseded} then (if \<not> releaseExists then Failed else dp_State r)
      else if dp_State r \<in> {Rejected, Failed} then dp_State r
      else Failed)"

fun recover_all :: "'r Repository \<Rightarrow> (Record \<Rightarrow> bool) \<Rightarrow> 'r \<Rightarrow> Record list \<Rightarrow> 'r \<times> dep_error option" where
  "recover_all ops evidence s [] = (s, None)"
| "recover_all ops evidence s (r # rs) =
     (let nxt = Recover r (evidence r) in
      if nxt \<noteq> dp_State r then
        (case rp_ApplyRecovery ops s (dp_ID r) nxt of
           (s1, Some e) \<Rightarrow> (s1, Some e)
         | (s1, None) \<Rightarrow> recover_all ops evidence s1 rs)
      else recover_all ops evidence s rs)"

definition RecoverStartup :: "'r Repository \<Rightarrow> 'r \<Rightarrow> (Record \<Rightarrow> bool) option \<Rightarrow> 'r \<times> dep_error option" where
  "RecoverStartup ops s evidence =
     (case evidence of
        None \<Rightarrow> (s, Some ErrDenied)
      | Some ev \<Rightarrow>
          (case rp_RecoveryRecords ops s of
             Inl e \<Rightarrow> (s, Some e)
           | Inr records \<Rightarrow> recover_all ops ev s records))"

text \<open>\<open>FilesystemEvidence.Valid\<close>; \<open>None\<close> is the empty root.\<close>

definition EvidenceValid :: "(string \<Rightarrow> nat list) \<Rightarrow> (nat \<Rightarrow> bool) \<Rightarrow> FS \<Rightarrow> fpath option \<Rightarrow> Record \<Rightarrow> bool" where
  "EvidenceValid sha fault fs root r =
     (case root of
        None \<Rightarrow> False
      | Some d \<Rightarrow>
          if \<not> ValidReleaseID (dp_AppID r) \<or> dp_ReleaseHash r = [] \<or> length (rec_Files r) = 0 then False
          else case snd (Inspect sha fault fs (release_dir d (dp_AppID r) (dp_ReleaseHash r))) of
              Inl _ \<Rightarrow> False
            | Inr m \<Rightarrow> FileManifestEqual m \<lparr>fm_Files = rec_Files r, fm_Hash = dp_ReleaseHash r\<rparr>)"

section \<open>Validation of an extracted release\<close>

text \<open>\<open>check\<close>: the path stays below the root and names a regular file.\<close>

definition check_path :: "(nat \<Rightarrow> bool) \<Rightarrow> FS \<Rightarrow> fpath \<Rightarrow> string \<Rightarrow> bool" where
  "check_path fault fs root p =
     (if p = [] \<or> IsAbs p \<or> Contains p [CHR 0x5C] then False
      else
        let full = path_Join root p; rel = path_Rel root full in
        if HasPrefix rel ''..'' then False
        else case snd (Lstat fault fs full) of Inl _ \<Rightarrow> False | Inr n \<Rightarrow> is_file (Some n))"

definition ValidateRelease :: "(nat \<Rightarrow> nat) \<Rightarrow> Yaml \<Rightarrow> (nat \<Rightarrow> bool) \<Rightarrow> FS \<Rightarrow> fpath \<Rightarrow> string \<Rightarrow> dep_error + Manifest" where
  "ValidateRelease U y fault fs root slug =
     (case fs_lookup fs (path_Join root ''tinker.yaml'') of
        Some (FFile m b) \<Rightarrow>
          if fault (fs_calls fs) \<or> length b > 64 * 1024 then Inl ErrReleaseValidation
          else (case ParseManifest U y b of
                  None \<Rightarrow> Inl ErrReleaseValidation
                | Some mf \<Rightarrow>
                    if mf_Name mf \<noteq> slug then Inl ErrReleaseValidation
                    else if \<not> check_path fault (fs_tick fs) root ''index.html''
                         \<or> (mf_SPAFallback mf \<noteq> [] \<and> \<not> check_path fault (fs_tick (fs_tick fs)) root (mf_SPAFallback mf))
                    then Inl ErrReleaseValidation
                    else Inr mf)
      | _ \<Rightarrow> Inl ErrReleaseValidation)"

section \<open>The service\<close>

record 'r Gates =
  gt_Policy :: "'r \<Rightarrow> Record \<Rightarrow> bool"
  gt_Certificate :: "'r \<Rightarrow> Record \<Rightarrow> bool"
  gt_Probe :: "'r \<Rightarrow> Record \<Rightarrow> bool"

record DepService =
  sv_Limits :: ArchLimits
  sv_UploadLimit :: int
  sv_Root :: fpath
  sv_WriteGate :: "dep_error option"
  sv_AttemptLimit :: int

text \<open>\<open>sv_WriteGate\<close> is what the write gate answers (\<open>None\<close> also when there is no gate).\<close>

definition CreateDep :: "(nat \<Rightarrow> nat) \<Rightarrow> 'r Repository \<Rightarrow> DepService \<Rightarrow> 'r \<Rightarrow> time \<Rightarrow> Actor \<Rightarrow> string \<Rightarrow> string \<Rightarrow> string
      \<Rightarrow> string \<Rightarrow> bool list \<Rightarrow> 'r \<times> (dep_error + Record)" where
  "CreateDep U ops sv s now a app slug i key publicAcknowledged =
     (if \<not> actr_Active a \<or> actr_ID a = [] \<or> key = [] \<or> \<not> ValidSlug U slug then (s, Inl ErrDenied)
      else case sv_WriteGate sv of
        Some e \<Rightarrow> (s, Inl e)
      | None \<Rightarrow>
          let limited =
            (if sv_AttemptLimit sv > 0 then
               (case rp_Attempts ops of
                  None \<Rightarrow> None
                | Some counter \<Rightarrow>
                    (case counter s (actr_ID a) (now - hour) of
                       Inl _ \<Rightarrow> Some ErrDenied
                     | Inr count \<Rightarrow> if count \<ge> sv_AttemptLimit sv then Some ErrRateLimited else None))
             else None) in
          case limited of
            Some e \<Rightarrow> (s, Inl e)
          | None \<Rightarrow>
              let r = zero_record\<lparr>dp_ID := i, dp_AppID := app, dp_State := Uploading, rec_OwnerID := actr_ID a,
                        rec_AppSlug := slug, rec_IdempotencyKey := key,
                        rec_PublicAcknowledged := (publicAcknowledged = [True])\<rparr>
              in (case rp_Create ops s r of
                    (s1, Some e) \<Rightarrow> (s1, Inl e)
                  | (s1, None) \<Rightarrow> (s1, Inr r)))"

text \<open>\<open>reject\<close>; every caller ignores its error.\<close>

definition reject :: "'r Repository \<Rightarrow> 'r \<Rightarrow> Record \<Rightarrow> 'r" where
  "reject ops s r =
     (case Transition (dp_State r) Rejected of
        Some _ \<Rightarrow> s
      | None \<Rightarrow> fst (rp_Create ops s (r\<lparr>dp_State := Rejected\<rparr>)))"

text \<open>Moving to the next state and storing the record.\<close>

definition advance :: "'r Repository \<Rightarrow> 'r \<Rightarrow> Record \<Rightarrow> State \<Rightarrow> 'r \<times> dep_error option" where
  "advance ops s r nxt =
     (case Transition (dp_State r) nxt of
        Some _ \<Rightarrow> (s, Some DepTransition)
      | None \<Rightarrow> rp_Create ops s (r\<lparr>dp_State := nxt\<rparr>))"

text \<open>What the outside contributes to an upload: failing calls, the directory \<open>MkdirTemp\<close> picks, the reads of
  the request body, whether a read error is \<open>archive.ErrUnsafe\<close>, and the archive readers.\<close>

record UploadEnv =
  ue_U :: "nat \<Rightarrow> nat"
  ue_yaml :: Yaml
  ue_sha :: "string \<Rightarrow> nat list"
  ue_fault :: "nat \<Rightarrow> bool"
  ue_race :: "FS \<Rightarrow> FS"
  ue_tmp :: "string option"
  ue_src :: "read_step list"
  ue_wfault :: "nat \<Rightarrow> bool"
  ue_src_unsafe :: bool
  ue_tar :: "string \<Rightarrow> tar_header option list option"
  ue_zip :: "string \<Rightarrow> zip_file list option"

definition upload_name :: "string \<Rightarrow> string option" where
  "upload_name contentType =
     (if contentType = ''application/gzip'' then Some ''upload.tar.gz''
      else if contentType \<noteq> ''application/zip'' then None else Some ''upload.zip'')"

text \<open>Receiving the body into the staging directory \<open>dir\<close>, which \<open>MkdirTemp\<close> has just made, so that creating the
  file in it is exclusive.\<close>

definition receive :: "'r Repository \<Rightarrow> DepService \<Rightarrow> UploadEnv \<Rightarrow> FS \<Rightarrow> 'r \<Rightarrow> Record \<Rightarrow> fpath \<Rightarrow> string
      \<Rightarrow> FS \<times> 'r \<times> (dep_error + Result)" where
  "receive ops sv en fs s r dir name =
     (case create_excl (ue_fault en) fs (path_Join dir name) mode644 of
        (fs1, Some _) \<Rightarrow> (fs1, s, Inl DepIO)
      | (fs1, None) \<Rightarrow>
          (case Copy (ue_sha en) (ue_wfault en) (ue_src en) (sv_UploadLimit sv) of
             (out, res) \<Rightarrow>
               let fs2 = fs_put (path_Join dir name) (FFile mode644 out) fs1 in
               (case fs_touch (ue_fault en) fs2 of
                  (fs3, ce) \<Rightarrow>
                    (case res of
                       Inl e \<Rightarrow>
                         (RemoveAll fs3 dir,
                          (if e = CopyRead \<and> ue_src_unsafe en then reject ops s r else fst (rp_Fail ops s (dp_ID r))),
                          Inl (DepUpload e))
                     | Inr x \<Rightarrow> if ce \<noteq> None then (fs3, s, Inl DepIO) else (fs3, s, Inr x)))))"

text \<open>Opening and extracting what was received; the error of \<open>Stat\<close> or of the archive reader counts as one of
  the extraction.\<close>

definition extract_upload :: "DepService \<Rightarrow> UploadEnv \<Rightarrow> FS \<Rightarrow> fpath \<Rightarrow> string \<Rightarrow> string \<Rightarrow> FS \<times> dep_error option" where
  "extract_upload sv en fs dir name contentType =
     (let content = (case fs_lookup fs (path_Join dir name) of Some (FFile m c) \<Rightarrow> c | _ \<Rightarrow> []);
          release = path_Join dir ''release'' in
      case fs_touch (ue_fault en) fs of
        (fs1, Some _) \<Rightarrow> (fs1, Some DepIO)
      | (fs1, None) \<Rightarrow>
          if contentType = ''application/zip'' then
            (case ue_zip en content of
               None \<Rightarrow> (fs1, Some DepIO)
             | Some z \<Rightarrow>
                 (case ExtractZip (ue_U en) (ue_fault en) fs1 z release (sv_Limits sv) of
                    (fs2, e) \<Rightarrow> (fs2, map_option DepArchive e)))
          else
            (case ExtractTarGz (ue_U en) (ue_fault en) fs1 (ue_tar en content) release (sv_Limits sv) of
               (fs2, e) \<Rightarrow> (fs2, map_option DepArchive e)))"

text \<open>From the staged tree to the verified record.\<close>

definition publish :: "'r Repository \<Rightarrow> DepService \<Rightarrow> UploadEnv \<Rightarrow> FS \<Rightarrow> 'r \<Rightarrow> Record \<Rightarrow> fpath \<Rightarrow> Result
      \<Rightarrow> FS \<times> 'r \<times> dep_error option" where
  "publish ops sv en fs s r dir res =
     (case ValidateRelease (ue_U en) (ue_yaml en) (ue_fault en) fs (path_Join dir ''release'') (rec_AppSlug r) of
        Inl e \<Rightarrow> (fs, reject ops s r, Some e)
      | Inr validated \<Rightarrow>
          let r1 = r\<lparr>rec_Manifest := Some validated\<rparr> in
          (case advance ops s r1 Staged of
             (s1, Some e) \<Rightarrow> (fs, s1, Some e)
           | (s1, None) \<Rightarrow>
               let r2 = r1\<lparr>dp_State := Staged\<rparr> in
               (case Finalize (ue_sha en) (ue_fault en) (ue_race en) fs (sv_Root sv) (dp_AppID r) (path_Join dir ''release'') of
                  (fs1, Inl e) \<Rightarrow> (fs1, fst (rp_Fail ops s1 (dp_ID r)), Some (DepRelease e))
                | (fs1, Inr (dest, m)) \<Rightarrow>
                    (case advance ops s1 (r2\<lparr>rec_Staging := dir, dp_ReleaseHash := fm_Hash m, rec_Files := fm_Files m,
                                rec_ArchiveHash := up_SHA256 res\<rparr>) Verified of
                       (s2, e) \<Rightarrow> (fs1, s2, e)))))"

text \<open>The upload once the staging directory exists.\<close>

definition upload_in :: "'r Repository \<Rightarrow> DepService \<Rightarrow> UploadEnv \<Rightarrow> FS \<Rightarrow> 'r \<Rightarrow> Record \<Rightarrow> fpath \<Rightarrow> string \<Rightarrow> string
      \<Rightarrow> FS \<times> 'r \<times> dep_error option" where
  "upload_in ops sv en fs s r dir name contentType =
     (case receive ops sv en fs s r dir name of
        (fs1, s1, Inl e) \<Rightarrow> (fs1, s1, Some e)
      | (fs1, s1, Inr res) \<Rightarrow>
          let r1 = r\<lparr>rec_ArchiveHash := up_SHA256 res\<rparr> in
          (case advance ops s1 r1 Uploaded of
             (s2, Some e) \<Rightarrow> (fs1, s2, Some e)
           | (s2, None) \<Rightarrow>
               let r2 = r1\<lparr>dp_State := Uploaded\<rparr> in
               (case advance ops s2 r2 Validating of
                  (s3, Some e) \<Rightarrow> (fs1, s3, Some e)
                | (s3, None) \<Rightarrow>
                    let r3 = r2\<lparr>dp_State := Validating\<rparr> in
                    (case fs_touch (ue_fault en) fs1 of
                       (fs2, Some _) \<Rightarrow> (fs2, s3, Some DepIO)
                     | (fs2, None) \<Rightarrow>
                         (case extract_upload sv en fs2 dir name contentType of
                            (fs3, Some e) \<Rightarrow> (RemoveAll fs3 dir, reject ops s3 r3, Some e)
                          | (fs3, None) \<Rightarrow> publish ops sv en fs3 s3 r3 dir res)))))"

definition Upload :: "'r Repository \<Rightarrow> DepService \<Rightarrow> UploadEnv \<Rightarrow> FS \<Rightarrow> 'r \<Rightarrow> Actor \<Rightarrow> string \<Rightarrow> string
      \<Rightarrow> FS \<times> 'r \<times> dep_error option" where
  "Upload ops sv en fs s a i contentType =
     (case rp_Get ops s i of
        Inl _ \<Rightarrow> (fs, s, Some ErrDenied)
      | Inr r \<Rightarrow>
          if rec_OwnerID r \<noteq> actr_ID a \<or> \<not> actr_Active a then (fs, s, Some ErrDenied)
          else if dp_State r \<noteq> Uploading then (fs, s, Some DepTransition)
          else case ue_tmp en of
            None \<Rightarrow> (fs, s, Some DepIO)
          | Some tmp \<Rightarrow>
              let dir = sv_Root sv @ [tmp]; fs1 = fs_put dir (FDir 448) fs in
              (case upload_name contentType of
                 None \<Rightarrow> (RemoveAll fs1 dir, s, Some ErrDenied)
               | Some name \<Rightarrow>
                   (case upload_in ops sv en fs1 s r dir name contentType of
                      (fs2, s1, e) \<Rightarrow> (RemoveAll fs2 dir, s1, e))))"

text \<open>Two lookups, the second under the lock of the app.\<close>

definition activationRecord :: "'r Repository \<Rightarrow> ('r \<Rightarrow> 'r) \<Rightarrow> 'r \<Rightarrow> Actor \<Rightarrow> string \<Rightarrow> 'r \<times> (dep_error + Record)" where
  "activationRecord ops interfere s a i =
     (case rp_Get ops s i of
        Inl _ \<Rightarrow> (s, Inl ErrDenied)
      | Inr initial \<Rightarrow>
          if rec_OwnerID initial \<noteq> actr_ID a \<or> dp_AppID initial = [] \<or> \<not> actr_Active a then (s, Inl ErrDenied)
          else
            let s1 = interfere s in
            (case rp_Get ops s1 i of
               Inl _ \<Rightarrow> (s1, Inl ErrDenied)
             | Inr r \<Rightarrow>
                 if rec_OwnerID r \<noteq> actr_ID a \<or> dp_AppID r \<noteq> dp_AppID initial \<or> \<not> actr_Active a
                 then (s1, Inl ErrDenied) else (s1, Inr r)))"

definition ActivateDep :: "'r Repository \<Rightarrow> 'r Gates \<Rightarrow> ('r \<Rightarrow> 'r) \<Rightarrow> 'r \<Rightarrow> Actor \<Rightarrow> string \<Rightarrow> string \<Rightarrow> 'r \<times> dep_error option" where
  "ActivateDep ops gates interfere s a i requestID =
     (if requestID = [] then (s, Some ErrDenied)
      else case activationRecord ops interfere s a i of
        (s1, Inl e) \<Rightarrow> (s1, Some e)
      | (s1, Inr r) \<Rightarrow>
          (case rp_ActivationReplay ops s1 r requestID of
             Inl _ \<Rightarrow> (s1, Some CommitFailed)
           | Inr True \<Rightarrow> (s1, None)
           | Inr False \<Rightarrow>
               (case rp_Active ops s1 (dp_AppID r) of
                  Inl _ \<Rightarrow> (s1, Some CommitFailed)
                | Inr old \<Rightarrow>
                    if \<not> gt_Policy gates s1 r then (s1, Some PolicyNotReady)
                    else if \<not> gt_Certificate gates s1 r then (s1, Some CertificateNotReady)
                    else if \<not> gt_Probe gates s1 r then (s1, Some CandidateProbeFailed)
                    else if CanActivate r \<lparr>ar_PolicyReady = True, ar_CertificateReady = True, ar_DenialProbePassed = True\<rparr> \<noteq> None
                    then (s1, Some CommitFailed)
                    else (case rp_CommitActivation ops s1 r old requestID of
                            (s2, Some _) \<Rightarrow> (s2, Some CommitFailed)
                          | (s2, None) \<Rightarrow> (s2, None)))))"

definition ActivationReplay :: "'r Repository \<Rightarrow> ('r \<Rightarrow> 'r) \<Rightarrow> 'r \<Rightarrow> Actor \<Rightarrow> string \<Rightarrow> string \<Rightarrow> 'r \<times> (dep_error + bool)" where
  "ActivationReplay ops interfere s a i requestID =
     (if requestID = [] then (s, Inl ErrDenied)
      else case activationRecord ops interfere s a i of
        (s1, Inl e) \<Rightarrow> (s1, Inl e)
      | (s1, Inr r) \<Rightarrow> (s1, rp_ActivationReplay ops s1 r requestID))"

text \<open>\<open>ActivationStore.Activate\<close>.\<close>

record ActivationStore =
  as_Records :: "(string, Record) gomap"
  as_Current :: "(string, string) gomap"

definition StoreActivate :: "ActivationStore \<Rightarrow> string \<Rightarrow> string \<Rightarrow> ActivationRequirements \<Rightarrow> bool \<Rightarrow> ActivationStore \<times> dep_error option" where
  "StoreActivate s actor i q probe =
     (case map_of (as_Records s) i of
        None \<Rightarrow> (s, Some ErrDenied)
      | Some d \<Rightarrow>
          if rec_OwnerID d \<noteq> actor \<or> dp_State d \<noteq> Verified then (s, Some ErrDenied)
          else if \<not> ar_PolicyReady q \<or> \<not> ar_CertificateReady q \<or> \<not> ar_DenialProbePassed q then (s, Some ErrGate)
          else
            let old = current_id (as_Current s) (dp_AppID d) in
            if \<not> probe then
              (s\<lparr>as_Current := AList.update (dp_AppID d) old (as_Current s),
                 as_Records := AList.update i (d\<lparr>dp_State := Failed\<rparr>) (as_Records s)\<rparr>, Some ErrProbe)
            else
              let records = AList.update i (d\<lparr>dp_State := Active\<rparr>) (as_Records s) in
              (s\<lparr>as_Current := AList.update (dp_AppID d) i (as_Current s),
                 as_Records := (if old \<noteq> [] then AList.update old ((record_at records old)\<lparr>dp_State := Superseded\<rparr>) records
                                else records)\<rparr>, None))"

section \<open>What the service relies on in a repository\<close>

text \<open>A record on its way through an upload keeps its identity and is never active.\<close>

definition same_upload :: "Record \<Rightarrow> Record \<Rightarrow> bool" where
  "same_upload r r' \<longleftrightarrow> dp_ID r' = dp_ID r \<and> dp_AppID r' = dp_AppID r \<and> rec_OwnerID r' = rec_OwnerID r
     \<and> rec_AppSlug r' = rec_AppSlug r \<and> rec_IdempotencyKey r' = rec_IdempotencyKey r
     \<and> rec_PublicAcknowledged r' = rec_PublicAcknowledged r"

definition upload_states :: "State set" where
  "upload_states = {Uploaded, Validating, Staged, Verified, Rejected, Failed}"

definition progress :: "Record \<Rightarrow> Record \<Rightarrow> bool" where
  "progress r r' \<longleftrightarrow> same_upload r r' \<and> (r' = r \<or> dp_State r' \<in> upload_states)"

lemma same_upload_refl [simp]: "same_upload r r"
  by (simp add: same_upload_def)

lemma same_upload_trans: "same_upload a b \<Longrightarrow> same_upload b c \<Longrightarrow> same_upload a c"
  by (simp add: same_upload_def)

lemma same_upload_update [simp]:
  "same_upload r (r'\<lparr>dp_State := x\<rparr>) = same_upload r r'" "same_upload r (r'\<lparr>rec_Manifest := mf\<rparr>) = same_upload r r'"
  "same_upload r (r'\<lparr>rec_Staging := d\<rparr>) = same_upload r r'" "same_upload r (r'\<lparr>dp_ReleaseHash := h\<rparr>) = same_upload r r'"
  "same_upload r (r'\<lparr>rec_Files := fl\<rparr>) = same_upload r r'" "same_upload r (r'\<lparr>rec_ArchiveHash := ah\<rparr>) = same_upload r r'"
  by (simp_all add: same_upload_def)

lemma same_upload_ids: "same_upload r r' \<Longrightarrow> dp_ID r' = dp_ID r \<and> rec_IdempotencyKey r' = rec_IdempotencyKey r"
  by (simp add: same_upload_def)

lemma progress_refl [simp]: "progress r r"
  by (simp add: progress_def)

lemma progress_trans: "progress a b \<Longrightarrow> progress b c \<Longrightarrow> progress a c"
  by (auto simp: progress_def intro: same_upload_trans)

text \<open>Storing a known record under its idempotency key replaces it, failing a record changes its state at most,
  and neither touches anything else (\<open>rest\<close>).\<close>

locale record_store =
  fixes ops :: "'r Repository" and look :: "'r \<Rightarrow> string \<Rightarrow> Record option" and rest :: "'r \<Rightarrow> 'x"
  assumes get: "rp_Get ops s i = Inr r \<longleftrightarrow> look s i = Some r"
    and create: "look s (dp_ID r) = Some old \<Longrightarrow> rec_IdempotencyKey old = rec_IdempotencyKey r \<Longrightarrow>
      rp_Create ops s r = (s', e) \<Longrightarrow> (e = None \<and> look s' = (look s)(dp_ID r \<mapsto> r) \<or> e \<noteq> None \<and> look s' = look s) \<and> rest s' = rest s"
    and fail: "look s i = Some r \<Longrightarrow> rp_Fail ops s i = (s', e) \<Longrightarrow>
      (look s' = look s \<or> look s' = (look s)(i \<mapsto> r\<lparr>dp_State := Failed\<rparr>)) \<and> rest s' = rest s"
begin

definition moved :: "string \<Rightarrow> 'r \<Rightarrow> 'r \<Rightarrow> bool" where
  "moved i s s' \<longleftrightarrow> rest s' = rest s \<and> (\<forall>j. j \<noteq> i \<longrightarrow> look s' j = look s j)
     \<and> (\<forall>r. look s i = Some r \<longrightarrow> (\<exists>r'. look s' i = Some r' \<and> progress r r'))"

lemma moved_refl [simp]: "moved i s s"
  by (simp add: moved_def)

lemma moved_trans: "moved i s s1 \<Longrightarrow> moved i s1 s2 \<Longrightarrow> moved i s s2"
  unfolding moved_def by (metis progress_trans)

lemma put_moved:
  assumes "look s i = Some old" "same_upload old r" "dp_ID old = i" "rp_Create ops s r = (s', e)"
    and "dp_State r \<in> upload_states"
  shows "moved i s s' \<and> (e = None \<longrightarrow> look s' i = Some r)"
proof -
  have i: "dp_ID r = i" "rec_IdempotencyKey old = rec_IdempotencyKey r"
    using same_upload_ids [OF assms(2)] assms(3) by simp_all
  from create [of s r old s' e] assms(1,2,4,5) i show ?thesis
    by (auto simp: moved_def progress_def)
qed

lemma advance_moved:
  assumes "advance ops s r nxt = (s', e)" "look s i = Some old" "same_upload old r" "dp_ID old = i"
    and "nxt \<in> upload_states"
  shows "moved i s s' \<and> (e = None \<longrightarrow> look s' i = Some (r\<lparr>dp_State := nxt\<rparr>))"
proof (cases "Transition (dp_State r) nxt")
  case None
  with assms(1) have "rp_Create ops s (r\<lparr>dp_State := nxt\<rparr>) = (s', e)" by (simp add: advance_def)
  from put_moved [OF assms(2) _ assms(4) this] assms(3,5) show ?thesis by simp
qed (use assms in \<open>auto simp: advance_def\<close>)

lemma reject_moved:
  assumes "look s i = Some old" "same_upload old r" "dp_ID old = i"
  shows "moved i s (reject ops s r)"
proof (cases "Transition (dp_State r) Rejected")
  case None
  obtain s' e where c: "rp_Create ops s (r\<lparr>dp_State := Rejected\<rparr>) = (s', e)" by fastforce
  from put_moved [OF assms(1) _ assms(3) c] assms(2) None c show ?thesis by (simp add: reject_def upload_states_def)
qed (simp add: reject_def)

lemma fail_moved:
  assumes "look s i = Some r" shows "moved i s (fst (rp_Fail ops s i))"
proof -
  obtain s' e where f: "rp_Fail ops s i = (s', e)" by fastforce
  from fail [OF assms f] assms f show ?thesis by (auto simp: moved_def progress_def upload_states_def)
qed

lemma receive_moved:
  assumes "receive ops sv en fs s r dir name = (fs', s', x)" "look s i = Some r" "dp_ID r = i"
  shows "moved i s s' \<and> (\<forall>res. x = Inr res \<longrightarrow> s' = s)"
proof -
  have "moved i s (reject ops s r)" "moved i s (fst (rp_Fail ops s (dp_ID r)))"
    using reject_moved [OF assms(2) same_upload_refl assms(3)] fail_moved [OF assms(2)] assms(3) by simp_all
  with assms(1) show ?thesis
    by (auto simp: receive_def Let_def split: prod.splits option.splits sum.splits if_splits)
qed

text \<open>A successful publication stores the verified record of the finalized tree.\<close>

lemma publish_moved:
  assumes "publish ops sv en fs s r dir res = (fs', s', e)" "look s i = Some r" "dp_ID r = i"
  shows "moved i s s' \<and> (e = None \<longrightarrow> (\<exists>mf m dest.
      ValidateRelease (ue_U en) (ue_yaml en) (ue_fault en) fs (path_Join dir ''release'') (rec_AppSlug r) = Inr mf
      \<and> Finalize (ue_sha en) (ue_fault en) (ue_race en) fs (sv_Root sv) (dp_AppID r) (path_Join dir ''release'') = (fs', Inr (dest, m))
      \<and> look s' i = Some (r\<lparr>rec_Manifest := Some mf, rec_Staging := dir, dp_ReleaseHash := fm_Hash m,
            rec_Files := fm_Files m, rec_ArchiveHash := up_SHA256 res, dp_State := Verified\<rparr>)))"
proof (cases "ValidateRelease (ue_U en) (ue_yaml en) (ue_fault en) fs (path_Join dir ''release'') (rec_AppSlug r)")
  case (Inl x)
  with assms(1) reject_moved [OF assms(2) same_upload_refl assms(3)] show ?thesis by (auto simp: publish_def)
next
  case (Inr mf)
  let ?r1 = "r\<lparr>rec_Manifest := Some mf\<rparr>"
  obtain s1 e1 where a: "advance ops s ?r1 Staged = (s1, e1)" by fastforce
  have m1: "moved i s s1 \<and> (e1 = None \<longrightarrow> look s1 i = Some (?r1\<lparr>dp_State := Staged\<rparr>))"
    using advance_moved [OF a assms(2) _ assms(3)] by (simp add: upload_states_def)
  show ?thesis
  proof (cases e1)
    case (Some y)
    with assms(1) Inr a have "s' = s1" "e \<noteq> None" by (auto simp: publish_def)
    with m1 show ?thesis by blast
  next
    case None
    let ?r2 = "?r1\<lparr>dp_State := Staged\<rparr>"
    from m1 None have l1: "look s1 i = Some ?r2" and mv: "moved i s s1" by simp_all
    obtain fs1 f where fin: "Finalize (ue_sha en) (ue_fault en) (ue_race en) fs (sv_Root sv) (dp_AppID r)
        (path_Join dir ''release'') = (fs1, f)" by fastforce
    show ?thesis
    proof (cases f)
      case (Inl y)
      with assms(1,3) Inr a None fin moved_trans [OF mv fail_moved [OF l1]] show ?thesis
        by (auto simp: publish_def Let_def)
    next
      case f: (Inr dm)
      obtain dest m where dm: "dm = (dest, m)" by (cases dm)
      let ?r3 = "?r2\<lparr>rec_Staging := dir, dp_ReleaseHash := fm_Hash m, rec_Files := fm_Files m, rec_ArchiveHash := up_SHA256 res\<rparr>"
      obtain s2 e2 where b: "advance ops s1 ?r3 Verified = (s2, e2)" by fastforce
      have su: "same_upload ?r2 ?r3" "dp_ID ?r2 = i" using assms(3) by (simp_all add: same_upload_def)
      from advance_moved [OF b l1 su] moved_trans [OF mv]
      have "moved i s s2 \<and> (e2 = None \<longrightarrow> look s2 i = Some (?r3\<lparr>dp_State := Verified\<rparr>))"
        by (auto simp: upload_states_def)
      with assms(1) Inr a None fin f dm b show ?thesis by (auto simp: publish_def Let_def)
    qed
  qed
qed

lemma upload_in_moved:
  assumes "upload_in ops sv en fs s r dir name contentType = (fs', s', e)" "look s i = Some r" "dp_ID r = i"
  shows "moved i s s' \<and> (e = None \<longrightarrow> (\<exists>fsx mf m dest r'.
      ValidateRelease (ue_U en) (ue_yaml en) (ue_fault en) fsx (path_Join dir ''release'') (rec_AppSlug r) = Inr mf
      \<and> Finalize (ue_sha en) (ue_fault en) (ue_race en) fsx (sv_Root sv) (dp_AppID r) (path_Join dir ''release'') = (fs', Inr (dest, m))
      \<and> look s' i = Some r' \<and> same_upload r r' \<and> dp_State r' = Verified \<and> rec_Manifest r' = Some mf
      \<and> dp_ReleaseHash r' = fm_Hash m \<and> rec_Files r' = fm_Files m))"
proof -
  obtain fs1 s1 x where rc: "receive ops sv en fs s r dir name = (fs1, s1, x)" by (metis prod_cases3)
  note rm = receive_moved [OF rc assms(2,3)]
  show ?thesis
  proof (cases x)
    case (Inl y)
    with assms(1) rc rm show ?thesis by (auto simp: upload_in_def)
  next
    case (Inr res)
    with rm have s1: "s1 = s" by blast
    let ?r1 = "r\<lparr>rec_ArchiveHash := up_SHA256 res\<rparr>"
    obtain s2 e2 where a: "advance ops s ?r1 Uploaded = (s2, e2)" by fastforce
    have m2: "moved i s s2 \<and> (e2 = None \<longrightarrow> look s2 i = Some (?r1\<lparr>dp_State := Uploaded\<rparr>))"
      using advance_moved [OF a assms(2) _ assms(3)] by (simp add: upload_states_def)
    show ?thesis
    proof (cases e2)
      case (Some y)
      with assms(1) rc Inr s1 a have "s' = s2" "e \<noteq> None" by (auto simp: upload_in_def)
      with m2 show ?thesis by blast
    next
      case e2: None
      let ?r2 = "?r1\<lparr>dp_State := Uploaded\<rparr>"
      obtain s3 e3 where b: "advance ops s2 ?r2 Validating = (s3, e3)" by fastforce
      from m2 e2 have l2: "look s2 i = Some ?r2" and mv2: "moved i s s2" by simp_all
      have "moved i s2 s3 \<and> (e3 = None \<longrightarrow> look s3 i = Some (?r2\<lparr>dp_State := Validating\<rparr>))"
        using advance_moved [OF b l2] assms(3) by (simp add: upload_states_def)
      with mv2 have m3: "moved i s s3 \<and> (e3 = None \<longrightarrow> look s3 i = Some (?r2\<lparr>dp_State := Validating\<rparr>))"
        using moved_trans by blast
      show ?thesis
      proof (cases e3)
        case (Some y)
        with assms(1) rc Inr s1 a e2 b have "s' = s3" "e \<noteq> None" by (auto simp: upload_in_def)
        with m3 show ?thesis by blast
      next
        case e3: None
        let ?r3 = "?r2\<lparr>dp_State := Validating\<rparr>"
        from m3 e3 have l3: "look s3 i = Some ?r3" and mv3: "moved i s s3" by simp_all
        have i3: "dp_ID ?r3 = i" using assms(3) by simp
        obtain fs2 t where tt: "fs_touch (ue_fault en) fs1 = (fs2, t)" by fastforce
        show ?thesis
        proof (cases t)
          case (Some y)
          with assms(1) rc Inr s1 a e2 b e3 tt have "s' = s3" "e \<noteq> None" by (auto simp: upload_in_def)
          with m3 show ?thesis by blast
        next
          case t: None
          obtain fs3 x3 where ex: "extract_upload sv en fs2 dir name contentType = (fs3, x3)" by fastforce
          show ?thesis
          proof (cases x3)
            case (Some y)
            with assms(1) rc Inr s1 a e2 b e3 tt t ex have "s' = reject ops s3 ?r3" "e \<noteq> None"
              by (auto simp: upload_in_def)
            moreover have "moved i s (reject ops s3 ?r3)"
              by (rule moved_trans [OF mv3 reject_moved [OF l3 same_upload_refl i3]])
            ultimately show ?thesis by blast
          next
            case None
            with assms(1) rc Inr s1 a e2 b e3 tt t ex have p: "publish ops sv en fs3 s3 ?r3 dir res = (fs', s', e)"
              by (simp add: upload_in_def Let_def)
            from publish_moved [OF p l3 i3] mv3 have "moved i s s'" using moved_trans by blast
            moreover have "\<exists>fsx mf m dest r'.
                ValidateRelease (ue_U en) (ue_yaml en) (ue_fault en) fsx (path_Join dir ''release'') (rec_AppSlug r) = Inr mf
                \<and> Finalize (ue_sha en) (ue_fault en) (ue_race en) fsx (sv_Root sv) (dp_AppID r) (path_Join dir ''release'') = (fs', Inr (dest, m))
                \<and> look s' i = Some r' \<and> same_upload r r' \<and> dp_State r' = Verified \<and> rec_Manifest r' = Some mf
                \<and> dp_ReleaseHash r' = fm_Hash m \<and> rec_Files r' = fm_Files m" if "e = None"
            proof -
              from publish_moved [OF p l3 i3] that obtain mf m dest where
                "ValidateRelease (ue_U en) (ue_yaml en) (ue_fault en) fs3 (path_Join dir ''release'') (rec_AppSlug r) = Inr mf"
                "Finalize (ue_sha en) (ue_fault en) (ue_race en) fs3 (sv_Root sv) (dp_AppID r) (path_Join dir ''release'') = (fs', Inr (dest, m))"
                "look s' i = Some (?r3\<lparr>rec_Manifest := Some mf, rec_Staging := dir, dp_ReleaseHash := fm_Hash m,
                  rec_Files := fm_Files m, rec_ArchiveHash := up_SHA256 res, dp_State := Verified\<rparr>)" by auto
              moreover define r' where "r' = ?r3\<lparr>rec_Manifest := Some mf, rec_Staging := dir, dp_ReleaseHash := fm_Hash m,
                  rec_Files := fm_Files m, rec_ArchiveHash := up_SHA256 res, dp_State := Verified\<rparr>"
              moreover from this have "same_upload r r' \<and> dp_State r' = Verified \<and> rec_Manifest r' = Some mf
                \<and> dp_ReleaseHash r' = fm_Hash m \<and> rec_Files r' = fm_Files m" by (simp add: same_upload_def)
              ultimately show ?thesis by metis
            qed
            ultimately show ?thesis by blast
          qed
        qed
      qed
    qed
  qed
qed

lemma upload_moved:
  assumes "Upload ops sv en fs s a i contentType = (fs', s', e)" "look s i = Some r" "dp_ID r = i"
  shows "moved i s s' \<and> (s' \<noteq> s \<or> e = None \<longrightarrow> rec_OwnerID r = actr_ID a \<and> actr_Active a \<and> dp_State r = Uploading)
    \<and> (e = None \<longrightarrow> (\<exists>tmp fsx fsy mf m dest r'. ue_tmp en = Some tmp
      \<and> ValidateRelease (ue_U en) (ue_yaml en) (ue_fault en) fsx (path_Join (sv_Root sv @ [tmp]) ''release'') (rec_AppSlug r) = Inr mf
      \<and> Finalize (ue_sha en) (ue_fault en) (ue_race en) fsx (sv_Root sv) (dp_AppID r) (path_Join (sv_Root sv @ [tmp]) ''release'')
          = (fsy, Inr (dest, m)) \<and> fs' = RemoveAll fsy (sv_Root sv @ [tmp])
      \<and> look s' i = Some r' \<and> same_upload r r' \<and> dp_State r' = Verified \<and> rec_Manifest r' = Some mf
      \<and> dp_ReleaseHash r' = fm_Hash m \<and> rec_Files r' = fm_Files m))"
proof -
  have g: "rp_Get ops s i = Inr r" using assms(2) get by blast
  show ?thesis
  proof (cases "rec_OwnerID r = actr_ID a \<and> actr_Active a \<and> dp_State r = Uploading")
    case False
    with assms(1) g have "s' = s" "e \<noteq> None" by (auto simp: Upload_def split: if_splits)
    then show ?thesis using moved_refl by blast
  next
    case ok: True
    show ?thesis
    proof (cases "ue_tmp en")
      case None
      with assms(1) g ok have "s' = s" "e \<noteq> None" by (auto simp: Upload_def)
      then show ?thesis using moved_refl by blast
    next
      case tmp: (Some tmp)
      let ?d = "sv_Root sv @ [tmp]"
      show ?thesis
      proof (cases "upload_name contentType")
        case None
        with assms(1) g ok tmp have "s' = s" "e \<noteq> None" by (auto simp: Upload_def Let_def)
        then show ?thesis using moved_refl by blast
      next
        case (Some name)
        obtain fs2 s2 e2 where u: "upload_in ops sv en (fs_put ?d (FDir 448) fs) s r ?d name contentType = (fs2, s2, e2)"
          by (metis prod_cases3)
        with assms(1) g ok tmp Some have "fs' = RemoveAll fs2 ?d" "s' = s2" "e = e2" by (auto simp: Upload_def Let_def)
        with upload_in_moved [OF u assms(2,3)] ok tmp show ?thesis by blast
      qed
    qed
  qed
qed

end

text \<open>The memory repository keeps the contract.\<close>

definition mem_look :: "MemoryRepository \<Rightarrow> string \<Rightarrow> Record option" where
  "mem_look m i = map_of (mr_Records m) i"

definition mem_rest :: "MemoryRepository \<Rightarrow> (string, string) gomap \<times> (string, string) gomap \<times> dep_error option \<times> bool" where
  "mem_rest m = (mr_Current m, mr_ActivationAudits m, mr_FailCommit m, gm_wf (mr_Records m))"

lemma mem_look_update: "mem_look (m\<lparr>mr_Records := AList.update i r (mr_Records m)\<rparr>) = (mem_look m)(i \<mapsto> r)"
  by (auto simp: mem_look_def gomap_simps)

lemma gm_wf_update_present: "map_of m i = Some x \<Longrightarrow> gm_wf (AList.update i r m) = gm_wf m"
proof -
  assume "map_of m i = Some x"
  then have "i \<in> set (map fst m)" by (force dest: map_of_SomeD)
  then have "map fst (AList.update i r m) = map fst m" by (simp add: update_keys)
  then show ?thesis by simp
qed

interpretation mem_store: record_store mem_ops mem_look mem_rest
proof
  fix s i r
  show "rp_Get mem_ops s i = Inr r \<longleftrightarrow> mem_look s i = Some r"
    by (auto simp: mem_ops_def MemGet_def mem_look_def split: option.splits)
next
  fix s r old s' e
  assume "mem_look s (dp_ID r) = Some old" "rec_IdempotencyKey old = rec_IdempotencyKey r" "rp_Create mem_ops s r = (s', e)"
  then show "(e = None \<and> mem_look s' = (mem_look s)(dp_ID r \<mapsto> r) \<or> e \<noteq> None \<and> mem_look s' = mem_look s) \<and> mem_rest s' = mem_rest s"
    using mem_look_update [of "dp_ID r" r s] gm_wf_update_present [of "mr_Records s" "dp_ID r" old r]
    by (auto simp: mem_ops_def MemCreate_def mem_look_def [of s "dp_ID r"] mem_rest_def)
next
  fix s i r s' e
  assume a: "mem_look s i = Some r" "rp_Fail mem_ops s i = (s', e)"
  then have "record_at (mr_Records s) i = r" by (simp add: mem_look_def record_at_def)
  with a show "(mem_look s' = mem_look s \<or> mem_look s' = (mem_look s)(i \<mapsto> r\<lparr>dp_State := Failed\<rparr>)) \<and> mem_rest s' = mem_rest s"
    using mem_look_update [of i "r\<lparr>dp_State := Failed\<rparr>" s] gm_wf_update_present [of "mr_Records s" i r]
    by (auto simp: mem_ops_def MemFail_def mem_look_def [of s i] mem_rest_def)
qed

text \<open>The cases of an activation, for any repository.\<close>

lemma ActivateDep_cases:
  assumes "ActivateDep ops gates interfere s a i requestID = (s', e)"
  obtains "e \<noteq> None" "s' = s \<or> s' = interfere s"
  | r where "rp_Get ops (interfere s) i = Inr r" "rec_OwnerID r = actr_ID a" "actr_Active a" "dp_AppID r \<noteq> []" "requestID \<noteq> []"
      "rp_ActivationReplay ops (interfere s) r requestID = Inr True" "s' = interfere s" "e = None"
  | r old e' where "rp_Get ops (interfere s) i = Inr r" "rec_OwnerID r = actr_ID a" "actr_Active a" "dp_AppID r \<noteq> []" "requestID \<noteq> []"
      "rp_ActivationReplay ops (interfere s) r requestID = Inr False" "dp_State r = Verified"
      "gt_Policy gates (interfere s) r" "gt_Certificate gates (interfere s) r" "gt_Probe gates (interfere s) r"
      "rp_Active ops (interfere s) (dp_AppID r) = Inr old"
      "rp_CommitActivation ops (interfere s) r old requestID = (s', e')" "e = map_option (\<lambda>_. CommitFailed) e'"
proof (cases "activationRecord ops interfere s a i")
  case (Pair s1 x)
  show ?thesis
  proof (cases "\<exists>r. x = Inr r \<and> requestID \<noteq> []")
    case False
    with Pair assms have "e \<noteq> None" "s' = s \<or> s' = s1" by (cases x; auto simp: ActivateDep_def split: if_splits)+
    moreover have "s1 = s \<or> s1 = interfere s"
      using Pair by (auto simp: activationRecord_def Let_def split: sum.splits if_splits)
    ultimately show ?thesis using that(1) by blast
  next
    case True
    then obtain r where x: "x = Inr r" "requestID \<noteq> []" by blast
    from Pair x(1) have r: "s1 = interfere s" "rp_Get ops (interfere s) i = Inr r" "rec_OwnerID r = actr_ID a" "actr_Active a" "dp_AppID r \<noteq> []"
      by (auto simp: activationRecord_def Let_def split: sum.splits if_splits)
    note a = assms [unfolded ActivateDep_def Pair x(1) prod.case sum.case r(1)]
    show ?thesis
    proof (cases "rp_ActivationReplay ops (interfere s) r requestID")
      case (Inl y)
      with a x(2) have "e \<noteq> None" "s' = interfere s" by auto
      then show ?thesis using that(1) by blast
    next
      case (Inr b)
      show ?thesis
      proof (cases b)
        case True
        with Inr have rep: "rp_ActivationReplay ops (interfere s) r requestID = Inr True" by simp
        with a x(2) have "s' = interfere s" "e = None" by simp_all
        with that(2) [OF r(2-5) x(2) rep] show ?thesis by blast
      next
        case nb: False
        show ?thesis
        proof (cases "rp_Active ops (interfere s) (dp_AppID r)")
          case (Inl y)
          with a x(2) Inr nb have "e \<noteq> None" "s' = interfere s" by auto
          then show ?thesis using that(1) by blast
        next
          case old: (Inr old)
          obtain s2 e' where c: "rp_CommitActivation ops (interfere s) r old requestID = (s2, e')" by fastforce
          show ?thesis
          proof (cases "gt_Policy gates (interfere s) r \<and> gt_Certificate gates (interfere s) r
              \<and> gt_Probe gates (interfere s) r \<and> dp_State r = Verified")
            case False
            with a x(2) Inr nb old have "e \<noteq> None" "s' = interfere s" by (auto simp: CanActivate_def split: if_splits)
            then show ?thesis using that(1) by blast
          next
            case True
            with a x(2) Inr nb old c have "s' = s2" "e = map_option (\<lambda>_. CommitFailed) e'"
              by (cases e'; auto simp: CanActivate_def)+
            moreover from Inr nb have "rp_ActivationReplay ops (interfere s) r requestID = Inr False" by simp
            ultimately show ?thesis using that(3) [OF r(2-5) x(2)] True old c by blast
          qed
        qed
      qed
    qed
  qed
qed

lemma mem_lookup_get: "rp_Get mem_ops m i = Inr r \<longleftrightarrow> mem_look m i = Some r"
  by (rule mem_store.get)

end
