(* ===== verification/Deployment_Runs.thy ===== *)
theory Deployment_Runs
  imports Deployments
begin

text \<open>
  The deployment service under interleaving: which repositories requests can lead to when an upload gives way to
  others between any two of its calls to the repository, and an activation between any two of its reads. The
  repository is the memory one; its operations are atomic, as its mutex makes them.
\<close>

section \<open>Uploads, call by call\<close>

text \<open>Whatever every stored stage and a failure of the record keep is kept by an upload.\<close>

locale upload_kept =
  fixes ops :: "'r Repository" and I :: "'r \<Rightarrow> bool" and r :: Record
  assumes create: "I s \<Longrightarrow> same_upload r x \<Longrightarrow> dp_State x \<in> upload_states \<Longrightarrow> I (fst (rp_Create ops s x))"
    and fail: "I s \<Longrightarrow> I (fst (rp_Fail ops s (dp_ID r)))"
begin

lemma advance_keeps: "I s \<Longrightarrow> same_upload r x \<Longrightarrow> nxt \<in> upload_states \<Longrightarrow> I (fst (advance ops s x nxt))"
  by (auto simp: advance_def intro: create split: option.split)

lemma reject_keeps: "I s \<Longrightarrow> same_upload r x \<Longrightarrow> I (reject ops s x)"
  by (auto simp: reject_def upload_states_def intro: create split: option.split)

lemma fail_keeps: "I s \<Longrightarrow> same_upload r x \<Longrightarrow> I (fst (rp_Fail ops s (dp_ID x)))"
  using fail by (simp add: same_upload_def)

lemma receive_keeps:
  assumes "I s" "same_upload r x" "receive ops sv en fs s x dir name = (fs', s', y)"
  shows "I s'"
  using assms reject_keeps [OF assms(1,2)] fail_keeps [OF assms(1,2)]
  by (auto simp: receive_def Let_def split: prod.splits option.splits sum.splits if_splits)

lemma publish_keeps:
  assumes "I s" "same_upload r x" "publish ops sv en fs s x dir res = (fs', s', e)"
  shows "I s'"
proof (cases "ValidateRelease (ue_U en) (ue_yaml en) (ue_fault en) fs (path_Join dir ''release'') (rec_AppSlug x)")
  case (Inl y)
  with assms reject_keeps [OF assms(1,2)] show ?thesis by (auto simp: publish_def)
next
  case (Inr mf)
  let ?x1 = "x\<lparr>rec_Manifest := Some mf\<rparr>"
  obtain s1 e1 where a: "advance ops s ?x1 Staged = (s1, e1)" by fastforce
  have s1: "I s1" using advance_keeps [OF assms(1), of ?x1 Staged] assms(2) a by (simp add: upload_states_def)
  show ?thesis
  proof (cases e1)
    case (Some y)
    with assms(3) Inr a s1 show ?thesis by (auto simp: publish_def)
  next
    case None
    obtain fs1 f where fin: "Finalize (ue_sha en) (ue_fault en) (ue_race en) fs (sv_Root sv) (dp_AppID x)
        (path_Join dir ''release'') = (fs1, f)" by fastforce
    show ?thesis
    proof (cases f)
      case (Inl y)
      with assms(3) Inr a None fin fail_keeps [OF s1 assms(2)] show ?thesis by (auto simp: publish_def Let_def)
    next
      case f: (Inr dm)
      obtain dest m where dm: "dm = (dest, m)" by (cases dm)
      let ?x3 = "?x1\<lparr>dp_State := Staged, rec_Staging := dir, dp_ReleaseHash := fm_Hash m, rec_Files := fm_Files m,
        rec_ArchiveHash := up_SHA256 res\<rparr>"
      have "same_upload r ?x3" using assms(2) by (simp add: same_upload_def)
      then have "I (fst (advance ops s1 ?x3 Verified))" by (intro advance_keeps s1) (simp_all add: upload_states_def)
      with assms(3) Inr a None fin f dm show ?thesis by (auto simp: publish_def Let_def split: prod.splits)
    qed
  qed
qed

lemma upload_in_keeps:
  assumes "I s" "same_upload r x" "upload_in ops sv en fs s x dir name contentType = (fs', s', e)"
  shows "I s'"
proof -
  obtain fs1 s1 y where rc: "receive ops sv en fs s x dir name = (fs1, s1, y)" by (metis prod_cases3)
  note s1 = receive_keeps [OF assms(1,2) rc]
  show ?thesis
  proof (cases y)
    case (Inl z)
    with assms(3) rc s1 show ?thesis by (auto simp: upload_in_def)
  next
    case (Inr res)
    let ?x1 = "x\<lparr>rec_ArchiveHash := up_SHA256 res\<rparr>"
    let ?x2 = "?x1\<lparr>dp_State := Uploaded\<rparr>"
    let ?x3 = "?x2\<lparr>dp_State := Validating\<rparr>"
    obtain s2 e2 where a: "advance ops s1 ?x1 Uploaded = (s2, e2)" by fastforce
    have s2: "I s2" using advance_keeps [OF s1, of ?x1 Uploaded] assms(2) a by (simp add: upload_states_def)
    obtain s3 e3 where b: "advance ops s2 ?x2 Validating = (s3, e3)" by fastforce
    have s3: "I s3" using advance_keeps [OF s2, of ?x2 Validating] assms(2) b by (simp add: upload_states_def)
    have x3: "same_upload r ?x3" using assms(2) by simp
    note step = assms(3) [unfolded upload_in_def rc prod.case Inr sum.case Let_def a]
    show ?thesis
    proof (cases "e2 = None \<and> e3 = None")
      case False
      with step s2 s3 b show ?thesis by (auto split: option.splits)
    next
      case True
      note step' = step [unfolded conjunct1 [OF True] option.case b prod.case conjunct2 [OF True]]
      show ?thesis
        using step' s3 reject_keeps [OF s3 x3] publish_keeps [OF s3 x3]
        by (auto split: prod.splits option.splits)
    qed
  qed
qed

lemma upload_keeps:
  assumes "I s" "rp_Get ops s i = Inr x" "same_upload r x" "Upload ops sv en fs s a i contentType = (fs', s', e)"
  shows "I s'"
  using assms upload_in_keeps [OF assms(1,3)]
  by (auto simp: Upload_def Let_def split: if_splits option.splits prod.splits)

end

text \<open>
  An upload takes no lock, so between any two of its calls to the repository other requests may run. To cut it
  into these calls the service's own \<open>Upload\<close> is run on a probe: a repository that hands out the record read at
  the start, logs every \<open>Create\<close> and \<open>Fail\<close> it receives and answers them from a list; a call beyond the end of the
  list is refused. With the answers the real repository has given so far, the first call without an answer is
  the one the upload makes next.
\<close>

datatype repo_call = CallCreate Record | CallFail string

record Probe =
  pb_answers :: "dep_error option list"
  pb_calls :: "repo_call list"

definition probe_answer :: "repo_call \<Rightarrow> Probe \<Rightarrow> Probe \<times> dep_error option" where
  "probe_answer c p =
     (case pb_answers p of
        [] \<Rightarrow> (p\<lparr>pb_calls := pb_calls p @ [c]\<rparr>, Some DepStore)
      | e # es \<Rightarrow> (p\<lparr>pb_answers := es, pb_calls := pb_calls p @ [c]\<rparr>, e))"

definition probe_ops :: "Record \<Rightarrow> Probe Repository" where
  "probe_ops r = \<lparr>rp_Create = \<lambda>p x. probe_answer (CallCreate x) p, rp_Get = \<lambda>p i. Inr r, rp_Active = \<lambda>p app. Inr None,
     rp_CommitActivation = \<lambda>p x old q. (p, Some DepStore), rp_ActivationReplay = \<lambda>p x q. Inr False,
     rp_Fail = \<lambda>p i. probe_answer (CallFail i) p, rp_RecoveryRecords = \<lambda>p. Inr [],
     rp_ApplyRecovery = \<lambda>p i x. (p, Some DepStore), rp_Attempts = None\<rparr>"

record UploadJob =
  uj_Service :: DepService
  uj_Env :: UploadEnv
  uj_FS :: FS
  uj_Record :: Record
  uj_Actor :: Actor
  uj_ContentType :: string
  uj_Answers :: "dep_error option list"

definition upload_calls :: "UploadJob \<Rightarrow> repo_call list" where
  "upload_calls j = pb_calls (fst (snd (Upload (probe_ops (uj_Record j)) (uj_Service j) (uj_Env j) (uj_FS j)
     \<lparr>pb_answers = uj_Answers j, pb_calls = []\<rparr> (uj_Actor j) (dp_ID (uj_Record j)) (uj_ContentType j))))"

definition next_call :: "UploadJob \<Rightarrow> repo_call option" where
  "next_call j = (let cs = upload_calls j; n = length (uj_Answers j) in if n < length cs then Some (cs ! n) else None)"

fun do_call :: "MemoryRepository \<Rightarrow> repo_call \<Rightarrow> MemoryRepository \<times> dep_error option" where
  "do_call m (CallCreate r) = MemCreate m r"
| "do_call m (CallFail i) = MemFail m i"

text \<open>Every call of an upload stores a stage of its record or fails it.\<close>

fun call_ok :: "Record \<Rightarrow> repo_call \<Rightarrow> bool" where
  "call_ok r (CallCreate x) = (same_upload r x \<and> dp_State x \<in> upload_states)"
| "call_ok r (CallFail i) = (i = dp_ID r)"

interpretation probed: upload_kept "probe_ops r0" "\<lambda>p. \<forall>c \<in> set (pb_calls p). call_ok r c" r for r0 r
  by unfold_locales (auto simp: probe_ops_def probe_answer_def split: list.splits)

lemma upload_calls_ok: "c \<in> set (upload_calls j) \<Longrightarrow> call_ok (uj_Record j) c"
proof -
  assume c: "c \<in> set (upload_calls j)"
  obtain fs p e where u: "Upload (probe_ops (uj_Record j)) (uj_Service j) (uj_Env j) (uj_FS j)
     \<lparr>pb_answers = uj_Answers j, pb_calls = []\<rparr> (uj_Actor j) (dp_ID (uj_Record j)) (uj_ContentType j) = (fs, p, e)"
    by (metis prod_cases3)
  have "\<forall>c \<in> set (pb_calls p). call_ok (uj_Record j) c"
    by (rule probed.upload_keeps [OF _ _ same_upload_refl u]) (simp_all add: probe_ops_def)
  with c u show ?thesis by (simp add: upload_calls_def)
qed

lemma next_call_ok: "next_call j = Some c \<Longrightarrow> call_ok (uj_Record j) c"
  using upload_calls_ok [OF nth_mem] by (auto simp: next_call_def Let_def split: if_splits)

section \<open>Activations, read by read\<close>

text \<open>
  An activation looks the record up, takes the lock of its app, and then reads the repository three times (the
  record again, the replay, the active deployment) before it commits; other requests may run in between, only
  another activation of the same app may not. \<open>ActivateDep\<close> run on what the reads saw tells what it commits, if
  anything.
\<close>

record ActSnapshots =
  sn_Get :: MemoryRepository
  sn_Replay :: MemoryRepository
  sn_Active :: MemoryRepository
  sn_Plan :: "(Record \<times> Record option \<times> string) option"

definition act_ops :: "ActSnapshots Repository" where
  "act_ops = \<lparr>rp_Create = \<lambda>p x. (p, Some DepStore), rp_Get = \<lambda>p. MemGet (sn_Get p), rp_Active = \<lambda>p. MemActive (sn_Active p),
     rp_CommitActivation = \<lambda>p nxt old q. (p\<lparr>sn_Plan := Some (nxt, old, q)\<rparr>, None),
     rp_ActivationReplay = \<lambda>p. MemReplay (sn_Replay p), rp_Fail = \<lambda>p i. (p, Some DepStore),
     rp_RecoveryRecords = \<lambda>p. Inr [], rp_ApplyRecovery = \<lambda>p i x. (p, Some DepStore), rp_Attempts = None\<rparr>"

record ActivationJob =
  aj_Gates :: "ActSnapshots Gates"
  aj_Actor :: Actor
  aj_ID :: string
  aj_Request :: string
  aj_Initial :: MemoryRepository
  aj_App :: string
  aj_Locked :: bool
  aj_Reads :: "MemoryRepository list"

definition act_plan :: "ActivationJob \<Rightarrow> (Record \<times> Record option \<times> string) option" where
  "act_plan j =
     (case aj_Reads j of
        [m1, m2, m3] \<Rightarrow>
          if aj_Locked j
          then sn_Plan (fst (ActivateDep act_ops (aj_Gates j) (\<lambda>p. p\<lparr>sn_Get := m1\<rparr>)
                 \<lparr>sn_Get = aj_Initial j, sn_Replay = m2, sn_Active = m3, sn_Plan = None\<rparr>
                 (aj_Actor j) (aj_ID j) (aj_Request j)))
          else None
      | _ \<Rightarrow> None)"

lemma act_plan_Some:
  assumes "act_plan j = Some (nxt, old, q)"
  obtains m1 m2 m3 r0 where "aj_Locked j" "aj_Reads j = [m1, m2, m3]" "mem_look (aj_Initial j) (aj_ID j) = Some r0"
    "mem_look m1 (aj_ID j) = Some nxt" "dp_AppID nxt = dp_AppID r0" "dp_State nxt = Verified"
    "MemActive m3 (dp_AppID nxt) = Inr old"
proof -
  obtain m1 m2 m3 where rd: "aj_Reads j = [m1, m2, m3]" "aj_Locked j"
    and run: "sn_Plan (fst (ActivateDep act_ops (aj_Gates j) (\<lambda>p. p\<lparr>sn_Get := m1\<rparr>)
                 \<lparr>sn_Get = aj_Initial j, sn_Replay = m2, sn_Active = m3, sn_Plan = None\<rparr>
                 (aj_Actor j) (aj_ID j) (aj_Request j))) = Some (nxt, old, q)"
    using assms by (auto simp: act_plan_def split: list.splits if_splits)
  show ?thesis
    by (rule that [OF rd(2,1), of "case mem_look (aj_Initial j) (aj_ID j) of Some r \<Rightarrow> r"])
      (use run in \<open>auto simp: ActivateDep_def activationRecord_def act_ops_def MemGet_def mem_look_def CanActivate_def Let_def
        split: sum.splits option.splits if_splits bool.splits\<close>)
qed

section \<open>Reachable repositories\<close>

text \<open>
  The control plane against the memory repository: the repository, the uploads in progress and the activations in
  progress. Requests begin and end at any time, each call of an upload and each read of an activation is a step of
  its own, a request may stop at any point, and a restart drops all of them and runs the recovery. A deployment may
  be created with any identifier but the empty one, known or not.
\<close>

record DepWorld =
  dw_Repo :: MemoryRepository
  dw_Uploads :: "nat \<rightharpoonup> UploadJob"
  dw_Activations :: "nat \<rightharpoonup> ActivationJob"

definition idle :: "MemoryRepository \<Rightarrow> DepWorld" where
  "idle m = \<lparr>dw_Repo = m, dw_Uploads = Map.empty, dw_Activations = Map.empty\<rparr>"

definition new_upload :: "DepService \<Rightarrow> UploadEnv \<Rightarrow> FS \<Rightarrow> Record \<Rightarrow> Actor \<Rightarrow> string \<Rightarrow> UploadJob" where
  "new_upload sv en fs r a ct = \<lparr>uj_Service = sv, uj_Env = en, uj_FS = fs, uj_Record = r, uj_Actor = a,
     uj_ContentType = ct, uj_Answers = []\<rparr>"

definition new_activation :: "ActSnapshots Gates \<Rightarrow> Actor \<Rightarrow> string \<Rightarrow> string \<Rightarrow> MemoryRepository \<Rightarrow> Record \<Rightarrow> ActivationJob" where
  "new_activation g a i q m r = \<lparr>aj_Gates = g, aj_Actor = a, aj_ID = i, aj_Request = q, aj_Initial = m,
     aj_App = dp_AppID r, aj_Locked = False, aj_Reads = []\<rparr>"

inductive dep_run :: "DepWorld \<Rightarrow> bool" where
  run_init: "dep_run (idle \<lparr>mr_Records = [], mr_Current = [], mr_FailCommit = None, mr_ActivationAudits = []\<rparr>)"
| run_create: "dep_run w \<Longrightarrow> i \<noteq> [] \<Longrightarrow> CreateDep U mem_ops sv (dw_Repo w) now a app slug i key ack = (m', x) \<Longrightarrow>
    dep_run (w\<lparr>dw_Repo := m'\<rparr>)"
| run_upload: "dep_run w \<Longrightarrow> MemGet (dw_Repo w) i = Inr r \<Longrightarrow> dw_Uploads w k = None \<Longrightarrow>
    dep_run (w\<lparr>dw_Uploads := (dw_Uploads w)(k \<mapsto> new_upload sv en fs r a ct)\<rparr>)"
| run_upload_call: "dep_run w \<Longrightarrow> dw_Uploads w k = Some j \<Longrightarrow> next_call j = Some c \<Longrightarrow> do_call (dw_Repo w) c = (m', e) \<Longrightarrow>
    dep_run (w\<lparr>dw_Repo := m', dw_Uploads := (dw_Uploads w)(k \<mapsto> j\<lparr>uj_Answers := uj_Answers j @ [e]\<rparr>)\<rparr>)"
| run_upload_end: "dep_run w \<Longrightarrow> dep_run (w\<lparr>dw_Uploads := (dw_Uploads w)(k := None)\<rparr>)"
| run_activate: "dep_run w \<Longrightarrow> MemGet (dw_Repo w) i = Inr r \<Longrightarrow> dw_Activations w k = None \<Longrightarrow>
    dep_run (w\<lparr>dw_Activations := (dw_Activations w)(k \<mapsto> new_activation g a i q (dw_Repo w) r)\<rparr>)"
| run_lock: "dep_run w \<Longrightarrow> dw_Activations w k = Some j \<Longrightarrow>
    (\<forall>j' \<in> ran (dw_Activations w). aj_Locked j' \<longrightarrow> aj_App j' \<noteq> aj_App j) \<Longrightarrow>
    dep_run (w\<lparr>dw_Activations := (dw_Activations w)(k \<mapsto> j\<lparr>aj_Locked := True\<rparr>)\<rparr>)"
| run_read: "dep_run w \<Longrightarrow> dw_Activations w k = Some j \<Longrightarrow> aj_Locked j \<Longrightarrow>
    dep_run (w\<lparr>dw_Activations := (dw_Activations w)(k \<mapsto> j\<lparr>aj_Reads := aj_Reads j @ [dw_Repo w]\<rparr>)\<rparr>)"
| run_commit: "dep_run w \<Longrightarrow> dw_Activations w k = Some j \<Longrightarrow> act_plan j = Some (nxt, old, q) \<Longrightarrow>
    MemCommit (dw_Repo w) nxt old q = (m', e) \<Longrightarrow>
    dep_run (w\<lparr>dw_Repo := m', dw_Activations := (dw_Activations w)(k := None)\<rparr>)"
| run_activate_end: "dep_run w \<Longrightarrow> dep_run (w\<lparr>dw_Activations := (dw_Activations w)(k := None)\<rparr>)"
| run_fail_commits: "dep_run w \<Longrightarrow> dep_run (w\<lparr>dw_Repo := (dw_Repo w)\<lparr>mr_FailCommit := fc\<rparr>\<rparr>)"
| run_restart: "dep_run w \<Longrightarrow> RecoverStartup mem_ops (dw_Repo w) evidence = (m', e) \<Longrightarrow> dep_run (idle m')"

definition dep_reachable :: "MemoryRepository \<Rightarrow> bool" where
  "dep_reachable m \<longleftrightarrow> (\<exists>w. dep_run w \<and> dw_Repo w = m)"

text \<open>
  The order a repository keeps: records are stored under their identifier, an active record is the one its app's
  pointer names, and pointers name known records.
\<close>

definition pointers_ok :: "(string \<Rightarrow> Record option) \<Rightarrow> (string, string) gomap \<Rightarrow> bool" where
  "pointers_ok look cur \<longleftrightarrow> (\<forall>i r. look i = Some r \<longrightarrow> dp_ID r = i \<and> i \<noteq> [])
     \<and> (\<forall>app i. map_of cur app = Some i \<longrightarrow> look i \<noteq> None)
     \<and> (\<forall>i r. look i = Some r \<longrightarrow> dp_State r = Active \<longrightarrow> map_of cur (dp_AppID r) = Some i)"

definition repo_ok :: "MemoryRepository \<Rightarrow> bool" where
  "repo_ok m \<longleftrightarrow> gm_wf (mr_Records m) \<and> pointers_ok (mem_look m) (mr_Current m)"

lemma repo_ok_look: "repo_ok m \<Longrightarrow> mem_look m i = Some r \<Longrightarrow> dp_ID r = i \<and> i \<noteq> []"
  by (auto simp: repo_ok_def pointers_ok_def)

lemma repo_ok_active: "repo_ok m \<Longrightarrow> mem_look m i = Some r \<Longrightarrow> dp_State r = Active \<Longrightarrow> map_of (mr_Current m) (dp_AppID r) = Some i"
  by (auto simp: repo_ok_def pointers_ok_def)

lemma repo_ok_current:
  assumes "repo_ok m" "map_of (mr_Current m) app = Some i"
  obtains r where "mem_look m i = Some r" "dp_ID r = i" "i \<noteq> []"
  using assms unfolding repo_ok_def pointers_ok_def by (metis option.exhaust)

lemma repo_ok_put:
  assumes "repo_ok m" "dp_ID r = i" "i \<noteq> []" "dp_State r \<noteq> Active"
  shows "repo_ok (m\<lparr>mr_Records := AList.update i r (mr_Records m)\<rparr>)"
  using assms unfolding repo_ok_def pointers_ok_def by (auto simp: mem_look_update)

lemma mem_look_current [simp]: "mem_look (m\<lparr>mr_Current := c\<rparr>) = mem_look m"
  by (simp add: mem_look_def fun_eq_iff)

text \<open>The records known, which no request ever removes.\<close>

definition known :: "MemoryRepository \<Rightarrow> string set" where
  "known m = {i. mem_look m i \<noteq> None}"

lemma known_put [simp]: "known (m\<lparr>mr_Records := AList.update i r (mr_Records m)\<rparr>) = insert i (known m)"
  by (auto simp: known_def mem_look_update)

lemma create_ok:
  assumes "repo_ok m" "i \<noteq> []" "CreateDep U mem_ops sv m now a app slug i key ack = (m', x)"
  shows "repo_ok m' \<and> known m \<subseteq> known m' \<and> mr_Current m' = mr_Current m"
proof -
  let ?r = "zero_record\<lparr>dp_ID := i, dp_AppID := app, dp_State := Uploading, rec_OwnerID := actr_ID a,
     rec_AppSlug := slug, rec_IdempotencyKey := key, rec_PublicAcknowledged := (ack = [True])\<rparr>"
  have "m' = m \<or> m' = m\<lparr>mr_Records := AList.update i ?r (mr_Records m)\<rparr>"
    using assms(3) by (auto simp: CreateDep_def mem_ops_def MemCreate_def Let_def split: if_splits option.splits)
  moreover have "repo_ok (m\<lparr>mr_Records := AList.update i ?r (mr_Records m)\<rparr>)"
    by (rule repo_ok_put [OF assms(1)]) (simp_all add: assms(2))
  ultimately show ?thesis using assms(1) by auto
qed

lemma do_call_ok:
  assumes "repo_ok m" "do_call m c = (m', e)" "call_ok r c" "dp_ID r \<in> known m"
  shows "repo_ok m' \<and> known m \<subseteq> known m' \<and> mr_Current m' = mr_Current m"
proof -
  obtain old where old: "mem_look m (dp_ID r) = Some old" using assms(4) by (auto simp: known_def)
  note ids = repo_ok_look [OF assms(1) old]
  obtain x where x: "dp_ID x = dp_ID r" "dp_State x \<noteq> Active"
    and m': "m' = m \<or> m' = m\<lparr>mr_Records := AList.update (dp_ID r) x (mr_Records m)\<rparr>"
  proof (cases c)
    case (CallCreate x)
    with assms(2,3) that [of x] show ?thesis
      by (auto simp: MemCreate_def same_upload_def upload_states_def split: option.splits if_splits)
  next
    case (CallFail i)
    with assms(2,3) old ids that [of "old\<lparr>dp_State := Failed\<rparr>"] show ?thesis
      by (auto simp: MemFail_def record_at_def mem_look_def)
  qed
  from repo_ok_put [OF assms(1) x(1) _ x(2)] ids m' assms(1) show ?thesis by auto
qed

text \<open>The active deployment an activation reads.\<close>

lemma MemActive_read:
  assumes "repo_ok m" "MemActive m app = Inr old"
  shows "case old of None \<Rightarrow> map_of (mr_Current m) app = None
    | Some r \<Rightarrow> map_of (mr_Current m) app = Some (dp_ID r) \<and> dp_ID r \<noteq> []"
proof (cases "map_of (mr_Current m) app")
  case None
  with assms(2) show ?thesis by (auto simp: MemActive_def current_id_def)
next
  case (Some i)
  obtain r where "mem_look m i = Some r" "dp_ID r = i" "i \<noteq> []" by (rule repo_ok_current [OF assms(1) Some])
  with Some assms(2) show ?thesis by (auto simp: MemActive_def current_id_def record_at_def mem_look_def)
qed

text \<open>A commit may use stale records, as long as the pointer of the app is the one that was read.\<close>

lemma commit_ok:
  assumes "repo_ok m" "dp_ID nxt \<noteq> []" "MemCommit m nxt old q = (m', e)"
    and old: "case old of None \<Rightarrow> map_of (mr_Current m) (dp_AppID nxt) = None
      | Some r \<Rightarrow> map_of (mr_Current m) (dp_AppID nxt) = Some (dp_ID r) \<and> dp_ID r \<noteq> []"
  shows "repo_ok m' \<and> known m \<subseteq> known m'
    \<and> (\<forall>app. app \<noteq> dp_AppID nxt \<longrightarrow> map_of (mr_Current m') app = map_of (mr_Current m) app)"
proof (cases "mr_FailCommit m")
  case (Some y)
  with assms(1,3) show ?thesis by (simp add: MemCommit_def)
next
  case None
  let ?look = "case old of None \<Rightarrow> (mem_look m)(dp_ID nxt \<mapsto> nxt\<lparr>dp_State := Active\<rparr>)
      | Some r \<Rightarrow> (mem_look m)(dp_ID nxt \<mapsto> nxt\<lparr>dp_State := Active\<rparr>, dp_ID r \<mapsto> r\<lparr>dp_State := Superseded\<rparr>)"
  have m': "mem_look m' = ?look" "map_of (mr_Current m') = (map_of (mr_Current m))(dp_AppID nxt \<mapsto> dp_ID nxt)"
    "gm_wf (mr_Records m')"
    using assms(1,3) None by (auto simp: MemCommit_def Let_def mem_look_def gomap_simps repo_ok_def split: option.splits)
  have wf: "gm_wf (mr_Records m)" and p: "\<forall>i r. mem_look m i = Some r \<longrightarrow> dp_ID r = i \<and> i \<noteq> []"
    "\<forall>app i. map_of (mr_Current m) app = Some i \<longrightarrow> mem_look m i \<noteq> None"
    "\<forall>i r. mem_look m i = Some r \<longrightarrow> dp_State r = Active \<longrightarrow> map_of (mr_Current m) (dp_AppID r) = Some i"
    using assms(1) unfolding repo_ok_def pointers_ok_def by blast+
  have ids: "\<forall>i r. ?look i = Some r \<longrightarrow> dp_ID r = i \<and> i \<noteq> []"
    using p(1) assms(2) old by (auto split: option.splits)
  have kn: "\<forall>i. mem_look m i \<noteq> None \<longrightarrow> ?look i \<noteq> None" "?look (dp_ID nxt) \<noteq> None" by (auto split: option.splits)
  then have ptr: "\<forall>app i. map_of (mr_Current m') app = Some i \<longrightarrow> ?look i \<noteq> None"
    using p(2) by (auto simp: m'(2) split: if_splits)
  have act: "map_of (mr_Current m') (dp_AppID x) = Some j" if j: "?look j = Some x" "dp_State x = Active" for j x
  proof (cases "dp_AppID x = dp_AppID nxt")
    case True
    have "j = dp_ID nxt"
    proof (rule ccontr)
      assume "j \<noteq> dp_ID nxt"
      with j have "mem_look m j = Some x" "case old of None \<Rightarrow> True | Some r \<Rightarrow> j \<noteq> dp_ID r"
        by (auto split: option.splits if_splits)
      moreover from this(1) have "map_of (mr_Current m) (dp_AppID x) = Some j" using p(3) j(2) by blast
      ultimately show False using True old by (auto split: option.splits)
    qed
    with True show ?thesis by (simp add: m'(2))
  next
    case False
    have "mem_look m j = Some x" using j False by (auto split: option.splits if_splits)
    with p(3) j(2) False show ?thesis by (simp add: m'(2))
  qed
  have "pointers_ok (mem_look m') (mr_Current m')"
    unfolding pointers_ok_def m'(1) using ids ptr act by blast
  with m' kn show ?thesis by (auto simp: repo_ok_def known_def)
qed

lemma repo_ok_apply:
  assumes "repo_ok m" "rp_ApplyRecovery mem_ops m i Failed = (m', e)"
  shows "repo_ok m' \<and> (\<forall>r. mem_look m i = Some r \<longrightarrow> e = None \<and> mem_look m' = (mem_look m)(i \<mapsto> r\<lparr>dp_State := Failed\<rparr>))"
proof (cases "mem_look m i")
  case None
  with assms show ?thesis by (auto simp: mem_ops_def MemApplyRecovery_def mem_look_def)
next
  case (Some r)
  let ?m1 = "m\<lparr>mr_Records := AList.update i (r\<lparr>dp_State := Failed\<rparr>) (mr_Records m)\<rparr>"
  have ok: "repo_ok ?m1" by (rule repo_ok_put) (use assms(1) repo_ok_look [OF assms(1) Some] in simp_all)
  have m': "m' = ?m1 \<or> m' = ?m1\<lparr>mr_Current := AList.delete (dp_AppID r) (mr_Current m)\<rparr> \<and> current_id (mr_Current m) (dp_AppID r) = i"
    and e: "e = None"
    using assms(2) Some by (auto simp: mem_ops_def MemApplyRecovery_def mem_look_def Let_def split: if_splits)
  have look: "mem_look m' = (mem_look m)(i \<mapsto> r\<lparr>dp_State := Failed\<rparr>)"
    using m' mem_look_update [of i "r\<lparr>dp_State := Failed\<rparr>" m] by (elim disjE conjE) simp_all
  have "repo_ok (?m1\<lparr>mr_Current := AList.delete (dp_AppID r) (mr_Current m)\<rparr>)" if c: "current_id (mr_Current m) (dp_AppID r) = i"
  proof -
    let ?m2 = "?m1\<lparr>mr_Current := AList.delete (dp_AppID r) (mr_Current m)\<rparr>"
    have l2: "mem_look ?m2 = mem_look ?m1" by simp
    have cur: "map_of (mr_Current ?m2) app = (if app = dp_AppID r then None else map_of (mr_Current ?m1) app)" for app
      by (simp add: delete_conv')
    have "dp_AppID x \<noteq> dp_AppID r" if x: "mem_look ?m1 j = Some x" "dp_State x = Active" for j x
    proof
      assume "dp_AppID x = dp_AppID r"
      moreover have "map_of (mr_Current m) (dp_AppID x) = Some j" using repo_ok_active [OF ok x] by simp
      ultimately have "j = i" using c by (simp add: current_id_def)
      with x show False by (auto simp: mem_look_update)
    qed
    then show ?thesis using ok
      unfolding repo_ok_def pointers_ok_def l2 cur by (simp split: if_splits)
  qed
  with ok m' look e Some show ?thesis by auto
qed

lemma Recover_or_Failed: "Recover r v = dp_State r \<or> Recover r v = Failed"
  by (auto simp: Recover_def)

lemma repo_ok_recover_all:
  "repo_ok m \<Longrightarrow> recover_all mem_ops ev m rs = (m', e) \<Longrightarrow> repo_ok m'"
proof (induction rs arbitrary: m)
  case (Cons r rs)
  show ?case
  proof (cases "Recover r (ev r) = dp_State r")
    case True
    with Cons show ?thesis by (simp add: Let_def)
  next
    case False
    then have f: "Recover r (ev r) = Failed" using Recover_or_Failed by blast
    obtain m1 e1 where a: "rp_ApplyRecovery mem_ops m (dp_ID r) Failed = (m1, e1)" by fastforce
    with Cons False f repo_ok_apply [OF Cons.prems(1) a] show ?thesis by (cases e1) (auto simp: Let_def)
  qed
qed simp

lemma repo_ok_startup: "repo_ok m \<Longrightarrow> RecoverStartup mem_ops m evidence = (m', e) \<Longrightarrow> repo_ok m'"
  using repo_ok_recover_all by (auto simp: RecoverStartup_def mem_ops_def MemRecoveryRecords_def split: option.splits)

text \<open>
  What the requests in progress may rely on: an upload's record is known; what an activation read was in order, and
  under its lock the pointer of its app has not moved since.
\<close>

definition job_ok :: "MemoryRepository \<Rightarrow> ActivationJob \<Rightarrow> bool" where
  "job_ok m j \<longleftrightarrow> (\<exists>r. mem_look (aj_Initial j) (aj_ID j) = Some r \<and> dp_AppID r = aj_App j)
     \<and> (aj_Reads j \<noteq> [] \<longrightarrow> aj_Locked j)
     \<and> (\<forall>m' \<in> set (aj_Reads j). repo_ok m' \<and> map_of (mr_Current m') (aj_App j) = map_of (mr_Current m) (aj_App j))"

definition locks_ok :: "(nat \<rightharpoonup> ActivationJob) \<Rightarrow> bool" where
  "locks_ok acts \<longleftrightarrow> (\<forall>k k' j j'. acts k = Some j \<longrightarrow> acts k' = Some j' \<longrightarrow> aj_Locked j \<longrightarrow> aj_Locked j' \<longrightarrow>
     aj_App j = aj_App j' \<longrightarrow> k = k')"

definition world_ok :: "DepWorld \<Rightarrow> bool" where
  "world_ok w \<longleftrightarrow> repo_ok (dw_Repo w) \<and> locks_ok (dw_Activations w)
     \<and> (\<forall>j \<in> ran (dw_Uploads w). dp_ID (uj_Record j) \<in> known (dw_Repo w))
     \<and> (\<forall>j \<in> ran (dw_Activations w). job_ok (dw_Repo w) j)"

lemma world_ok_idle: "repo_ok m \<Longrightarrow> world_ok (idle m)"
  by (simp add: world_ok_def idle_def locks_ok_def)

lemma job_ok_repo: "job_ok m j \<Longrightarrow> map_of (mr_Current m') (aj_App j) = map_of (mr_Current m) (aj_App j) \<Longrightarrow> job_ok m' j"
  by (simp add: job_ok_def)

text \<open>A step that stores records only.\<close>

lemma world_ok_stored:
  assumes "world_ok w" "repo_ok m' \<and> known (dw_Repo w) \<subseteq> known m' \<and> mr_Current m' = mr_Current (dw_Repo w)"
  shows "world_ok (w\<lparr>dw_Repo := m'\<rparr>)"
  using assms unfolding world_ok_def by (auto intro: job_ok_repo)

lemma ran_update: "j \<in> ran (f(k \<mapsto> x)) \<Longrightarrow> j = x \<or> j \<in> ran f"
  by (auto simp: ran_def split: if_splits)

lemma ran_delete: "j \<in> ran (f(k := None)) \<Longrightarrow> j \<in> ran f"
  by (auto simp: ran_def split: if_splits)

lemma world_ok_uploads:
  assumes "world_ok w" "\<And>j. j \<in> ran us \<Longrightarrow> dp_ID (uj_Record j) \<in> known (dw_Repo w)"
  shows "world_ok (w\<lparr>dw_Uploads := us\<rparr>)"
  using assms by (simp add: world_ok_def)

lemma world_ok_activations:
  assumes "world_ok w" "locks_ok acts" "\<And>j. j \<in> ran acts \<Longrightarrow> job_ok (dw_Repo w) j"
  shows "world_ok (w\<lparr>dw_Activations := acts\<rparr>)"
  using assms by (simp add: world_ok_def)

lemma locks_ok_delete: "locks_ok acts \<Longrightarrow> locks_ok (acts(k := None))"
  unfolding locks_ok_def by (metis fun_upd_apply option.distinct(1))

lemma locks_ok_same:
  assumes "locks_ok acts" "acts k = Some j" "aj_App j' = aj_App j" "aj_Locked j' \<longrightarrow> aj_Locked j"
  shows "locks_ok (acts(k \<mapsto> j'))"
  using assms unfolding locks_ok_def by (metis fun_upd_apply option.inject)

lemma MemGet_look: "MemGet m i = Inr r \<longleftrightarrow> mem_look m i = Some r"
  by (auto simp: MemGet_def mem_look_def split: option.splits)

text \<open>The commit of an activation in progress.\<close>

lemma world_ok_commit:
  assumes "world_ok w" "dw_Activations w k = Some j" "act_plan j = Some (nxt, old, q)"
    and "MemCommit (dw_Repo w) nxt old q = (m', e)"
  shows "world_ok (w\<lparr>dw_Repo := m', dw_Activations := (dw_Activations w)(k := None)\<rparr>)"
proof -
  obtain m1 m2 m3 r0 where pl: "aj_Locked j" "aj_Reads j = [m1, m2, m3]" "mem_look (aj_Initial j) (aj_ID j) = Some r0"
    "mem_look m1 (aj_ID j) = Some nxt" "dp_AppID nxt = dp_AppID r0" "dp_State nxt = Verified"
    "MemActive m3 (dp_AppID nxt) = Inr old"
    by (rule act_plan_Some [OF assms(3)])
  have jo: "job_ok (dw_Repo w) j" and ok: "repo_ok (dw_Repo w)" and lk: "locks_ok (dw_Activations w)"
    using assms(1,2) by (auto simp: world_ok_def ran_def)
  have app: "dp_AppID nxt = aj_App j" using jo pl(3,5) by (auto simp: job_ok_def)
  have rd: "repo_ok m1" "repo_ok m3" "map_of (mr_Current m3) (dp_AppID nxt) = map_of (mr_Current (dw_Repo w)) (dp_AppID nxt)"
    using jo pl(2) by (simp_all add: job_ok_def app)
  have "dp_ID nxt \<noteq> []" using repo_ok_look [OF rd(1) pl(4)] by simp
  note c = commit_ok [OF ok this assms(4) MemActive_read [OF rd(2) pl(7), unfolded rd(3)]]
  have "job_ok m' x" if x: "x \<in> ran ((dw_Activations w)(k := None))" for x
  proof -
    obtain k' where k': "k' \<noteq> k" "dw_Activations w k' = Some x" using x by (auto simp: ran_def split: if_splits)
    have xo: "job_ok (dw_Repo w) x" using assms(1) k'(2) by (auto simp: world_ok_def ran_def)
    show ?thesis
    proof (cases "aj_Locked x")
      case True
      then have "aj_App x \<noteq> dp_AppID nxt"
        using lk [unfolded locks_ok_def, rule_format, OF k'(2) assms(2)] k'(1) pl(1) app by auto
      with c have "map_of (mr_Current m') (aj_App x) = map_of (mr_Current (dw_Repo w)) (aj_App x)" by blast
      with xo show ?thesis by (rule job_ok_repo)
    next
      case False
      then have "aj_Reads x = []" using xo unfolding job_ok_def by blast
      with xo show ?thesis by (simp add: job_ok_def)
    qed
  qed
  then have "\<forall>x \<in> ran ((dw_Activations w)(k := None)). job_ok m' x" by blast
  moreover have "\<forall>x \<in> ran (dw_Uploads w). dp_ID (uj_Record x) \<in> known m'"
    using assms(1) c unfolding world_ok_def by blast
  ultimately show ?thesis using c locks_ok_delete [OF lk, of k] by (simp add: world_ok_def)
qed

lemma mem_look_fail: "mem_look (m\<lparr>mr_FailCommit := fc\<rparr>) = mem_look m"
  by (simp add: mem_look_def fun_eq_iff)

lemma dep_run_ok: "dep_run w \<Longrightarrow> world_ok w"
proof (induction rule: dep_run.induct)
  case run_init
  show ?case by (rule world_ok_idle) (simp add: repo_ok_def pointers_ok_def mem_look_def)
next
  case (run_create w i U sv now a app slug key ack m' x)
  have "repo_ok (dw_Repo w)" using run_create.IH by (simp add: world_ok_def)
  from world_ok_stored [OF run_create.IH create_ok [OF this run_create.hyps(2,3)]] show ?case .
next
  case (run_upload w i r k sv en fs a ct)
  then have "r \<noteq> r \<or> dp_ID r = i" using repo_ok_look [of "dw_Repo w" i r] by (simp add: world_ok_def MemGet_look)
  with run_upload show ?case
    by (intro world_ok_uploads) (auto simp: world_ok_def new_upload_def known_def MemGet_look dest!: ran_update)
next
  case (run_upload_call w k j c m' e)
  have j: "j \<in> ran (dw_Uploads w)" using run_upload_call.hyps(2) by (auto simp: ran_def)
  have ok: "repo_ok (dw_Repo w)" and kn: "dp_ID (uj_Record j) \<in> known (dw_Repo w)"
    using run_upload_call.IH j by (auto simp: world_ok_def)
  note d = do_call_ok [OF ok run_upload_call.hyps(4) next_call_ok [OF run_upload_call.hyps(3)] kn]
  note s = world_ok_stored [OF run_upload_call.IH d]
  have "world_ok ((w\<lparr>dw_Repo := m'\<rparr>)\<lparr>dw_Uploads := (dw_Uploads w)(k \<mapsto> j\<lparr>uj_Answers := uj_Answers j @ [e]\<rparr>)\<rparr>)"
    by (rule world_ok_uploads [OF s]) (use d kn run_upload_call.IH in \<open>auto simp: world_ok_def dest!: ran_update\<close>)
  then show ?case by simp
next
  case (run_upload_end w k)
  then show ?case by (intro world_ok_uploads) (auto simp: world_ok_def dest!: ran_delete)
next
  case (run_activate w i r k g a q)
  have "locks_ok ((dw_Activations w)(k \<mapsto> new_activation g a i q (dw_Repo w) r))"
    using run_activate.IH unfolding world_ok_def locks_ok_def new_activation_def by auto
  with run_activate show ?case
    by (intro world_ok_activations)
      (auto simp: world_ok_def job_ok_def new_activation_def MemGet_look dest!: ran_update)
next
  case (run_lock w k j)
  have l: "locks_ok ((dw_Activations w)(k \<mapsto> j\<lparr>aj_Locked := True\<rparr>))"
    using run_lock.IH run_lock.hyps(3) unfolding world_ok_def locks_ok_def ran_def by auto
  have "job_ok (dw_Repo w) (j\<lparr>aj_Locked := True\<rparr>)"
    using run_lock.IH run_lock.hyps(2) by (auto simp: world_ok_def job_ok_def ran_def)
  with run_lock.IH l show ?case by (intro world_ok_activations) (auto simp: world_ok_def dest!: ran_update)
next
  case (run_read w k j)
  have l: "locks_ok ((dw_Activations w)(k \<mapsto> j\<lparr>aj_Reads := aj_Reads j @ [dw_Repo w]\<rparr>))"
    using run_read.IH run_read.hyps(2) by (intro locks_ok_same) (auto simp: world_ok_def)
  have "job_ok (dw_Repo w) j" "repo_ok (dw_Repo w)" using run_read.IH run_read.hyps(2) by (auto simp: world_ok_def ran_def)
  then have "job_ok (dw_Repo w) (j\<lparr>aj_Reads := aj_Reads j @ [dw_Repo w]\<rparr>)" using run_read.hyps(3) by (simp add: job_ok_def)
  with run_read.IH l show ?case by (intro world_ok_activations) (auto simp: world_ok_def dest!: ran_update)
next
  case (run_commit w k j nxt old q m' e)
  then show ?case by (intro world_ok_commit)
next
  case (run_activate_end w k)
  then show ?case by (intro world_ok_activations locks_ok_delete) (auto simp: world_ok_def dest!: ran_delete)
next
  case (run_fail_commits w fc)
  have "repo_ok ((dw_Repo w)\<lparr>mr_FailCommit := fc\<rparr>) \<and> known (dw_Repo w) \<subseteq> known ((dw_Repo w)\<lparr>mr_FailCommit := fc\<rparr>)"
    using run_fail_commits.IH by (simp add: world_ok_def repo_ok_def known_def mem_look_fail)
  with world_ok_stored [OF run_fail_commits.IH] show ?case by simp
next
  case (run_restart w evidence m' e)
  then show ?case by (intro world_ok_idle) (auto simp: world_ok_def intro: repo_ok_startup)
qed

lemma reachable_ok: "dep_reachable m \<Longrightarrow> repo_ok m"
  using dep_run_ok by (auto simp: dep_reachable_def world_ok_def)

text \<open>An activation that nothing interrupts is one of the runs: its reads all see the same repository.\<close>

lemma run_activation:
  assumes "dep_run w" "dw_Activations w = Map.empty"
    and "ActivateDep mem_ops gates (\<lambda>_. dw_Repo w) (dw_Repo w) a i q = (m', e)"
  shows "dep_run (w\<lparr>dw_Repo := m'\<rparr>)"
  using assms(3)
proof (cases rule: ActivateDep_cases)
  case 1
  then show ?thesis using assms(1) by auto
next
  case (2 r)
  then show ?thesis using assms(1) by simp
next
  case (3 r old e')
  let ?m = "dw_Repo w"
  let ?g = "\<lparr>gt_Policy = \<lambda>p. gt_Policy gates ?m, gt_Certificate = \<lambda>p. gt_Certificate gates ?m, gt_Probe = \<lambda>p. gt_Probe gates ?m\<rparr>"
  let ?j = "new_activation ?g a i q ?m r"
  let ?l = "?j\<lparr>aj_Locked := True\<rparr>"
  let ?w = "\<lambda>j. w\<lparr>dw_Activations := Map.empty(0 \<mapsto> j)\<rparr>"
  have get: "MemGet ?m i = Inr r" using 3(1) by (simp add: mem_ops_def)
  have "dep_run (?w ?j)" using run_activate [OF assms(1) get, of 0 ?g a q] assms(2) by simp
  from run_lock [OF this, of 0 ?j] have r0: "dep_run (?w ?l)" by (simp add: ran_def new_activation_def)
  have r1: "dep_run (?w (?l\<lparr>aj_Reads := [?m]\<rparr>))" using run_read [OF r0, of 0 ?l] by (simp add: new_activation_def)
  have r2: "dep_run (?w (?l\<lparr>aj_Reads := [?m, ?m]\<rparr>))" using run_read [OF r1, of 0 "?l\<lparr>aj_Reads := [?m]\<rparr>"] by simp
  have r3: "dep_run (?w (?l\<lparr>aj_Reads := [?m, ?m, ?m]\<rparr>))" using run_read [OF r2, of 0 "?l\<lparr>aj_Reads := [?m, ?m]\<rparr>"] by simp
  have ops: "MemReplay ?m r q = Inr False" "MemActive ?m (dp_AppID r) = Inr old" "MemCommit ?m r old q = (m', e')"
    using 3 by (simp_all add: mem_ops_def)
  have "act_plan (?l\<lparr>aj_Reads := [?m, ?m, ?m]\<rparr>) = Some (r, old, q)"
    using 3(2-5,7-10) get ops
    by (simp add: act_plan_def new_activation_def ActivateDep_def activationRecord_def act_ops_def CanActivate_def)
  moreover have "MemCommit (dw_Repo (?w (?l\<lparr>aj_Reads := [?m, ?m, ?m]\<rparr>))) r old q = (m', e')" using ops(3) by simp
  ultimately have "dep_run ((?w (?l\<lparr>aj_Reads := [?m, ?m, ?m]\<rparr>))\<lparr>dw_Repo := m', dw_Activations := Map.empty(0 := None)\<rparr>)"
    using run_commit [OF r3, of 0] by simp
  moreover have "(?w (?l\<lparr>aj_Reads := [?m, ?m, ?m]\<rparr>))\<lparr>dw_Repo := m', dw_Activations := Map.empty(0 := None)\<rparr> = w\<lparr>dw_Repo := m'\<rparr>"
    by (simp add: assms(2))
  ultimately show ?thesis by simp
qed

end
