(* ===== verification/Deployment_Safety.thy ===== *)
theory Deployment_Safety
  imports Deployment_Runs
begin

text \<open>
  The properties of the deployment workflow: activations are gated and repeatable, an app has one active
  deployment, recovery fails closed and settles, and a finished upload leaves the evidence that recovery
  looks for.
\<close>

section \<open>Recovery\<close>

lemma Recover_again: "Recover (r\<lparr>dp_State := Recover r v\<rparr>) v = Recover r v"
  by (auto simp: Recover_def)

lemma recover_all_effect:
  assumes "repo_ok m" "distinct (map dp_ID rs)" "\<forall>r \<in> set rs. mem_look m (dp_ID r) = Some r"
    and "recover_all mem_ops ev m rs = (m', e)"
  shows "e = None \<and> repo_ok m'
    \<and> (\<forall>r \<in> set rs. mem_look m' (dp_ID r) = Some (r\<lparr>dp_State := Recover r (ev r)\<rparr>))
    \<and> (\<forall>i. i \<notin> dp_ID ` set rs \<longrightarrow> mem_look m' i = mem_look m i)"
  using assms
proof (induction rs arbitrary: m)
  case (Cons r rs)
  have r: "mem_look m (dp_ID r) = Some r" using Cons.prems(3) by simp
  have fresh: "dp_ID r \<notin> dp_ID ` set rs" using Cons.prems(2) by simp
  show ?case
  proof (cases "Recover r (ev r) = dp_State r")
    case True
    with Cons.prems have run: "recover_all mem_ops ev m rs = (m', e)" by (simp add: Let_def)
    have d: "distinct (map dp_ID rs)" and l: "\<forall>x \<in> set rs. mem_look m (dp_ID x) = Some x"
      using Cons.prems(2,3) by simp_all
    note ih = Cons.IH [OF Cons.prems(1) d l run]
    from ih fresh have "mem_look m' (dp_ID r) = mem_look m (dp_ID r)" by blast
    moreover have "r\<lparr>dp_State := Recover r (ev r)\<rparr> = r" using True by simp
    ultimately have "mem_look m' (dp_ID r) = Some (r\<lparr>dp_State := Recover r (ev r)\<rparr>)" using r by simp
    with ih show ?thesis by simp
  next
    case False
    then have f: "Recover r (ev r) = Failed" using Recover_or_Failed by blast
    obtain m1 e1 where a: "rp_ApplyRecovery mem_ops m (dp_ID r) Failed = (m1, e1)" by fastforce
    from repo_ok_apply [OF Cons.prems(1) a] r
    have ok: "repo_ok m1" "e1 = None" and l1: "mem_look m1 = (mem_look m)(dp_ID r \<mapsto> r\<lparr>dp_State := Failed\<rparr>)" by auto
    have "recover_all mem_ops ev m (r # rs) = recover_all mem_ops ev m1 rs"
      using False by (simp only: recover_all.simps f a ok(2) Let_def if_True not_False_eq_True prod.case option.case)
    with Cons.prems(4) have run: "recover_all mem_ops ev m1 rs = (m', e)" by (simp only:)
    have "\<forall>x \<in> set rs. mem_look m1 (dp_ID x) = Some x"
    proof
      fix x assume x: "x \<in> set rs"
      then have "dp_ID x \<noteq> dp_ID r" using fresh by (metis image_eqI)
      with x Cons.prems(3) show "mem_look m1 (dp_ID x) = Some x" by (simp add: l1)
    qed
    moreover have d: "distinct (map dp_ID rs)" using Cons.prems(2) by simp
    ultimately have ih: "e = None" "repo_ok m'"
      "\<forall>r \<in> set rs. mem_look m' (dp_ID r) = Some (r\<lparr>dp_State := Recover r (ev r)\<rparr>)"
      "\<forall>i. i \<notin> dp_ID ` set rs \<longrightarrow> mem_look m' i = mem_look m1 i" using Cons.IH [OF ok(1) _ _ run] by blast+
    from ih(4) fresh have "mem_look m' (dp_ID r) = mem_look m1 (dp_ID r)" by blast
    then have "mem_look m' (dp_ID r) = Some (r\<lparr>dp_State := Recover r (ev r)\<rparr>)" by (simp add: l1 f)
    moreover have "\<forall>i. i \<notin> dp_ID ` set (r # rs) \<longrightarrow> mem_look m' i = mem_look m i" using ih(4) by (simp add: l1)
    ultimately show ?thesis using ih(1-3) by simp
  qed
qed simp

lemma recovery_records:
  assumes "repo_ok m"
  shows "distinct (map dp_ID (map snd (mr_Records m)))"
    and "r \<in> set (map snd (mr_Records m)) \<longleftrightarrow> (\<exists>i. mem_look m i = Some r)"
proof -
  have wf: "gm_wf (mr_Records m)" using assms by (simp add: repo_ok_def)
  have ids: "dp_ID (snd x) = fst x" if "x \<in> set (mr_Records m)" for x
    using that wf repo_ok_look [OF assms, of "fst x" "snd x"] by (simp add: mem_look_def)
  have "map dp_ID (map snd (mr_Records m)) = map fst (mr_Records m)" using ids by simp
  then show "distinct (map dp_ID (map snd (mr_Records m)))" using wf by (simp only:)
  show "r \<in> set (map snd (mr_Records m)) \<longleftrightarrow> (\<exists>i. mem_look m i = Some r)"
    using wf by (force simp: mem_look_def)
qed

text \<open>C16. Recovery at startup fails closed and settles: on any reachable repository it returns without an
  error, every record keeps everything but its state, a record that stays verified, active or superseded has
  its evidence and is not corrupt, an unfinished one has failed, and a second recovery changes nothing. The
  evidence does not look at the state of a record.\<close>

theorem recovery_settles:
  assumes "dep_reachable m" "RecoverStartup mem_ops m (Some ev) = (m', e)"
    and "\<And>r x. ev (r\<lparr>dp_State := x\<rparr>) = ev r"
  shows "e = None
    \<and> (\<forall>i. mem_look m' i = map_option (\<lambda>r. r\<lparr>dp_State := Recover r (ev r)\<rparr>) (mem_look m i))
    \<and> (\<forall>i r. mem_look m' i = Some r \<longrightarrow>
         (dp_State r \<in> {Verified, Active, Superseded} \<longrightarrow> ev r \<and> \<not> rec_RecoveryCorrupt r)
         \<and> dp_State r \<in> {Verified, Active, Superseded, Rejected, Failed})
    \<and> RecoverStartup mem_ops m' (Some ev) = (m', None)"
proof -
  have ok: "repo_ok m" using assms(1) by (rule reachable_ok)
  note rr = recovery_records [OF ok]
  have run: "recover_all mem_ops ev m (map snd (mr_Records m)) = (m', e)"
    using assms(2) by (simp add: RecoverStartup_def mem_ops_def MemRecoveryRecords_def)
  have look: "\<forall>r \<in> set (map snd (mr_Records m)). mem_look m (dp_ID r) = Some r"
    using rr(2) repo_ok_look [OF ok] by metis
  note eff = recover_all_effect [OF ok rr(1) look run]
  have all: "mem_look m' i = map_option (\<lambda>r. r\<lparr>dp_State := Recover r (ev r)\<rparr>) (mem_look m i)" for i
  proof (cases "mem_look m i")
    case None
    then have "i \<notin> dp_ID ` set (map snd (mr_Records m))" using look by force
    with eff None show ?thesis by simp
  next
    case (Some r)
    then have "r \<in> set (map snd (mr_Records m))" "dp_ID r = i" using rr(2) repo_ok_look [OF ok] by blast+
    with eff Some show ?thesis by auto
  qed
  have settled: "Recover r (ev r) = dp_State r" "dp_State r \<in> {Verified, Active, Superseded} \<longrightarrow> ev r \<and> \<not> rec_RecoveryCorrupt r"
      "dp_State r \<in> {Verified, Active, Superseded, Rejected, Failed}" if "mem_look m' i = Some r" for i r
  proof -
    from that all obtain r0 where r0: "r = r0\<lparr>dp_State := Recover r0 (ev r0)\<rparr>" by (auto simp: map_option_case split: option.splits)
    have "ev r = ev r0" by (simp add: r0 assms(3))
    then show "Recover r (ev r) = dp_State r" using Recover_again [of r0 "ev r0"] by (simp add: r0)
    then show "dp_State r \<in> {Verified, Active, Superseded} \<longrightarrow> ev r \<and> \<not> rec_RecoveryCorrupt r"
      "dp_State r \<in> {Verified, Active, Superseded, Rejected, Failed}"
      by (auto simp: Recover_def split: if_splits)
  qed
  have "recover_all mem_ops ev m' rs = (m', None)" if "\<forall>r \<in> set rs. \<exists>i. mem_look m' i = Some r" for rs
    using that by (induction rs) (auto simp: Let_def settled(1))
  moreover have "\<forall>r \<in> set (map snd (mr_Records m')). \<exists>i. mem_look m' i = Some r"
    using recovery_records(2) [of m'] eff by blast
  ultimately have "RecoverStartup mem_ops m' (Some ev) = (m', None)"
    by (simp add: RecoverStartup_def mem_ops_def MemRecoveryRecords_def)
  with eff all settled show ?thesis by blast
qed

section \<open>Activation\<close>

text \<open>C13. Activation is gated, for every repository, every gate and every interleaving up to the app's lock: a
  request succeeds only for the active owner of the record, and then either the repository confirms an exact
  replay and nothing changes, or the record is verified, the policy, certificate and probe gates all passed
  on the record read under the lock, and exactly one commit was made. A refused request changes nothing
  unless it is the commit itself that failed.\<close>

theorem activation_gated:
  assumes "ActivateDep ops gates interfere s a i requestID = (s', e)"
  shows "(e = None \<longrightarrow> (\<exists>r. rp_Get ops (interfere s) i = Inr r \<and> rec_OwnerID r = actr_ID a \<and> actr_Active a
      \<and> (rp_ActivationReplay ops (interfere s) r requestID = Inr True \<and> s' = interfere s
         \<or> dp_State r = Verified \<and> gt_Policy gates (interfere s) r \<and> gt_Certificate gates (interfere s) r
           \<and> gt_Probe gates (interfere s) r
           \<and> (\<exists>old. rp_Active ops (interfere s) (dp_AppID r) = Inr old
                \<and> rp_CommitActivation ops (interfere s) r old requestID = (s', None)))))
    \<and> (e \<noteq> None \<longrightarrow> s' = s \<or> s' = interfere s
        \<or> e = Some CommitFailed \<and> (\<exists>r old x. rp_CommitActivation ops (interfere s) r old requestID = (s', Some x)))"
  using assms
proof (cases rule: ActivateDep_cases)
  case 1
  then show ?thesis by blast
next
  case (2 r)
  then show ?thesis by auto
next
  case (3 r old e')
  then show ?thesis by (cases e') auto
qed

text \<open>C14. An app has at most one active deployment. In every repository that requests can lead to, however the
  calls of uploads, the reads and commits of activations, creations and restarts interleave: an active record
  is the one its app's pointer names, so two active records never share an app, and the pointer of an app
  names a known record, stored under its identifier.\<close>

theorem deployment_one_active:
  assumes "dep_reachable m"
  shows "(mem_look m i = Some r \<and> dp_State r = Active \<longrightarrow> map_of (mr_Current m) (dp_AppID r) = Some i)
    \<and> (mem_look m i = Some r \<and> dp_State r = Active \<and> mem_look m j = Some r' \<and> dp_State r' = Active
        \<and> dp_AppID r' = dp_AppID r \<longrightarrow> j = i)
    \<and> (map_of (mr_Current m) app = Some i \<longrightarrow> (\<exists>r. mem_look m i = Some r \<and> dp_ID r = i))"
proof -
  have ok: "repo_ok m" using assms by (rule reachable_ok)
  have "\<exists>r. mem_look m i = Some r \<and> dp_ID r = i" if "map_of (mr_Current m) app = Some i"
    using repo_ok_current [OF ok that] by metis
  moreover have "j = i" if "mem_look m i = Some r" "dp_State r = Active" "mem_look m j = Some r'" "dp_State r' = Active"
      "dp_AppID r' = dp_AppID r"
    using repo_ok_active [OF ok that(1,2)] repo_ok_active [OF ok that(3,4)] that(5) by simp
  ultimately show ?thesis using repo_ok_active [OF ok] by blast
qed

text \<open>Retrying a successful activation with the same request is a replay: it succeeds again without asking
  any gate and without changing the repository, unless the record activated was already the current one.\<close>

theorem activation_retry:
  assumes "dep_reachable m1" "ActivateDep mem_ops gates (\<lambda>_. m1) m a i requestID = (m', None)"
    and "\<And>app. map_of (mr_Current m1) app \<noteq> Some i \<or> map_of (mr_ActivationAudits m1) requestID \<noteq> None"
  shows "ActivateDep mem_ops gates' (\<lambda>x. x) m' a i requestID = (m', None)"
proof -
  have ok: "repo_ok m1" using assms(1) by (rule reachable_ok)
  have replay: ?thesis if "mem_look m' i = Some r" "rec_OwnerID r = actr_ID a" "actr_Active a" "dp_AppID r \<noteq> []"
      "requestID \<noteq> []" "rp_ActivationReplay mem_ops m' r requestID = Inr True" for r
    using that by (simp add: ActivateDep_def activationRecord_def mem_lookup_get [THEN iffD2, OF that(1)])
  show ?thesis using assms(2)
  proof (cases rule: ActivateDep_cases)
    case (2 r)
    then show ?thesis by (intro replay [of r]) (simp_all add: mem_lookup_get)
  next
    case (3 r old e')
    then have l: "mem_look m1 i = Some r" and e': "e' = None" by (auto simp: mem_lookup_get)
    have i: "dp_ID r = i" using repo_ok_look [OF ok l] by simp
    have act: "MemActive m1 (dp_AppID r) = Inr old" and c: "MemCommit m1 r old requestID = (m', None)"
      and rp: "MemReplay m1 r requestID = Inr False" using 3(6,11,12) e' by (simp_all add: mem_ops_def)
    from rp have "map_of (mr_ActivationAudits m1) requestID = None" by (auto simp: MemReplay_def split: option.splits if_splits)
    with MemActive_read [OF ok act] assms(3) have "\<And>o'. old = Some o' \<Longrightarrow> dp_ID o' \<noteq> i" by force
    then have "mem_look m' i = Some (r\<lparr>dp_State := Active\<rparr>)" "map_of (mr_Current m') (dp_AppID r) = Some i"
      "map_of (mr_ActivationAudits m') requestID = Some i"
      using c i by (auto simp: MemCommit_def mem_look_def Let_def gomap_simps split: option.splits)
    then have "rp_ActivationReplay mem_ops m' (r\<lparr>dp_State := Active\<rparr>) requestID = Inr True"
      "mem_look m' i = Some (r\<lparr>dp_State := Active\<rparr>)"
      using i by (simp_all add: mem_ops_def MemReplay_def current_id_def)
    with replay 3(2-5) show ?thesis by simp
  qed simp
qed

section \<open>The evidence of an upload\<close>

lemma map_of_filter_keys: "map_of (filter (\<lambda>(k, v). P k) m) k = (if P k then map_of m k else None)"
  by (induction m) auto

text \<open>Removing a directory leaves a tree outside it alone.\<close>

lemma RemoveAll_other:
  assumes "\<And>q. \<not> prefix d (dest @ q)" "d \<noteq> []"
  shows "fs_lookup (RemoveAll fs d) (dest @ q) = fs_lookup fs (dest @ q)"
    and "walk_order (RemoveAll fs d) dest = walk_order fs dest"
proof -
  show "fs_lookup (RemoveAll fs d) (dest @ q) = fs_lookup fs (dest @ q)"
    using assms(1) [of q] by (simp add: fs_lookup_def RemoveAll_def map_of_filter_keys)
  have "filter (prefix dest) (map fst (filter (\<lambda>(q, n). \<not> prefix d q) m)) = filter (prefix dest) (map fst m)"
    for m :: "(fpath \<times> fnode) list"
  proof (induction m)
    case (Cons x m)
    show ?case
    proof (cases "prefix dest (fst x)")
      case True
      then obtain q where "fst x = dest @ q" by (auto simp: prefix_def)
      then have "\<not> prefix d (fst x)" using assms(1) by simp
      with Cons show ?thesis by (cases x) simp
    next
      case False
      with Cons show ?thesis by (cases x) simp
    qed
  qed simp
  then show "walk_order (RemoveAll fs d) dest = walk_order fs dest"
    by (simp add: walk_order_def RemoveAll_def fs_tick_def)
qed

lemma tree_kept:
  assumes "\<And>q. fs_lookup fs' (dest @ q) = fs_lookup fs (dest @ q)" "walk_order fs' dest = walk_order fs dest"
  shows "release_manifest sha fs' dest = release_manifest sha fs dest" "tree_ok fs' dest = tree_ok fs dest"
proof -
  have "spec_file sha fs' dest = spec_file sha fs dest" by (intro ext) (simp add: spec_file_def assms(1))
  then show "release_manifest sha fs' dest = release_manifest sha fs dest" by (simp add: release_manifest_def assms(2))
  show "tree_ok fs' dest = tree_ok fs dest" using assms(1) [of "[]"] by (simp add: tree_ok_def assms)
qed

lemma walk_order_mem: "fs_lookup fs (root @ q) = Some n \<Longrightarrow> root @ q \<noteq> [] \<Longrightarrow> q \<in> set (walk_order fs root)"
  by (force simp: walk_order_def fs_lookup_def dest: map_of_SomeD)

lemma release_manifest_file:
  assumes "fs_lookup fs (root @ q) = Some (FFile m c)" "q \<noteq> []"
  shows "fm_Files (release_manifest sha fs root) \<noteq> []"
proof -
  have "q \<in> set (walk_order fs root)" by (rule walk_order_mem [OF assms(1)]) (simp add: assms(2))
  moreover have "spec_file sha fs root q \<noteq> []" using assms by (simp add: spec_file_def)
  ultimately have "concat (map (spec_file sha fs root) (walk_order fs root)) \<noteq> []" by auto
  then have "sort_key file_Path (concat (map (spec_file sha fs root) (walk_order fs root))) \<noteq> []"
    by (metis length_0_conv length_sort)
  then show ?thesis by (simp add: release_manifest_def file_manifest_def Let_def)
qed

text \<open>A validated release has an index page.\<close>

lemma ValidateRelease_index:
  assumes "ValidateRelease U y fault fs root slug = Inr mf" "list_all proper_elem root"
  shows "is_file (fs_lookup fs (root @ [''index.html'']))"
proof -
  have "check_path fault (fs_tick fs) root ''index.html''"
    using assms(1) by (auto simp: ValidateRelease_def split: option.splits fnode.splits if_splits)
  moreover have "Split slash ''index.html'' = [''index.html'']" by code_simp
  moreover have "proper_elem ''index.html''" by code_simp
  ultimately show ?thesis using path_Join_proper [OF assms(2), of "''index.html''"]
    by (auto simp: check_path_def Let_def Lstat_def split: if_splits option.splits)
qed

text \<open>C15. A finished upload leaves its evidence: the record is verified, its manifest names the app, and the
  release directory on disk, which survives the removal of the staging directory, passes the check that
  recovery makes, so recovery keeps the record unless it is marked corrupt. The digest is assumed not to be
  empty, and the staging directory not to be the one of the releases.\<close>

theorem upload_evidence:
  assumes "dep_reachable m" "Upload mem_ops sv en fs m a i contentType = (fs', m', None)" "ue_tmp en = Some tmp"
    and "list_all proper_elem (sv_Root sv @ [tmp])" "tmp \<noteq> ''releases''" "\<And>s. ue_sha en s \<noteq> []"
    and "rival (sv_Root sv @ [tmp, ''release'']) (ue_race en)"
  shows "\<exists>r mf. mem_look m' i = Some r \<and> dp_State r = Verified \<and> rec_Manifest r = Some mf \<and> mf_Name mf = rec_AppSlug r
    \<and> EvidenceValid (ue_sha en) (\<lambda>n. False) fs' (Some (sv_Root sv)) r
    \<and> (\<not> rec_RecoveryCorrupt r \<longrightarrow> Recover r (EvidenceValid (ue_sha en) (\<lambda>n. False) fs' (Some (sv_Root sv)) r) = Verified)"
proof -
  have ok: "repo_ok m" using assms(1) by (rule reachable_ok)
  obtain r0 where r0: "mem_look m i = Some r0" using assms(2)
    by (cases "mem_look m i") (auto simp: Upload_def mem_ops_def MemGet_def mem_look_def)
  have i: "dp_ID r0 = i" using repo_ok_look [OF ok r0] by simp
  let ?stage = "sv_Root sv @ [tmp, ''release'']"
  have "Split slash ''release'' = [''release'']" "proper_elem ''release''" by code_simp+
  then have stage: "path_Join (sv_Root sv @ [tmp]) ''release'' = ?stage" and pe: "list_all proper_elem ?stage"
    using path_Join_proper [OF assms(4), of "''release''"] assms(4) by simp_all
  from mem_store.upload_moved [OF assms(2) r0 i] assms(3) obtain fsx fsy mf m1 dest r where
    v0: "ValidateRelease (ue_U en) (ue_yaml en) (ue_fault en) fsx (path_Join (sv_Root sv @ [tmp]) ''release'') (rec_AppSlug r0) = Inr mf"
    and f0: "Finalize (ue_sha en) (ue_fault en) (ue_race en) fsx (sv_Root sv) (dp_AppID r0) (path_Join (sv_Root sv @ [tmp]) ''release'') = (fsy, Inr (dest, m1))"
    and fs': "fs' = RemoveAll fsy (sv_Root sv @ [tmp])"
    and r: "mem_look m' i = Some r" "same_upload r0 r" "dp_State r = Verified" "rec_Manifest r = Some mf"
      "dp_ReleaseHash r = fm_Hash m1" "rec_Files r = fm_Files m1"
    by auto
  note v = v0 [unfolded stage] and f = f0 [unfolded stage]
  have app: "dp_AppID r = dp_AppID r0" "rec_AppSlug r = rec_AppSlug r0" using r(2) by (simp_all add: same_upload_def)
  from Finalize_effect [OF f assms(7)] have d: "dest = release_dir (sv_Root sv) (dp_AppID r0) (fm_Hash m1)"
    "m1 = release_manifest (ue_sha en) fsx ?stage" "release_manifest (ue_sha en) fsy dest = m1" "tree_ok fsy dest"
    "ValidReleaseID (dp_AppID r0)" by blast+
  have "\<not> prefix (sv_Root sv @ [tmp]) (dest @ q)" for q using assms(5) by (simp add: d(1) release_dir_def)
  note keep = RemoveAll_other [OF this, of fsy]
  have k: "release_manifest (ue_sha en) fs' dest = m1" "tree_ok fs' dest"
    using tree_kept [of fs' dest fsy] keep d(3,4) by (simp_all add: fs')
  obtain md c where "fs_lookup fsx (?stage @ [''index.html'']) = Some (FFile md c)"
    using ValidateRelease_index [OF v pe] by (metis is_file.elims(2))
  from release_manifest_file [OF this] d(2) have files: "fm_Files m1 \<noteq> []" by simp
  have "fm_Hash m1 \<noteq> []"
    using assms(6) [of "concat (map manifest_line (fm_Files m1))"] d(2)
    by (cases "ue_sha en (concat (map manifest_line (fm_Files m1)))")
      (auto simp: release_manifest_def file_manifest_def Let_def)
  obtain fsz w where ins: "Inspect (ue_sha en) (\<lambda>n. False) fs' dest = (fsz, w)" by fastforce
  with Inspect_good [OF ins] k have "snd (Inspect (ue_sha en) (\<lambda>n. False) fs' dest) = Inr m1" by simp
  with d(1,5) files \<open>fm_Hash m1 \<noteq> []\<close> have ev: "EvidenceValid (ue_sha en) (\<lambda>n. False) fs' (Some (sv_Root sv)) r"
    by (simp add: EvidenceValid_def app r FileManifestEqual_iff)
  have "mf_Name mf = rec_AppSlug r0"
    using v by (auto simp: ValidateRelease_def split: option.splits fnode.splits if_splits)
  with r ev app show ?thesis by (simp add: Recover_def)
qed

section \<open>A deployment from creation to activation\<close>

definition demo_site :: "zip_file list" where
  "demo_site = map (\<lambda>n. \<lparr>zf_Name = n, zf_Size64 = 2, zf_Mode = 420, zf_opens = True, zf_data = ''hi'',
     zf_fails = False, zf_ctx = False\<rparr>) [''tinker.yaml'', ''index.html'']"

definition demo_env :: UploadEnv where
  "demo_env = \<lparr>ue_U = \<lambda>n. n, ue_yaml = demo_yaml, ue_sha = \<lambda>s. [7], ue_fault = \<lambda>n. False, ue_race = \<lambda>fs. fs,
     ue_tmp = Some ''t'', ue_src = [\<lparr>rd_Done = False, rd_Data = ''z'', rd_Status = ReadEOF\<rparr>], ue_wfault = \<lambda>n. False,
     ue_src_unsafe = False, ue_tar = \<lambda>s. None, ue_zip = \<lambda>s. Some demo_site\<rparr>"

definition demo_service :: DepService where
  "demo_service = \<lparr>sv_Limits = \<lparr>al_MaxEntries = 9, al_MaxDepth = 2, al_MaxExpanded = 99, al_MaxFile = 9\<rparr>,
     sv_UploadLimit = 9, sv_Root = [''d''], sv_WriteGate = None, sv_AttemptLimit = 0\<rparr>"

definition demo_actor :: Actor where
  "demo_actor = \<lparr>actr_ID = ''u'', actr_Active = True\<rparr>"

definition demo_nodes :: "(fpath, fnode) gomap" where
  "demo_nodes = [([''d''], FDir 493), ([''d'', ''t''], FDir 448), ([''d'', ''t'', ''upload.zip''], FFile 420 ''z'')]"

definition demo_create :: "MemoryRepository \<times> (dep_error + Record)" where
  "demo_create = CreateDep (\<lambda>n. n) mem_ops demo_service
     \<lparr>mr_Records = [], mr_Current = [], mr_FailCommit = None, mr_ActivationAudits = []\<rparr> 0 demo_actor ''app'' ''demo'' ''x'' ''k'' []"

definition demo_upload :: "FS \<times> MemoryRepository \<times> dep_error option" where
  "demo_upload = Upload mem_ops demo_service demo_env \<lparr>fs_nodes = [([''d''], FDir 493)], fs_calls = 0\<rparr>
     (fst demo_create) demo_actor ''x'' ''application/zip''"

lemma demo_put_manifest:
  "put (\<lambda>n. n) (\<lambda>n. False) \<lparr>fs_nodes = demo_nodes, fs_calls = 4\<rparr> (new_budget (sv_Limits demo_service))
     [''d'', ''t'', ''release''] (zip_entry (demo_site ! 0)) =
   (\<lparr>fs_nodes = demo_nodes @ [([''d'', ''t'', ''release''], FDir 493), ([''d'', ''t'', ''release'', ''tinker.yaml''], FFile 420 ''hi'')],
      fs_calls = 8\<rparr>,
    \<lparr>bu_l = sv_Limits demo_service, bu_n = 1, bu_total = 2, bu_seen = [''tinker.yaml'']\<rparr>, None)"
  by code_simp

lemma demo_put_index:
  "put (\<lambda>n. n) (\<lambda>n. False) \<lparr>fs_nodes = demo_nodes @ [([''d'', ''t'', ''release''], FDir 493),
       ([''d'', ''t'', ''release'', ''tinker.yaml''], FFile 420 ''hi'')], fs_calls = 8\<rparr>
     \<lparr>bu_l = sv_Limits demo_service, bu_n = 1, bu_total = 2, bu_seen = [''tinker.yaml'']\<rparr>
     [''d'', ''t'', ''release''] (zip_entry (demo_site ! 1)) =
   (\<lparr>fs_nodes = demo_nodes @ [([''d'', ''t'', ''release''], FDir 493), ([''d'', ''t'', ''release'', ''tinker.yaml''], FFile 420 ''hi''),
       ([''d'', ''t'', ''release'', ''index.html''], FFile 420 ''hi'')], fs_calls = 11\<rparr>,
    \<lparr>bu_l = sv_Limits demo_service, bu_n = 2, bu_total = 4, bu_seen = [''index.html'', ''tinker.yaml'']\<rparr>, None)"
  by code_simp

definition demo_staged :: FS where
  "demo_staged = \<lparr>fs_nodes = demo_nodes @ [([''d'', ''t'', ''release''], FDir 493),
     ([''d'', ''t'', ''release'', ''tinker.yaml''], FFile 420 ''hi''),
     ([''d'', ''t'', ''release'', ''index.html''], FFile 420 ''hi'')], fs_calls = 11\<rparr>"

lemma demo_extracted:
  "ExtractZip (\<lambda>n. n) (\<lambda>n. False) \<lparr>fs_nodes = demo_nodes, fs_calls = 4\<rparr> demo_site [''d'', ''t'', ''release'']
     (sv_Limits demo_service) = (demo_staged, None)"
proof -
  have z: "demo_site = [demo_site ! 0, demo_site ! 1]" by (simp add: demo_site_def)
  have m: "zf_opens (demo_site ! 0)" "zf_opens (demo_site ! 1)" "zf_Mode (demo_site ! 0) AND ModeType = 0"
    "zf_Mode (demo_site ! 1) AND ModeType = 0" "limits_valid (sv_Limits demo_service)" by code_simp+
  show ?thesis
    by (subst z) (simp only: ExtractZip_def zip_loop.simps demo_put_manifest demo_put_index m prod.case option.case
        if_False if_True simp_thms demo_staged_def)
qed

lemma demo_validated:
  "\<exists>mf. ValidateRelease (\<lambda>n. n) demo_yaml (\<lambda>n. False) demo_staged [''d'', ''t'', ''release''] ''demo'' = Inr mf"
proof -
  have "map_sum id (\<lambda>x. ()) (ValidateRelease (\<lambda>n. n) demo_yaml (\<lambda>n. False) demo_staged [''d'', ''t'', ''release''] ''demo'') = Inr ()"
    by code_simp
  then show ?thesis by (auto simp: map_sum_def split: sum.splits)
qed

lemma demo_finalized:
  "\<exists>fs x. Finalize (\<lambda>s. [7]) (\<lambda>n. False) (\<lambda>fs. fs) demo_staged [''d''] ''app'' [''d'', ''t'', ''release''] = (fs, Inr x)"
proof -
  have "map_sum id fst (snd (Finalize (\<lambda>s. [7]) (\<lambda>n. False) (\<lambda>fs. fs) demo_staged [''d''] ''app'' [''d'', ''t'', ''release'']))
      = Inr [''d'', ''releases'', ''app'', ''07'']" by code_simp
  moreover obtain fs r where f: "Finalize (\<lambda>s. [7]) (\<lambda>n. False) (\<lambda>fs. fs) demo_staged [''d''] ''app'' [''d'', ''t'', ''release'']
      = (fs, r)" by (rule prod.exhaust)
  ultimately obtain x where "r = Inr x" by (cases r) simp_all
  with f show ?thesis by blast
qed

definition demo_record :: Record where
  "demo_record = zero_record\<lparr>dp_ID := ''x'', dp_AppID := ''app'', dp_State := Uploading, rec_OwnerID := ''u'',
     rec_AppSlug := ''demo'', rec_IdempotencyKey := ''k'', rec_PublicAcknowledged := False\<rparr>"

lemma demo_created: "demo_create = (\<lparr>mr_Records = [(''x'', demo_record)], mr_Current = [], mr_FailCommit = None,
    mr_ActivationAudits = []\<rparr>, Inr demo_record)"
  by code_simp

lemma demo_env_simps [simp]:
  "ue_U demo_env = (\<lambda>n. n)" "ue_yaml demo_env = demo_yaml" "ue_sha demo_env = (\<lambda>s. [7])" "ue_fault demo_env = (\<lambda>n. False)"
  "ue_race demo_env = (\<lambda>fs. fs)" "ue_tmp demo_env = Some ''t''" "ue_zip demo_env = (\<lambda>s. Some demo_site)"
  "sv_Root demo_service = [''d'']" "actr_ID demo_actor = ''u''" "actr_Active demo_actor"
  by (simp_all add: demo_env_def demo_service_def demo_actor_def)

lemma demo_received:
  "receive ops demo_service demo_env \<lparr>fs_nodes = [([''d''], FDir 493), ([''d'', ''t''], FDir 448)], fs_calls = 0\<rparr> s r
     [''d'', ''t''] ''upload.zip''
   = (\<lparr>fs_nodes = demo_nodes, fs_calls = 2\<rparr>, s, Inr \<lparr>up_Bytes = 1, up_SHA256 = [7]\<rparr>)"
proof -
  have "Copy (ue_sha demo_env) (ue_wfault demo_env) (ue_src demo_env) (sv_UploadLimit demo_service)
      = (''z'', Inr \<lparr>up_Bytes = 1, up_SHA256 = [7]\<rparr>)" by code_simp
  moreover have "path_Join [''d'', ''t''] ''upload.zip'' = [''d'', ''t'', ''upload.zip'']" by code_simp
  ultimately show ?thesis
    by (simp add: receive_def create_excl_def fs_touch_def demo_nodes_def fs_lookup_def fs_put_def fs_tick_def)
qed

text \<open>The four calls of the upload, and where they lead.\<close>

definition demo_job :: "dep_error option list \<Rightarrow> UploadJob" where
  "demo_job answers = (new_upload demo_service demo_env \<lparr>fs_nodes = [([''d''], FDir 493)], fs_calls = 0\<rparr> demo_record
     demo_actor ''application/zip'')\<lparr>uj_Answers := answers\<rparr>"

definition demo_stage1 :: Record where
  "demo_stage1 = demo_record\<lparr>rec_ArchiveHash := [7], dp_State := Uploaded\<rparr>"

definition demo_stage2 :: Record where
  "demo_stage2 = demo_stage1\<lparr>dp_State := Validating\<rparr>"

definition demo_stage3 :: "Manifest \<Rightarrow> Record" where
  "demo_stage3 mf = demo_stage2\<lparr>rec_Manifest := Some mf, dp_State := Staged\<rparr>"

definition demo_stage4 :: "Manifest \<Rightarrow> FileManifest \<Rightarrow> Record" where
  "demo_stage4 mf fm = demo_record\<lparr>dp_State := Verified, dp_ReleaseHash := fm_Hash fm,
     rec_Staging := [''d'', ''t''], rec_ArchiveHash := [7], rec_Manifest := Some mf, rec_Files := fm_Files fm\<rparr>"

definition demo_repo :: "Record \<Rightarrow> MemoryRepository" where
  "demo_repo r = \<lparr>mr_Records = [(''x'', r)], mr_Current = [], mr_FailCommit = None, mr_ActivationAudits = []\<rparr>"

lemma demo_uploaded:
  "\<exists>fs mf fm. demo_upload = (fs, demo_repo (demo_stage4 mf fm), None)
     \<and> next_call (demo_job []) = Some (CallCreate demo_stage1) \<and> next_call (demo_job [None]) = Some (CallCreate demo_stage2)
     \<and> next_call (demo_job [None, None]) = Some (CallCreate (demo_stage3 mf))
     \<and> next_call (demo_job [None, None, None]) = Some (CallCreate (demo_stage4 mf fm))"
proof -
  have j: "path_Join [''d'', ''t''] ''release'' = [''d'', ''t'', ''release'']" by code_simp
  obtain mf where v: "ValidateRelease (\<lambda>n. n) demo_yaml (\<lambda>n. False) demo_staged [''d'', ''t'', ''release''] ''demo'' = Inr mf"
    using demo_validated by blast
  obtain fs x where f: "Finalize (\<lambda>s. [7]) (\<lambda>n. False) (\<lambda>fs. fs) demo_staged [''d''] ''app'' [''d'', ''t'', ''release''] = (fs, Inr x)"
    using demo_finalized by blast
  obtain d b where x: "x = (d, b)" by (cases x)
  have e: "extract_upload demo_service demo_env \<lparr>fs_nodes = demo_nodes, fs_calls = 3\<rparr> [''d'', ''t''] ''upload.zip'' ''application/zip''
      = (demo_staged, None)"
    by (simp add: extract_upload_def fs_touch_def fs_tick_def j demo_extracted)
  note run = Upload_def Let_def demo_record_def zero_record_def upload_name_def upload_in_def fs_put_def demo_received
    advance_def Transition_def fs_touch_def fs_tick_def e publish_def j v f x
  note stages = demo_stage1_def demo_stage2_def demo_stage3_def demo_stage4_def
  note probe = next_call_def upload_calls_def demo_job_def new_upload_def probe_ops_def probe_answer_def
  have "demo_upload = (RemoveAll fs [''d'', ''t''], demo_repo (demo_stage4 mf b), None)"
    by (simp add: demo_upload_def demo_created mem_ops_def MemGet_def MemCreate_def demo_repo_def demo_stage4_def run)
  moreover have "next_call (demo_job []) = Some (CallCreate demo_stage1)" by (simp add: probe stages run)
  moreover have "next_call (demo_job [None]) = Some (CallCreate demo_stage2)" by (simp add: probe stages run)
  moreover have "next_call (demo_job [None, None]) = Some (CallCreate (demo_stage3 mf))" by (simp add: probe stages run)
  moreover have "next_call (demo_job [None, None, None]) = Some (CallCreate (demo_stage4 mf b))" by (simp add: probe stages run)
  ultimately show ?thesis by blast
qed

definition demo_world :: "MemoryRepository \<Rightarrow> dep_error option list \<Rightarrow> dep_error option list \<Rightarrow> DepWorld" where
  "demo_world m a b = \<lparr>dw_Repo = m, dw_Uploads = Map.empty(0 \<mapsto> demo_job a, 1 \<mapsto> demo_job b), dw_Activations = Map.empty\<rparr>"

lemma demo_stage_simps [simp]:
  "dp_ID demo_record = ''x''" "rec_IdempotencyKey demo_record = ''k''" "rec_OwnerID demo_record = ''u''" "dp_AppID demo_record = ''app''"
  "\<not> rec_RecoveryCorrupt demo_record"
  by (simp_all add: demo_record_def zero_record_def)

lemma demo_call:
  assumes "dep_run (demo_world m a b)" "mr_Records m = [(''x'', r0)]" "rec_IdempotencyKey r0 = ''k''"
    and "dp_ID r = ''x''" "rec_IdempotencyKey r = ''k''"
  shows "next_call (demo_job a) = Some (CallCreate r) \<Longrightarrow> dep_run (demo_world (m\<lparr>mr_Records := [(''x'', r)]\<rparr>) (a @ [None]) b)"
    and "next_call (demo_job b) = Some (CallCreate r) \<Longrightarrow> dep_run (demo_world (m\<lparr>mr_Records := [(''x'', r)]\<rparr>) a (b @ [None]))"
proof -
  have d: "do_call (dw_Repo (demo_world m a b)) (CallCreate r) = (m\<lparr>mr_Records := [(''x'', r)]\<rparr>, None)"
    using assms(2-5) by (simp add: demo_world_def MemCreate_def)
  show "next_call (demo_job a) = Some (CallCreate r) \<Longrightarrow> dep_run (demo_world (m\<lparr>mr_Records := [(''x'', r)]\<rparr>) (a @ [None]) b)"
    using run_upload_call [OF assms(1) _ _ d, of 0 "demo_job a"] by (simp add: demo_world_def demo_job_def fun_upd_twist)
  show "next_call (demo_job b) = Some (CallCreate r) \<Longrightarrow> dep_run (demo_world (m\<lparr>mr_Records := [(''x'', r)]\<rparr>) a (b @ [None]))"
    using run_upload_call [OF assms(1) _ _ d, of 1 "demo_job b"] by (simp add: demo_world_def demo_job_def)
qed

text \<open>Two uploads of one deployment begin; the first runs to its end.\<close>

lemma demo_two_uploads: "dep_run (demo_world (demo_repo demo_record) [] [])"
proof -
  let ?m0 = "\<lparr>mr_Records = [], mr_Current = [], mr_FailCommit = None, mr_ActivationAudits = []\<rparr>"
  have "CreateDep (\<lambda>n. n) mem_ops demo_service (dw_Repo (idle ?m0)) 0 demo_actor ''app'' ''demo'' ''x'' ''k'' [] = (demo_repo demo_record, Inr demo_record)"
    using demo_created by (simp add: demo_create_def idle_def demo_repo_def)
  from run_create [OF run_init _ this] have c: "dep_run (idle (demo_repo demo_record))" by (simp add: idle_def)
  let ?j = "demo_job []"
  have get: "MemGet (demo_repo demo_record) ''x'' = Inr demo_record" by (simp add: MemGet_def demo_repo_def)
  have j: "?j = new_upload demo_service demo_env \<lparr>fs_nodes = [([''d''], FDir 493)], fs_calls = 0\<rparr> demo_record demo_actor ''application/zip''"
    by (simp add: demo_job_def new_upload_def)
  have u1: "dep_run ((idle (demo_repo demo_record))\<lparr>dw_Uploads := Map.empty(0 \<mapsto> ?j)\<rparr>)"
    using run_upload [OF c, of "''x''" demo_record 0] get unfolding j by (simp add: idle_def)
  show ?thesis
    using run_upload [OF u1, of "''x''" demo_record 1] get unfolding j by (simp add: idle_def demo_world_def j)
qed

lemma demo_run_verified:
  obtains fs mf fm where "demo_upload = (fs, demo_repo (demo_stage4 mf fm), None)"
    "dep_run (demo_world (demo_repo (demo_stage4 mf fm)) [None, None, None, None] [])"
proof -
  obtain fs mf fm where u: "demo_upload = (fs, demo_repo (demo_stage4 mf fm), None)"
    and c: "next_call (demo_job []) = Some (CallCreate demo_stage1)" "next_call (demo_job [None]) = Some (CallCreate demo_stage2)"
      "next_call (demo_job [None, None]) = Some (CallCreate (demo_stage3 mf))"
      "next_call (demo_job [None, None, None]) = Some (CallCreate (demo_stage4 mf fm))"
    using demo_uploaded by blast
  have put: "(demo_repo r)\<lparr>mr_Records := [(''x'', r')]\<rparr> = demo_repo r'" for r r' by (simp add: demo_repo_def)
  have rec: "mr_Records (demo_repo r) = [(''x'', r)]" for r by (simp add: demo_repo_def)
  note st = demo_stage1_def demo_stage2_def demo_stage3_def demo_stage4_def
  have s1: "dep_run (demo_world (demo_repo demo_stage1) [None] [])"
    using demo_call(1) [OF demo_two_uploads rec _ _ _ c(1)] by (simp add: put st)
  have s2: "dep_run (demo_world (demo_repo demo_stage2) [None, None] [])"
    using demo_call(1) [OF s1 rec _ _ _ c(2)] by (simp add: put st)
  have s3: "dep_run (demo_world (demo_repo (demo_stage3 mf)) [None, None, None] [])"
    using demo_call(1) [OF s2 rec _ _ _ c(3)] by (simp add: put st)
  have "dep_run (demo_world (demo_repo (demo_stage4 mf fm)) [None, None, None, None] [])"
    using demo_call(1) [OF s3 rec _ _ _ c(4)] by (simp add: put st)
  with u show ?thesis by (rule that)
qed

text \<open>The deployment as the upload left it, and its activation.\<close>

definition demo_verified :: MemoryRepository where
  "demo_verified = fst (snd demo_upload)"

definition demo_gates :: "MemoryRepository Gates" where
  "demo_gates = \<lparr>gt_Policy = \<lambda>s r. rec_Manifest r \<noteq> None, gt_Certificate = \<lambda>s r. True, gt_Probe = \<lambda>s r. True\<rparr>"

definition demo_active :: MemoryRepository where
  "demo_active = fst (ActivateDep mem_ops demo_gates (\<lambda>_. demo_verified) demo_verified demo_actor ''x'' ''q'')"

lemma demo_verified_record:
  obtains mf fm where "demo_verified = demo_repo (demo_stage4 mf fm)"
    "dep_run (demo_world demo_verified [None, None, None, None] [])"
proof -
  obtain fs mf fm where u: "demo_upload = (fs, demo_repo (demo_stage4 mf fm), None)"
    and r: "dep_run (demo_world (demo_repo (demo_stage4 mf fm)) [None, None, None, None] [])" by (rule demo_run_verified)
  have v: "demo_verified = demo_repo (demo_stage4 mf fm)" unfolding demo_verified_def u by simp
  show ?thesis by (rule that [OF v]) (unfold v, rule r)
qed

lemma demo_verified_fields: "mr_Current demo_verified = []" "mr_ActivationAudits demo_verified = []"
proof -
  obtain mf fm where v: "demo_verified = demo_repo (demo_stage4 mf fm)" by (rule demo_verified_record)
  show "mr_Current demo_verified = []" "mr_ActivationAudits demo_verified = []" unfolding v by (simp_all add: demo_repo_def)
qed

lemma demo_activated:
  "ActivateDep mem_ops demo_gates (\<lambda>_. demo_verified) demo_verified demo_actor ''x'' ''q'' = (demo_active, None)"
  "\<exists>r. mr_Records demo_active = [(''x'', r)] \<and> dp_State r = Active \<and> dp_AppID r = ''app'' \<and> rec_IdempotencyKey r = ''k''"
  "mr_Current demo_active = [(''app'', ''x'')]"
proof -
  obtain mf fm where v: "demo_verified = demo_repo (demo_stage4 mf fm)" by (rule demo_verified_record)
  let ?m = "\<lparr>mr_Records = [(''x'', (demo_stage4 mf fm)\<lparr>dp_State := Active\<rparr>)], mr_Current = [(''app'', ''x'')], mr_FailCommit = None,
      mr_ActivationAudits = [(''q'', ''x'')]\<rparr>"
  have a: "ActivateDep mem_ops demo_gates (\<lambda>_. demo_verified) demo_verified demo_actor ''x'' ''q'' = (?m, None)"
    unfolding v by (simp add: ActivateDep_def activationRecord_def mem_ops_def MemGet_def demo_repo_def demo_stage4_def
        MemReplay_def MemActive_def MemCommit_def current_id_def demo_gates_def CanActivate_def Let_def)
  then have m: "demo_active = ?m" by (simp add: demo_active_def)
  from a m show "ActivateDep mem_ops demo_gates (\<lambda>_. demo_verified) demo_verified demo_actor ''x'' ''q'' = (demo_active, None)" by simp
  show "\<exists>r. mr_Records demo_active = [(''x'', r)] \<and> dp_State r = Active \<and> dp_AppID r = ''app'' \<and> rec_IdempotencyKey r = ''k''"
    "mr_Current demo_active = [(''app'', ''x'')]"
    by (simp_all add: m demo_stage4_def)
qed

lemma demo_run_active: "dep_run (demo_world demo_active [None, None, None, None] [])"
proof -
  have "dep_run (demo_world demo_verified [None, None, None, None] [])" by (rule demo_verified_record)
  from run_activation [OF this, of demo_gates demo_actor "''x''" "''q''" demo_active None] demo_activated(1)
  show ?thesis by (simp add: demo_world_def)
qed

lemma demo_reachable: "dep_reachable (fst demo_create)" "dep_reachable demo_verified" "dep_reachable demo_active"
proof -
  have r: "dep_run (demo_world m a b) \<Longrightarrow> dep_reachable m" for m a b
    unfolding dep_reachable_def by (intro exI [of _ "demo_world m a b"]) (simp add: demo_world_def)
  show "dep_reachable (fst demo_create)" using r [OF demo_two_uploads] by (simp add: demo_created demo_repo_def)
  show "dep_reachable demo_active" by (rule r [OF demo_run_active])
  show "dep_reachable demo_verified" by (rule demo_verified_record) (rule r)
qed

text \<open>A pointer may come to name a record that is not active: the second upload, which began before the first one had
  stored anything, goes on after the activation and overwrites the active record.\<close>

theorem second_upload_unseats:
  "\<exists>m r. dep_reachable m \<and> map_of (mr_Current m) ''app'' = Some ''x'' \<and> mem_look m ''x'' = Some r \<and> dp_State r = Uploaded"
proof -
  obtain r where r: "mr_Records demo_active = [(''x'', r)]" "rec_IdempotencyKey r = ''k''" using demo_activated(2) by blast
  have c: "next_call (demo_job []) = Some (CallCreate demo_stage1)" using demo_uploaded by blast
  let ?m = "demo_active\<lparr>mr_Records := [(''x'', demo_stage1)]\<rparr>"
  have "dep_run (demo_world ?m [None, None, None, None] ([] @ [None]))"
    by (rule demo_call(2) [OF demo_run_active r _ _ c]) (simp_all add: demo_stage1_def)
  then have "dep_reachable ?m"
    unfolding dep_reachable_def by (intro exI [of _ "demo_world ?m [None, None, None, None] ([] @ [None])"]) (simp add: demo_world_def)
  then show ?thesis by (intro exI [of _ ?m] exI [of _ demo_stage1]) (simp add: demo_activated(3) mem_look_def demo_stage1_def)
qed

text \<open>A concrete instance.\<close>

theorem upload_evidence_witness:
  "\<exists>fs' m' r. demo_upload = (fs', m', None) \<and> mem_look m' ''x'' = Some r
    \<and> EvidenceValid (\<lambda>s. [7]) (\<lambda>n. False) fs' (Some [''d'']) r"
proof -
  obtain fs' m' where u: "demo_upload = (fs', m', None)" using demo_uploaded by metis
  have "\<exists>r mf. mem_look m' ''x'' = Some r \<and> dp_State r = Verified \<and> rec_Manifest r = Some mf \<and> mf_Name mf = rec_AppSlug r
    \<and> EvidenceValid (ue_sha demo_env) (\<lambda>n. False) fs' (Some (sv_Root demo_service)) r
    \<and> (\<not> rec_RecoveryCorrupt r \<longrightarrow>
        Recover r (EvidenceValid (ue_sha demo_env) (\<lambda>n. False) fs' (Some (sv_Root demo_service)) r) = Verified)"
    by (rule upload_evidence [OF demo_reachable(1) u [unfolded demo_upload_def], where tmp = "''t''"])
      (simp_all add: proper_elem_def rival_def)
  with u show ?thesis by auto
qed

text \<open>A concrete instance.\<close>

theorem activation_gated_witness:
  "\<exists>r old. rp_Get mem_ops demo_verified ''x'' = Inr r \<and> rec_OwnerID r = actr_ID demo_actor
    \<and> rp_CommitActivation mem_ops demo_verified r old ''q'' = (demo_active, None)"
proof -
  have "rp_ActivationReplay mem_ops demo_verified r ''q'' \<noteq> Inr True" for r
    by (simp add: mem_ops_def MemReplay_def demo_verified_fields)
  then show ?thesis using activation_gated [OF demo_activated(1)] by blast
qed

text \<open>A concrete instance.\<close>

theorem deployment_one_active_witness:
  "\<exists>r. mem_look demo_active ''x'' = Some r \<and> dp_State r = Active
    \<and> (\<forall>j r'. mem_look demo_active j = Some r' \<and> dp_State r' = Active \<and> dp_AppID r' = ''app'' \<longrightarrow> j = ''x'')"
proof -
  obtain r where r: "mem_look demo_active ''x'' = Some r" "dp_State r = Active" "dp_AppID r = ''app''"
    using demo_activated(2) by (auto simp: mem_look_def)
  have "j = ''x''" if "mem_look demo_active j = Some r' \<and> dp_State r' = Active \<and> dp_AppID r' = ''app''" for j r'
    using deployment_one_active [OF demo_reachable(3), of "''x''" r j r'] r that by simp
  with r show ?thesis by blast
qed

text \<open>A concrete instance.\<close>

theorem activation_retry_witness:
  "ActivateDep mem_ops \<lparr>gt_Policy = \<lambda>s r. False, gt_Certificate = \<lambda>s r. False, gt_Probe = \<lambda>s r. False\<rparr> (\<lambda>x. x)
     demo_active demo_actor ''x'' ''q'' = (demo_active, None)"
  by (rule activation_retry [OF demo_reachable(2) demo_activated(1)]) (simp add: demo_verified_fields)

text \<open>A concrete instance.\<close>

theorem recovery_settles_witness:
  "\<exists>m'. RecoverStartup mem_ops demo_active (Some (\<lambda>r. False)) = (m', None)
    \<and> map_option dp_State (mem_look m' ''x'') = Some Failed"
proof -
  obtain m' e where run: "RecoverStartup mem_ops demo_active (Some (\<lambda>r. False)) = (m', e)" by fastforce
  obtain r where r: "mem_look demo_active ''x'' = Some r" "dp_State r = Active"
    using demo_activated(2) by (auto simp: mem_look_def)
  from recovery_settles [OF demo_reachable(3) run] have "e = None"
    "mem_look m' ''x'' = map_option (\<lambda>r. r\<lparr>dp_State := Recover r False\<rparr>) (mem_look demo_active ''x'')" by blast+
  with run r show ?thesis by (simp add: Recover_def)
qed

end
