(* ===== verification/Llm_Service.thy ===== *)
theory Llm_Service
  imports Sessions_Auth Rolling_Window Go_Utf8
begin

text \<open>
  The chat capability, \<open>internal/llm/llm.go\<close>: validation of a request against the operator's limits, the
  in-memory rate limiter with its rollback, and \<open>Complete\<close>, which admits a call, runs the provider's
  adapter and reconciles the reservation. The repository and the adapters are records of operations over
  a state \<open>'s\<close>; the locale \<open>llm_accounts\<close> is what the service relies on in a repository.
\<close>

section \<open>Data\<close>

datatype llm_error =
    LlmUnauthorized | LlmCapabilityUnavailable | LlmInvalidRequest | LlmRateLimited | LlmQuotaExhausted
  | LlmTemporarilyUnavailable | LlmCancelled | LlmContextCanceled | LlmOther

datatype Provider = ProviderAnthropic | ProviderGemini | OtherProvider string

record LlmMessage =
  lm_Role :: string
  lm_Content :: string

record LlmRequest =
  lr_Messages :: "LlmMessage list"
  lr_MaxOutputTokens :: int

record Usage =
  us_InputTokens :: int
  us_OutputTokens :: int

record LlmResponse =
  rs_Message :: LlmMessage
  rs_Usage :: Usage
  rs_FinishReason :: string
  rs_RequestID :: string

record LlmLimits =
  ll_MaxMessages :: int
  ll_MaxMessageBytes :: int
  ll_MaxInputBytes :: int
  ll_MaxOutputTokens :: int
  ll_Timeout :: duration
  ll_ViewerRequests :: int
  ll_AppRequests :: int
  ll_RateWindow :: duration

definition LlmDefaultLimits :: LlmLimits where
  "LlmDefaultLimits = \<lparr>ll_MaxMessages = 32, ll_MaxMessageBytes = 16 * 1024, ll_MaxInputBytes = 64 * 1024,
     ll_MaxOutputTokens = 1024, ll_Timeout = 30 * second, ll_ViewerRequests = 20, ll_AppRequests = 120,
     ll_RateWindow = minute\<rparr>"

definition absoluteLimits :: LlmLimits where
  "absoluteLimits = \<lparr>ll_MaxMessages = 128, ll_MaxMessageBytes = 262144, ll_MaxInputBytes = 1048576,
     ll_MaxOutputTokens = 16384, ll_Timeout = 120 * second, ll_ViewerRequests = 10000, ll_AppRequests = 100000,
     ll_RateWindow = hour\<rparr>"

record Binding =
  lb_AppID :: string
  lb_ProfileID :: string
  lb_ConnectionID :: string
  lb_Model :: string
  lb_ReservationID :: string
  lb_Credential :: string
  lb_Provider :: Provider
  lb_Limits :: LlmLimits
  lb_ReservedTokens :: int

datatype Outcome = OutcomeSucceeded | OutcomeFailed | OutcomeCancelled | OutcomeAmbiguous

record 's LlmRepository =
  lp_AdmissionLimits :: "'s \<Rightarrow> string \<Rightarrow> llm_error + LlmLimits"
  lp_Admit :: "'s \<Rightarrow> string \<Rightarrow> string \<Rightarrow> int \<Rightarrow> int \<Rightarrow> time \<Rightarrow> 's \<times> (llm_error + Binding)"
  lp_Reconcile :: "'s \<Rightarrow> Binding \<Rightarrow> Usage \<Rightarrow> Outcome \<Rightarrow> time \<Rightarrow> 's \<times> llm_error option"

type_synonym 's LlmAdapter = "'s \<Rightarrow> Binding \<Rightarrow> LlmRequest \<Rightarrow> 's \<times> (llm_error + LlmResponse)"

definition ValidModelIdentifier :: "string \<Rightarrow> bool" where
  "ValidModelIdentifier model \<longleftrightarrow> model \<noteq> [] \<and> length model \<le> 128 \<and> ValidString model
     \<and> \<not> ContainsAny model [CHR 0x00, CHR 0x0D, CHR 0x0A]"

fun stable :: "llm_error \<Rightarrow> llm_error" where
  "stable LlmUnauthorized = LlmUnauthorized"
| "stable LlmCapabilityUnavailable = LlmCapabilityUnavailable"
| "stable LlmInvalidRequest = LlmInvalidRequest"
| "stable LlmRateLimited = LlmRateLimited"
| "stable LlmQuotaExhausted = LlmQuotaExhausted"
| "stable LlmContextCanceled = LlmCancelled"
| "stable _ = LlmTemporarilyUnavailable"

section \<open>Requests and limits\<close>

text \<open>The loop over the messages: \<open>prev\<close> is the role of the message before, \<open>used\<close> the bytes so far.\<close>

fun message_loop :: "LlmLimits \<Rightarrow> string option \<Rightarrow> int \<Rightarrow> LlmMessage list \<Rightarrow> bool" where
  "message_loop l prev used [] = True"
| "message_loop l prev used (m # ms) =
     (if (lm_Role m \<noteq> ''user'' \<and> lm_Role m \<noteq> ''assistant'') \<or> lm_Content m = [] \<or> \<not> ValidString (lm_Content m)
         \<or> int (length (lm_Content m)) > ll_MaxMessageBytes l \<or> prev = Some (lm_Role m)
      then False
      else if used + int (length (lm_Content m)) > ll_MaxInputBytes l then False
      else message_loop l (Some (lm_Role m)) (used + int (length (lm_Content m))) ms)"

definition validateRequest :: "LlmRequest \<Rightarrow> LlmLimits \<Rightarrow> llm_error option" where
  "validateRequest r l0 =
     (let l = (if ll_MaxMessages l0 \<le> 0 then LlmDefaultLimits else l0) in
      if lr_Messages r = [] \<or> int (length (lr_Messages r)) > ll_MaxMessages l
         \<or> (lr_MaxOutputTokens r \<noteq> 0 \<and> (lr_MaxOutputTokens r < 1 \<or> lr_MaxOutputTokens r > ll_MaxOutputTokens l))
      then Some LlmInvalidRequest
      else if \<not> message_loop l None 0 (lr_Messages r) then Some LlmInvalidRequest
      else if lm_Role (last (lr_Messages r)) \<noteq> ''user'' then Some LlmInvalidRequest
      else None)"

definition estimateInputTokens :: "LlmRequest \<Rightarrow> int" where
  "estimateInputTokens r =
     sum_list (map (\<lambda>m. int (length (lm_Content m))) (lr_Messages r)) + int (length (lr_Messages r)) * 16"

definition validLimits :: "LlmLimits \<Rightarrow> bool" where
  "validLimits l \<longleftrightarrow>
     (let a = absoluteLimits in
      ll_MaxMessages l \<ge> 1 \<and> ll_MaxMessages l \<le> ll_MaxMessages a
      \<and> ll_MaxMessageBytes l \<ge> 1 \<and> ll_MaxMessageBytes l \<le> ll_MaxMessageBytes a
      \<and> ll_MaxInputBytes l \<ge> 1 \<and> ll_MaxInputBytes l \<le> ll_MaxInputBytes a
      \<and> ll_MaxOutputTokens l \<ge> 1 \<and> ll_MaxOutputTokens l \<le> ll_MaxOutputTokens a
      \<and> ll_Timeout l \<ge> second \<and> ll_Timeout l \<le> ll_Timeout a
      \<and> ll_ViewerRequests l \<ge> 1 \<and> ll_ViewerRequests l \<le> ll_ViewerRequests a
      \<and> ll_AppRequests l \<ge> 1 \<and> ll_AppRequests l \<le> ll_AppRequests a
      \<and> ll_RateWindow l \<ge> second \<and> ll_RateWindow l \<le> ll_RateWindow a)"

definition sameLimits :: "LlmLimits \<Rightarrow> LlmLimits \<Rightarrow> bool" where
  "sameLimits a b \<longleftrightarrow> a = b"

definition safeLimits :: "LlmLimits \<Rightarrow> (string, int) gomap" where
  "safeLimits l =
     [(''max_messages'', ll_MaxMessages l), (''max_message_bytes'', ll_MaxMessageBytes l),
      (''max_input_bytes'', ll_MaxInputBytes l), (''max_output_tokens'', ll_MaxOutputTokens l),
      (''timeout_ms'', ll_Timeout l div 1000000), (''viewer_requests'', ll_ViewerRequests l),
      (''app_requests'', ll_AppRequests l), (''rate_window_ms'', ll_RateWindow l div 1000000)]"

section \<open>The rate limiter\<close>

record rateMark =
  rm_at :: time
  rm_id :: uint64

record LlmRates =
  lt_rates :: "(string, rateMark list) gomap"
  lt_rateSeq :: uint64

record ratePermit =
  pm_keys :: "string list"
  pm_mark :: rateMark

abbreviation rateStateMaxKeys :: int where "rateStateMaxKeys \<equiv> 2048"

definition recent_marks :: "rateMark list \<Rightarrow> time \<Rightarrow> rateMark list" where
  "recent_marks v cutoff = drop (skip_expired (map rm_at v) cutoff 0) v"

definition marks_of :: "(string, rateMark list) gomap \<Rightarrow> string \<Rightarrow> rateMark list" where
  "marks_of m k = (case map_of m k of None \<Rightarrow> [] | Some v \<Rightarrow> v)"

definition pruneRatesLocked :: "(string, rateMark list) gomap \<Rightarrow> time \<Rightarrow> (string, rateMark list) gomap" where
  "pruneRatesLocked rates now =
     (let cutoff = now - ll_RateWindow absoluteLimits in
      gm_rewrite (\<lambda>key entries. let r = recent_marks entries cutoff in if r = [] then None else Some r) rates)"

definition viewer_key :: "string \<Rightarrow> string \<Rightarrow> string" where
  "viewer_key app viewer = ''viewer'' @ CHR 0x00 # app @ CHR 0x00 # viewer"

definition app_key :: "string \<Rightarrow> string" where
  "app_key app = ''app'' @ CHR 0x00 # app"

text \<open>Refreshing a key stores its recent marks, also when there are none.\<close>

definition refresh :: "time \<Rightarrow> string \<Rightarrow> (string, rateMark list) gomap \<Rightarrow> (string, rateMark list) gomap" where
  "refresh cutoff k m = AList.update k (recent_marks (marks_of m k) cutoff) m"

definition new_keys :: "(string, rateMark list) gomap \<Rightarrow> string list \<Rightarrow> int" where
  "new_keys m ks = int (length (filter (\<lambda>k. marks_of m k = []) ks))"

definition reserveRate :: "string \<Rightarrow> string \<Rightarrow> LlmLimits \<Rightarrow> time \<Rightarrow> LlmRates \<Rightarrow> LlmRates \<times> (llm_error + ratePermit)" where
  "reserveRate app viewer l now st =
     (if ll_RateWindow l \<le> 0 \<or> ll_ViewerRequests l \<le> 0 \<or> ll_AppRequests l \<le> 0 then (st, Inl LlmCapabilityUnavailable)
      else
        let cutoff = now - ll_RateWindow l; vk = viewer_key app viewer; ak = app_key app;
            m = refresh cutoff ak (refresh cutoff vk (pruneRatesLocked (lt_rates st) now));
            st1 = st\<lparr>lt_rates := m\<rparr>
        in if int (length (marks_of m vk)) \<ge> ll_ViewerRequests l \<or> int (length (marks_of m ak)) \<ge> ll_AppRequests l
           then (st1, Inl LlmRateLimited)
           else if int (length m) + new_keys m [vk, ak] > rateStateMaxKeys then (st1, Inl LlmRateLimited)
           else
             let i = lt_rateSeq st + 1; mark = \<lparr>rm_at = now, rm_id = i\<rparr>;
                 m1 = AList.update vk (marks_of m vk @ [mark]) m;
                 m2 = AList.update ak (marks_of m1 ak @ [mark]) m1
             in (\<lparr>lt_rates = m2, lt_rateSeq = i\<rparr>, Inr \<lparr>pm_keys = [vk, ak], pm_mark = mark\<rparr>))"

text \<open>Removing the last mark with the identifier.\<close>

fun remove_first_mark :: "uint64 \<Rightarrow> rateMark list \<Rightarrow> rateMark list" where
  "remove_first_mark i [] = []"
| "remove_first_mark i (x # xs) = (if rm_id x = i then xs else x # remove_first_mark i xs)"

definition remove_mark :: "uint64 \<Rightarrow> rateMark list \<Rightarrow> rateMark list" where
  "remove_mark i v = rev (remove_first_mark i (rev v))"

definition release_key :: "uint64 \<Rightarrow> string \<Rightarrow> (string, rateMark list) gomap \<Rightarrow> (string, rateMark list) gomap" where
  "release_key i k m =
     (let entries = remove_mark i (marks_of m k)
      in if entries = [] then AList.delete k m else AList.update k entries m)"

definition Release :: "ratePermit \<Rightarrow> LlmRates \<Rightarrow> LlmRates" where
  "Release p st = st\<lparr>lt_rates := fold (release_key (rm_id (pm_mark p))) (pm_keys p) (lt_rates st)\<rparr>"

section \<open>Discovery and completion\<close>

abbreviation noUsage :: Usage where "noUsage \<equiv> \<lparr>us_InputTokens = 0, us_OutputTokens = 0\<rparr>"

definition Discovery :: "'s LlmRepository option \<Rightarrow> 's \<Rightarrow> AuthorizationContext option \<Rightarrow> (string, int) gomap option" where
  "Discovery repo s auth =
     (case repo of
        None \<Rightarrow> None
      | Some rp \<Rightarrow>
          (case Scope auth of
             Inl _ \<Rightarrow> None
           | Inr (app, _, _) \<Rightarrow>
               (case lp_AdmissionLimits rp s app of
                  Inl _ \<Rightarrow> None
                | Inr limits \<Rightarrow> if \<not> validLimits limits then None else Some (safeLimits limits))))"

definition bad_response :: "LlmLimits \<Rightarrow> LlmResponse \<Rightarrow> bool" where
  "bad_response l r \<longleftrightarrow>
     lm_Role (rs_Message r) \<noteq> ''assistant'' \<or> lm_Content (rs_Message r) = [] \<or> \<not> ValidString (lm_Content (rs_Message r))
     \<or> us_InputTokens (rs_Usage r) < 0 \<or> us_OutputTokens (rs_Usage r) < 0
     \<or> us_OutputTokens (rs_Usage r) > ll_MaxOutputTokens l
     \<or> (rs_FinishReason r \<noteq> ''stop'' \<and> rs_FinishReason r \<noteq> ''length'')"

text \<open>From the call of the provider to the answer.\<close>

definition call_provider :: "'s LlmRepository \<Rightarrow> 's LlmAdapter \<Rightarrow> bool \<Rightarrow> time \<Rightarrow> string \<Rightarrow> LlmRequest \<Rightarrow> 's \<Rightarrow> Binding
      \<Rightarrow> 's \<times> (llm_error + LlmResponse)" where
  "call_provider rp adapter cancelled now requestID request s b =
     (case adapter s b request of
        (s1, Inl callErr) \<Rightarrow>
          let outcome = (if cancelled then OutcomeAmbiguous else OutcomeFailed) in
          (case lp_Reconcile rp s1 b noUsage outcome now of
             (s2, Some _) \<Rightarrow> (s2, Inl LlmTemporarilyUnavailable)
           | (s2, None) \<Rightarrow> (s2, Inl (if outcome = OutcomeAmbiguous then LlmCancelled else stable callErr)))
      | (s1, Inr response0) \<Rightarrow>
          let response = response0\<lparr>rs_RequestID := requestID\<rparr> in
          if bad_response (lb_Limits b) response
          then (fst (lp_Reconcile rp s1 b noUsage OutcomeAmbiguous now), Inl LlmTemporarilyUnavailable)
          else (case lp_Reconcile rp s1 b (rs_Usage response) OutcomeSucceeded now of
                  (s2, Some _) \<Rightarrow> (s2, Inl LlmTemporarilyUnavailable)
                | (s2, None) \<Rightarrow> (s2, Inr response)))"

text \<open>\<open>cancelled\<close> is whether a context was canceled when the provider had failed.\<close>

definition LlmComplete :: "'s LlmRepository option \<Rightarrow> (Provider \<Rightarrow> 's LlmAdapter option) \<Rightarrow> bool \<Rightarrow> time
      \<Rightarrow> AuthorizationContext option \<Rightarrow> LlmRequest \<Rightarrow> LlmRates \<Rightarrow> 's \<Rightarrow> LlmRates \<times> 's \<times> (llm_error + LlmResponse)" where
  "LlmComplete repo adapters cancelled now auth request rs s =
     (case auth of
        None \<Rightarrow> (rs, s, Inl LlmUnauthorized)
      | Some c \<Rightarrow>
     (case repo of
        None \<Rightarrow> (rs, s, Inl LlmCapabilityUnavailable)
      | Some rp \<Rightarrow>
     (case Scope auth of
        Inl _ \<Rightarrow> (rs, s, Inl LlmUnauthorized)
      | Inr (app, viewer, _) \<Rightarrow>
     (case validateRequest request absoluteLimits of
        Some e \<Rightarrow> (rs, s, Inl e)
      | None \<Rightarrow>
     (case lp_AdmissionLimits rp s app of
        Inl e \<Rightarrow> (rs, s, Inl (stable e))
      | Inr limits \<Rightarrow>
          if \<not> validLimits limits then (rs, s, Inl LlmCapabilityUnavailable)
          else
     (case validateRequest request limits of
        Some e \<Rightarrow> (rs, s, Inl e)
      | None \<Rightarrow>
     (case reserveRate app viewer limits now rs of
        (rs1, Inl e) \<Rightarrow> (rs1, s, Inl e)
      | (rs1, Inr permit) \<Rightarrow>
     (case lp_Admit rp s app viewer (estimateInputTokens request) (lr_MaxOutputTokens request) now of
        (s1, Inl e) \<Rightarrow> (Release permit rs1, s1, Inl (stable e))
      | (s1, Inr b) \<Rightarrow>
          if lb_AppID b \<noteq> app \<or> lb_ProfileID b = [] \<or> lb_Credential b = []
          then (Release permit rs1, fst (lp_Reconcile rp s1 b noUsage OutcomeFailed now), Inl LlmCapabilityUnavailable)
          else if \<not> sameLimits limits (lb_Limits b) \<or> validateRequest request (lb_Limits b) \<noteq> None
          then (Release permit rs1, fst (lp_Reconcile rp s1 b noUsage OutcomeFailed now), Inl LlmTemporarilyUnavailable)
          else
            (case adapters (lb_Provider b) of
               None \<Rightarrow> (rs1, fst (lp_Reconcile rp s1 b noUsage OutcomeFailed now), Inl LlmCapabilityUnavailable)
             | Some adapter \<Rightarrow> (rs1, call_provider rp adapter cancelled now (ac_requestID c) request s1 b))))))))))"

section \<open>What the service relies on in a repository\<close>

text \<open>Every outcome of the provider call settles the reservation once; \<open>s1\<close> is the state after the provider.\<close>

lemma call_provider_settles:
  assumes "call_provider rp adapter cancelled now rid request s b = (s', r)"
  obtains u oc e where "lp_Reconcile rp (fst (adapter s b request)) b u oc now = (s', e)"
    "u = noUsage \<or> oc = OutcomeSucceeded \<and> 0 \<le> us_InputTokens u \<and> 0 \<le> us_OutputTokens u
      \<and> (\<exists>resp. snd (adapter s b request) = Inr resp \<and> u = rs_Usage resp)"
    "\<And>resp. r = Inr resp \<Longrightarrow> e = None \<and> oc = OutcomeSucceeded \<and> u = rs_Usage resp \<and> \<not> bad_response (lb_Limits b) resp
        \<and> rs_RequestID resp = rid"
proof -
  obtain s1 x where a: "adapter s b request = (s1, x)" by fastforce
  show ?thesis
  proof (cases x)
    case (Inl err)
    let ?o = "if cancelled then OutcomeAmbiguous else OutcomeFailed"
    obtain s2 e where rc: "lp_Reconcile rp s1 b noUsage ?o now = (s2, e)" by fastforce
    with assms a Inl have "s' = s2" "\<forall>resp. r \<noteq> Inr resp" by (auto simp: call_provider_def Let_def split: option.splits)
    with that [of noUsage ?o e] rc a show ?thesis by simp
  next
    case (Inr response0)
    let ?resp = "response0\<lparr>rs_RequestID := rid\<rparr>"
    show ?thesis
    proof (cases "bad_response (lb_Limits b) ?resp")
      case True
      obtain s2 e where rc: "lp_Reconcile rp s1 b noUsage OutcomeAmbiguous now = (s2, e)" by fastforce
      with assms a Inr True have "s' = s2" "\<forall>resp. r \<noteq> Inr resp" by (auto simp: call_provider_def)
      with that [of noUsage OutcomeAmbiguous e] rc a show ?thesis by simp
    next
      case False
      obtain s2 e where rc: "lp_Reconcile rp s1 b (rs_Usage ?resp) OutcomeSucceeded now = (s2, e)" by fastforce
      with assms a Inr False have "s' = s2" "\<And>resp. r = Inr resp \<Longrightarrow> e = None \<and> resp = ?resp"
        by (auto simp: call_provider_def split: option.splits)
      moreover from False have "0 \<le> us_InputTokens (rs_Usage ?resp)" "0 \<le> us_OutputTokens (rs_Usage ?resp)"
        by (auto simp: bad_response_def)
      ultimately show ?thesis using that [of "rs_Usage ?resp" OutcomeSucceeded e] rc a False Inr by fastforce
    qed
  qed
qed

text \<open>The cases of a completion: refused before admission, refused by it, settled without the provider, or
  settled after one call of it.\<close>

lemma LlmComplete_cases:
  assumes "LlmComplete repo adapters cancelled now auth request rs s = (rs', s', r)"
  obtains (refused) e where "s' = s" "r = Inl e"
  | (not_admitted) rp app viewer ses e where "repo = Some rp" "Scope auth = Inr (app, viewer, ses)"
      "lp_Admit rp s app viewer (estimateInputTokens request) (lr_MaxOutputTokens request) now = (s', Inl e)" "r = Inl (stable e)"
  | (settled) rp app viewer ses s1 b e where "repo = Some rp" "Scope auth = Inr (app, viewer, ses)"
      "lp_Admit rp s app viewer (estimateInputTokens request) (lr_MaxOutputTokens request) now = (s1, Inr b)"
      "s' = fst (lp_Reconcile rp s1 b noUsage OutcomeFailed now)" "r = Inl e"
  | (called) rp app viewer ses s1 b adapter where "repo = Some rp" "Scope auth = Inr (app, viewer, ses)"
      "lp_Admit rp s app viewer (estimateInputTokens request) (lr_MaxOutputTokens request) now = (s1, Inr b)"
      "lb_AppID b = app" "lp_AdmissionLimits rp s app = Inr (lb_Limits b)" "validLimits (lb_Limits b)"
      "validateRequest request (lb_Limits b) = None" "adapters (lb_Provider b) = Some adapter"
      "call_provider rp adapter cancelled now (ac_requestID (the auth)) request s1 b = (s', r)"
proof -
  show ?thesis
  proof (cases "s' = s \<and> (\<exists>e. r = Inl e)")
    case True
    then show ?thesis using refused by blast
  next
    case False
    then obtain rp app viewer ses limits where g: "repo = Some rp" "Scope auth = Inr (app, viewer, ses)"
      "lp_AdmissionLimits rp s app = Inr limits" "validLimits limits" "validateRequest request limits = None"
      and c: "auth \<noteq> None" "validateRequest request absoluteLimits = None"
      using assms
      by (auto simp: LlmComplete_def split: option.splits sum.splits prod.splits if_splits)
    obtain rs1 x where rr: "reserveRate app viewer limits now rs = (rs1, x)" by fastforce
    obtain s1 y where ad: "lp_Admit rp s app viewer (estimateInputTokens request) (lr_MaxOutputTokens request) now = (s1, y)"
      by fastforce
    from c(1) obtain ac where ac: "auth = Some ac" by blast
    note run = assms [unfolded LlmComplete_def ac option.case g(1) g(2) [unfolded ac] sum.case prod.case c(2) g(3,5) if_not_P
        rr ad, simplified g(4) ac]
    obtain permit where x: "x = Inr permit" using run False g(4) by (cases x) auto
    show ?thesis
    proof (cases y)
      case (Inl e)
      with run x g(4) have "s' = s1" "r = Inl (stable e)" by auto
      with not_admitted [OF g(1,2)] ad Inl show ?thesis by blast
    next
      case (Inr b)
      note run = run [unfolded x Inr sum.case prod.case, simplified g(4)]
      show ?thesis
      proof (cases "lb_AppID b = app \<and> lb_ProfileID b \<noteq> [] \<and> lb_Credential b \<noteq> [] \<and> sameLimits limits (lb_Limits b)
          \<and> validateRequest request (lb_Limits b) = None \<and> adapters (lb_Provider b) \<noteq> None")
        case False
        with run have "s' = fst (lp_Reconcile rp s1 b noUsage OutcomeFailed now)" "\<exists>e. r = Inl e"
          by (auto split: if_splits option.splits)
        with settled [OF g(1,2)] ad Inr show ?thesis by blast
      next
        case True
        then obtain adapter where adp: "adapters (lb_Provider b) = Some adapter" by blast
        with run True have "call_provider rp adapter cancelled now (ac_requestID ac) request s1 b = (s', r)" by simp
        moreover from True have "lb_Limits b = limits" by (simp add: sameLimits_def)
        ultimately show ?thesis using called [OF g(1,2)] ad Inr True adp g(3-5) ac by auto
      qed
    qed
  qed
qed

text \<open>The contract of a repository whose reconciliations do not fail: \<open>calling s\<close> are the open reservations
  and \<open>owns s b\<close> says that the binding \<open>b\<close> belongs to one.\<close>

text \<open>The sum of the reported tokens is a Go \<open>int\<close>.\<close>

definition usage_fits :: "llm_error + LlmResponse \<Rightarrow> bool" where
  "usage_fits x = (case x of Inl _ \<Rightarrow> True | Inr resp \<Rightarrow> us_InputTokens (rs_Usage resp) + us_OutputTokens (rs_Usage resp) < 2 ^ 63)"

locale llm_accounts =
  fixes rp :: "'s LlmRepository" and good :: "'s \<Rightarrow> bool" and calling :: "'s \<Rightarrow> string set" and owns :: "'s \<Rightarrow> Binding \<Rightarrow> bool"
  assumes refused: "good s \<Longrightarrow> lp_Admit rp s app viewer n out now = (s', Inl e) \<Longrightarrow> good s' \<and> calling s' = calling s"
    and admitted: "good s \<Longrightarrow> lp_Admit rp s app viewer n out now = (s', Inr b) \<Longrightarrow>
      good s' \<and> lb_ReservationID b \<notin> calling s \<and> calling s' = insert (lb_ReservationID b) (calling s) \<and> owns s' b"
    and settle: "good s \<Longrightarrow> owns s b \<Longrightarrow> 0 \<le> us_InputTokens u \<Longrightarrow> 0 \<le> us_OutputTokens u \<Longrightarrow>
      (oc = OutcomeSucceeded \<longrightarrow> us_InputTokens u + us_OutputTokens u < 2 ^ 63) \<Longrightarrow>
      lp_Reconcile rp s b u oc now = (s', eo) \<Longrightarrow> good s' \<and> eo = None \<and> calling s' = calling s - {lb_ReservationID b}"
begin

definition well_behaved :: "'s LlmAdapter \<Rightarrow> LlmRequest \<Rightarrow> bool" where
  "well_behaved a request \<longleftrightarrow> (\<forall>t b. good t \<longrightarrow> owns t b \<longrightarrow>
     good (fst (a t b request)) \<and> owns (fst (a t b request)) b \<and> usage_fits (snd (a t b request)))"

text \<open>A completion leaves no open reservation behind: without a provider call the open ones are as before, with
  one they are those of the state the provider left, without the call's own.\<close>

lemma complete_settles:
  assumes "LlmComplete (Some rp) adapters cancelled now auth request rs s = (rs', s', r)" "good s"
    and "\<And>p a. adapters p = Some a \<Longrightarrow> well_behaved a request"
  shows "good s' \<and> (calling s' = calling s
    \<or> (\<exists>p a t b. adapters p = Some a \<and> lb_ReservationID b \<notin> calling s \<and> calling t = insert (lb_ReservationID b) (calling s)
        \<and> calling s' = calling (fst (a t b request)) - {lb_ReservationID b}))"
  using assms(1)
proof (cases rule: LlmComplete_cases)
  case (refused e)
  with assms(2) show ?thesis by simp
next
  case (not_admitted rp' app viewer ses e)
  then have ad: "lp_Admit rp s app viewer (estimateInputTokens request) (lr_MaxOutputTokens request) now = (s', Inl e)" by simp
  from refused [OF assms(2) ad] show ?thesis by simp
next
  case (settled rp' app viewer ses s1 b e)
  then have ad: "lp_Admit rp s app viewer (estimateInputTokens request) (lr_MaxOutputTokens request) now = (s1, Inr b)" by simp
  from settled(1,4) have "s' = fst (lp_Reconcile rp s1 b noUsage OutcomeFailed now)" by simp
  then obtain e' where rc: "lp_Reconcile rp s1 b noUsage OutcomeFailed now = (s', e')" by (metis prod.collapse)
  from admitted [OF assms(2) ad] settle [OF _ _ _ _ _ rc] show ?thesis by auto
next
  case (called rp' app viewer ses s1 b adapter)
  then have ad: "lp_Admit rp s app viewer (estimateInputTokens request) (lr_MaxOutputTokens request) now = (s1, Inr b)"
    and call: "call_provider rp adapter cancelled now (ac_requestID (the auth)) request s1 b = (s', r)" by simp_all
  note a = admitted [OF assms(2) ad]
  from assms(3) [OF called(8)] a have w: "good (fst (adapter s1 b request))" "owns (fst (adapter s1 b request)) b"
    "usage_fits (snd (adapter s1 b request))"
    by (auto simp: well_behaved_def)
  obtain u oc e where rc: "lp_Reconcile rp (fst (adapter s1 b request)) b u oc now = (s', e)"
    and u: "u = noUsage \<or> oc = OutcomeSucceeded \<and> 0 \<le> us_InputTokens u \<and> 0 \<le> us_OutputTokens u
        \<and> (\<exists>resp. snd (adapter s1 b request) = Inr resp \<and> u = rs_Usage resp)"
    by (rule call_provider_settles [OF call]) blast
  from u w(3) have "0 \<le> us_InputTokens u" "0 \<le> us_OutputTokens u"
    "oc = OutcomeSucceeded \<longrightarrow> us_InputTokens u + us_OutputTokens u < 2 ^ 63" by (auto simp: usage_fits_def)
  from settle [OF w(1,2) this rc] a called(8) show ?thesis by blast
qed

end

text \<open>C21. One call, one reservation, one settlement. A completion that is not refused beforehand asks for admission
  with the caller's own app and viewer; if it is admitted, the reservation is reconciled exactly once, after
  at most one call of the provider, which is made only with a binding of that app whose limits are the
  published ones and admit the request; an answer is given only if the provider's usage was recorded as a
  success and the answer is well-formed, within the output limit, and marked with the request's identifier.\<close>

theorem llm_call_accounting:
  assumes "LlmComplete repo adapters cancelled now auth request rs s = (rs', s', r)"
  shows "(s' = s \<and> (\<exists>e. r = Inl e))
    \<or> (\<exists>rp app viewer ses s1 x. repo = Some rp \<and> Scope auth = Inr (app, viewer, ses)
        \<and> lp_Admit rp s app viewer (estimateInputTokens request) (lr_MaxOutputTokens request) now = (s1, x)
        \<and> (case x of
             Inl e \<Rightarrow> s' = s1 \<and> r = Inl (stable e)
           | Inr b \<Rightarrow> (\<exists>s2 u oc e. lp_Reconcile rp s2 b u oc now = (s', e)
               \<and> (s2 = s1 \<and> (\<exists>e. r = Inl e)
                  \<or> (\<exists>adapter. adapters (lb_Provider b) = Some adapter \<and> s2 = fst (adapter s1 b request) \<and> lb_AppID b = app
                      \<and> lp_AdmissionLimits rp s app = Inr (lb_Limits b) \<and> validateRequest request (lb_Limits b) = None))
               \<and> (\<forall>resp. r = Inr resp \<longrightarrow> e = None \<and> oc = OutcomeSucceeded \<and> u = rs_Usage resp
                   \<and> us_OutputTokens u \<le> ll_MaxOutputTokens (lb_Limits b) \<and> rs_RequestID resp = ac_requestID (the auth)))))"
    (is "?refused \<or> (\<exists>rp app viewer ses s1 x. ?P rp app viewer ses s1 x)")
  using assms
proof (cases rule: LlmComplete_cases)
  case (refused e)
  then show ?thesis by blast
next
  case (not_admitted rp app viewer ses e)
  then have "?P rp app viewer ses s' (Inl e)" by simp
  then show ?thesis by blast
next
  case (settled rp app viewer ses s1 b e)
  obtain e' where rc: "lp_Reconcile rp s1 b noUsage OutcomeFailed now = (s', e')"
    using settled(4) by (metis prod.collapse)
  have "?P rp app viewer ses s1 (Inr b)"
    unfolding sum.case by (intro conjI settled(1-3) exI [of _ s1] exI [of _ noUsage] exI [of _ OutcomeFailed] exI [of _ e'])
      (use rc settled(5) in simp_all)
  then show ?thesis by blast
next
  case (called rp app viewer ses s1 b adapter)
  obtain u oc e where rc: "lp_Reconcile rp (fst (adapter s1 b request)) b u oc now = (s', e)"
    and ok: "\<And>resp. r = Inr resp \<Longrightarrow> e = None \<and> oc = OutcomeSucceeded \<and> u = rs_Usage resp
        \<and> \<not> bad_response (lb_Limits b) resp \<and> rs_RequestID resp = ac_requestID (the auth)"
    by (rule call_provider_settles [OF called(9)]) blast
  have a: "\<exists>adapter'. adapters (lb_Provider b) = Some adapter' \<and> fst (adapter s1 b request) = fst (adapter' s1 b request)
      \<and> lb_AppID b = app \<and> lp_AdmissionLimits rp s app = Inr (lb_Limits b) \<and> validateRequest request (lb_Limits b) = None"
    using called(4-8) by blast
  have "e = None \<and> oc = OutcomeSucceeded \<and> u = rs_Usage resp \<and> us_OutputTokens u \<le> ll_MaxOutputTokens (lb_Limits b)
      \<and> rs_RequestID resp = ac_requestID (the auth)" if "r = Inr resp" for resp
    using ok [OF that] by (auto simp: bad_response_def)
  then have "?P rp app viewer ses s1 (Inr b)"
    unfolding sum.case
    by (intro conjI called(1-3) exI [of _ "fst (adapter s1 b request)"] exI [of _ u] exI [of _ oc] exI [of _ e] rc disjI2 a) blast
  then show ?thesis by blast
qed

end
