(* ===== verification/Llm_Ledger.thy ===== *)
theory Llm_Ledger
  imports Llm_Service
begin

text \<open>
  The ledger behind the chat capability, \<open>internal/persistence/llm.go\<close>: the admission query, the
  transaction that reserves tokens and the one that reconciles a reservation, over the tables they touch.
  A table is an association list by primary key, a transaction a function that yields a new database or an
  error; \<open>fault\<close> says that some statement of it, or its commit, fails for another reason, which rolls
  it back.
\<close>

section \<open>Tables\<close>

record ProfileRow =
  pr_ID :: string
  pr_ConnectionID :: string
  pr_Model :: string
  pr_MaxMessages :: int
  pr_MaxMessageBytes :: int
  pr_MaxInputBytes :: int
  pr_MaxOutputTokens :: int
  pr_TimeoutMS :: int
  pr_ViewerRequests :: int
  pr_AppRequests :: int
  pr_RateWindowMS :: int
  pr_Concurrency :: int
  pr_Active :: bool

record ConnectionRow =
  cn_Provider :: Provider
  cn_Envelope :: string
  cn_Active :: bool

record HostPolicyRow =
  hp_Enabled :: bool
  hp_Limit :: "int option"

record AppPolicyRow =
  ap_Enabled :: bool
  ap_Mode :: string
  ap_Limit :: "int option"

record UsageRow =
  ur_Used :: int
  ur_Reserved :: int
  ur_InFlight :: int

datatype ReservationStatus = Calling | Finished Outcome

record ReservationRow =
  rv_AppID :: string
  rv_ProfileID :: string
  rv_IdentityID :: string
  rv_Period :: string
  rv_Reserved :: int
  rv_Status :: ReservationStatus

text \<open>The configuration is one record, so that "the operator changed something" is a change of it; a unique
  index allows one default profile only.\<close>

record LlmConfig =
  cf_Applications :: "(string, bool) gomap"
  cf_Default :: "ProfileRow option"
  cf_Connections :: "(string, ConnectionRow) gomap"
  cf_Host :: "HostPolicyRow option"
  cf_Policies :: "(string, AppPolicyRow) gomap"

record LlmDb =
  db_Config :: LlmConfig
  db_Usage :: "(string \<times> string, UsageRow) gomap"
  db_Reservations :: "(string, ReservationRow) gomap"
  db_Audits :: "string list"

section \<open>Admission\<close>

definition effectiveQuota :: "string \<Rightarrow> int option \<Rightarrow> int option \<Rightarrow> llm_error + int option" where
  "effectiveQuota mode appQuota hostQuota =
     (let checked = (\<lambda>q. if q < 1 \<or> q > 2 ^ 63 - 1 then Inl LlmCapabilityUnavailable else Inr (Some q)) in
      if mode = ''inherit'' then (case hostQuota of None \<Rightarrow> Inr None | Some q \<Rightarrow> checked q)
      else if mode = ''unlimited'' then Inr None
      else if mode = ''specific'' then (case appQuota of None \<Rightarrow> Inl LlmCapabilityUnavailable | Some q \<Rightarrow> checked q)
      else Inl LlmCapabilityUnavailable)"

definition row_limits :: "ProfileRow \<Rightarrow> LlmLimits" where
  "row_limits p = \<lparr>ll_MaxMessages = pr_MaxMessages p, ll_MaxMessageBytes = pr_MaxMessageBytes p,
     ll_MaxInputBytes = pr_MaxInputBytes p, ll_MaxOutputTokens = pr_MaxOutputTokens p,
     ll_Timeout = pr_TimeoutMS p * 1000000, ll_ViewerRequests = pr_ViewerRequests p,
     ll_AppRequests = pr_AppRequests p, ll_RateWindow = pr_RateWindowMS p * 1000000\<rparr>"

definition validLLMLimits :: "LlmLimits \<Rightarrow> bool" where
  "validLLMLimits l \<longleftrightarrow>
     ll_MaxMessages l \<ge> 1 \<and> ll_MaxMessages l \<le> 128 \<and> ll_MaxMessageBytes l \<ge> 1 \<and> ll_MaxMessageBytes l \<le> 262144
     \<and> ll_MaxInputBytes l \<ge> 1 \<and> ll_MaxInputBytes l \<le> 1048576 \<and> ll_MaxOutputTokens l \<ge> 1 \<and> ll_MaxOutputTokens l \<le> 16384
     \<and> ll_Timeout l \<ge> second \<and> ll_Timeout l \<le> 120 * second \<and> ll_ViewerRequests l \<ge> 1 \<and> ll_ViewerRequests l \<le> 10000
     \<and> ll_AppRequests l \<ge> 1 \<and> ll_AppRequests l \<le> 100000 \<and> ll_RateWindow l \<ge> second \<and> ll_RateWindow l \<le> hour"

text \<open>The join of both queries: the row of an active application with the enabled host policy, the active
  default profile, its active connection, and the application's policy, which is enabled unless it says otherwise.\<close>

definition admission_row :: "LlmConfig \<Rightarrow> string \<Rightarrow> (ProfileRow \<times> ConnectionRow \<times> string \<times> int option \<times> int option) option" where
  "admission_row c app =
     (case (map_of (cf_Applications c) app, cf_Default c, cf_Host c) of
        (Some True, Some p, Some h) \<Rightarrow>
          (case map_of (cf_Connections c) (pr_ConnectionID p) of
             None \<Rightarrow> None
           | Some cn \<Rightarrow>
               if \<not> hp_Enabled h \<or> \<not> pr_Active p \<or> \<not> cn_Active cn then None
               else case map_of (cf_Policies c) app of
                   None \<Rightarrow> Some (p, cn, ''inherit'', None, hp_Limit h)
                 | Some ap \<Rightarrow> if ap_Enabled ap then Some (p, cn, ap_Mode ap, ap_Limit ap, hp_Limit h) else None)
      | _ \<Rightarrow> None)"

definition usage_of :: "(string \<times> string, UsageRow) gomap \<Rightarrow> string \<Rightarrow> string \<Rightarrow> UsageRow" where
  "usage_of m app period =
     (case map_of m (app, period) of None \<Rightarrow> \<lparr>ur_Used = 0, ur_Reserved = 0, ur_InFlight = 0\<rparr> | Some u \<Rightarrow> u)"

text \<open>
  The token columns are integers of SQLite. A sum past 64 bits, in a column or in a query, becomes a floating-point
  number of at least \<open>2^63\<close>, which no longer scans into a Go \<open>int\<close>: every later read of it fails. The model keeps
  the exact sum and lets such reads fail; how the database rounds a column that has passed \<open>2^63\<close> is not modelled.
\<close>

definition readable :: "int \<Rightarrow> bool" where
  "readable column \<longleftrightarrow> column < 2 ^ 63"

definition LedgerAdmissionLimits :: "(time \<Rightarrow> string) \<Rightarrow> time \<Rightarrow> LlmDb \<Rightarrow> string \<Rightarrow> llm_error + LlmLimits" where
  "LedgerAdmissionLimits month now db app =
     (if app = [] then Inl LlmCapabilityUnavailable
      else case admission_row (db_Config db) app of
        None \<Rightarrow> Inl LlmCapabilityUnavailable
      | Some (p, cn, mode, appQuota, hostQuota) \<Rightarrow>
          (case effectiveQuota mode appQuota hostQuota of
             Inl _ \<Rightarrow> Inl LlmCapabilityUnavailable
           | Inr quota \<Rightarrow>
               let u = usage_of (db_Usage db) app (month now) in
               if \<not> readable (ur_Used u + ur_Reserved u) then Inl LlmCapabilityUnavailable
               else if (case quota of None \<Rightarrow> False | Some q \<Rightarrow> ur_Used u + ur_Reserved u \<ge> q) then Inl LlmQuotaExhausted
               else if \<not> validLLMLimits (row_limits p) then Inl LlmCapabilityUnavailable
               else Inr (row_limits p)))"

section \<open>Reserving and reconciling\<close>

text \<open>The transaction of \<open>Admit\<close>, with the checks of both tables on the tokens.\<close>

definition reserve_tx :: "(time \<Rightarrow> string) \<Rightarrow> LlmDb \<Rightarrow> string \<Rightarrow> string \<Rightarrow> string \<Rightarrow> int \<Rightarrow> int \<Rightarrow> time
      \<Rightarrow> llm_error + LlmDb \<times> Binding \<times> string" where
  "reserve_tx month db rid app identity inputTokens requestedOutput now =
     (case admission_row (db_Config db) app of
        None \<Rightarrow> Inl LlmCapabilityUnavailable
      | Some (p, cn, mode, appQuota, hostQuota) \<Rightarrow>
          if \<not> validLLMLimits (row_limits p) \<or> pr_Concurrency p < 1 \<or> \<not> ValidModelIdentifier (pr_Model p)
          then Inl LlmCapabilityUnavailable
          else case effectiveQuota mode appQuota hostQuota of
            Inl _ \<Rightarrow> Inl LlmCapabilityUnavailable
          | Inr budget \<Rightarrow>
              let output = (if requestedOutput > 0 \<and> requestedOutput < pr_MaxOutputTokens p then requestedOutput
                            else pr_MaxOutputTokens p);
                  reserve = wrap64 (inputTokens + output);
                  u = usage_of (db_Usage db) app (month now)
              in if \<not> readable (ur_Used u) \<or> \<not> readable (ur_Reserved u) then Inl LlmOther
                 else if (case budget of None \<Rightarrow> False | Some q \<Rightarrow> wrap64 (ur_Used u + ur_Reserved u + reserve) > q)
                 then Inl LlmQuotaExhausted
                 else if ur_InFlight u \<ge> pr_Concurrency p then Inl LlmRateLimited
                 else if ur_Reserved u + reserve < 0 \<or> reserve < 1 then Inl LlmOther
                 else if rid \<in> gm_keys (db_Reservations db) then Inl LlmOther
                 else Inr (db\<lparr>db_Usage := AList.update (app, month now)
                                (u\<lparr>ur_Reserved := ur_Reserved u + reserve, ur_InFlight := ur_InFlight u + 1\<rparr>) (db_Usage db),
                              db_Reservations := AList.update rid
                                \<lparr>rv_AppID = app, rv_ProfileID = pr_ID p, rv_IdentityID = identity, rv_Period = month now,
                                  rv_Reserved = reserve, rv_Status = Calling\<rparr> (db_Reservations db)\<rparr>,
                           \<lparr>lb_AppID = app, lb_ProfileID = pr_ID p, lb_ConnectionID = pr_ConnectionID p,
                             lb_Model = pr_Model p, lb_ReservationID = rid, lb_Credential = [], lb_Provider = cn_Provider cn,
                             lb_Limits = row_limits p, lb_ReservedTokens = reserve\<rparr>, cn_Envelope cn))"

definition settle_usage :: "Outcome \<Rightarrow> int \<Rightarrow> int \<Rightarrow> UsageRow \<Rightarrow> UsageRow" where
  "settle_usage outcome used reserve u =
     (case outcome of
        OutcomeSucceeded \<Rightarrow> u\<lparr>ur_Used := ur_Used u + used, ur_Reserved := ur_Reserved u - reserve, ur_InFlight := ur_InFlight u - 1\<rparr>
      | OutcomeAmbiguous \<Rightarrow> u\<lparr>ur_InFlight := ur_InFlight u - 1\<rparr>
      | _ \<Rightarrow> u\<lparr>ur_Reserved := ur_Reserved u - reserve, ur_InFlight := ur_InFlight u - 1\<rparr>)"

definition audit_id :: "string \<Rightarrow> string" where
  "audit_id rid = rid @ ''-audit''"

text \<open>The transaction of \<open>Reconcile\<close>, with the checks of the table on its columns.\<close>

definition reconcile_tx :: "LlmDb \<Rightarrow> Binding \<Rightarrow> Usage \<Rightarrow> Outcome \<Rightarrow> llm_error + LlmDb" where
  "reconcile_tx db b usage outcome =
     (case map_of (db_Reservations db) (lb_ReservationID b) of
        None \<Rightarrow> Inl LlmTemporarilyUnavailable
      | Some r \<Rightarrow>
          if rv_AppID r \<noteq> lb_AppID b \<or> rv_ProfileID r \<noteq> lb_ProfileID b \<or> rv_Status r \<noteq> Calling
          then Inl LlmTemporarilyUnavailable
          else if us_InputTokens usage < 0 \<or> us_OutputTokens usage < 0 then Inl LlmTemporarilyUnavailable
          else case map_of (db_Usage db) (lb_AppID b, rv_Period r) of
            None \<Rightarrow> Inl LlmTemporarilyUnavailable
          | Some u \<Rightarrow>
              let u' = settle_usage outcome (wrap64 (us_InputTokens usage + us_OutputTokens usage)) (rv_Reserved r) u in
              if ur_Used u' < 0 \<or> ur_Reserved u' < 0 \<or> ur_InFlight u' < 0 then Inl LlmOther
              else if audit_id (lb_ReservationID b) \<in> set (db_Audits db) then Inl LlmOther
              else Inr (db\<lparr>db_Usage := AList.update (lb_AppID b, rv_Period r) u' (db_Usage db),
                           db_Reservations := AList.update (lb_ReservationID b) (r\<lparr>rv_Status := Finished outcome\<rparr>) (db_Reservations db),
                           db_Audits := db_Audits db @ [audit_id (lb_ReservationID b)]\<rparr>))"

definition LedgerReconcile :: "bool \<Rightarrow> LlmDb \<Rightarrow> Binding \<Rightarrow> Usage \<Rightarrow> Outcome \<Rightarrow> time \<Rightarrow> LlmDb \<times> llm_error option" where
  "LedgerReconcile fault db b usage outcome now =
     (if lb_AppID b = [] \<or> lb_ProfileID b = [] \<or> lb_ReservationID b = [] \<or> lb_ReservedTokens b < 1
      then (db, Some LlmTemporarilyUnavailable)
      else if fault then (db, Some LlmOther)
      else case reconcile_tx db b usage outcome of
          Inl e \<Rightarrow> (db, Some e)
        | Inr db' \<Rightarrow> (db', None))"

text \<open>What the outside contributes to one call: the calendar, the entropy for the identifier, the envelope
  (with its context), and which transactions fail.\<close>

record LedgerEnv =
  le_month :: "time \<Rightarrow> string"
  le_entropy :: "nat list option"
  le_open :: "string \<Rightarrow> string option"
  le_now :: time
  le_admit_fault :: bool
  le_reconcile_fault :: bool

text \<open>The identifier is a buffer of sixteen random bytes in hexadecimal.\<close>

definition newLLMID :: "nat list option \<Rightarrow> string option" where
  "newLLMID entropy = map_option (\<lambda>b. hex_encode (take 16 (b @ replicate 16 0))) entropy"

definition LedgerAdmit :: "LedgerEnv \<Rightarrow> LlmDb \<Rightarrow> string \<Rightarrow> string \<Rightarrow> int \<Rightarrow> int \<Rightarrow> time \<Rightarrow> LlmDb \<times> (llm_error + Binding)" where
  "LedgerAdmit en db app identity inputTokens requestedOutput now =
     (if app = [] \<or> identity = [] \<or> inputTokens < 1 \<or> requestedOutput < 0 then (db, Inl LlmUnauthorized)
      else case newLLMID (le_entropy en) of
        None \<Rightarrow> (db, Inl LlmTemporarilyUnavailable)
      | Some rid \<Rightarrow>
          if le_admit_fault en then (db, Inl LlmOther)
          else case reserve_tx (le_month en) db rid app identity inputTokens requestedOutput now of
            Inl e \<Rightarrow> (db, Inl e)
          | Inr (db1, b, box) \<Rightarrow>
              (case le_open en box of
                 None \<Rightarrow> (fst (LedgerReconcile (le_reconcile_fault en) db1 b noUsage OutcomeFailed now), Inl LlmTemporarilyUnavailable)
               | Some secret \<Rightarrow> (db1, Inr (b\<lparr>lb_Credential := secret\<rparr>))))"

definition ledger_ops :: "LedgerEnv \<Rightarrow> LlmDb LlmRepository" where
  "ledger_ops en = \<lparr>lp_AdmissionLimits = LedgerAdmissionLimits (le_month en) (le_now en), lp_Admit = LedgerAdmit en,
     lp_Reconcile = LedgerReconcile (le_reconcile_fault en)\<rparr>"

section \<open>The ledger is balanced\<close>

text \<open>Reachable databases: the operator changes the configuration, calls are admitted, and anything is
  reconciled with any binding, in any order.\<close>

inductive ledger_reachable :: "LlmDb \<Rightarrow> bool" where
  ledger_init: "ledger_reachable \<lparr>db_Config = c, db_Usage = [], db_Reservations = [], db_Audits = []\<rparr>"
| ledger_config: "ledger_reachable db \<Longrightarrow> ledger_reachable (db\<lparr>db_Config := c\<rparr>)"
| ledger_admit: "ledger_reachable db \<Longrightarrow> LedgerAdmit en db app identity n out now = (db', x) \<Longrightarrow> ledger_reachable db'"
| ledger_reconcile: "ledger_reachable db \<Longrightarrow> LedgerReconcile fault db b u oc now = (db', e) \<Longrightarrow> ledger_reachable db'"

definition res_key :: "ReservationRow \<Rightarrow> string \<times> string" where
  "res_key r = (rv_AppID r, rv_Period r)"

definition held :: "ReservationRow \<Rightarrow> int" where
  "held r = (if rv_Status r \<in> {Calling, Finished OutcomeAmbiguous} then rv_Reserved r else 0)"

definition open_call :: "ReservationRow \<Rightarrow> int" where
  "open_call r = (if rv_Status r = Calling then 1 else 0)"

definition res_sum :: "(ReservationRow \<Rightarrow> int) \<Rightarrow> string \<times> string \<Rightarrow> (string, ReservationRow) gomap \<Rightarrow> int" where
  "res_sum f k m = sum_list (map (\<lambda>(i, r). if res_key r = k then f r else 0) m)"

definition row_ok :: "(string, ReservationRow) gomap \<Rightarrow> string \<times> string \<Rightarrow> UsageRow option \<Rightarrow> bool" where
  "row_ok m k uo =
     (case uo of
        None \<Rightarrow> \<forall>i r. map_of m i = Some r \<longrightarrow> res_key r \<noteq> k
      | Some u \<Rightarrow> 0 \<le> ur_Used u \<and> ur_Reserved u = res_sum held k m \<and> ur_InFlight u = res_sum open_call k m)"

definition balanced :: "LlmDb \<Rightarrow> bool" where
  "balanced db \<longleftrightarrow> gm_wf (db_Reservations db)
     \<and> (\<forall>k. row_ok (db_Reservations db) k (map_of (db_Usage db) k))
     \<and> (\<forall>i r. map_of (db_Reservations db) i = Some r \<longrightarrow> 1 \<le> rv_Reserved r)
     \<and> (\<forall>x \<in> set (db_Audits db). \<exists>i r oc. x = audit_id i \<and> map_of (db_Reservations db) i = Some r \<and> rv_Status r = Finished oc)"

lemma res_sum_update:
  assumes "gm_wf m"
  shows "res_sum f k (AList.update i r m) = res_sum f k m
    - (case map_of m i of None \<Rightarrow> 0 | Some q \<Rightarrow> if res_key q = k then f q else 0) + (if res_key r = k then f r else 0)"
  using sum_list_update [OF assms, of "\<lambda>(i, r). if res_key r = k then f r else 0" i r]
  by (simp add: res_sum_def split: option.splits)

lemma res_sum_none:
  assumes "gm_wf m" "\<forall>i r. map_of m i = Some r \<longrightarrow> res_key r \<noteq> k"
  shows "res_sum f k m = 0"
proof -
  have "\<forall>x \<in> set m. (case x of (i, r) \<Rightarrow> if res_key r = k then f r else 0) = 0" using assms by force
  then show ?thesis by (simp add: res_sum_def sum_list_0 cong: map_cong)
qed

lemma res_sum_nonneg: "(\<And>i r. (i, r) \<in> set m \<Longrightarrow> 0 \<le> f r) \<Longrightarrow> 0 \<le> res_sum f k m"
  unfolding res_sum_def by (rule sum_list_nonneg) (auto split: if_splits)

lemma audit_id_inj [simp]: "audit_id a = audit_id b \<longleftrightarrow> a = b"
  by (simp add: audit_id_def)

lemma balanced_wf: "balanced db \<Longrightarrow> gm_wf (db_Reservations db)"
  by (simp add: balanced_def)

lemma balanced_usage:
  assumes "balanced db"
  shows "0 \<le> ur_Used (usage_of (db_Usage db) app period)"
    and "ur_Reserved (usage_of (db_Usage db) app period) = res_sum held (app, period) (db_Reservations db)"
    and "ur_InFlight (usage_of (db_Usage db) app period) = res_sum open_call (app, period) (db_Reservations db)"
proof -
  have b: "row_ok (db_Reservations db) (app, period) (map_of (db_Usage db) (app, period))"
    using assms unfolding balanced_def by blast
  note z = res_sum_none [OF balanced_wf [OF assms]]
  from b z show "0 \<le> ur_Used (usage_of (db_Usage db) app period)"
    "ur_Reserved (usage_of (db_Usage db) app period) = res_sum held (app, period) (db_Reservations db)"
    "ur_InFlight (usage_of (db_Usage db) app period) = res_sum open_call (app, period) (db_Reservations db)"
    by (auto simp: usage_of_def row_ok_def split: option.splits)
qed

lemma row_ok_other:
  assumes "balanced db" "k \<noteq> res_key r"
    and "map_of (db_Reservations db) i = None \<or> (\<exists>q. map_of (db_Reservations db) i = Some q \<and> res_key q = res_key r)"
  shows "row_ok (AList.update i r (db_Reservations db)) k (map_of (db_Usage db) k)"
proof -
  have "res_sum f k (AList.update i r (db_Reservations db)) = res_sum f k (db_Reservations db)" for f
    using res_sum_update [OF balanced_wf [OF assms(1)], of f k i r] assms(2,3) by (auto split: option.splits)
  moreover have "row_ok (db_Reservations db) k (map_of (db_Usage db) k)"
    using assms(1) unfolding balanced_def by blast
  ultimately show ?thesis using assms(2) by (auto simp: row_ok_def gomap_simps split: option.splits)
qed

text \<open>The monthly limit that applies to an application.\<close>

definition app_quota :: "LlmConfig \<Rightarrow> string \<Rightarrow> llm_error + int option" where
  "app_quota c app =
     (case admission_row c app of
        None \<Rightarrow> Inl LlmCapabilityUnavailable
      | Some (p, cn, mode, appQuota, hostQuota) \<Rightarrow> effectiveQuota mode appQuota hostQuota)"

lemma reserve_tx_InrE:
  assumes "reserve_tx month db rid app identity n out now = Inr (db', b, box)"
  obtains p reserve u where "u = usage_of (db_Usage db) app (month now)" "map_of (db_Reservations db) rid = None"
    "ur_InFlight u < pr_Concurrency p" "0 < reserve" "validLLMLimits (row_limits p)" "cf_Default (db_Config db) = Some p"
    "db' = db\<lparr>db_Usage := AList.update (app, month now)
        (u\<lparr>ur_Reserved := ur_Reserved u + reserve, ur_InFlight := ur_InFlight u + 1\<rparr>) (db_Usage db),
      db_Reservations := AList.update rid \<lparr>rv_AppID = app, rv_ProfileID = pr_ID p, rv_IdentityID = identity,
        rv_Period = month now, rv_Reserved = reserve, rv_Status = Calling\<rparr> (db_Reservations db)\<rparr>"
    "lb_AppID b = app" "lb_ProfileID b = pr_ID p" "lb_ReservationID b = rid" "lb_ReservedTokens b = reserve"
    "lb_Limits b = row_limits p"
    "\<And>q. app_quota (db_Config db) app = Inr (Some q) \<Longrightarrow> wrap64 (ur_Used u + ur_Reserved u + reserve) \<le> q"
proof -
  obtain p cn mode aq hq where row: "admission_row (db_Config db) app = Some (p, cn, mode, aq, hq)"
    using assms by (auto simp: reserve_tx_def split: option.splits)
  then have d: "cf_Default (db_Config db) = Some p"
    by (auto simp: admission_row_def split: option.splits bool.splits if_splits)
  let ?reserve = "wrap64 (n + (if out > 0 \<and> out < pr_MaxOutputTokens p then out else pr_MaxOutputTokens p))"
  let ?u = "usage_of (db_Usage db) app (month now)"
  note run = assms [unfolded reserve_tx_def row option.case prod.case, simplified Let_def]
  from run have v: "validLLMLimits (row_limits p)" by (auto split: if_splits)
  from run obtain budget where q: "effectiveQuota mode aq hq = Inr budget" by (auto split: sum.splits if_splits)
  have run': "\<not> (case budget of None \<Rightarrow> False | Some q \<Rightarrow> q < wrap64 (ur_Used ?u + ur_Reserved ?u + ?reserve))" "0 < ?reserve"
    "ur_InFlight ?u < pr_Concurrency p" "rid \<notin> gm_keys (db_Reservations db)"
    "db' = db\<lparr>db_Usage := AList.update (app, month now)
        (?u\<lparr>ur_Reserved := ur_Reserved ?u + ?reserve, ur_InFlight := ur_InFlight ?u + 1\<rparr>) (db_Usage db),
      db_Reservations := AList.update rid \<lparr>rv_AppID = app, rv_ProfileID = pr_ID p, rv_IdentityID = identity,
        rv_Period = month now, rv_Reserved = ?reserve, rv_Status = Calling\<rparr> (db_Reservations db)\<rparr>"
    "b = \<lparr>lb_AppID = app, lb_ProfileID = pr_ID p, lb_ConnectionID = pr_ConnectionID p,
       lb_Model = pr_Model p, lb_ReservationID = rid, lb_Credential = [], lb_Provider = cn_Provider cn,
       lb_Limits = row_limits p, lb_ReservedTokens = ?reserve\<rparr>"
    using run unfolding q by (auto simp: Let_def split: if_splits)
  show ?thesis
  proof (rule that [of ?u p ?reserve])
    fix q' assume "app_quota (db_Config db) app = Inr (Some q')"
    with row q have "budget = Some q'" by (simp add: app_quota_def)
    with run'(1) show "wrap64 (ur_Used ?u + ur_Reserved ?u + ?reserve) \<le> q'" by simp
  qed (use run' v d in \<open>simp_all add: map_of_eq_None_iff\<close>)
qed

text \<open>Reserving keeps the books balanced and opens one call.\<close>

lemma balanced_reserve:
  assumes "balanced db" "reserve_tx month db rid app identity n out now = Inr (db', b, box)" "1 \<le> n"
  shows "balanced db'"
proof (rule reserve_tx_InrE [OF assms(2)])
  fix p reserve u
  assume u: "u = usage_of (db_Usage db) app (month now)" and fresh: "map_of (db_Reservations db) rid = None"
    and n: "0 < reserve"
    and db': "db' = db\<lparr>db_Usage := AList.update (app, month now)
        (u\<lparr>ur_Reserved := ur_Reserved u + reserve, ur_InFlight := ur_InFlight u + 1\<rparr>) (db_Usage db),
      db_Reservations := AList.update rid \<lparr>rv_AppID = app, rv_ProfileID = pr_ID p, rv_IdentityID = identity,
        rv_Period = month now, rv_Reserved = reserve, rv_Status = Calling\<rparr> (db_Reservations db)\<rparr>"
  let ?r = "\<lparr>rv_AppID = app, rv_ProfileID = pr_ID p, rv_IdentityID = identity,
        rv_Period = month now, rv_Reserved = reserve, rv_Status = Calling\<rparr>"
  note bu = balanced_usage [OF assms(1), of app "month now", folded u]
  note sums = res_sum_update [OF balanced_wf [OF assms(1)], of _ "(app, month now)" rid ?r]
  have key: "res_key ?r = (app, month now)" by (simp add: res_key_def)
  have new: "ur_Reserved u + reserve = res_sum held (app, month now) (AList.update rid ?r (db_Reservations db))"
    "ur_InFlight u + 1 = res_sum open_call (app, month now) (AList.update rid ?r (db_Reservations db))"
    using bu sums key fresh by (simp_all add: held_def open_call_def)
  have audits: "\<exists>i r oc. x = audit_id i \<and> map_of (AList.update rid ?r (db_Reservations db)) i = Some r \<and> rv_Status r = Finished oc"
    if x: "x \<in> set (db_Audits db)" for x
  proof -
    obtain i r oc where "x = audit_id i" "map_of (db_Reservations db) i = Some r" "rv_Status r = Finished oc"
      using assms(1) x unfolding balanced_def by blast
    moreover from this fresh have "i \<noteq> rid" by auto
    ultimately show ?thesis by (auto simp: gomap_simps)
  qed
  have rows: "1 \<le> rv_Reserved r" if "map_of (AList.update rid ?r (db_Reservations db)) i = Some r" for i r
    using that assms(1,3) n unfolding balanced_def by (auto simp: gomap_simps split: if_splits)
  show ?thesis unfolding balanced_def
  proof (intro conjI allI)
    fix k
    show "row_ok (db_Reservations db') k (map_of (db_Usage db') k)"
    proof (cases "k = (app, month now)")
      case True
      with new bu(1) show ?thesis by (simp add: db' gomap_simps row_ok_def)
    next
      case False
      with row_ok_other [OF assms(1) _ disjI1 [OF fresh], of k ?r] show ?thesis by (simp add: key db' gm_lookup_update)
    qed
  qed (use assms(1) rows audits in \<open>auto simp: db' balanced_def\<close>)
qed

text \<open>Reconciling closes the call and keeps the books balanced.\<close>

lemma reconcile_tx_InrE:
  assumes "reconcile_tx db b u oc = Inr db'"
  obtains r row where "map_of (db_Reservations db) (lb_ReservationID b) = Some r" "rv_AppID r = lb_AppID b"
    "rv_ProfileID r = lb_ProfileID b" "rv_Status r = Calling" "0 \<le> us_InputTokens u" "0 \<le> us_OutputTokens u"
    "map_of (db_Usage db) (res_key r) = Some row"
    "0 \<le> ur_Used (settle_usage oc (wrap64 (us_InputTokens u + us_OutputTokens u)) (rv_Reserved r) row)"
    "db' = db\<lparr>db_Usage := AList.update (res_key r)
        (settle_usage oc (wrap64 (us_InputTokens u + us_OutputTokens u)) (rv_Reserved r) row) (db_Usage db),
      db_Reservations := AList.update (lb_ReservationID b) (r\<lparr>rv_Status := Finished oc\<rparr>) (db_Reservations db),
      db_Audits := db_Audits db @ [audit_id (lb_ReservationID b)]\<rparr>"
proof -
  obtain r where r: "map_of (db_Reservations db) (lb_ReservationID b) = Some r"
    using assms by (cases "map_of (db_Reservations db) (lb_ReservationID b)") (simp_all add: reconcile_tx_def)
  note run = assms [unfolded reconcile_tx_def r option.case]
  from run have g: "rv_AppID r = lb_AppID b" "rv_ProfileID r = lb_ProfileID b" "rv_Status r = Calling"
    "0 \<le> us_InputTokens u" "0 \<le> us_OutputTokens u" by (simp_all split: if_splits)
  obtain row where row: "map_of (db_Usage db) (lb_AppID b, rv_Period r) = Some row"
    using run g by (cases "map_of (db_Usage db) (lb_AppID b, rv_Period r)") simp_all
  have "db' = db\<lparr>db_Usage := AList.update (res_key r)
        (settle_usage oc (wrap64 (us_InputTokens u + us_OutputTokens u)) (rv_Reserved r) row) (db_Usage db),
      db_Reservations := AList.update (lb_ReservationID b) (r\<lparr>rv_Status := Finished oc\<rparr>) (db_Reservations db),
      db_Audits := db_Audits db @ [audit_id (lb_ReservationID b)]\<rparr>"
    using run g(1-3) g(4,5) [folded not_less] unfolding row by (simp add: Let_def res_key_def split: if_splits)
  moreover have "map_of (db_Usage db) (res_key r) = Some row" using row g(1) by (simp add: res_key_def)
  moreover have "0 \<le> ur_Used (settle_usage oc (wrap64 (us_InputTokens u + us_OutputTokens u)) (rv_Reserved r) row)"
    using run g(1-3) g(4,5) [folded not_less] unfolding row by (simp add: Let_def split: if_splits)
  ultimately show ?thesis using that [OF r g] by blast
qed

lemma settle_sums:
  assumes "gm_wf m" "map_of m i = Some r" "rv_Status r = Calling"
  shows "res_sum held (res_key r) (AList.update i (r\<lparr>rv_Status := Finished oc\<rparr>) m)
      = res_sum held (res_key r) m - (if oc = OutcomeAmbiguous then 0 else rv_Reserved r)"
    and "res_sum open_call (res_key r) (AList.update i (r\<lparr>rv_Status := Finished oc\<rparr>) m) = res_sum open_call (res_key r) m - 1"
  using res_sum_update [OF assms(1), of _ "res_key r" i "r\<lparr>rv_Status := Finished oc\<rparr>"] assms(2,3)
  by (simp_all add: res_key_def held_def open_call_def)

lemma settle_usage_fields:
  "ur_Used (settle_usage oc used reserve u) = (if oc = OutcomeSucceeded then ur_Used u + used else ur_Used u)"
  "ur_Reserved (settle_usage oc used reserve u) = (if oc = OutcomeAmbiguous then ur_Reserved u else ur_Reserved u - reserve)"
  "ur_InFlight (settle_usage oc used reserve u) = ur_InFlight u - 1"
  by (cases oc; simp add: settle_usage_def)+

lemma balanced_row:
  assumes "balanced db" "map_of (db_Usage db) k = Some u"
  shows "0 \<le> ur_Used u \<and> ur_Reserved u = res_sum held k (db_Reservations db)
    \<and> ur_InFlight u = res_sum open_call k (db_Reservations db)"
proof -
  have "row_ok (db_Reservations db) k (map_of (db_Usage db) k)" using assms(1) unfolding balanced_def by blast
  then show ?thesis by (simp add: row_ok_def assms(2))
qed

lemma balanced_reconcile:
  assumes "balanced db" "reconcile_tx db b u oc = Inr db'"
  shows "balanced db'"
proof (rule reconcile_tx_InrE [OF assms(2)])
  fix r :: ReservationRow and row :: UsageRow
  let ?i = "lb_ReservationID b" and ?r = "r\<lparr>rv_Status := Finished oc\<rparr>"
  assume r: "map_of (db_Reservations db) ?i = Some r" and st: "rv_Status r = Calling"
    and row: "map_of (db_Usage db) (res_key r) = Some row"
    and nn: "0 \<le> ur_Used (settle_usage oc (wrap64 (us_InputTokens u + us_OutputTokens u)) (rv_Reserved r) row)"
    and db': "db' = db\<lparr>db_Usage := AList.update (res_key r)
        (settle_usage oc (wrap64 (us_InputTokens u + us_OutputTokens u)) (rv_Reserved r) row) (db_Usage db),
      db_Reservations := AList.update ?i ?r (db_Reservations db), db_Audits := db_Audits db @ [audit_id ?i]\<rparr>"
  note wf = balanced_wf [OF assms(1)]
  have key: "res_key ?r = res_key r" by (simp add: res_key_def)
  have look: "map_of (db_Reservations db') j = (if j = ?i then Some ?r else map_of (db_Reservations db) j)" for j
    by (simp add: db' gm_lookup_update)
  have "row_ok (db_Reservations db') k (map_of (db_Usage db') k)" for k
  proof (cases "k = res_key r")
    case True
    have "row_ok (db_Reservations db') (res_key r) (Some (settle_usage oc (wrap64 (us_InputTokens u + us_OutputTokens u)) (rv_Reserved r) row))"
      using balanced_row [OF assms(1) row] settle_sums [OF wf r st, of oc] nn
      by (simp add: row_ok_def db' settle_usage_fields(2,3))
    with True show ?thesis by (simp add: db' gm_lookup_update)
  next
    case False
    with row_ok_other [OF assms(1), of k ?r ?i] r show ?thesis by (simp add: key db' gm_lookup_update)
  qed
  moreover have "1 \<le> rv_Reserved q" if "map_of (db_Reservations db') j = Some q" for j q
    using that assms(1) r unfolding balanced_def look by (auto split: if_splits)
  moreover have "\<exists>i q oc. x = audit_id i \<and> map_of (db_Reservations db') i = Some q \<and> rv_Status q = Finished oc"
    if x: "x \<in> set (db_Audits db')" for x
  proof (cases "x = audit_id ?i")
    case True
    then show ?thesis by (auto simp: look)
  next
    case False
    with x have "x \<in> set (db_Audits db)" by (simp add: db')
    then obtain i q oc where "x = audit_id i" "map_of (db_Reservations db) i = Some q" "rv_Status q = Finished oc"
      using assms(1) unfolding balanced_def by blast
    with False show ?thesis by (auto simp: look)
  qed
  moreover have "gm_wf (db_Reservations db')" using wf by (simp add: db')
  ultimately show ?thesis unfolding balanced_def by blast
qed

text \<open>An open call can always be reconciled.\<close>

lemma reconcile_progress:
  assumes "balanced db" "map_of (db_Reservations db) (lb_ReservationID b) = Some r" "rv_AppID r = lb_AppID b"
    "rv_ProfileID r = lb_ProfileID b" "rv_Status r = Calling" "0 \<le> us_InputTokens u" "0 \<le> us_OutputTokens u"
    "oc = OutcomeSucceeded \<longrightarrow> us_InputTokens u + us_OutputTokens u < 2 ^ 63"
  obtains db' where "reconcile_tx db b u oc = Inr db'"
proof -
  let ?i = "lb_ReservationID b" and ?r = "r\<lparr>rv_Status := Finished oc\<rparr>"
  note wf = balanced_wf [OF assms(1)]
  have "row_ok (db_Reservations db) (res_key r) (map_of (db_Usage db) (res_key r))" using assms(1) unfolding balanced_def by blast
  with assms(2) obtain row where row: "map_of (db_Usage db) (res_key r) = Some row" by (auto simp: row_ok_def split: option.splits)
  have pos: "0 \<le> rv_Reserved q" if "(j, q) \<in> set (AList.update ?i ?r (db_Reservations db))" for j q
  proof -
    have "map_of (AList.update ?i ?r (db_Reservations db)) j = Some q" using that wf by simp
    with assms(1,2) show ?thesis unfolding balanced_def by (fastforce simp: gm_lookup_update split: if_splits)
  qed
  have "0 \<le> res_sum held (res_key r) (AList.update ?i ?r (db_Reservations db))"
    "0 \<le> res_sum open_call (res_key r) (AList.update ?i ?r (db_Reservations db))"
    by (rule res_sum_nonneg; use pos in \<open>force simp: held_def open_call_def\<close>)+
  moreover have "oc = OutcomeSucceeded \<longrightarrow> 0 \<le> wrap64 (us_InputTokens u + us_OutputTokens u)"
    using assms(6-8) by (simp add: wrap64_id)
  ultimately
  have "0 \<le> ur_Used (settle_usage oc (wrap64 (us_InputTokens u + us_OutputTokens u)) (rv_Reserved r) row)"
    "0 \<le> ur_Reserved (settle_usage oc (wrap64 (us_InputTokens u + us_OutputTokens u)) (rv_Reserved r) row)"
    "0 \<le> ur_InFlight (settle_usage oc (wrap64 (us_InputTokens u + us_OutputTokens u)) (rv_Reserved r) row)"
    unfolding settle_usage_fields using settle_sums [OF wf assms(2,5), of oc] balanced_row [OF assms(1) row]
    by (simp_all split: if_splits)
  moreover have "audit_id ?i \<notin> set (db_Audits db)"
  proof
    assume "audit_id ?i \<in> set (db_Audits db)"
    then obtain q oc' where "map_of (db_Reservations db) ?i = Some q" "rv_Status q = Finished oc'"
      using assms(1) unfolding balanced_def by fastforce
    with assms(2,5) show False by simp
  qed
  ultimately have "\<exists>db'. reconcile_tx db b u oc = Inr db'"
    using assms row by (simp add: reconcile_tx_def Let_def res_key_def not_less [symmetric])
  with that show ?thesis by blast
qed

lemma LedgerReconcile_cases:
  assumes "LedgerReconcile fault db b u oc now = (db', e)"
  shows "e = None \<and> \<not> fault \<and> reconcile_tx db b u oc = Inr db' \<or> e \<noteq> None \<and> db' = db"
  using assms by (auto simp: LedgerReconcile_def split: if_splits sum.splits)

lemma LedgerAdmit_cases:
  assumes "LedgerAdmit en db app identity n out now = (db', x)"
  obtains (refused) e where "db' = db" "x = Inl e"
  | (sealed) rid db1 b box e' where "reserve_tx (le_month en) db rid app identity n out now = Inr (db1, b, box)" "1 \<le> n" "app \<noteq> []"
      "LedgerReconcile (le_reconcile_fault en) db1 b noUsage OutcomeFailed now = (db', e')" "x = Inl LlmTemporarilyUnavailable"
      "newLLMID (le_entropy en) = Some rid"
  | (admitted) rid b box secret where "reserve_tx (le_month en) db rid app identity n out now = Inr (db', b, box)" "1 \<le> n" "app \<noteq> []"
      "newLLMID (le_entropy en) = Some rid" "x = Inr (b\<lparr>lb_Credential := secret\<rparr>)"
proof (cases "app = [] \<or> identity = [] \<or> n < 1 \<or> out < 0 \<or> newLLMID (le_entropy en) = None \<or> le_admit_fault en")
  case True
  with assms have "db' = db" "\<exists>e. x = Inl e" by (auto simp: LedgerAdmit_def split: if_splits option.splits)
  with refused show ?thesis by blast
next
  case False
  then obtain rid where rid: "newLLMID (le_entropy en) = Some rid" by auto
  show ?thesis
  proof (cases "reserve_tx (le_month en) db rid app identity n out now")
    case (Inl e)
    with assms False rid refused show ?thesis by (auto simp: LedgerAdmit_def)
  next
    case (Inr y)
    obtain db1 b box where y: "y = (db1, b, box)" by (cases y)
    show ?thesis
    proof (cases "le_open en box")
      case None
      obtain db2 e' where rc: "LedgerReconcile (le_reconcile_fault en) db1 b noUsage OutcomeFailed now = (db2, e')" by fastforce
      with assms False rid Inr y None have "db' = db2" "x = Inl LlmTemporarilyUnavailable" by (auto simp: LedgerAdmit_def)
      with sealed [of rid db1 b box e'] Inr y rc rid False show ?thesis by simp
    next
      case (Some secret)
      with assms False rid Inr y have "db' = db1" "x = Inr (b\<lparr>lb_Credential := secret\<rparr>)" by (auto simp: LedgerAdmit_def)
      with admitted [of rid b box secret] Inr y rid False show ?thesis by simp
    qed
  qed
qed

lemma balanced_config: "balanced (db\<lparr>db_Config := c\<rparr>) = balanced db"
  by (cases db) (simp add: balanced_def)

lemma ledger_reachable_balanced: "ledger_reachable db \<Longrightarrow> balanced db"
proof (induction rule: ledger_reachable.induct)
  case (ledger_init c)
  then show ?case by (simp add: balanced_def row_ok_def)
next
  case (ledger_config db c)
  then show ?case by (simp only: balanced_config)
next
  case (ledger_admit db en app identity n out now db' x)
  from ledger_admit(2) show ?case
  proof (cases rule: LedgerAdmit_cases)
    case (refused e)
    with ledger_admit show ?thesis by simp
  next
    case (sealed rid db1 b box e')
    have "balanced db1" by (rule balanced_reserve [OF ledger_admit(3) sealed(1,2)])
    with LedgerReconcile_cases [OF sealed(4)] balanced_reconcile show ?thesis by blast
  next
    case (admitted rid b box secret)
    show ?thesis by (rule balanced_reserve [OF ledger_admit(3) admitted(1,2)])
  qed
next
  case (ledger_reconcile db fault b u oc now db' e)
  with LedgerReconcile_cases [OF ledger_reconcile(2)] balanced_reconcile show ?case by blast
qed

section \<open>The ledger as the service sees it\<close>

lemma newLLMID_ne: "newLLMID x = Some rid \<Longrightarrow> rid \<noteq> []"
proof -
  assume "newLLMID x = Some rid"
  then obtain b where "rid = hex_encode (take 16 (b @ replicate 16 0))" by (auto simp only: newLLMID_def map_option_eq_Some)
  moreover obtain c cs where "take 16 (b @ replicate 16 (0::nat)) = c # cs" by (cases b) (simp_all add: numeral_eq_Suc)
  ultimately show "rid \<noteq> []" by (simp only: hex_encode.simps list.distinct not_False_eq_True)
qed

definition calling :: "LlmDb \<Rightarrow> string set" where
  "calling db = {i. \<exists>r. map_of (db_Reservations db) i = Some r \<and> rv_Status r = Calling}"

definition owns :: "LlmDb \<Rightarrow> Binding \<Rightarrow> bool" where
  "owns db b \<longleftrightarrow> lb_AppID b \<noteq> [] \<and> lb_ProfileID b \<noteq> [] \<and> lb_ReservationID b \<noteq> [] \<and> 1 \<le> lb_ReservedTokens b
     \<and> (\<exists>r. map_of (db_Reservations db) (lb_ReservationID b) = Some r \<and> rv_AppID r = lb_AppID b
          \<and> rv_ProfileID r = lb_ProfileID b \<and> rv_Status r = Calling)"

lemma owns_credential [simp]: "owns db (b\<lparr>lb_Credential := c\<rparr>) = owns db b"
  by (simp add: owns_def)

text \<open>Profiles are created with an identifier.\<close>

definition ledger_good :: "LlmDb \<Rightarrow> bool" where
  "ledger_good db \<longleftrightarrow> balanced db \<and> (\<forall>p. cf_Default (db_Config db) = Some p \<longrightarrow> pr_ID p \<noteq> [])"

lemma reserve_effect:
  assumes "ledger_good db" "reserve_tx month db rid app identity n out now = Inr (db', b, box)" "1 \<le> n" "app \<noteq> []" "rid \<noteq> []"
  shows "ledger_good db' \<and> rid \<notin> calling db \<and> calling db' = insert rid (calling db) \<and> lb_ReservationID b = rid \<and> owns db' b"
proof (rule reserve_tx_InrE [OF assms(2)])
  fix p reserve u
  assume fresh: "map_of (db_Reservations db) rid = None" and n: "0 < reserve" and d: "cf_Default (db_Config db) = Some p"
    and db': "db' = db\<lparr>db_Usage := AList.update (app, month now)
        (u\<lparr>ur_Reserved := ur_Reserved u + reserve, ur_InFlight := ur_InFlight u + 1\<rparr>) (db_Usage db),
      db_Reservations := AList.update rid \<lparr>rv_AppID = app, rv_ProfileID = pr_ID p, rv_IdentityID = identity,
        rv_Period = month now, rv_Reserved = reserve, rv_Status = Calling\<rparr> (db_Reservations db)\<rparr>"
    and b: "lb_AppID b = app" "lb_ProfileID b = pr_ID p" "lb_ReservationID b = rid" "lb_ReservedTokens b = reserve"
  have "balanced db'" using balanced_reserve [OF _ assms(2,3)] assms(1) by (simp add: ledger_good_def)
  moreover have "db_Config db' = db_Config db" by (simp add: db')
  moreover have "pr_ID p \<noteq> []" using assms(1) d by (simp add: ledger_good_def)
  moreover have "calling db' = insert rid (calling db)" "rid \<notin> calling db"
    using fresh by (auto simp: calling_def db' gm_lookup_update)
  moreover have "map_of (db_Reservations db') rid = Some \<lparr>rv_AppID = app, rv_ProfileID = pr_ID p, rv_IdentityID = identity,
      rv_Period = month now, rv_Reserved = reserve, rv_Status = Calling\<rparr>" by (simp add: db' gm_lookup_update)
  ultimately show ?thesis using assms b n unfolding ledger_good_def owns_def by simp
qed

lemma reconcile_effect:
  assumes "ledger_good db" "owns db b" "0 \<le> us_InputTokens u" "0 \<le> us_OutputTokens u"
    and fits: "oc = OutcomeSucceeded \<longrightarrow> us_InputTokens u + us_OutputTokens u < 2 ^ 63"
    and "LedgerReconcile False db b u oc now = (db', e)"
  shows "ledger_good db' \<and> e = None \<and> calling db' = calling db - {lb_ReservationID b}"
proof -
  have bal: "balanced db" using assms(1) by (simp add: ledger_good_def)
  obtain r where r: "map_of (db_Reservations db) (lb_ReservationID b) = Some r" "rv_AppID r = lb_AppID b"
    "rv_ProfileID r = lb_ProfileID b" "rv_Status r = Calling" using assms(2) by (auto simp: owns_def)
  obtain db2 where tx: "reconcile_tx db b u oc = Inr db2" by (rule reconcile_progress [OF bal r assms(3,4) fits])
  with assms(2,6) have x: "db' = db2" "e = None" by (auto simp: LedgerReconcile_def owns_def)
  show ?thesis
  proof (rule reconcile_tx_InrE [OF tx])
    fix r' :: ReservationRow and row :: UsageRow
    assume "map_of (db_Reservations db) (lb_ReservationID b) = Some r'"
      and db2: "db2 = db\<lparr>db_Usage := AList.update (res_key r')
        (settle_usage oc (wrap64 (us_InputTokens u + us_OutputTokens u)) (rv_Reserved r') row) (db_Usage db),
      db_Reservations := AList.update (lb_ReservationID b) (r'\<lparr>rv_Status := Finished oc\<rparr>) (db_Reservations db),
      db_Audits := db_Audits db @ [audit_id (lb_ReservationID b)]\<rparr>"
    have "calling db2 = calling db - {lb_ReservationID b}" by (auto simp: calling_def db2 gm_lookup_update)
    moreover have "db_Config db2 = db_Config db" by (simp add: db2)
    ultimately show ?thesis using balanced_reconcile [OF bal tx] assms(1) x by (simp add: ledger_good_def)
  qed
qed

text \<open>The contract of the service holds of the ledger whose reconciliations do not fail.\<close>

abbreviation healthy :: "LedgerEnv \<Rightarrow> LedgerEnv" where
  "healthy en \<equiv> en\<lparr>le_reconcile_fault := False\<rparr>"

interpretation ledger: llm_accounts "ledger_ops (healthy en)" ledger_good calling owns for en
proof
  fix s :: LlmDb and app viewer n out now s' and e :: llm_error
  assume g: "ledger_good s" and a: "lp_Admit (ledger_ops (healthy en)) s app viewer n out now = (s', Inl e)"
  from a have "LedgerAdmit (healthy en) s app viewer n out now = (s', Inl e)" by (simp add: ledger_ops_def)
  then show "ledger_good s' \<and> calling s' = calling s"
  proof (cases rule: LedgerAdmit_cases)
    case (refused e)
    with g show ?thesis by simp
  next
    case (sealed rid db1 b box e')
    note eff = reserve_effect [OF g sealed(1,2,3) newLLMID_ne [OF sealed(6)]]
    from sealed(4) have "LedgerReconcile False db1 b noUsage OutcomeFailed now = (s', e')" by simp
    from reconcile_effect [OF _ _ _ _ _ this] eff show ?thesis by auto
  qed simp
next
  fix s :: LlmDb and app viewer n out now s' and b :: Binding
  assume g: "ledger_good s" and a: "lp_Admit (ledger_ops (healthy en)) s app viewer n out now = (s', Inr b)"
  from a have "LedgerAdmit (healthy en) s app viewer n out now = (s', Inr b)" by (simp add: ledger_ops_def)
  then show "ledger_good s' \<and> lb_ReservationID b \<notin> calling s \<and> calling s' = insert (lb_ReservationID b) (calling s) \<and> owns s' b"
  proof (cases rule: LedgerAdmit_cases)
    case (admitted rid b0 box secret)
    from reserve_effect [OF g admitted(1,2,3) newLLMID_ne [OF admitted(4)]] admitted(5) show ?thesis by simp
  qed simp_all
next
  fix s b u oc now s' eo
  assume "ledger_good s" "owns s b" "0 \<le> us_InputTokens u" "0 \<le> us_OutputTokens u"
    and "oc = OutcomeSucceeded \<longrightarrow> us_InputTokens u + us_OutputTokens u < 2 ^ 63"
    and "lp_Reconcile (ledger_ops (healthy en)) s b u oc now = (s', eo)"
  then show "ledger_good s' \<and> eo = None \<and> calling s' = calling s - {lb_ReservationID b}"
    using reconcile_effect [of s b u oc now s' eo] by (simp add: ledger_ops_def)
qed

section \<open>Properties\<close>

definition of_period :: "LlmDb \<Rightarrow> string \<Rightarrow> string \<Rightarrow> ReservationRow list" where
  "of_period db app period = filter (\<lambda>r. rv_AppID r = app \<and> rv_Period r = period) (map snd (db_Reservations db))"

lemma res_sum_of_period: "res_sum f (app, period) (db_Reservations db) = sum_list (map f (of_period db app period))"
proof -
  have "sum_list (map (\<lambda>(i, r). if res_key r = (app, period) then f r else 0) m)
      = sum_list (map f (filter (\<lambda>r. rv_AppID r = app \<and> rv_Period r = period) (map snd m)))" for m :: "(string, ReservationRow) gomap"
    by (induction m) (auto simp: res_key_def)
  then show ?thesis by (simp add: res_sum_def of_period_def)
qed

text \<open>C22. The ledger is always balanced. In every database the server can reach, the usage row of an application
  and month counts exactly the open calls and holds exactly the tokens of the open ones and of those whose
  outcome stayed ambiguous, which are never given back; every open call can be reconciled with any outcome,
  unless it succeeds with a usage whose sum overflows 64 bits, and a second reconciliation of it is refused.\<close>

theorem llm_ledger_balanced:
  assumes "ledger_reachable db"
  shows "(map_of (db_Usage db) (app, period) = Some row \<longrightarrow> 0 \<le> ur_Used row
        \<and> ur_InFlight row = int (length (filter (\<lambda>r. rv_Status r = Calling) (of_period db app period)))
        \<and> ur_Reserved row = sum_list (map rv_Reserved
            (filter (\<lambda>r. rv_Status r = Calling \<or> rv_Status r = Finished OutcomeAmbiguous) (of_period db app period))))
    \<and> (owns db b \<and> 0 \<le> us_InputTokens u \<and> 0 \<le> us_OutputTokens u
        \<and> (oc = OutcomeSucceeded \<longrightarrow> us_InputTokens u + us_OutputTokens u < 2 ^ 63) \<longrightarrow>
        (\<exists>db'. reconcile_tx db b u oc = Inr db' \<and> reconcile_tx db' b u' oc' = Inl LlmTemporarilyUnavailable))"
proof -
  have bal: "balanced db" using assms by (rule ledger_reachable_balanced)
  have "sum_list (map open_call rs) = int (length (filter (\<lambda>r. rv_Status r = Calling) rs))" for rs
    by (induction rs) (simp_all add: open_call_def)
  moreover have "sum_list (map held rs) = sum_list (map rv_Reserved
      (filter (\<lambda>r. rv_Status r = Calling \<or> rv_Status r = Finished OutcomeAmbiguous) rs))" for rs
    by (induction rs) (simp_all add: held_def)
  moreover have "\<exists>db'. reconcile_tx db b u oc = Inr db' \<and> reconcile_tx db' b u' oc' = Inl LlmTemporarilyUnavailable"
    if o: "owns db b" and u: "0 \<le> us_InputTokens u" "0 \<le> us_OutputTokens u"
      "oc = OutcomeSucceeded \<longrightarrow> us_InputTokens u + us_OutputTokens u < 2 ^ 63"
  proof -
    obtain r where r: "map_of (db_Reservations db) (lb_ReservationID b) = Some r" "rv_AppID r = lb_AppID b"
      "rv_ProfileID r = lb_ProfileID b" "rv_Status r = Calling" using o by (auto simp: owns_def)
    obtain db' where tx: "reconcile_tx db b u oc = Inr db'" by (rule reconcile_progress [OF bal r u])
    have "reconcile_tx db' b u' oc' = Inl LlmTemporarilyUnavailable"
      by (rule reconcile_tx_InrE [OF tx]) (simp add: reconcile_tx_def gm_lookup_update)
    with tx show ?thesis by blast
  qed
  ultimately show ?thesis using balanced_row [OF bal] by (simp add: res_sum_of_period)
qed

text \<open>An admitted call fits the budget: after the reservation the used and reserved tokens of the month are within
  the limit that applies to the application, if any and if their sum fits 64 bits, the open calls within the concurrency limit of the
  default profile, and exactly the reserved tokens, at most the estimate and the output limit, were added.\<close>

theorem llm_quota_reserved:
  assumes "LedgerAdmit en db app identity n out now = (db', Inr b)"
  shows "\<exists>p. cf_Default (db_Config db) = Some p
    \<and> (let u = usage_of (db_Usage db) app (le_month en now); u' = usage_of (db_Usage db') app (le_month en now) in
        ur_Used u' = ur_Used u \<and> ur_Reserved u' = ur_Reserved u + lb_ReservedTokens b \<and> ur_InFlight u' = ur_InFlight u + 1
        \<and> ur_InFlight u' \<le> pr_Concurrency p \<and> 0 < lb_ReservedTokens b
        \<and> (\<forall>q. app_quota (db_Config db) app = Inr (Some q) \<longrightarrow> wrap64 (ur_Used u' + ur_Reserved u') \<le> q))"
  using assms
proof (cases rule: LedgerAdmit_cases)
  case (admitted rid b0 box secret)
  show ?thesis
  proof (rule reserve_tx_InrE [OF admitted(1)])
    fix p reserve u
    assume u: "u = usage_of (db_Usage db) app (le_month en now)" "ur_InFlight u < pr_Concurrency p" "0 < reserve"
      and p: "cf_Default (db_Config db) = Some p" and b0: "lb_ReservedTokens b0 = reserve"
      and q: "\<And>q. app_quota (db_Config db) app = Inr (Some q) \<Longrightarrow> wrap64 (ur_Used u + ur_Reserved u + reserve) \<le> q"
      and db': "db' = db\<lparr>db_Usage := AList.update (app, le_month en now)
        (u\<lparr>ur_Reserved := ur_Reserved u + reserve, ur_InFlight := ur_InFlight u + 1\<rparr>) (db_Usage db),
      db_Reservations := AList.update rid \<lparr>rv_AppID = app, rv_ProfileID = pr_ID p, rv_IdentityID = identity,
        rv_Period = le_month en now, rv_Reserved = reserve, rv_Status = Calling\<rparr> (db_Reservations db)\<rparr>"
    have "usage_of (db_Usage db') app (le_month en now)
        = u\<lparr>ur_Reserved := ur_Reserved u + reserve, ur_InFlight := ur_InFlight u + 1\<rparr>"
      by (simp add: usage_of_def db' gm_lookup_update)
    moreover have "lb_ReservedTokens b = reserve" using admitted(5) b0 by simp
    ultimately show ?thesis using u p q admitted(2) by (auto simp: Let_def add.assoc)
  qed
qed simp_all

text \<open>C23. No reservation leaks. A completion on the ledger, whatever the provider answers, the client cancels or other
  requests do to the database while the provider works, ends with no open reservation of its own, as long
  as the database does not fail while reconciling and the provider does not report a usage whose sum overflows
  64 bits. Other requests keep the ledger in order and leave the reservations of others alone.\<close>

theorem llm_no_leak:
  assumes "LlmComplete (Some (ledger_ops (healthy en))) adapters cancelled now auth request rs db = (rs', db', r)"
    and "ledger_good db"
    and "\<And>p a t b. adapters p = Some a \<Longrightarrow> ledger_good t \<Longrightarrow> owns t b \<Longrightarrow>
      ledger_good (fst (a t b request)) \<and> owns (fst (a t b request)) b \<and> usage_fits (snd (a t b request))"
  shows "ledger_good db' \<and> (calling db' = calling db
    \<or> (\<exists>p a t b. adapters p = Some a \<and> lb_ReservationID b \<notin> calling db
        \<and> calling t = insert (lb_ReservationID b) (calling db)
        \<and> calling db' = calling (fst (a t b request)) - {lb_ReservationID b}))"
  by (rule ledger.complete_settles [OF assms(1,2)]) (use assms(3) in \<open>unfold ledger.well_behaved_def, blast\<close>)

section \<open>A completed call\<close>

definition demo_profile :: ProfileRow where
  "demo_profile = \<lparr>pr_ID = ''p'', pr_ConnectionID = ''c'', pr_Model = ''m'', pr_MaxMessages = 4, pr_MaxMessageBytes = 9,
     pr_MaxInputBytes = 9, pr_MaxOutputTokens = 8, pr_TimeoutMS = 1000, pr_ViewerRequests = 2, pr_AppRequests = 3,
     pr_RateWindowMS = 1000, pr_Concurrency = 1, pr_Active = True\<rparr>"

definition demo_config :: LlmConfig where
  "demo_config = \<lparr>cf_Applications = [(''a1'', True)], cf_Default = Some demo_profile,
     cf_Connections = [(''c'', \<lparr>cn_Provider = ProviderGemini, cn_Envelope = ''e'', cn_Active = True\<rparr>)],
     cf_Host = Some \<lparr>hp_Enabled = True, hp_Limit = Some 30\<rparr>, cf_Policies = []\<rparr>"

definition demo_db :: LlmDb where
  "demo_db = \<lparr>db_Config = demo_config, db_Usage = [], db_Reservations = [], db_Audits = []\<rparr>"

definition demo_ledger_env :: LedgerEnv where
  "demo_ledger_env = \<lparr>le_month = \<lambda>t. ''jan'', le_entropy = Some [7], le_open = \<lambda>box. Some ''key'', le_now = 0,
     le_admit_fault = False, le_reconcile_fault = False\<rparr>"

definition demo_adapter :: "LlmDb LlmAdapter" where
  "demo_adapter = (\<lambda>s b req. (s, Inr \<lparr>rs_Message = \<lparr>lm_Role = ''assistant'', lm_Content = ''ok''\<rparr>,
     rs_Usage = \<lparr>us_InputTokens = 3, us_OutputTokens = 2\<rparr>, rs_FinishReason = ''stop'', rs_RequestID = []\<rparr>))"

definition demo_chat :: LlmRequest where
  "demo_chat = \<lparr>lr_Messages = [\<lparr>lm_Role = ''user'', lm_Content = ''hi''\<rparr>], lr_MaxOutputTokens = 0\<rparr>"

definition demo_admitted :: "LlmDb \<times> (llm_error + Binding)" where
  "demo_admitted = LedgerAdmit demo_ledger_env demo_db ''a1'' ''u1'' 18 0 0"

definition demo_completed :: "LlmRates \<times> LlmDb \<times> (llm_error + LlmResponse)" where
  "demo_completed = LlmComplete (Some (ledger_ops demo_ledger_env)) (\<lambda>p. Some demo_adapter) False 0 sample_context demo_chat
     \<lparr>lt_rates = [], lt_rateSeq = 0\<rparr> demo_db"

lemma demo_admitted_binding: "map_sum id (\<lambda>b. (lb_ReservedTokens b, lb_Limits b = row_limits demo_profile)) (snd demo_admitted) = Inr (26, True)"
  by code_simp

lemma demo_completed_usage:
  "map_prod (\<lambda>db. db_Usage db) (map_sum id (\<lambda>r. rs_RequestID r)) (snd demo_completed)
    = ([((''a1'', ''jan''), \<lparr>ur_Used = 5, ur_Reserved = 0, ur_InFlight = 0\<rparr>)], Inr ''q'')"
  by code_simp

lemma demo_completed_ok:
  obtains rs' db' r where "demo_completed = (rs', db', Inr r)"
proof -
  obtain a b c where d: "demo_completed = (a, b, c)" by (metis prod_cases3)
  show ?thesis using demo_completed_usage that by (cases c) (simp_all add: d)
qed

lemma demo_ledger_reachable: "ledger_reachable demo_db" "ledger_reachable (fst demo_admitted)" "ledger_good demo_db"
proof -
  show i: "ledger_reachable demo_db" unfolding demo_db_def by (rule ledger_init)
  show "ledger_reachable (fst demo_admitted)"
    by (rule ledger_admit [OF i, where x = "snd demo_admitted"]) (simp add: demo_admitted_def)
  show "ledger_good demo_db" using ledger_reachable_balanced [OF i]
    by (simp add: ledger_good_def) (simp add: demo_db_def demo_config_def demo_profile_def)
qed

lemma demo_admitted_row: "map_of (db_Usage (fst demo_admitted)) (''a1'', ''jan'') = Some \<lparr>ur_Used = 0, ur_Reserved = 26, ur_InFlight = 1\<rparr>"
  by code_simp

text \<open>A concrete instance.\<close>

theorem llm_ledger_balanced_witness:
  "length (filter (\<lambda>r. rv_Status r = Calling) (of_period (fst demo_admitted) ''a1'' ''jan'')) = 1"
  using llm_ledger_balanced [OF demo_ledger_reachable(2), of "''a1''" "''jan''" "\<lparr>ur_Used = 0, ur_Reserved = 26, ur_InFlight = 1\<rparr>"]
    demo_admitted_row by simp

text \<open>A concrete instance.\<close>

theorem llm_quota_reserved_witness:
  "\<exists>b. snd demo_admitted = Inr b \<and> ur_Reserved (usage_of (db_Usage (fst demo_admitted)) ''a1'' ''jan'') = lb_ReservedTokens b"
proof -
  obtain b where b: "snd demo_admitted = Inr b" using demo_admitted_binding by (cases "snd demo_admitted") auto
  then have "LedgerAdmit demo_ledger_env demo_db ''a1'' ''u1'' 18 0 0 = (fst demo_admitted, Inr b)"
    by (metis demo_admitted_def prod.collapse)
  from llm_quota_reserved [OF this]
  have "ur_Reserved (usage_of (db_Usage (fst demo_admitted)) ''a1'' (le_month demo_ledger_env 0))
      = ur_Reserved (usage_of (db_Usage demo_db) ''a1'' (le_month demo_ledger_env 0)) + lb_ReservedTokens b"
    unfolding Let_def by blast
  with b show ?thesis by (simp add: demo_ledger_env_def demo_db_def usage_of_def)
qed

text \<open>A concrete instance.\<close>

theorem llm_no_leak_witness:
  "\<exists>db' r. snd demo_completed = (db', Inr r) \<and> calling db' = {}"
proof -
  obtain rs' db' r where d: "demo_completed = (rs', db', Inr r)" by (rule demo_completed_ok)
  have "demo_ledger_env = healthy demo_ledger_env" by (simp add: demo_ledger_env_def)
  then have run: "LlmComplete (Some (ledger_ops (healthy demo_ledger_env))) (\<lambda>p. Some demo_adapter) False 0 sample_context demo_chat
      \<lparr>lt_rates = [], lt_rateSeq = 0\<rparr> demo_db = (rs', db', Inr r)"
    using d by (simp only: demo_completed_def)
  have quiet: "fst (demo_adapter t b demo_chat) = t" "usage_fits (snd (demo_adapter t b demo_chat))" for t b
    by (simp_all add: demo_adapter_def usage_fits_def)
  have empty: "calling demo_db = {}" by (simp add: calling_def demo_db_def)
  have "calling db' = {}" using llm_no_leak [OF run demo_ledger_reachable(3)] quiet empty by auto
  then show ?thesis by (simp add: d)
qed

text \<open>Why the reported usage has to fit: a provider that answers with \<open>2^63 - 1\<close> input tokens and one output token
  passes the checks of the service, the sum wraps to a negative number, the check of the table refuses the
  reconciliation and the reservation stays open.\<close>

definition greedy_adapter :: "LlmDb LlmAdapter" where
  "greedy_adapter = (\<lambda>s b req. (s, Inr \<lparr>rs_Message = \<lparr>lm_Role = ''assistant'', lm_Content = ''ok''\<rparr>,
     rs_Usage = \<lparr>us_InputTokens = 9223372036854775807, us_OutputTokens = 1\<rparr>, rs_FinishReason = ''stop'', rs_RequestID = []\<rparr>))"

theorem llm_overflow_leaks:
  "map_prod (\<lambda>db. (db_Usage db, map (rv_Status \<circ> snd) (db_Reservations db))) (\<lambda>r. case r of Inl _ \<Rightarrow> True | Inr _ \<Rightarrow> False)
     (snd (LlmComplete (Some (ledger_ops demo_ledger_env)) (\<lambda>p. Some greedy_adapter) False 0 sample_context demo_chat
        \<lparr>lt_rates = [], lt_rateSeq = 0\<rparr> demo_db))
   = (([((''a1'', ''jan''), \<lparr>ur_Used = 0, ur_Reserved = 26, ur_InFlight = 1\<rparr>)], [Calling]), True)"
  by code_simp

text \<open>A concrete instance.\<close>

theorem llm_call_accounting_witness:
  "\<exists>r s2 b u. snd (snd demo_completed) = Inr r \<and> u = rs_Usage r
    \<and> lp_Reconcile (ledger_ops demo_ledger_env) s2 b u OutcomeSucceeded 0 = (fst (snd demo_completed), None)"
proof -
  obtain rs' db' r where d: "demo_completed = (rs', db', Inr r)" by (rule demo_completed_ok)
  from llm_call_accounting [OF d [unfolded demo_completed_def]] show ?thesis
    by (auto simp: d split: sum.splits) (metis old.sum.exhaust)
qed

end
