(* ===== verification/Compatibility.thy ===== *)
theory Compatibility
  imports Go_Net "HOL-Library.Product_Lexorder"
begin

text \<open>
  Release and client versions, \<open>internal/compatibility/compatibility.go\<close>: parsing, the order of versions,
  half-open ranges and the compatibility matrix of a release. Versions are an instance of the class of
  linear orders, and \<open>Compare\<close> is shown to compute that order.
\<close>

section \<open>Versions\<close>

record Version =
  ver_Major :: uint64
  ver_Minor :: uint64
  ver_Patch :: uint64

datatype compat_error = ErrVersionInvalid

definition version_digit :: "nat \<Rightarrow> bool" where
  "version_digit r \<longleftrightarrow> \<not> (r < 48 \<or> r > 57)"

definition parse_part :: "string \<Rightarrow> compat_error + uint64" where
  "parse_part part =
     (if part = [] \<or> length part > 1 \<and> part ! 0 = CHR ''0'' then Inl ErrVersionInvalid
      else if \<not> list_all version_digit (runes part) then Inl ErrVersionInvalid
      else case ParseUint part 64 of
             None \<Rightarrow> Inl ErrVersionInvalid
           | Some value \<Rightarrow> Inr (of_nat value))"

fun parse_parts :: "string list \<Rightarrow> compat_error + uint64 list" where
  "parse_parts [] = Inr []"
| "parse_parts (part # parts) =
     (case parse_part part of
        Inl e \<Rightarrow> Inl e
      | Inr v \<Rightarrow> (case parse_parts parts of Inl e \<Rightarrow> Inl e | Inr vs \<Rightarrow> Inr (v # vs)))"

definition ParseVersion :: "string \<Rightarrow> compat_error + Version" where
  "ParseVersion raw =
     (let parts = Split (CHR ''.'') raw in
      if length parts \<noteq> 3 then Inl ErrVersionInvalid
      else case parse_parts parts of
             Inl e \<Rightarrow> Inl e
           | Inr vs \<Rightarrow> Inr \<lparr>ver_Major = vs ! 0, ver_Minor = vs ! 1, ver_Patch = vs ! 2\<rparr>)"

definition Compare :: "Version \<Rightarrow> Version \<Rightarrow> int" where
  "Compare v w =
     (if ver_Major v \<noteq> ver_Major w then (if ver_Major v < ver_Major w then -1 else 1)
      else if ver_Minor v \<noteq> ver_Minor w then (if ver_Minor v < ver_Minor w then -1 else 1)
      else if ver_Patch v < ver_Patch w then -1
      else if ver_Patch v > ver_Patch w then 1
      else 0)"

section \<open>Ranges and the compatibility matrix\<close>

record VersionRange =
  vr_MinInclusive :: string
  vr_MaxExclusive :: string

definition Range_Valid :: "VersionRange \<Rightarrow> bool" where
  "Range_Valid r =
     (case ParseVersion (vr_MinInclusive r) of
        Inl _ \<Rightarrow> False
      | Inr lo \<Rightarrow> (case ParseVersion (vr_MaxExclusive r) of Inl _ \<Rightarrow> False | Inr hi \<Rightarrow> Compare lo hi < 0))"

definition Range_Contains :: "VersionRange \<Rightarrow> string \<Rightarrow> bool" where
  "Range_Contains r raw =
     (if \<not> Range_Valid r then False
      else case ParseVersion raw of
             Inl _ \<Rightarrow> False
           | Inr value \<Rightarrow>
               (case ParseVersion (vr_MinInclusive r) of
                  Inl _ \<Rightarrow> False
                | Inr lo \<Rightarrow> (case ParseVersion (vr_MaxExclusive r) of
                      Inl _ \<Rightarrow> False
                    | Inr hi \<Rightarrow> Compare lo value \<le> 0 \<and> Compare value hi < 0)))"

definition ControlAPIVersion :: string where "ControlAPIVersion = ''1''"
definition AppAPIVersion :: string where "AppAPIVersion = ''1''"
definition SchemaVersion :: string where "SchemaVersion = ''1''"
definition ReleaseManifestSchema :: string where "ReleaseManifestSchema = ''2''"
definition MinimumCLIVersion :: string where "MinimumCLIVersion = ''0.1.0''"
definition MaximumCLIVersion :: string where "MaximumCLIVersion = ''1.0.0''"
definition MinimumSDKVersion :: string where "MinimumSDKVersion = ''0.1.0''"
definition MaximumSDKVersion :: string where "MaximumSDKVersion = ''1.0.0''"

lemmas compat_constants = ControlAPIVersion_def AppAPIVersion_def SchemaVersion_def ReleaseManifestSchema_def
  MinimumCLIVersion_def MaximumCLIVersion_def MinimumSDKVersion_def MaximumSDKVersion_def

record ClientAPI =
  ca_Version :: string
  ca_Client :: VersionRange

record CompatMatrix =
  cm_ServerVersion :: string
  cm_ControlAPI :: ClientAPI
  cm_AppAPI :: ClientAPI
  cm_SchemaVersion :: string
  cm_ReleaseManifestSchema :: string

definition CurrentMatrix :: "string \<Rightarrow> CompatMatrix" where
  "CurrentMatrix serverVersion =
     \<lparr>cm_ServerVersion = serverVersion,
      cm_ControlAPI = \<lparr>ca_Version = ControlAPIVersion,
        ca_Client = \<lparr>vr_MinInclusive = MinimumCLIVersion, vr_MaxExclusive = MaximumCLIVersion\<rparr>\<rparr>,
      cm_AppAPI = \<lparr>ca_Version = AppAPIVersion,
        ca_Client = \<lparr>vr_MinInclusive = MinimumSDKVersion, vr_MaxExclusive = MaximumSDKVersion\<rparr>\<rparr>,
      cm_SchemaVersion = SchemaVersion,
      cm_ReleaseManifestSchema = ReleaseManifestSchema\<rparr>"

definition RuntimeMatrix :: "string \<Rightarrow> CompatMatrix" where
  "RuntimeMatrix serverVersion =
     CurrentMatrix (case ParseVersion serverVersion of Inl _ \<Rightarrow> ''0.0.0'' | Inr _ \<Rightarrow> serverVersion)"

definition Matrix_Valid :: "CompatMatrix \<Rightarrow> bool" where
  "Matrix_Valid m =
     (case ParseVersion (cm_ServerVersion m) of
        Inl _ \<Rightarrow> False
      | Inr _ \<Rightarrow> ca_Version (cm_ControlAPI m) = ControlAPIVersion \<and> ca_Version (cm_AppAPI m) = AppAPIVersion
          \<and> cm_SchemaVersion m = SchemaVersion \<and> cm_ReleaseManifestSchema m = ReleaseManifestSchema
          \<and> Range_Valid (ca_Client (cm_ControlAPI m)) \<and> Range_Valid (ca_Client (cm_AppAPI m)))"

definition CompatibleArtifact :: "string \<Rightarrow> string \<Rightarrow> string \<Rightarrow> bool" where
  "CompatibleArtifact version api schema =
     (case ParseVersion version of
        Inl _ \<Rightarrow> False
      | Inr _ \<Rightarrow> api = ControlAPIVersion \<and> schema = SchemaVersion)"

section \<open>Versions are linearly ordered\<close>

instantiation Version_ext :: (linorder) linorder
begin

definition less_eq_Version_ext :: "'a Version_scheme \<Rightarrow> 'a Version_scheme \<Rightarrow> bool" where
  "v \<le> w \<longleftrightarrow> (ver_Major v, ver_Minor v, ver_Patch v, Version.more v)
      \<le> (ver_Major w, ver_Minor w, ver_Patch w, Version.more w)"

definition less_Version_ext :: "'a Version_scheme \<Rightarrow> 'a Version_scheme \<Rightarrow> bool" where
  "v < w \<longleftrightarrow> (ver_Major v, ver_Minor v, ver_Patch v, Version.more v)
      < (ver_Major w, ver_Minor w, ver_Patch w, Version.more w)"

instance
proof
  fix v w :: "'a Version_scheme"
  show "v < w \<longleftrightarrow> v \<le> w \<and> \<not> w \<le> v"
    unfolding less_eq_Version_ext_def less_Version_ext_def by (rule less_le_not_le)
  show "v \<le> w \<or> w \<le> v" unfolding less_eq_Version_ext_def by (rule linear)
  show "v = w" if "v \<le> w" "w \<le> v"
    using that unfolding less_eq_Version_ext_def by (cases v, cases w) (auto dest!: antisym)
  show "v \<le> v" by (simp add: less_eq_Version_ext_def)
next
  fix u v w :: "'a Version_scheme"
  show "u \<le> w" if "u \<le> v" "v \<le> w"
    using that unfolding less_eq_Version_ext_def by (rule order_trans)
qed

end

lemma Compare_order: "Compare v w = (if v < w then -1 else if v = w then 0 else 1)"
  by (cases v, cases w) (auto simp: Compare_def less_Version_ext_def)

lemma Compare_iffs [simp]:
  "Compare v w < 0 \<longleftrightarrow> v < w" "Compare v w \<le> 0 \<longleftrightarrow> v \<le> w" "Compare v w = 0 \<longleftrightarrow> v = w"
  by (auto simp: Compare_order)

section \<open>Parsing accepts exactly the printed versions\<close>

definition version_string :: "Version \<Rightarrow> string" where
  "version_string v =
     Join (CHR ''.'') [format_nat (unat (ver_Major v)), format_nat (unat (ver_Minor v)), format_nat (unat (ver_Patch v))]"

lemma version_digits_iff: "list_all is_digit part \<Longrightarrow> list_all version_digit (runes part)"
proof -
  assume d: "list_all is_digit part"
  then have "list_all (\<lambda>b. b < 0x80) (bytes part)"
    by (auto simp: bytes_def list_all_iff is_digit_def)
  then have "runes part = bytes part"
    by (simp add: runes_def runes_nat_ascii comp_def)
  with d show ?thesis by (auto simp: version_digit_def bytes_def list_all_iff is_digit_def)
qed

lemma parse_part_iff: "parse_part part = Inr v \<longleftrightarrow> part = format_nat (unat v)"
proof
  assume "part = format_nat (unat v)"
  moreover have "canonical_decimal (format_nat (unat v))" by (rule format_nat_canonical)
  moreover have "unat v < 2 ^ 64" using unsigned_less [of v] by simp
  ultimately show "parse_part part = Inr v"
    by (auto simp: parse_part_def canonical_decimal_def version_digits_iff ParseUint_format hd_conv_nth)
next
  assume a: "parse_part part = Inr v"
  then obtain n where n: "ParseUint part 64 = Some n" "v = of_nat n" and nz: "part \<noteq> []" "\<not> (length part > 1 \<and> part ! 0 = CHR ''0'')"
    by (auto simp: parse_part_def split: if_splits option.splits)
  then have "canonical_decimal part" by (auto simp: canonical_decimal_def ParseUint_def hd_conv_nth split: if_splits)
  with n have "part = format_nat n" "n < 2 ^ 64" by (simp_all add: ParseUint_canonical)
  then show "part = format_nat (unat v)" using n by (simp add: unat_of_nat take_bit_nat_eq_self)
qed

lemma parse_parts_iff: "parse_parts parts = Inr vs \<longleftrightarrow> parts = map (format_nat \<circ> unat) vs"
proof (induction parts arbitrary: vs)
  case (Cons part parts)
  show ?case
  proof (cases vs)
    case Nil
    then show ?thesis by (auto split: sum.splits)
  next
    case (Cons v vs')
    have "parse_parts (part # parts) = Inr vs \<longleftrightarrow> parse_part part = Inr v \<and> parse_parts parts = Inr vs'"
      using Cons by (auto split: sum.splits)
    then show ?thesis using Cons Cons.IH by (simp add: parse_part_iff)
  qed
qed auto

lemma no_dot_format: "CHR ''.'' \<notin> set (format_nat n)"
  using format_nat_digits [of n] by (auto simp: list_all_iff is_digit_def)

lemma ParseVersion_iff: "ParseVersion raw = Inr v \<longleftrightarrow> raw = version_string v"
proof
  assume raw: "raw = version_string v"
  have "Split (CHR ''.'') raw = map (format_nat \<circ> unat) [ver_Major v, ver_Minor v, ver_Patch v]"
    unfolding raw version_string_def by (subst Split_Join) (simp_all add: no_dot_format)
  then show "ParseVersion raw = Inr v"
    using parse_parts_iff [of "Split (CHR ''.'') raw" "[ver_Major v, ver_Minor v, ver_Patch v]"]
    by (simp add: ParseVersion_def)
next
  assume a: "ParseVersion raw = Inr v"
  then obtain vs where vs: "parse_parts (Split (CHR ''.'') raw) = Inr vs" "length (Split (CHR ''.'') raw) = 3"
      "v = \<lparr>ver_Major = vs ! 0, ver_Minor = vs ! 1, ver_Patch = vs ! 2\<rparr>"
    by (auto simp: ParseVersion_def Let_def split: if_splits sum.splits)
  then have sp: "Split (CHR ''.'') raw = map (format_nat \<circ> unat) vs" by (simp add: parse_parts_iff)
  with vs have "length vs = 3" by simp
  then obtain a b c where "vs = [a, b, c]" by (auto simp: numeral_3_eq_3 length_Suc_conv)
  with vs sp Join_Split [of "CHR ''.''" raw] show "raw = version_string v" by (simp add: version_string_def)
qed

text \<open>C25. Version parsing is exact and the order of versions is the one the code compares by: \<open>Parse\<close> accepts
  a string exactly if it is the canonical print of a version (so versions and accepted strings correspond one
  to one), \<open>Compare\<close> is the sign of a linear order, and a range contains exactly the strings of the versions
  between its bounds.\<close>

theorem version_parse_order:
  "(ParseVersion raw = Inr v \<longleftrightarrow> raw = version_string v)
   \<and> (Compare v w = (if v < w then -1 else if v = w then 0 else 1))
   \<and> (Range_Contains r raw \<longleftrightarrow>
        (\<exists>lo x hi. vr_MinInclusive r = version_string lo \<and> raw = version_string x
           \<and> vr_MaxExclusive r = version_string hi \<and> lo \<le> x \<and> x < hi))"
proof -
  have "Range_Contains r raw \<longleftrightarrow> (\<exists>lo x hi. ParseVersion (vr_MinInclusive r) = Inr lo \<and> ParseVersion raw = Inr x
      \<and> ParseVersion (vr_MaxExclusive r) = Inr hi \<and> lo \<le> x \<and> x < hi)"
    by (auto simp: Range_Contains_def Range_Valid_def split: sum.splits)
  then show ?thesis by (simp add: ParseVersion_iff Compare_order)
qed

end
