(* ===== verification/Update_Install.thy ===== *)
theory Update_Install
  imports Compatibility Go_Files
begin

text \<open>
  The updater, \<open>internal/update\<close>: the verified artifact, the update with a rollback snapshot (\<open>update.go\<close>), the
  installer over files (\<open>file_installer.go\<close>) and the end of the update command
  (\<open>cmd/tinkercloud/update_command.go\<close>). The orchestration is written against the interface \<open>Installer\<close>, here
  a record of operations on a world; the locale states what it relies on, and the file installer provides it.
  SHA-256, the signature check, the restart of the service and the health checks are parameters.
\<close>

section \<open>Artifacts and their verification\<close>

datatype update_error =
    ErrSignature | ErrDigest | ErrHealth | ErrUnsafeBinary | ErrUnsafeSnapshot | UpdateFS fs_error | ServiceDown

record Artifact =
  art_Version :: string
  art_API :: string
  art_Schema :: string
  art_Bytes :: string
  art_Signature :: string
  art_Digest :: "nat list"

abbreviation newline :: char where "newline \<equiv> CHR 0x0A"

definition signed_message :: "Artifact \<Rightarrow> string" where
  "signed_message a = art_Version a @ [newline] @ art_API a @ [newline] @ art_Schema a @ [newline] @ hex_encode (art_Digest a)"

definition VerifyArtifact :: "(string \<Rightarrow> nat list) \<Rightarrow> (string \<Rightarrow> string \<Rightarrow> bool) \<Rightarrow> Artifact \<Rightarrow> update_error option" where
  "VerifyArtifact sha ed a =
     (if sha (art_Bytes a) \<noteq> art_Digest a then Some ErrDigest
      else if \<not> ed (signed_message a) (art_Signature a) then Some ErrSignature
      else None)"

section \<open>The update\<close>

datatype UpdateState = RollbackReady | Applying | Healthy | RolledBack | RollbackFailed

type_synonym 'w call = "'w \<Rightarrow> 'w \<times> update_error option"

text \<open>\<open>in_Commit\<close> is \<open>None\<close> for an installer that is not a \<open>Committer\<close>.\<close>

record 'w Installer =
  in_Snapshot :: "'w call"
  in_Apply :: "Artifact \<Rightarrow> 'w call"
  in_Restore :: "'w call"
  in_Commit :: "'w call option"

text \<open>The state \<open>None\<close> is the empty string of the early returns.\<close>

type_synonym 'w outcome = "'w \<times> UpdateState option \<times> update_error option"

definition UpdateApply :: "(string \<Rightarrow> nat list) \<Rightarrow> (string \<Rightarrow> string \<Rightarrow> bool) \<Rightarrow> Artifact \<Rightarrow> 'w Installer \<Rightarrow> 'w call
      \<Rightarrow> 'w \<Rightarrow> 'w outcome" where
  "UpdateApply sha ed a i h w =
     (case VerifyArtifact sha ed a of
        Some e \<Rightarrow> (w, None, Some e)
      | None \<Rightarrow>
          (case in_Snapshot i w of
             (w1, Some e) \<Rightarrow> (w1, None, Some e)
           | (w1, None) \<Rightarrow>
               (case in_Apply i a w1 of
                  (w2, Some e) \<Rightarrow>
                    (case in_Restore i w2 of
                       (w3, Some re) \<Rightarrow> (w3, Some RollbackFailed, Some re)
                     | (w3, None) \<Rightarrow> (w3, Some RolledBack, Some e))
                | (w2, None) \<Rightarrow>
                    (case h w2 of
                       (w3, Some e) \<Rightarrow>
                         (case in_Restore i w3 of
                            (w4, Some re) \<Rightarrow> (w4, Some RollbackFailed, Some re)
                          | (w4, None) \<Rightarrow> (w4, Some RolledBack, Some ErrHealth))
                     | (w3, None) \<Rightarrow> (w3, Some Healthy, None)))))"

definition restoreAndRestart :: "'w Installer \<Rightarrow> 'w call \<Rightarrow> update_error \<Rightarrow> 'w \<Rightarrow> 'w outcome" where
  "restoreAndRestart i r cause w =
     (case in_Restore i w of
        (w1, Some e) \<Rightarrow> (w1, Some RollbackFailed, Some e)
      | (w1, None) \<Rightarrow>
          (case r w1 of
             (w2, Some e) \<Rightarrow> (w2, Some RollbackFailed, Some e)
           | (w2, None) \<Rightarrow>
               (case in_Commit i of
                  None \<Rightarrow> (w2, Some RolledBack, Some cause)
                | Some commit \<Rightarrow>
                    (case commit w2 of
                       (w3, Some e) \<Rightarrow> (w3, Some RollbackFailed, Some e)
                     | (w3, None) \<Rightarrow> (w3, Some RolledBack, Some cause)))))"

text \<open>The loop over the checks; a nil check fails, and the first failure ends it.\<close>

fun run_checks :: "'w call option list \<Rightarrow> 'w \<Rightarrow> 'w \<times> bool" where
  "run_checks [] w = (w, True)"
| "run_checks (None # cs) w = (w, False)"
| "run_checks (Some c # cs) w =
     (case c w of (w1, Some e) \<Rightarrow> (w1, False) | (w1, None) \<Rightarrow> run_checks cs w1)"

definition ApplyAfterRestart :: "(string \<Rightarrow> nat list) \<Rightarrow> (string \<Rightarrow> string \<Rightarrow> bool) \<Rightarrow> Artifact \<Rightarrow> 'w Installer \<Rightarrow> 'w call
      \<Rightarrow> 'w call option list \<Rightarrow> 'w \<Rightarrow> 'w outcome" where
  "ApplyAfterRestart sha ed a i r checks w =
     (case VerifyArtifact sha ed a of
        Some e \<Rightarrow> (w, None, Some e)
      | None \<Rightarrow>
          (case in_Snapshot i w of
             (w1, Some e) \<Rightarrow> (w1, None, Some e)
           | (w1, None) \<Rightarrow>
               (case in_Apply i a w1 of
                  (w2, Some e) \<Rightarrow> restoreAndRestart i r e w2
                | (w2, None) \<Rightarrow>
                    (case r w2 of
                       (w3, Some e) \<Rightarrow> restoreAndRestart i r ErrHealth w3
                     | (w3, None) \<Rightarrow>
                         (case run_checks checks w3 of
                            (w4, False) \<Rightarrow> restoreAndRestart i r ErrHealth w4
                          | (w4, True) \<Rightarrow> (w4, Some Healthy, None))))))"

text \<open>The end of the update command: the snapshot is cleared, or the old binary restored.\<close>

definition finish_update :: "'w Installer \<Rightarrow> 'w call \<Rightarrow> 'w outcome \<Rightarrow> 'w \<times> bool" where
  "finish_update i r out =
     (case out of (w, state, err) \<Rightarrow>
        if err \<noteq> None \<or> state \<noteq> Some Healthy then (w, False)
        else case in_Commit i of
               None \<Rightarrow> (w, True)
             | Some commit \<Rightarrow>
                 (case commit w of
                    (w1, None) \<Rightarrow> (w1, True)
                  | (w1, Some e) \<Rightarrow> (fst (r (fst (in_Restore i w1))), False)))"

text \<open>\<open>update --rollback\<close> up to the probes.\<close>

definition restoreBeforeProbe :: "'w Installer option \<Rightarrow> 'w call option \<Rightarrow> 'w \<Rightarrow> 'w \<times> update_error option" where
  "restoreBeforeProbe i r w =
     (case (i, r) of
        (Some i', Some r') \<Rightarrow> (case in_Restore i' w of (w1, Some e) \<Rightarrow> (w1, Some e) | (w1, None) \<Rightarrow> r' w1)
      | _ \<Rightarrow> (w, Some ServiceDown))"

section \<open>The file installer\<close>

text \<open>Calls on single files: reading, \<open>os.CreateTemp\<close> with its ten thousand tries, \<open>os.Rename\<close> of a file over
  a possibly existing one, and \<open>os.Remove\<close>.\<close>

definition ReadFile :: "(nat \<Rightarrow> bool) \<Rightarrow> FS \<Rightarrow> fpath \<Rightarrow> FS \<times> (fs_error + string)" where
  "ReadFile fault fs p =
     (fs_tick fs,
      if fault (fs_calls fs) then Inl FsFault
      else case fs_lookup fs p of
             None \<Rightarrow> Inl FsNotExist
           | Some (FFile m c) \<Rightarrow> Inr c
           | Some _ \<Rightarrow> Inl FsRefused)"

abbreviation temp_prefix :: string where "temp_prefix \<equiv> ''.tinkercloud-''"

fun create_temp :: "(nat \<Rightarrow> bool) \<Rightarrow> (nat \<Rightarrow> string) \<Rightarrow> nat \<Rightarrow> FS \<Rightarrow> fpath \<Rightarrow> FS \<times> (fs_error + fpath)" where
  "create_temp fault rnd 0 fs dir = (fs, Inl FsRefused)"
| "create_temp fault rnd (Suc n) fs dir =
     (let p = dir @ [temp_prefix @ rnd (fs_calls fs)] in
      if \<not> fault (fs_calls fs) \<and> fs_lookup fs p \<noteq> None then create_temp fault rnd n (fs_tick fs) dir
      else case create_excl fault fs p 384 of
             (fs1, Some e) \<Rightarrow> (fs1, Inl e)
           | (fs1, None) \<Rightarrow> (fs1, Inr p))"

definition fs_delete :: "fpath \<Rightarrow> FS \<Rightarrow> FS" where
  "fs_delete p fs = fs\<lparr>fs_nodes := AList.delete p (fs_nodes fs)\<rparr>"

definition RenameFile :: "(nat \<Rightarrow> bool) \<Rightarrow> FS \<Rightarrow> fpath \<Rightarrow> fpath \<Rightarrow> FS \<times> fs_error option" where
  "RenameFile fault fs src dst =
     (if fault (fs_calls fs) then (fs_tick fs, Some FsFault)
      else case fs_lookup fs src of
             Some (FFile m c) \<Rightarrow>
               if is_dir (fs_lookup fs dst) \<or> \<not> is_dir (fs_lookup fs (butlast dst)) then (fs_tick fs, Some FsRefused)
               else (fs_put dst (FFile m c) (fs_delete src (fs_tick fs)), None)
           | _ \<Rightarrow> (fs_tick fs, Some FsNotExist))"

definition RemoveFile :: "(nat \<Rightarrow> bool) \<Rightarrow> FS \<Rightarrow> fpath \<Rightarrow> FS \<times> fs_error option" where
  "RemoveFile fault fs p =
     (if fault (fs_calls fs) then (fs_tick fs, Some FsFault)
      else case fs_lookup fs p of
             None \<Rightarrow> (fs_tick fs, Some FsNotExist)
           | Some _ \<Rightarrow>
               if p = [] \<or> list_ex (strict_prefix p) (map fst (fs_nodes fs)) then (fs_tick fs, Some FsRefused)
               else (fs_delete p (fs_tick fs), None))"

definition and_then :: "FS \<times> fs_error option \<Rightarrow> (FS \<Rightarrow> FS \<times> fs_error option) \<Rightarrow> FS \<times> fs_error option" where
  "and_then x f = (case x of (fs, Some e) \<Rightarrow> (fs, Some e) | (fs, None) \<Rightarrow> f fs)"

text \<open>Filling the temporary file: a failure skips the later steps, but the file is always closed.\<close>

definition write_temp :: "(nat \<Rightarrow> bool) \<Rightarrow> FS \<Rightarrow> fpath \<Rightarrow> string \<Rightarrow> nat \<Rightarrow> FS \<times> fs_error option" where
  "write_temp fault fs n b mode =
     (case and_then (and_then (Chmod fault fs n mode) (\<lambda>f. append_file fault f n b)) (fs_touch fault) of
        (fs1, e) \<Rightarrow> (case fs_touch fault fs1 of (fs2, ce) \<Rightarrow> (fs2, if e = None then ce else e)))"

definition atomic :: "(nat \<Rightarrow> bool) \<Rightarrow> (nat \<Rightarrow> string) \<Rightarrow> FS \<Rightarrow> fpath \<Rightarrow> string \<Rightarrow> nat \<Rightarrow> FS \<times> fs_error option" where
  "atomic fault rnd fs path b mode =
     (case mkdir_all fault 448 fs [] (butlast path) of
        (fs1, Some e) \<Rightarrow> (fs1, Some e)
      | (fs1, None) \<Rightarrow>
          (case create_temp fault rnd 10000 fs1 (butlast path) of
             (fs2, Inl e) \<Rightarrow> (fs2, Some e)
           | (fs2, Inr n) \<Rightarrow>
               (case and_then (write_temp fault fs2 n b mode)
                       (\<lambda>f. and_then (RenameFile fault f n path)
                       (\<lambda>g. and_then (fs_touch fault g) (fs_touch fault))) of
                  (fs3, e) \<Rightarrow> (fst (RemoveFile fault fs3 n), e))))"

definition copy_file :: "(nat \<Rightarrow> bool) \<Rightarrow> (nat \<Rightarrow> string) \<Rightarrow> FS \<Rightarrow> fpath \<Rightarrow> fpath \<Rightarrow> nat \<Rightarrow> FS \<times> update_error option" where
  "copy_file fault rnd fs src dst mode =
     (case Lstat fault fs src of
        (fs1, Inl e) \<Rightarrow> (fs1, Some ErrUnsafeBinary)
      | (fs1, Inr n) \<Rightarrow>
          if \<not> is_file (Some n) then (fs1, Some ErrUnsafeBinary)
          else (case ReadFile fault fs1 src of
                  (fs2, Inl e) \<Rightarrow> (fs2, Some (UpdateFS e))
                | (fs2, Inr b) \<Rightarrow>
                    (case atomic fault rnd fs2 dst b mode of (fs3, e) \<Rightarrow> (fs3, map_option UpdateFS e))))"

definition commit_file :: "(nat \<Rightarrow> bool) \<Rightarrow> FS \<Rightarrow> fpath \<Rightarrow> FS \<times> update_error option" where
  "commit_file fault fs rdir =
     (case Lstat fault fs (rdir @ [''previous'']) of
        (fs1, Inl FsNotExist) \<Rightarrow> (fs1, None)
      | (fs1, Inl e) \<Rightarrow> (fs1, Some ErrUnsafeSnapshot)
      | (fs1, Inr n) \<Rightarrow>
          if \<not> is_file (Some n) then (fs1, Some ErrUnsafeSnapshot)
          else (case RemoveFile fault fs1 (rdir @ [''previous'']) of
                  (fs2, Some e) \<Rightarrow> (fs2, Some (UpdateFS e))
                | (fs2, None) \<Rightarrow>
                    (case RemoveFile fault fs2 rdir of
                       (fs3, Some e) \<Rightarrow> (fs3, if e = FsNotExist then None else Some (UpdateFS e))
                     | (fs3, None) \<Rightarrow> (fs3, None))))"

text \<open>A world has the file system and whatever the service and its probes look at.\<close>

definition on_files :: "(FS \<Rightarrow> FS \<times> update_error option) \<Rightarrow> (FS \<times> 'e) call" where
  "on_files f w = (case f (fst w) of (fs, e) \<Rightarrow> ((fs, snd w), e))"

definition FileInstaller :: "(nat \<Rightarrow> bool) \<Rightarrow> (nat \<Rightarrow> string) \<Rightarrow> fpath \<Rightarrow> fpath \<Rightarrow> (FS \<times> 'e) Installer" where
  "FileInstaller fault rnd targ rdir =
     \<lparr>in_Snapshot = on_files (\<lambda>fs. copy_file fault rnd fs targ (rdir @ [''previous'']) 384),
      in_Apply = (\<lambda>a. on_files (\<lambda>fs. case atomic fault rnd fs targ (art_Bytes a) mode755 of
                         (fs1, e) \<Rightarrow> (fs1, map_option UpdateFS e))),
      in_Restore = on_files (\<lambda>fs. copy_file fault rnd fs (rdir @ [''previous'']) targ mode755),
      in_Commit = Some (on_files (\<lambda>fs. commit_file fault fs rdir))\<rparr>"

definition file_content :: "FS \<Rightarrow> fpath \<Rightarrow> string option" where
  "file_content fs p = (case fs_lookup fs p of Some (FFile m c) \<Rightarrow> Some c | _ \<Rightarrow> None)"

lemma fs_lookup_delete [simp]:
  "fs_lookup (fs_delete p fs) q = (if q = [] then Some (FDir mode755) else if q = p then None else fs_lookup fs q)"
  by (simp add: fs_lookup_def fs_delete_def gomap_simps)

section \<open>What the installer changes\<close>

text \<open>One call changes at most one file, which is a temporary one or the path it is to replace.\<close>

lemma create_excl_fresh:
  "create_excl fault fs p mode = (fs', r) \<Longrightarrow>
     (r = None \<longrightarrow> fs' = fs_put p (FFile mode []) (fs_tick fs) \<and> fs_lookup fs p = None \<and> is_dir (fs_lookup fs (butlast p)))
     \<and> (r \<noteq> None \<longrightarrow> fs' = fs_tick fs)"
  by (auto simp: create_excl_def split: if_splits)

lemma create_temp_fresh:
  "create_temp fault rnd n fs dir = (fs', r) \<Longrightarrow>
     (case r of
        Inl e \<Rightarrow> fs_lookup fs' = fs_lookup fs
      | Inr p \<Rightarrow> fs_lookup fs p = None \<and> butlast p = dir \<and> p \<noteq> [] \<and> HasPrefix (last p) temp_prefix
          \<and> is_dir (fs_lookup fs dir) \<and> (\<forall>q. fs_lookup fs' q = (if q = p then Some (FFile 384 []) else fs_lookup fs q)))"
proof (induction n arbitrary: fs)
  case (Suc n)
  obtain p where p: "p = dir @ [temp_prefix @ rnd (fs_calls fs)]" by blast
  then have pd: "butlast p = dir" "p \<noteq> []" "HasPrefix (last p) temp_prefix" by (simp_all add: HasPrefix_def)
  obtain fs1 r1 where c: "create_excl fault fs p 384 = (fs1, r1)" by fastforce
  note f = create_excl_fresh [OF c]
  have step: "(if \<not> fault (fs_calls fs) \<and> fs_lookup fs p \<noteq> None then create_temp fault rnd n (fs_tick fs) dir
      else case (fs1, r1) of (fs1, Some e) \<Rightarrow> (fs1, Inl e) | (fs1, None) \<Rightarrow> (fs1, Inr p)) = (fs', r)"
    using Suc.prems unfolding c [symmetric] p by (simp only: create_temp.simps Let_def)
  show ?case
  proof (cases "\<not> fault (fs_calls fs) \<and> fs_lookup fs p \<noteq> None")
    case True
    with step have "create_temp fault rnd n (fs_tick fs) dir = (fs', r)" by simp
    from Suc.IH [OF this] show ?thesis by (simp only: fs_lookup_tick)
  next
    case False
    show ?thesis
    proof (cases r1)
      case None
      from step False None have "fs' = fs1" "r = Inr p" by (auto split: if_splits)
      with None f pd show ?thesis by simp
    next
      case (Some e)
      from step False Some have "fs' = fs1" "r = Inl e" by (auto split: if_splits)
      with Some f show ?thesis by simp
    qed
  qed
qed auto

lemma fs_touch_lookup: "fs_touch fault fs = (fs', r) \<Longrightarrow> fs_lookup fs' = fs_lookup fs"
  by (auto simp: fs_touch_def)

lemma and_then_cases:
  assumes "and_then x f = (fs', r)"
  obtains e where "x = (fs', Some e)" "r = Some e" | fs1 where "x = (fs1, None)" "f fs1 = (fs', r)"
  using assms by (cases x; cases "snd x") (auto simp: and_then_def)

text \<open>\<open>only n fs fs'\<close>: no node but the one at \<open>n\<close> differs.\<close>

definition only :: "fpath \<Rightarrow> FS \<Rightarrow> FS \<Rightarrow> bool" where
  "only n fs fs' \<longleftrightarrow> (\<forall>q. q \<noteq> n \<longrightarrow> fs_lookup fs' q = fs_lookup fs q)"

lemma only_refl [simp]: "only n fs fs" by (simp add: only_def)

lemma only_trans: "only n a b \<Longrightarrow> only n b c \<Longrightarrow> only n a c" by (simp add: only_def)

lemma only_cong: "fs_lookup fs' = fs_lookup fs \<Longrightarrow> only n fs fs'" by (simp add: only_def)

lemma only_put: "n \<noteq> [] \<Longrightarrow> only n fs (fs_put n x fs)" by (simp add: only_def)

lemma Chmod_file:
  "Chmod fault fs n mode = (fs', r) \<Longrightarrow> only n fs fs' \<and> (r = None \<longrightarrow> file_content fs' n = file_content fs n)"
  by (auto simp: Chmod_def only_def file_content_def chmod_node_def split: if_splits option.splits fnode.splits)

lemma append_file_file:
  "append_file fault fs n b = (fs', r) \<Longrightarrow> only n fs fs'
     \<and> (r = None \<longrightarrow> (\<forall>c. file_content fs n = Some c \<longrightarrow> file_content fs' n = Some (c @ b)))"
  by (auto simp: append_file_def only_def file_content_def split: if_splits option.splits fnode.splits)

lemma write_temp_file:
  assumes "write_temp fault fs n b mode = (fs', r)" "file_content fs n = Some []"
  shows "only n fs fs'" "r = None \<Longrightarrow> file_content fs' n = Some b"
proof -
  obtain fs1 e where w: "and_then (and_then (Chmod fault fs n mode) (\<lambda>f. append_file fault f n b)) (fs_touch fault) = (fs1, e)"
    by fastforce
  have step: "only n fs fs1 \<and> (e = None \<longrightarrow> file_content fs1 n = Some b)"
    using w
  proof (rule and_then_cases)
    fix x
    assume "and_then (Chmod fault fs n mode) (\<lambda>f. append_file fault f n b) = (fs1, Some x)" "e = Some x"
    then show ?thesis
      by (elim and_then_cases) (auto dest!: Chmod_file append_file_file intro: only_trans)
  next
    fix fs2
    assume a: "and_then (Chmod fault fs n mode) (\<lambda>f. append_file fault f n b) = (fs2, None)" "fs_touch fault fs2 = (fs1, e)"
    from a(1) have "only n fs fs2 \<and> file_content fs2 n = Some b"
      using assms(2) by (elim and_then_cases) (auto dest!: Chmod_file append_file_file intro: only_trans)
    with fs_touch_lookup [OF a(2)] show ?thesis by (auto simp: only_def file_content_def)
  qed
  obtain fs2 ce where c: "fs_touch fault fs1 = (fs2, ce)" by fastforce
  have "fs' = fs2" "r = None \<Longrightarrow> e = None" using assms(1) w c by (auto simp: write_temp_def split: if_splits)
  with step fs_touch_lookup [OF c] show "only n fs fs'" "r = None \<Longrightarrow> file_content fs' n = Some b"
    by (auto simp: only_def file_content_def)
qed

lemma RenameFile_file:
  "RenameFile fault fs n p = (fs', r) \<Longrightarrow> n \<noteq> [] \<Longrightarrow> p \<noteq> [] \<Longrightarrow>
     (\<forall>q. q \<noteq> n \<longrightarrow> q \<noteq> p \<longrightarrow> fs_lookup fs' q = fs_lookup fs q)
     \<and> (r \<noteq> None \<longrightarrow> fs_lookup fs' = fs_lookup fs)
     \<and> (r = None \<longrightarrow> file_content fs' p = file_content fs n \<and> file_content fs n \<noteq> None)"
  by (auto simp: RenameFile_def file_content_def split: if_splits option.splits fnode.splits)

lemma RemoveFile_file: "RemoveFile fault fs n = (fs', r) \<Longrightarrow> only n fs fs' \<and> (r = None \<longrightarrow> fs_lookup fs' n = None)"
  by (auto simp: RemoveFile_def only_def split: if_splits option.splits)

text \<open>The replacement of a file is atomic: afterwards the path has its old content or the new one, the new one
  on success, and every other file is as before.\<close>

lemma atomic_file:
  assumes a: "atomic fault rnd fs path b mode = (fs', r)"
    and path: "path \<noteq> []" "\<not> HasPrefix (last path) temp_prefix"
  shows "file_content fs q = Some c \<Longrightarrow> q \<noteq> path \<Longrightarrow> file_content fs' q = Some c"
    and "file_content fs path = Some c \<Longrightarrow> file_content fs' path \<in> {Some c, Some b}"
    and "r = None \<Longrightarrow> file_content fs' path = Some b"
proof -
  obtain fs1 r1 where m: "mkdir_all fault 448 fs [] (butlast path) = (fs1, r1)" by fastforce
  have keep1: "file_content fs q = Some c \<Longrightarrow> file_content fs1 q = Some c" for q c
    using fs_grows_keeps [OF mkdir_all_grows [OF m, THEN conjunct1], of q]
    by (auto simp: file_content_def split: option.splits fnode.splits)
  have "(\<forall>q c. file_content fs q = Some c \<longrightarrow> q \<noteq> path \<longrightarrow> file_content fs' q = Some c)
      \<and> (\<forall>c. file_content fs path = Some c \<longrightarrow> file_content fs' path \<in> {Some c, Some b})
      \<and> (r = None \<longrightarrow> file_content fs' path = Some b)"
  proof (cases r1)
    case (Some e)
    with a m have "fs' = fs1" "r = Some e" by (simp_all add: atomic_def)
    with keep1 show ?thesis by auto
  next
    case r1: None
    obtain fs2 t where t: "create_temp fault rnd 10000 fs1 (butlast path) = (fs2, t)" by fastforce
    note ct = create_temp_fresh [OF t]
    show ?thesis
    proof (cases t)
      case (Inl e)
      with a m r1 t have "fs' = fs2" "r = Some e" by (simp_all add: atomic_def)
      with keep1 ct Inl show ?thesis by (auto simp: file_content_def)
    next
      case (Inr n)
      with ct path have n: "n \<noteq> []" "n \<noteq> path" "fs_lookup fs1 n = None" "file_content fs2 n = Some []"
          and l2: "\<And>q. q \<noteq> n \<Longrightarrow> fs_lookup fs2 q = fs_lookup fs1 q"
        by (auto simp: file_content_def)
      have keep2: "file_content fs q = Some c \<Longrightarrow> q \<noteq> n \<and> file_content fs2 q = Some c" for q c
        using keep1 [of q c] n(3) l2 [of q] by (cases "q = n") (auto simp: file_content_def)
      obtain fs3 e where s: "and_then (write_temp fault fs2 n b mode)
                       (\<lambda>f. and_then (RenameFile fault f n path)
                       (\<lambda>g. and_then (fs_touch fault g) (fs_touch fault))) = (fs3, e)" by fastforce
      obtain fs4 x where rm: "RemoveFile fault fs3 n = (fs4, x)" by fastforce
      have fin: "fs' = fs4" "r = e" using a m r1 t Inr s rm by (simp_all add: atomic_def)
      have body: "(\<forall>q. q \<noteq> n \<longrightarrow> q \<noteq> path \<longrightarrow> fs_lookup fs3 q = fs_lookup fs2 q)
          \<and> (fs_lookup fs3 path = fs_lookup fs2 path \<or> file_content fs3 path = Some b)
          \<and> (e = None \<longrightarrow> file_content fs3 path = Some b)"
        using s
      proof (rule and_then_cases)
        fix y assume w: "write_temp fault fs2 n b mode = (fs3, Some y)" and e: "e = Some y"
        from write_temp_file(1) [OF w n(4)] n(2) e show ?thesis by (simp add: only_def)
      next
        fix f assume w: "write_temp fault fs2 n b mode = (f, None)"
          and rest: "and_then (RenameFile fault f n path) (\<lambda>g. and_then (fs_touch fault g) (fs_touch fault)) = (fs3, e)"
        note wt = write_temp_file(1) [OF w n(4)] write_temp_file(2) [OF w n(4) refl]
        from rest show ?thesis
        proof (rule and_then_cases)
          fix y assume "RenameFile fault f n path = (fs3, Some y)" "e = Some y"
          with RenameFile_file [of fault f n path fs3 "Some y"] n(1,2) path(1) wt show ?thesis by (auto simp: only_def)
        next
          fix g assume g: "RenameFile fault f n path = (g, None)"
            and sy: "and_then (fs_touch fault g) (fs_touch fault) = (fs3, e)"
          from sy have "fs_lookup fs3 = fs_lookup g"
            by (rule and_then_cases) (auto dest!: fs_touch_lookup)
          with RenameFile_file [OF g n(1) path(1)] wt n(2) show ?thesis by (auto simp: only_def file_content_def)
        qed
      qed
      have l4: "q \<noteq> n \<Longrightarrow> fs_lookup fs4 q = fs_lookup fs3 q" for q using RemoveFile_file [OF rm] by (simp add: only_def)
      have "file_content fs' q = Some c" if "file_content fs q = Some c" "q \<noteq> path" for q c
        using keep2 [OF that(1)] that(2) body l4 [of q] fin by (simp add: file_content_def)
      moreover have "file_content fs' path \<in> {Some c, Some b}" if "file_content fs path = Some c" for c
        using keep2 [OF that] body l4 [of path] n(2) fin by (auto simp: file_content_def)
      moreover have "r = None \<longrightarrow> file_content fs' path = Some b"
        using body l4 [of path] n(2) fin by (simp add: file_content_def)
      ultimately show ?thesis by blast
    qed
  qed
  then show "file_content fs q = Some c \<Longrightarrow> q \<noteq> path \<Longrightarrow> file_content fs' q = Some c"
    "file_content fs path = Some c \<Longrightarrow> file_content fs' path \<in> {Some c, Some b}"
    "r = None \<Longrightarrow> file_content fs' path = Some b" by blast+
qed

section \<open>The contract between the update and its installer\<close>

text \<open>\<open>targ w\<close> is the content of the program that runs, \<open>saved w\<close> the snapshot. No operation leaves the program
  in a third state, and none touches the snapshot but the one that takes it and the one that clears it.\<close>

locale rollback_installer =
  fixes i :: "'w Installer" and targ saved :: "'w \<Rightarrow> string option"
  assumes snapshot_keeps: "in_Snapshot i w = (w', r) \<Longrightarrow> targ w = Some c \<Longrightarrow> targ w' = Some c"
    and snapshot_saves: "in_Snapshot i w = (w', None) \<Longrightarrow> targ w = Some c \<Longrightarrow> saved w' = Some c"
    and apply_keeps: "in_Apply i a w = (w', r) \<Longrightarrow> saved w = Some c \<Longrightarrow> saved w' = Some c"
    and apply_targ: "in_Apply i a w = (w', r) \<Longrightarrow> targ w = Some c \<Longrightarrow> targ w' \<in> {Some c, Some (art_Bytes a)}"
    and apply_sets: "in_Apply i a w = (w', None) \<Longrightarrow> targ w' = Some (art_Bytes a)"
    and restore_keeps: "in_Restore i w = (w', r) \<Longrightarrow> saved w = Some c \<Longrightarrow> saved w' = Some c"
    and restore_targ: "in_Restore i w = (w', r) \<Longrightarrow> targ w = Some b \<Longrightarrow> saved w = Some c \<Longrightarrow> targ w' \<in> {Some b, Some c}"
    and restore_sets: "in_Restore i w = (w', None) \<Longrightarrow> saved w = Some c \<Longrightarrow> targ w' = Some c"
    and commit_keeps: "in_Commit i = Some f \<Longrightarrow> f w = (w', r) \<Longrightarrow> targ w = Some c \<Longrightarrow> targ w' = Some c"

text \<open>Restarting and probing the service leaves the two files alone.\<close>

definition bystander :: "('w \<Rightarrow> string option) \<Rightarrow> ('w \<Rightarrow> string option) \<Rightarrow> 'w call \<Rightarrow> bool" where
  "bystander targ saved f \<longleftrightarrow> (\<forall>w. targ (fst (f w)) = targ w \<and> saved (fst (f w)) = saved w)"

lemma bystanderD: "bystander targ saved f \<Longrightarrow> f w = (w', r) \<Longrightarrow> targ w' = targ w \<and> saved w' = saved w"
  unfolding bystander_def by (metis fst_conv)

lemma run_checks_bystander:
  "\<forall>c. Some c \<in> set cs \<longrightarrow> bystander targ saved c \<Longrightarrow> run_checks cs w = (w', ok) \<Longrightarrow> targ w' = targ w \<and> saved w' = saved w"
proof (induction cs w rule: run_checks.induct)
  case (3 c cs w)
  obtain w1 e where c: "c w = (w1, e)" by fastforce
  have b: "bystander targ saved c" using "3.prems"(1) by simp
  show ?case
  proof (cases e)
    case None
    with "3.prems" c have r: "run_checks cs w1 = (w', ok)" by simp
    have "targ w' = targ w1 \<and> saved w' = saved w1"
      using "3.IH" [OF c [symmetric] None] "3.prems"(1) r by auto
    with bystanderD [OF b c] show ?thesis by simp
  next
    case (Some x)
    with "3.prems" c bystanderD [OF b c] show ?thesis by simp
  qed
qed auto

text \<open>What an update may end in, from the old content of the program.\<close>

definition update_safe :: "string \<Rightarrow> string \<Rightarrow> string option \<Rightarrow> string option \<Rightarrow> UpdateState option \<Rightarrow> update_error option \<Rightarrow> bool" where
  "update_safe old new t s st err \<longleftrightarrow>
     (case st of
        None \<Rightarrow> err \<noteq> None \<and> t = Some old
      | Some Healthy \<Rightarrow> err = None \<and> t = Some new \<and> s = Some old
      | Some RolledBack \<Rightarrow> err \<noteq> None \<and> t = Some old
      | Some RollbackFailed \<Rightarrow> err \<noteq> None \<and> t \<in> {Some old, Some new} \<and> (s = Some old \<or> t = Some old)
      | Some _ \<Rightarrow> False)"

context rollback_installer
begin

lemma restore_restart_safe:
  assumes run: "restoreAndRestart i r cause w = (w', st, err)" and r: "bystander targ saved r"
    and w: "targ w \<in> {Some old, Some new}" "saved w = Some old"
  shows "update_safe old new (targ w') (saved w') st err \<and> st \<noteq> Some Healthy \<and> st \<noteq> None"
proof -
  obtain w1 e1 where re: "in_Restore i w = (w1, e1)" by fastforce
  have w1: "saved w1 = Some old" "targ w1 \<in> {Some old, Some new}" "e1 = None \<Longrightarrow> targ w1 = Some old"
    using restore_keeps [OF re w(2)] restore_targ [OF re _ w(2)] restore_sets [OF _ w(2), of w1] re w(1) by auto
  show ?thesis
  proof (cases e1)
    case (Some e)
    with run re have "w' = w1 \<and> st = Some RollbackFailed \<and> err = Some e" by (simp add: restoreAndRestart_def)
    with w1 show ?thesis by (simp add: update_safe_def)
  next
    case None
    obtain w2 e2 where rs: "r w1 = (w2, e2)" by fastforce
    have w2: "targ w2 = Some old" "saved w2 = Some old" using bystanderD [OF r rs] w1 None by simp_all
    show ?thesis
    proof (cases e2)
      case (Some e)
      with run re None rs have "w' = w2 \<and> st = Some RollbackFailed \<and> err = Some e" by (simp add: restoreAndRestart_def)
      with w2 show ?thesis by (simp add: update_safe_def)
    next
      case e2: None
      show ?thesis
      proof (cases "in_Commit i")
        case c: None
        with run re None rs e2 have "w' = w2 \<and> st = Some RolledBack \<and> err = Some cause" by (simp add: restoreAndRestart_def)
        with w2 show ?thesis by (simp add: update_safe_def)
      next
        case c: (Some f)
        obtain w3 e3 where f: "f w2 = (w3, e3)" by fastforce
        from run re None rs e2 c f have "w' = w3 \<and> st = Some (if e3 = None then RolledBack else RollbackFailed) \<and> err \<noteq> None"
          by (cases e3) (auto simp: restoreAndRestart_def)
        with commit_keeps [OF c f w2(1)] show ?thesis by (simp add: update_safe_def)
      qed
    qed
  qed
qed

lemma apply_after_restart_safe:
  assumes run: "ApplyAfterRestart sha ed a i r cs w = (w', st, err)" and r: "bystander targ saved r"
    and cs: "\<forall>c. Some c \<in> set cs \<longrightarrow> bystander targ saved c" and old: "targ w = Some old"
  shows "update_safe old (art_Bytes a) (targ w') (saved w') st err \<and> (st \<noteq> None \<longrightarrow> VerifyArtifact sha ed a = None)"
proof (cases "VerifyArtifact sha ed a")
  case (Some e)
  with run have "w' = w \<and> st = None \<and> err = Some e" by (simp add: ApplyAfterRestart_def)
  with old show ?thesis by (simp add: update_safe_def)
next
  case ver: None
  obtain w1 e1 where sn: "in_Snapshot i w = (w1, e1)" by fastforce
  note t1 = snapshot_keeps [OF sn old]
  show ?thesis
  proof (cases e1)
    case (Some e)
    with run ver sn t1 show ?thesis by (auto simp: ApplyAfterRestart_def update_safe_def)
  next
    case e1: None
    have s1: "saved w1 = Some old" using snapshot_saves old sn e1 by simp
    obtain w2 e2 where ap: "in_Apply i a w1 = (w2, e2)" by fastforce
    have w2: "targ w2 \<in> {Some old, Some (art_Bytes a)}" "saved w2 = Some old" "e2 = None \<Longrightarrow> targ w2 = Some (art_Bytes a)"
      using apply_targ [OF ap t1] apply_keeps [OF ap s1] apply_sets [of a w1 w2] ap by auto
    show ?thesis
    proof (cases e2)
      case (Some e)
      with run ver sn e1 ap have "restoreAndRestart i r e w2 = (w', st, err)" by (simp add: ApplyAfterRestart_def)
      from restore_restart_safe [OF this r w2(1,2)] ver show ?thesis by simp
    next
      case e2: None
      obtain w3 e3 where rs: "r w2 = (w3, e3)" by fastforce
      have w3: "targ w3 = Some (art_Bytes a)" "saved w3 = Some old" using bystanderD [OF r rs] w2 e2 by simp_all
      show ?thesis
      proof (cases e3)
        case (Some e)
        with run ver sn e1 ap e2 rs have "restoreAndRestart i r ErrHealth w3 = (w', st, err)" by (simp add: ApplyAfterRestart_def)
        from restore_restart_safe [OF this r _ w3(2)] w3(1) ver show ?thesis by simp
      next
        case e3: None
        obtain w4 ok where ch: "run_checks cs w3 = (w4, ok)" by fastforce
        have w4: "targ w4 = Some (art_Bytes a)" "saved w4 = Some old" using run_checks_bystander [OF cs ch] w3 by simp_all
        show ?thesis
        proof (cases ok)
          case True
          with run ver sn e1 ap e2 rs e3 ch have "w' = w4 \<and> st = Some Healthy \<and> err = None" by (simp add: ApplyAfterRestart_def)
          with w4 ver show ?thesis by (simp add: update_safe_def)
        next
          case False
          with run ver sn e1 ap e2 rs e3 ch have "restoreAndRestart i r ErrHealth w4 = (w', st, err)" by (simp add: ApplyAfterRestart_def)
          from restore_restart_safe [OF this r _ w4(2)] w4(1) ver show ?thesis by simp
        qed
      qed
    qed
  qed
qed

end

section \<open>The file installer keeps the contract\<close>

text \<open>The program and the snapshot are different files, neither below the other, and the program is not named
  like a temporary file.\<close>

definition installer_paths :: "fpath \<Rightarrow> fpath \<Rightarrow> bool" where
  "installer_paths prog rdir \<longleftrightarrow>
     prog \<noteq> [] \<and> \<not> HasPrefix (last prog) temp_prefix
     \<and> \<not> prefix prog (rdir @ [''previous'']) \<and> \<not> prefix (rdir @ [''previous'']) prog"

abbreviation program_of :: "fpath \<Rightarrow> FS \<times> 'e \<Rightarrow> string option" where
  "program_of prog w \<equiv> file_content (fst w) prog"

abbreviation snapshot_of :: "fpath \<Rightarrow> FS \<times> 'e \<Rightarrow> string option" where
  "snapshot_of rdir w \<equiv> file_content (fst w) (rdir @ [''previous''])"

lemma on_files_iff: "on_files f w = (w', r) \<longleftrightarrow> f (fst w) = (fst w', r) \<and> snd w' = snd w"
  by (cases w; cases w') (auto simp: on_files_def split: prod.splits)

lemma Lstat_content: "Lstat fault fs p = (fs', r) \<Longrightarrow> file_content fs' = file_content fs"
  by (auto simp: Lstat_def file_content_def)

lemma ReadFile_content:
  "ReadFile fault fs p = (fs', r) \<Longrightarrow> file_content fs' = file_content fs \<and> (\<forall>b. r = Inr b \<longrightarrow> file_content fs p = Some b)"
  by (auto simp: ReadFile_def file_content_def split: if_splits option.splits fnode.splits)

lemma copy_file_cases:
  assumes "copy_file fault rnd fs src dst mode = (fs', r)"
  obtains "r \<noteq> None" "file_content fs' = file_content fs"
  | b fs2 e where "file_content fs src = Some b" "file_content fs2 = file_content fs"
      "atomic fault rnd fs2 dst b mode = (fs', e)" "r = map_option UpdateFS e"
proof -
  obtain fs1 l where l: "Lstat fault fs src = (fs1, l)" by fastforce
  note lc = Lstat_content [OF l]
  obtain fs2 b where rd: "ReadFile fault fs1 src = (fs2, b)" by fastforce
  note rc = ReadFile_content [OF rd]
  show ?thesis
  proof (cases "\<exists>n c. l = Inr n \<and> is_file (Some n) \<and> b = Inr c")
    case True
    then obtain n c where "l = Inr n" "is_file (Some n)" "b = Inr c" by blast
    moreover obtain fs3 e where "atomic fault rnd fs2 dst c mode = (fs3, e)" by fastforce
    ultimately show ?thesis using assms l rd lc rc
      by (intro that(2) [of c fs2 e]) (auto simp: copy_file_def)
  next
    case False
    with assms l rd lc rc show ?thesis
      by (intro that(1)) (auto simp: copy_file_def split: sum.splits if_splits)
  qed
qed

lemma copy_file_content:
  assumes c: "copy_file fault rnd fs src dst mode = (fs', r)" and dst: "dst \<noteq> []" "\<not> HasPrefix (last dst) temp_prefix"
  shows "file_content fs q = Some x \<Longrightarrow> q \<noteq> dst \<Longrightarrow> file_content fs' q = Some x"
    and "file_content fs dst = Some x \<Longrightarrow> file_content fs src = Some y \<Longrightarrow> file_content fs' dst \<in> {Some x, Some y}"
    and "r = None \<Longrightarrow> file_content fs' dst = file_content fs src"
proof -
  from c have "(\<forall>q x. file_content fs q = Some x \<longrightarrow> q \<noteq> dst \<longrightarrow> file_content fs' q = Some x)
    \<and> (\<forall>x y. file_content fs dst = Some x \<longrightarrow> file_content fs src = Some y \<longrightarrow> file_content fs' dst \<in> {Some x, Some y})
    \<and> (r = None \<longrightarrow> file_content fs' dst = file_content fs src)"
  proof (cases rule: copy_file_cases)
    case (2 b fs2 e)
    then have "r = None \<longleftrightarrow> e = None" by simp
    with 2 atomic_file [OF 2(3) dst] show ?thesis by auto
  qed auto
  then show "file_content fs q = Some x \<Longrightarrow> q \<noteq> dst \<Longrightarrow> file_content fs' q = Some x"
    "file_content fs dst = Some x \<Longrightarrow> file_content fs src = Some y \<Longrightarrow> file_content fs' dst \<in> {Some x, Some y}"
    "r = None \<Longrightarrow> file_content fs' dst = file_content fs src" by blast+
qed

lemma commit_file_content:
  assumes "commit_file fault fs rdir = (fs', r)" "file_content fs q = Some c" "q \<noteq> rdir @ [''previous'']" "q \<noteq> rdir"
  shows "file_content fs' q = Some c"
proof -
  obtain fs1 l where l: "Lstat fault fs (rdir @ [''previous'']) = (fs1, l)" by fastforce
  obtain fs2 e where e: "RemoveFile fault fs1 (rdir @ [''previous'']) = (fs2, e)" by fastforce
  obtain fs3 x where x: "RemoveFile fault fs2 rdir = (fs3, x)" by fastforce
  have "fs' = fs1 \<or> fs' = fs2 \<or> fs' = fs3"
    using assms(1) l e x by (auto simp: commit_file_def split: sum.splits if_splits option.splits fs_error.splits)
  moreover have "file_content fs1 q = Some c" using Lstat_content [OF l] assms(2) by simp
  moreover have "file_content fs2 q = file_content fs1 q" "file_content fs3 q = file_content fs2 q"
    using RemoveFile_file [OF e] RemoveFile_file [OF x] assms(3,4) by (simp_all add: only_def file_content_def)
  ultimately show ?thesis by auto
qed

locale file_paths =
  fixes fault :: "nat \<Rightarrow> bool" and rnd :: "nat \<Rightarrow> string" and prog rdir :: fpath
  assumes paths: "installer_paths prog rdir"

lemma installer_pathsD:
  assumes "installer_paths prog rdir"
  shows "prog \<noteq> []" "\<not> HasPrefix (last prog) temp_prefix" "prog \<noteq> rdir @ [''previous'']" "prog \<noteq> rdir"
  using assms by (auto simp: installer_paths_def)

sublocale file_paths \<subseteq> files: rollback_installer "FileInstaller fault rnd prog rdir :: (FS \<times> 'e) Installer"
    "program_of prog" "snapshot_of rdir"
proof -
  note p = installer_pathsD [OF paths]
  have dst: "rdir @ [''previous''] \<noteq> []" "\<not> HasPrefix (last (rdir @ [''previous''])) temp_prefix"
    by (simp_all add: HasPrefix_def)
  note simps = FileInstaller_def on_files_iff
  let ?I = "FileInstaller fault rnd prog rdir :: (FS \<times> 'e) Installer"
  show "rollback_installer ?I (program_of prog) (snapshot_of rdir)"
  proof
    fix w w' :: "FS \<times> 'e" and r c
    show "program_of prog w' = Some c" if "in_Snapshot ?I w = (w', r)" "program_of prog w = Some c"
      using that copy_file_content(1) [OF _ dst] p(3) by (fastforce simp: simps)
    show "snapshot_of rdir w' = Some c" if "in_Snapshot ?I w = (w', None)" "program_of prog w = Some c"
      using that copy_file_content(3) [OF _ dst] by (fastforce simp: simps)
  next
    fix w w' :: "FS \<times> 'e" and r c a
    show "snapshot_of rdir w' = Some c" if "in_Apply ?I a w = (w', r)" "snapshot_of rdir w = Some c"
      using that atomic_file(1) [OF _ p(1,2)] p(3) by (fastforce simp: simps split: prod.splits)
    show "program_of prog w' \<in> {Some c, Some (art_Bytes a)}" if "in_Apply ?I a w = (w', r)" "program_of prog w = Some c"
      using that atomic_file(2) [OF _ p(1,2)] by (fastforce simp: simps split: prod.splits)
    show "program_of prog w' = Some (art_Bytes a)" if "in_Apply ?I a w = (w', None)"
      using that atomic_file(3) [OF _ p(1,2)] by (fastforce simp: simps split: prod.splits)
  next
    fix w w' :: "FS \<times> 'e" and r b c
    show "snapshot_of rdir w' = Some c" if "in_Restore ?I w = (w', r)" "snapshot_of rdir w = Some c"
      using that copy_file_content(1) [OF _ p(1,2)] p(3) by (fastforce simp: simps)
    show "program_of prog w' \<in> {Some b, Some c}" if "in_Restore ?I w = (w', r)" "program_of prog w = Some b" "snapshot_of rdir w = Some c"
      using that copy_file_content(2) [OF _ p(1,2)] by (fastforce simp: simps)
    show "program_of prog w' = Some c" if "in_Restore ?I w = (w', None)" "snapshot_of rdir w = Some c"
      using that copy_file_content(3) [OF _ p(1,2)] by (fastforce simp: simps)
  next
    fix f and w w' :: "FS \<times> 'e" and r c
    show "program_of prog w' = Some c" if "in_Commit ?I = Some f" "f w = (w', r)" "program_of prog w = Some c"
      using that commit_file_content [OF _ _ p(3,4)] by (fastforce simp: simps)
  qed
qed

context file_paths
begin

lemmas files_update_safe = files.apply_after_restart_safe

end

text \<open>The paths the update command uses by default.\<close>

abbreviation default_prog :: fpath where "default_prog \<equiv> [''usr'', ''local'', ''bin'', ''tinkercloud'']"
abbreviation default_rollback :: fpath where "default_rollback \<equiv> [''var'', ''lib'', ''tinkercloud'', ''update-rollback'']"

interpretation default_files: file_paths fault rnd default_prog default_rollback for fault rnd
  by unfold_locales (simp add: installer_paths_def HasPrefix_def)

section \<open>The update over files\<close>

text \<open>C24. A failed update never loses the running program: whatever calls of the file system fail, and whatever
  the restart and the health checks answer (as long as they leave the two files alone), an update over the
  file installer ends healthy with the new program in place, the old one saved and the artifact verified, or
  rolled back or refused with the old program in place, or it reports a failed rollback, and then the program
  is one of the two and the old one is in place or still saved. The file is never a mixture.\<close>

theorem update_keeps_program:
  fixes w :: "FS \<times> 'e"
  assumes "installer_paths prog rdir" "program_of prog w = Some old"
    and "bystander (program_of prog) (snapshot_of rdir) rs"
    and "\<forall>c. Some c \<in> set cs \<longrightarrow> bystander (program_of prog) (snapshot_of rdir) c"
    and "ApplyAfterRestart sha ed a (FileInstaller fault rnd prog rdir) rs cs w = (w', st, err)"
  shows "update_safe old (art_Bytes a) (program_of prog w') (snapshot_of rdir w') st err
    \<and> (st \<noteq> None \<longrightarrow> VerifyArtifact sha ed a = None)"
  by (rule file_paths.files_update_safe [OF file_paths.intro [OF assms(1)] assms(5,3,4,2)])

definition demo_disk :: "FS \<times> nat" where
  "demo_disk = (\<lparr>fs_nodes = [([''usr''], FDir mode755), ([''usr'', ''local''], FDir mode755), ([''usr'', ''local'', ''bin''], FDir mode755),
      (default_prog, FFile mode755 ''old''), ([''var''], FDir mode755)], fs_calls = 0\<rparr>, 0)"

definition demo_artifact :: Artifact where
  "demo_artifact = \<lparr>art_Version = ''1.2.3'', art_API = ''1'', art_Schema = ''1'', art_Bytes = ''new'', art_Signature = ''s'', art_Digest = [7]\<rparr>"

text \<open>A service that starts, and a probe that fails.\<close>

definition demo_update :: "bool \<Rightarrow> (nat \<Rightarrow> bool) \<Rightarrow> FS \<times> nat \<Rightarrow> (FS \<times> nat) outcome" where
  "demo_update healthy fault =
     ApplyAfterRestart (\<lambda>b. [7]) (\<lambda>m s. s = ''s'') demo_artifact (FileInstaller fault (\<lambda>n. []) default_prog default_rollback)
       (\<lambda>w. ((fst w, Suc (snd w)), None)) [Some (\<lambda>w. (w, if healthy then None else Some ServiceDown))]"

definition demo_summary :: "(FS \<times> nat) outcome \<Rightarrow> string option \<times> string option \<times> nat \<times> UpdateState option" where
  "demo_summary out = (case out of (w, st, err) \<Rightarrow> (program_of default_prog w, snapshot_of default_rollback w, snd w, st))"

text \<open>A concrete instance: the probe fails and so does one file call of the restore.\<close>

theorem update_keeps_program_witness:
  "\<exists>w' st err. demo_update False (\<lambda>n. n = 25) demo_disk = (w', st, err) \<and> st = Some RollbackFailed
     \<and> update_safe ''old'' ''new'' (program_of default_prog w') (snapshot_of default_rollback w') st err
     \<and> snapshot_of default_rollback w' = Some ''old''"
proof -
  obtain w' st err where run: "demo_update False (\<lambda>n. n = 25) demo_disk = (w', st, err)" by (metis prod_cases3)
  have sum: "demo_summary (demo_update False (\<lambda>n. n = 25) demo_disk) = (Some ''new'', Some ''old'', 1, Some RollbackFailed)"
    by code_simp
  have old: "program_of default_prog demo_disk = Some ''old''" by code_simp
  have paths: "installer_paths default_prog default_rollback" by code_simp
  have by1: "bystander (program_of default_prog) (snapshot_of default_rollback) (\<lambda>w. ((fst w, Suc (snd w)), None))"
    by (simp add: bystander_def)
  have by2: "\<forall>c. Some c \<in> set [Some (\<lambda>w. (w, if False then None else Some ServiceDown))]
      \<longrightarrow> bystander (program_of default_prog) (snapshot_of default_rollback) c"
    by (simp add: bystander_def)
  have "update_safe ''old'' ''new'' (program_of default_prog w') (snapshot_of default_rollback w') st err"
    using update_keeps_program [OF paths old by1 by2 run [unfolded demo_update_def]] by (simp add: demo_artifact_def)
  with run sum show ?thesis by (simp add: demo_summary_def)
qed

text \<open>Two ways in which the old program is lost all the same. A second update after a failed rollback snapshots
  the new program over the saved old one, and then reports that it rolled back; and when the snapshot was removed but its directory cannot be, the
  restore at the end of the update command has nothing to restore.\<close>

lemma update_retry_overwrites_snapshot:
  "(case demo_update False (\<lambda>n. n = 25) demo_disk of (w, _) \<Rightarrow>
      program_of default_prog w = Some ''new'' \<and> snapshot_of default_rollback w = Some ''old''
      \<and> demo_summary (demo_update False (\<lambda>n. False) w) = (Some ''new'', None, 3, Some RolledBack))"
  by code_simp

definition demo_finish :: "(nat \<Rightarrow> bool) \<Rightarrow> (FS \<times> nat) \<times> bool" where
  "demo_finish fault =
     finish_update (FileInstaller fault (\<lambda>n. []) default_prog default_rollback) (\<lambda>w. ((fst w, Suc (snd w)), None))
       (demo_update True fault demo_disk)"

lemma finish_update_cannot_restore:
  "(case demo_finish (\<lambda>n. n = 25) of (w, ok) \<Rightarrow> \<not> ok \<and> program_of default_prog w = Some ''new'' \<and> snapshot_of default_rollback w = None)"
  by code_simp

end
