(* ===== verification/Update_Release.thy ===== *)
theory Update_Release
  imports Update_Install
begin

text \<open>
  The signed metadata of an artifact (\<open>internal/update/metadata.go\<close>) and the signed statement about a complete
  release (\<open>release_manifest.go\<close>). Strict decoding of one JSON value with nothing after it and base64 are
  parameters; the regular expressions of file names and digests are written out.
\<close>

section \<open>Metadata\<close>

record Metadata =
  md_Version :: string
  md_API :: string
  md_Schema :: string
  md_SHA256 :: string

datatype metadata_error = ErrMetadata

text \<open>\<open>hex.DecodeString\<close>: both cases of the letters, an even number of digits.\<close>

definition hex_value :: "char \<Rightarrow> nat option" where
  "hex_value c =
     (let n = of_char c in
      if 48 \<le> n \<and> n \<le> 57 then Some (n - 48)
      else if 97 \<le> n \<and> n \<le> 102 then Some (n - 87)
      else if 65 \<le> n \<and> n \<le> 70 then Some (n - 55)
      else None)"

fun hex_decode :: "string \<Rightarrow> nat list option" where
  "hex_decode [] = Some []"
| "hex_decode [c] = None"
| "hex_decode (c # d # s) =
     (case (hex_value c, hex_value d, hex_decode s) of
        (Some x, Some y, Some bs) \<Rightarrow> Some ((16 * x + y) # bs)
      | _ \<Rightarrow> None)"

text \<open>\<open>decode b\<close> is \<open>None\<close> unless \<open>b\<close> is exactly one JSON object with known fields.\<close>

definition ParseMetadata :: "(string \<Rightarrow> Metadata option) \<Rightarrow> string \<Rightarrow> metadata_error + Metadata" where
  "ParseMetadata decode b =
     (if b = [] \<or> length b > 4096 then Inl ErrMetadata
      else case decode b of
             None \<Rightarrow> Inl ErrMetadata
           | Some m \<Rightarrow>
               if md_Version m = [] \<or> md_API m = [] \<or> md_Schema m = [] \<or> length (md_Version m) > 128
                  \<or> length (md_API m) > 128 \<or> length (md_Schema m) > 128 \<or> length (md_SHA256 m) \<noteq> 64
               then Inl ErrMetadata
               else if hex_decode (md_SHA256 m) = None \<or> md_SHA256 m \<noteq> map lower_char (md_SHA256 m) then Inl ErrMetadata
               else Inr m)"

definition ArtifactFrom :: "(string \<Rightarrow> Metadata option) \<Rightarrow> (string \<Rightarrow> string option) \<Rightarrow> string \<Rightarrow> string \<Rightarrow> string
      \<Rightarrow> metadata_error + Artifact" where
  "ArtifactFrom decode base64 binary metadata signature =
     (case ParseMetadata decode metadata of
        Inl e \<Rightarrow> Inl e
      | Inr m \<Rightarrow>
          (case base64 signature of
             None \<Rightarrow> Inl ErrMetadata
           | Some sig \<Rightarrow>
               if length sig \<noteq> 64 then Inl ErrMetadata
               else case hex_decode (md_SHA256 m) of
                      None \<Rightarrow> Inl ErrMetadata
                    | Some digest \<Rightarrow>
                        Inr \<lparr>art_Version = md_Version m, art_API = md_API m, art_Schema = md_Schema m, art_Bytes = binary,
                             art_Signature = sig, art_Digest = take 32 (digest @ replicate 32 0)\<rparr>))"

section \<open>The release statement\<close>

record ReleaseManifestDoc =
  rmd_Schema :: string
  rmd_Version :: string
  rmd_Compatibility :: CompatMatrix
  rmd_Files :: "(string, string) gomap"

definition releaseFileName :: "string \<Rightarrow> bool" where
  "releaseFileName s \<longleftrightarrow> s \<noteq> [] \<and> list_all (\<lambda>c. is_digit c \<or> is_lower c \<or> is_upper c
     \<or> c \<in> {CHR ''-'', CHR ''.'', CHR ''_'', CHR ''+''}) s"

definition releaseDigest :: "string \<Rightarrow> bool" where
  "releaseDigest s \<longleftrightarrow> length s = 64 \<and> list_all is_hex s"

definition server_file :: string where "server_file = ''tinkercloud-linux-amd64''"

definition file_digest :: "(string, string) gomap \<Rightarrow> string \<Rightarrow> string" where
  "file_digest m name = (case map_of m name of None \<Rightarrow> [] | Some d \<Rightarrow> d)"

definition VerifyReleaseManifest ::
  "(string \<Rightarrow> nat list) \<Rightarrow> (string \<Rightarrow> string \<Rightarrow> bool) \<Rightarrow> (string \<Rightarrow> Metadata option) \<Rightarrow> (string \<Rightarrow> string option)
   \<Rightarrow> (string \<Rightarrow> ReleaseManifestDoc option) \<Rightarrow> string \<Rightarrow> string \<Rightarrow> string \<Rightarrow> Artifact \<Rightarrow> metadata_error + CompatMatrix" where
  "VerifyReleaseManifest sha ed decode base64 decode_manifest raw metadata signature server =
     (case ArtifactFrom decode base64 raw metadata signature of
        Inl _ \<Rightarrow> Inl ErrMetadata
      | Inr sgd \<Rightarrow>
          if VerifyArtifact sha ed sgd \<noteq> None \<or> \<not> CompatibleArtifact (art_Version sgd) (art_API sgd) (art_Schema sgd)
          then Inl ErrMetadata
          else case decode_manifest raw of
                 None \<Rightarrow> Inl ErrMetadata
               | Some m \<Rightarrow>
                   if rmd_Schema m \<noteq> ReleaseManifestSchema \<or> rmd_Version m \<noteq> art_Version server
                      \<or> rmd_Compatibility m \<noteq> CurrentMatrix (rmd_Version m) \<or> rmd_Files m = []
                   then Inl ErrMetadata
                   else if \<not> list_all (\<lambda>(name, d). releaseFileName name \<and> releaseDigest d) (rmd_Files m)
                   then Inl ErrMetadata
                   else if file_digest (rmd_Files m) server_file \<noteq> hex_encode (art_Digest server)
                   then Inl ErrMetadata
                   else Inr (rmd_Compatibility m))"

section \<open>Hexadecimal digests\<close>

lemma hex_value_digit [simp]: "hex_value (hex_digit n) = Some (n mod 16)"
proof -
  have "list_all (\<lambda>k. hex_value (''0123456789abcdef'' ! k) = Some k) [0..<16]" by code_simp
  then show ?thesis unfolding hex_digit_def list_all_iff by simp
qed

lemma hex_decode_encode: "list_all (\<lambda>b. b < 256) bs \<Longrightarrow> hex_decode (hex_encode bs) = Some bs"
proof (induction bs)
  case (Cons b bs)
  then have "b div 16 < 16" by (simp add: div_less_iff_less_mult less_mult_imp_div_less)
  with Cons show ?case by simp
qed simp

lemma hex_encode_inj:
  "list_all (\<lambda>b. b < 256) xs \<Longrightarrow> list_all (\<lambda>b. b < 256) ys \<Longrightarrow> hex_encode xs = hex_encode ys \<Longrightarrow> xs = ys"
  by (metis hex_decode_encode option.inject)

lemma newline_not_hex: "newline \<notin> set (hex_encode bs)"
  using hex_encode_hex [of bs] by (auto simp: list_all_iff is_hex_def is_digit_def)

section \<open>What a signature binds\<close>

lemma length_Split: "length (Split d s) = Suc (count_list s d)"
  by (induction s) (auto split: list.splits)

lemma Split_append_cons: "Split d (s @ d # t) = Split d s @ Split d t"
  by (induction s) (auto split: list.splits)

lemma Split_signed: "Split newline (signed_message a) =
    Split newline (art_Version a) @ Split newline (art_API a) @ Split newline (art_Schema a) @ [hex_encode (art_Digest a)]"
  by (simp add: signed_message_def Split_append_cons Split_atom [OF newline_not_hex])

lemma Split_length_1: "length (Split d s) = 1 \<Longrightarrow> Split d s = [s]"
  by (metis Join_Split Join.simps(2) One_nat_def length_0_conv length_Suc_conv)

lemma version_no_newline: "ParseVersion v = Inr x \<Longrightarrow> newline \<notin> set v"
proof
  assume "ParseVersion v = Inr x" "newline \<in> set v"
  then have v: "v = version_string x" by (simp add: ParseVersion_iff)
  have "list_all (\<lambda>c. is_digit c \<or> c = CHR ''.'') (version_string x)"
    using format_nat_digits by (auto simp: version_string_def list_all_iff)
  with v \<open>newline \<in> set v\<close> show False by (auto simp: list_all_iff is_digit_def)
qed

text \<open>A signature over metadata pins every field: if the version, API and schema of an artifact are compatible,
  any other artifact whose signed text is the same has the same version, API, schema and digest, although the
  text joins free-form fields by line breaks.\<close>

theorem signature_binds_fields:
  assumes "CompatibleArtifact (art_Version a) (art_API a) (art_Schema a)"
    and "signed_message a = signed_message b"
    and "list_all (\<lambda>x. x < 256) (art_Digest a)" "list_all (\<lambda>x. x < 256) (art_Digest b)"
  shows "art_Version b = art_Version a \<and> art_API b = art_API a \<and> art_Schema b = art_Schema a \<and> art_Digest b = art_Digest a"
proof -
  have atoms: "Split newline (art_Version a) = [art_Version a]" "Split newline (art_API a) = [art_API a]"
      "Split newline (art_Schema a) = [art_Schema a]"
    using assms(1) version_no_newline
    by (auto simp: CompatibleArtifact_def compat_constants Split_atom split: sum.splits)
  have eq: "Split newline (art_Version b) @ Split newline (art_API b) @ Split newline (art_Schema b) @ [hex_encode (art_Digest b)]
      = [art_Version a, art_API a, art_Schema a, hex_encode (art_Digest a)]"
    using Split_signed [of a] Split_signed [of b] assms(2) atoms by simp
  have pos: "0 < length (Split newline s)" for s by simp
  have "length (Split newline (art_Version b)) + length (Split newline (art_API b)) + length (Split newline (art_Schema b)) = 3"
    using arg_cong [OF eq, of length] by simp
  with pos [of "art_Version b"] pos [of "art_API b"] pos [of "art_Schema b"]
  have "length (Split newline (art_Version b)) = 1" "length (Split newline (art_API b)) = 1" "length (Split newline (art_Schema b)) = 1"
    by linarith+
  then have "Split newline (art_Version b) = [art_Version b]" "Split newline (art_API b) = [art_API b]"
      "Split newline (art_Schema b) = [art_Schema b]" by (auto intro: Split_length_1)
  with eq hex_encode_inj [OF assms(4,3)] show ?thesis by simp
qed

theorem signature_binds_fields_witness:
  "signed_message (demo_artifact\<lparr>art_Bytes := ''other''\<rparr>) = signed_message demo_artifact
   \<and> art_Version (demo_artifact\<lparr>art_Bytes := ''other''\<rparr>) = ''1.2.3''"
proof -
  have c: "CompatibleArtifact (art_Version demo_artifact) (art_API demo_artifact) (art_Schema demo_artifact)" by code_simp
  have s: "signed_message demo_artifact = signed_message (demo_artifact\<lparr>art_Bytes := ''other''\<rparr>)"
    by (simp add: signed_message_def)
  have d: "list_all (\<lambda>x. x < 256) (art_Digest demo_artifact)"
    "list_all (\<lambda>x. x < 256) (art_Digest (demo_artifact\<lparr>art_Bytes := ''other''\<rparr>))" by (simp_all add: demo_artifact_def)
  from signature_binds_fields [OF c s d] s show ?thesis by (simp add: demo_artifact_def)
qed

text \<open>An accepted release statement is authentic and pins the server binary: its bytes are the ones signed, it
  was signed by the pinned key for a compatible version, its matrix is that of the server's version, it lists the
  digest of the server binary, and the same statement is accepted for no server of another version or digest.\<close>

theorem release_statement_binds:
  assumes ok: "VerifyReleaseManifest sha ed decode base64 decode_manifest raw metadata signature server = Inr m"
    and len: "length (art_Digest server) = 32" "list_all (\<lambda>x. x < 256) (art_Digest server)"
  shows "(\<exists>v. CurrentMatrix (art_Version server) = m
      \<and> (\<exists>sgd. ParseVersion (art_Version sgd) = Inr v \<and> art_Bytes sgd = raw \<and> sha raw = art_Digest sgd
           \<and> ed (signed_message sgd) (art_Signature sgd)))
    \<and> (\<exists>doc. decode_manifest raw = Some doc \<and> map_of (rmd_Files doc) server_file = Some (hex_encode (art_Digest server)))
    \<and> (\<forall>other m'. VerifyReleaseManifest sha ed decode base64 decode_manifest raw metadata signature other = Inr m'
         \<longrightarrow> list_all (\<lambda>x. x < 256) (art_Digest other)
         \<longrightarrow> art_Version other = art_Version server \<and> art_Digest other = art_Digest server)"
proof -
  have parts: "\<exists>sgd doc. ArtifactFrom decode base64 raw metadata signature = Inr sgd \<and> VerifyArtifact sha ed sgd = None
      \<and> CompatibleArtifact (art_Version sgd) (art_API sgd) (art_Schema sgd) \<and> decode_manifest raw = Some doc
      \<and> rmd_Version doc = art_Version s \<and> n = CurrentMatrix (art_Version s)
      \<and> file_digest (rmd_Files doc) server_file = hex_encode (art_Digest s)"
    if "VerifyReleaseManifest sha ed decode base64 decode_manifest raw metadata signature s = Inr n" for s n
    using that by (auto simp: VerifyReleaseManifest_def split: sum.splits if_splits option.splits)
  from parts [OF ok] obtain sgd doc where p: "ArtifactFrom decode base64 raw metadata signature = Inr sgd"
      "VerifyArtifact sha ed sgd = None" "CompatibleArtifact (art_Version sgd) (art_API sgd) (art_Schema sgd)"
      "decode_manifest raw = Some doc" "rmd_Version doc = art_Version server" "m = CurrentMatrix (art_Version server)"
      "file_digest (rmd_Files doc) server_file = hex_encode (art_Digest server)" by blast
  have "art_Bytes sgd = raw"
    using p(1) by (auto simp: ArtifactFrom_def split: sum.splits option.splits if_splits)
  moreover have "sha (art_Bytes sgd) = art_Digest sgd" "ed (signed_message sgd) (art_Signature sgd)"
    using p(2) by (auto simp: VerifyArtifact_def split: if_splits)
  moreover obtain v where "ParseVersion (art_Version sgd) = Inr v"
    using p(3) by (auto simp: CompatibleArtifact_def split: sum.splits)
  moreover have "map_of (rmd_Files doc) server_file = Some (hex_encode (art_Digest server))"
  proof -
    have "hex_encode (art_Digest server) \<noteq> []"
      using len(1) length_hex_encode [of "art_Digest server"] by (metis list.size(3) mult_eq_0_iff zero_neq_numeral)
    with p(7) show ?thesis by (auto simp: file_digest_def split: option.splits)
  qed
  moreover have "art_Version other = art_Version server \<and> art_Digest other = art_Digest server"
    if "VerifyReleaseManifest sha ed decode base64 decode_manifest raw metadata signature other = Inr m'"
      "list_all (\<lambda>x. x < 256) (art_Digest other)" for other m'
    using parts [OF that(1)] p hex_encode_inj [OF that(2) len(2)] by auto
  ultimately show ?thesis using p by blast
qed

text \<open>A concrete instance.\<close>

definition demo_metadata :: Metadata where
  "demo_metadata = \<lparr>md_Version = ''1.2.3'', md_API = ''1'', md_Schema = ''1'', md_SHA256 = concat (replicate 32 ''07'')\<rparr>"

definition demo_server :: Artifact where
  "demo_server = \<lparr>art_Version = ''1.2.3'', art_API = ''1'', art_Schema = ''1'', art_Bytes = ''new'', art_Signature = [], art_Digest = replicate 32 9\<rparr>"

definition demo_doc :: ReleaseManifestDoc where
  "demo_doc = \<lparr>rmd_Schema = ''2'', rmd_Version = ''1.2.3'', rmd_Compatibility = CurrentMatrix ''1.2.3'',
     rmd_Files = [(server_file, concat (replicate 32 ''09''))]\<rparr>"

definition demo_verify :: "Artifact \<Rightarrow> metadata_error + CompatMatrix" where
  "demo_verify = VerifyReleaseManifest (\<lambda>b. replicate 32 7) (\<lambda>m s. length s = 64) (\<lambda>b. Some demo_metadata)
     (\<lambda>s. Some (replicate 64 CHR ''s'')) (\<lambda>b. Some demo_doc) ''manifest'' ''metadata'' ''signature''"

theorem release_statement_binds_witness:
  "demo_verify demo_server = Inr (CurrentMatrix ''1.2.3'')
   \<and> map_of (rmd_Files demo_doc) server_file = Some (hex_encode (art_Digest demo_server))"
proof -
  have ok: "demo_verify demo_server = Inr (CurrentMatrix ''1.2.3'')" by code_simp
  have len: "length (art_Digest demo_server) = 32" "list_all (\<lambda>x. x < 256) (art_Digest demo_server)"
    by (simp_all add: demo_server_def list_all_iff)
  from release_statement_binds [OF ok [unfolded demo_verify_def] len] ok show ?thesis by auto
qed

end
