(* ===== verification/Blob_Service.thy ===== *)
theory Blob_Service
  imports Sessions_Auth
begin

text \<open>
  The blob capability, \<open>internal/blob/blob.go\<close>: validation of names and media types, the admission of uploads
  (a window of one minute per app and a number of concurrent uploads) and the service over its repository.
  The Unicode category Cf and \<open>mime.ParseMediaType\<close> are parameters. The admission and the release of an upload
  are two steps, so uploads interleave; the invariant and the bounds are proved over all sequences of steps.
\<close>

section \<open>Data and validation\<close>

datatype blob_error =
    BlobCapabilityUnavailable | BlobInvalidMetadata | BlobInvalidID | BlobInvalidList | BlobQuotaExceeded
  | BlobRateLimited | BlobUnavailable | BlobUnauthorized | BlobEntropy | BlobNotExist | BlobOther

record BlobLimits =
  bl_BlobBytes :: int
  bl_BlobsPerApp :: int
  bl_TotalBytesPerApp :: int
  bl_ListLimit :: int
  bl_UploadsPerMinute :: int
  bl_ConcurrentUploads :: int
  bl_UploadDuration :: duration

definition BlobDefaultLimits :: BlobLimits where
  "BlobDefaultLimits = \<lparr>bl_BlobBytes = 25000000, bl_BlobsPerApp = 1000, bl_TotalBytesPerApp = 250000000,
     bl_ListLimit = 100, bl_UploadsPerMinute = 20, bl_ConcurrentUploads = 2, bl_UploadDuration = 2 * minute\<rparr>"

record BlobMetadata =
  bm_ID :: string
  bm_Name :: string
  bm_Size :: int
  bm_ContentType :: string
  bm_CreatedAt :: time

record BlobListResult =
  br_Blobs :: "BlobMetadata list"
  br_NextCursor :: string

text \<open>\<open>'d\<close> is what is read from or written to a client.\<close>

record ('r, 'd) BlobRepository =
  bp_Upload :: "'r \<Rightarrow> string \<Rightarrow> string \<Rightarrow> BlobMetadata \<Rightarrow> 'd \<Rightarrow> BlobLimits \<Rightarrow> 'r \<times> (blob_error + BlobMetadata)"
  bp_Open :: "'r \<Rightarrow> string \<Rightarrow> string \<Rightarrow> blob_error + 'd \<times> BlobMetadata"
  bp_List :: "'r \<Rightarrow> string \<Rightarrow> string \<Rightarrow> int \<Rightarrow> blob_error + BlobListResult"
  bp_Delete :: "'r \<Rightarrow> string \<Rightarrow> string \<Rightarrow> 'r \<times> (blob_error + bool)"

record BlobState =
  bs_limits :: BlobLimits
  bs_active :: "(string, int) gomap"
  bs_rates :: "(string, time \<times> int) gomap"

definition NewBlobService :: "BlobLimits \<Rightarrow> BlobState" where
  "NewBlobService l =
     \<lparr>bs_limits = (if bl_BlobBytes l = 0 then BlobDefaultLimits else l), bs_active = [], bs_rates = []\<rparr>"

definition blob_app :: "AuthorizationContext option \<Rightarrow> blob_error + string \<times> string" where
  "blob_app auth =
     (case auth of
        None \<Rightarrow> Inl BlobCapabilityUnavailable
      | Some c \<Rightarrow>
          if \<not> app_BlobsEnabled (ac_app c) then Inl BlobCapabilityUnavailable
          else (case Scope auth of Inl _ \<Rightarrow> Inl BlobUnauthorized | Inr (app, viewer, _) \<Rightarrow> Inr (app, viewer)))"

definition opaqueID :: "nat list option \<Rightarrow> string option" where
  "opaqueID rnd = map_option (\<lambda>b. ''blb_'' @ hex_encode b) rnd"

definition id_digit :: "nat \<Rightarrow> bool" where
  "id_digit r \<longleftrightarrow> 48 \<le> r \<and> r \<le> 57 \<or> 97 \<le> r \<and> r \<le> 102"

definition validBlobID :: "string \<Rightarrow> bool" where
  "validBlobID v = (if length v \<noteq> 36 \<or> \<not> HasPrefix v ''blb_'' then False else list_all id_digit (runes (drop 4 v)))"

text \<open>\<open>unicode.IsControl\<close>.\<close>

definition IsControl :: "nat \<Rightarrow> bool" where
  "IsControl r \<longleftrightarrow> r < 0x20 \<or> 0x7F \<le> r \<and> r < 0xA0"

definition drive_letter :: "string \<Rightarrow> bool" where
  "drive_letter n \<longleftrightarrow> length n \<ge> 2 \<and> n ! 1 = CHR '':'' \<and> (is_upper (n ! 0) \<or> is_lower (n ! 0))"

definition normalizeMeta :: "(nat \<Rightarrow> bool) \<Rightarrow> (string \<Rightarrow> string option) \<Rightarrow> BlobMetadata \<Rightarrow> BlobMetadata option" where
  "normalizeMeta cf mime m =
     (let n = bm_Name m; ct = bm_ContentType m in
      if \<not> ValidString n \<or> n = [] \<or> n = ''.'' \<or> n = ''..'' \<or> HasPrefix n ''.'' \<or> length n > 255
         \<or> ContainsAny n [CHR ''/'', CHR 0x5C, CHR 0x00] then None
      else if drive_letter n then None
      else if list_ex (\<lambda>r. IsControl r \<or> cf r) (runes n) then None
      else if \<not> ValidString ct \<or> ct = [] \<or> length ct > 127 \<or> ContainsAny ct [CHR 0x00, CHR 0x0D, CHR 0x0A] then None
      else if CHR ''/'' \<notin> set (hd (Split (CHR '';'') ct)) then None
      else case mime ct of
             None \<Rightarrow> None
           | Some media \<Rightarrow> if media = [] then None else Some (m\<lparr>bm_ContentType := media\<rparr>))"

definition validMeta :: "(nat \<Rightarrow> bool) \<Rightarrow> (string \<Rightarrow> string option) \<Rightarrow> BlobMetadata \<Rightarrow> bool" where
  "validMeta cf mime m \<longleftrightarrow> normalizeMeta cf mime m \<noteq> None"

section \<open>Admission of uploads\<close>

definition rate_state :: "BlobState \<Rightarrow> string \<Rightarrow> time \<times> int" where
  "rate_state s app = (case map_of (bs_rates s) app of None \<Rightarrow> (zero_time, 0) | Some st \<Rightarrow> st)"

definition active_count :: "BlobState \<Rightarrow> string \<Rightarrow> int" where
  "active_count s app = (case map_of (bs_active s) app of None \<Rightarrow> 0 | Some n \<Rightarrow> n)"

definition expire_rates :: "time \<Rightarrow> (string, time \<times> int) gomap \<Rightarrow> (string, time \<times> int) gomap" where
  "expire_rates now rates = gm_rewrite (\<lambda>k st. if time_sub now (fst st) \<ge> minute then None else Some st) rates"

definition acquire :: "BlobState \<Rightarrow> time \<Rightarrow> string \<Rightarrow> BlobState \<times> bool" where
  "acquire s0 now app =
     (let full = length (bs_rates s0) \<ge> 1024;
          s = (if full then s0\<lparr>bs_rates := expire_rates now (bs_rates s0)\<rparr> else s0) in
      if full \<and> map_of (bs_rates s) app = None \<and> length (bs_rates s) \<ge> 1024 then (s, False)
      else
        let st = rate_state s app;
            st' = (if fst st = zero_time \<or> time_sub now (fst st) \<ge> minute then (now, 0) else st) in
        if snd st' \<ge> bl_UploadsPerMinute (bs_limits s) \<or> active_count s app \<ge> bl_ConcurrentUploads (bs_limits s)
        then (s, False)
        else (s\<lparr>bs_rates := AList.update app (fst st', snd st' + 1) (bs_rates s),
                bs_active := AList.update app (active_count s app + 1) (bs_active s)\<rparr>, True))"

definition release :: "BlobState \<Rightarrow> string \<Rightarrow> BlobState" where
  "release s app =
     (let n = active_count s app - 1 in
      s\<lparr>bs_active := (if n \<le> 0 then AList.delete app (AList.update app n (bs_active s)) else AList.update app n (bs_active s))\<rparr>)"

section \<open>The service\<close>

text \<open>An upload that runs alone: admission, the upload itself and the deferred release.\<close>

definition BlobUpload :: "(nat \<Rightarrow> bool) \<Rightarrow> (string \<Rightarrow> string option) \<Rightarrow> ('r, 'd) BlobRepository option \<Rightarrow> BlobState \<Rightarrow> 'r
      \<Rightarrow> time \<Rightarrow> nat list option \<Rightarrow> AuthorizationContext option \<Rightarrow> string \<Rightarrow> string \<Rightarrow> 'd
      \<Rightarrow> BlobState \<times> 'r \<times> (blob_error + BlobMetadata)" where
  "BlobUpload cf mime repo s st now rnd auth name contentType data =
     (case blob_app auth of
        Inl e \<Rightarrow> (s, st, Inl e)
      | Inr (app, viewer) \<Rightarrow>
     (case repo of
        None \<Rightarrow> (s, st, Inl BlobUnavailable)
      | Some rp \<Rightarrow>
     (case acquire s now app of
        (s1, False) \<Rightarrow> (s1, st, Inl BlobRateLimited)
      | (s1, True) \<Rightarrow>
     (case opaqueID rnd of
        None \<Rightarrow> (release s1 app, st, Inl BlobEntropy)
      | Some i \<Rightarrow>
     (case normalizeMeta cf mime \<lparr>bm_ID = i, bm_Name = name, bm_Size = 0, bm_ContentType = contentType, bm_CreatedAt = zero_time\<rparr> of
        None \<Rightarrow> (release s1 app, st, Inl BlobInvalidMetadata)
      | Some m \<Rightarrow>
          (case bp_Upload rp st app viewer m data (bs_limits s1) of (st1, res) \<Rightarrow> (release s1 app, st1, res)))))))"

definition BlobGet :: "('r, 'd) BlobRepository option \<Rightarrow> 'r \<Rightarrow> AuthorizationContext option \<Rightarrow> string \<Rightarrow> blob_error + 'd \<times> BlobMetadata" where
  "BlobGet repo st auth i =
     (case blob_app auth of
        Inl e \<Rightarrow> Inl e
      | Inr (app, _) \<Rightarrow>
          if \<not> validBlobID i then Inl BlobInvalidID
          else (case repo of None \<Rightarrow> Inl BlobUnavailable | Some rp \<Rightarrow> bp_Open rp st app i))"

definition BlobList :: "('r, 'd) BlobRepository option \<Rightarrow> BlobState \<Rightarrow> 'r \<Rightarrow> AuthorizationContext option \<Rightarrow> string \<Rightarrow> int
      \<Rightarrow> blob_error + BlobListResult" where
  "BlobList repo s st auth cursor limit =
     (case blob_app auth of
        Inl e \<Rightarrow> Inl e
      | Inr (app, _) \<Rightarrow>
          if cursor \<noteq> [] \<and> \<not> validBlobID cursor then Inl BlobInvalidList
          else if limit < 1 \<or> limit > bl_ListLimit (bs_limits s) then Inl BlobInvalidList
          else (case repo of None \<Rightarrow> Inl BlobUnavailable | Some rp \<Rightarrow> bp_List rp st app cursor limit))"

definition BlobDelete :: "('r, 'd) BlobRepository option \<Rightarrow> 'r \<Rightarrow> AuthorizationContext option \<Rightarrow> string \<Rightarrow> 'r \<times> (blob_error + bool)" where
  "BlobDelete repo st auth i =
     (case blob_app auth of
        Inl e \<Rightarrow> (st, Inl e)
      | Inr (app, _) \<Rightarrow>
          if \<not> validBlobID i then (st, Inl BlobInvalidID)
          else (case repo of None \<Rightarrow> (st, Inl BlobUnavailable) | Some rp \<Rightarrow> bp_Delete rp st app i))"

section \<open>Windows of one minute\<close>

definition cnt_in :: "time list \<Rightarrow> time \<Rightarrow> time \<Rightarrow> int" where
  "cnt_in es lo hi = int (length (filter (\<lambda>e. lo \<le> e \<and> e < hi) es))"

lemma cnt_in_Nil [simp]: "cnt_in [] lo hi = 0"
  by (simp add: cnt_in_def)

lemma cnt_in_snoc [simp]: "cnt_in (es @ [x]) lo hi = cnt_in es lo hi + (if lo \<le> x \<and> x < hi then 1 else 0)"
  by (simp add: cnt_in_def)

lemma cnt_in_mono: "(\<And>e. e \<in> set es \<Longrightarrow> lo \<le> e \<Longrightarrow> e < hi \<Longrightarrow> lo' \<le> e \<and> e < hi') \<Longrightarrow> cnt_in es lo hi \<le> cnt_in es lo' hi'"
  unfolding cnt_in_def by (induction es) auto

lemma cnt_in_split: "cnt_in es lo hi \<le> cnt_in es lo m + cnt_in es m hi"
  unfolding cnt_in_def by (induction es) auto

text \<open>A window that started at \<open>since\<close> and admitted \<open>cnt\<close> uploads of the history \<open>es\<close>, seen at the time \<open>clk\<close>.\<close>

definition window_ok :: "int \<Rightarrow> time \<Rightarrow> int \<Rightarrow> time list \<Rightarrow> time \<Rightarrow> bool" where
  "window_ok U since cnt es clk \<longleftrightarrow>
     0 \<le> cnt \<and> cnt \<le> U \<and> since \<le> clk \<and> cnt_in es since (since + minute) \<le> cnt
     \<and> (\<forall>e \<in> set es. e < since + minute \<and> e \<le> clk) \<and> cnt_in es (since - minute) since \<le> U
     \<and> (\<forall>t. cnt_in es t (t + minute) \<le> 2 * U)"

lemma window_later: "window_ok U since cnt es clk \<Longrightarrow> clk \<le> now \<Longrightarrow> window_ok U since cnt es now"
  by (fastforce simp: window_ok_def)

lemma window_same:
  assumes w: "window_ok U since cnt es clk" and t: "clk \<le> now" "now < since + minute" and c: "cnt + 1 \<le> U"
  shows "window_ok U since (cnt + 1) (es @ [now]) now"
proof -
  have "cnt_in es u (u + minute) + 1 \<le> 2 * U" if u: "u \<le> now" "now < u + minute" for u
  proof -
    have "cnt_in es u (u + minute) \<le> cnt_in es u since + cnt_in es since (u + minute)" by (rule cnt_in_split)
    moreover have "cnt_in es u since \<le> cnt_in es (since - minute) since"
      using w t u by (intro cnt_in_mono) (auto simp: window_ok_def)
    moreover have "cnt_in es since (u + minute) \<le> cnt_in es since (since + minute)"
      using w by (intro cnt_in_mono) (auto simp: window_ok_def)
    ultimately show ?thesis using w c by (simp add: window_ok_def)
  qed
  then show ?thesis using w t c by (fastforce simp: window_ok_def)
qed

lemma window_fresh:
  assumes w: "window_ok U since cnt es clk" and t: "clk \<le> now" "since + minute \<le> now" and c: "1 \<le> U"
  shows "window_ok U now 1 (es @ [now]) now"
proof -
  have recent: "cnt_in es u v \<le> U" if "now - minute \<le> u" for u v
  proof -
    have "cnt_in es u v \<le> cnt_in es since (since + minute)"
      using w t that by (intro cnt_in_mono) (auto simp: window_ok_def)
    then show ?thesis using w by (simp add: window_ok_def)
  qed
  have "cnt_in es u (u + minute) + 1 \<le> 2 * U" if u: "u \<le> now" "now < u + minute" for u
    using recent [of u "u + minute"] u c by simp
  moreover have "cnt_in es now (now + minute) \<le> cnt_in es now now"
    using w t by (intro cnt_in_mono) (auto simp: window_ok_def)
  then have "cnt_in es now (now + minute) = 0" by (simp add: cnt_in_def)
  ultimately show ?thesis using w t c recent [of "now - minute" now] by (fastforce simp: window_ok_def)
qed

section \<open>All interleavings of uploads\<close>

text \<open>The service, the uploads that run, the admissions so far and the clock.\<close>

inductive blob_run :: "BlobLimits \<Rightarrow> BlobState \<Rightarrow> string list \<Rightarrow> (time \<times> string) list \<Rightarrow> time \<Rightarrow> bool" for l where
  blob_start: "blob_run l (NewBlobService l) [] [] 0"
| blob_begin: "blob_run l s running hist clk \<Longrightarrow> clk \<le> now \<Longrightarrow> 0 < now \<Longrightarrow> acquire s now app = (s', ok) \<Longrightarrow>
    blob_run l s' (if ok then app # running else running) (if ok then hist @ [(now, app)] else hist) now"
| blob_end: "blob_run l s running hist clk \<Longrightarrow> app \<in> set running \<Longrightarrow>
    blob_run l (release s app) (remove1 app running) hist clk"

definition times_of :: "string \<Rightarrow> (time \<times> string) list \<Rightarrow> time list" where
  "times_of app hist = map fst (filter (\<lambda>e. snd e = app) hist)"

lemma times_of_snoc [simp]: "times_of app (hist @ [(now, a)]) = times_of app hist @ (if a = app then [now] else [])"
  by (simp add: times_of_def)

definition rates_ok :: "int \<Rightarrow> (string, time \<times> int) gomap \<Rightarrow> (time \<times> string) list \<Rightarrow> time \<Rightarrow> bool" where
  "rates_ok U rates hist clk \<longleftrightarrow>
     gm_wf rates \<and> length rates \<le> 1024
     \<and> (\<forall>app. \<exists>since cnt. window_ok U since cnt (times_of app hist) clk
          \<and> (case map_of rates app of None \<Rightarrow> since + minute \<le> clk | Some st \<Rightarrow> st = (since, cnt) \<and> 0 < since))"

lemma expire_rates_ok: "rates_ok U rates hist clk \<Longrightarrow> clk \<le> now \<Longrightarrow> rates_ok U (expire_rates now rates) hist now"
  unfolding rates_ok_def
proof (elim conjE, intro conjI allI)
  assume wf: "gm_wf rates" and "length rates \<le> 1024" and clk: "clk \<le> now"
  then show "gm_wf (expire_rates now rates)" "length (expire_rates now rates) \<le> 1024"
    using gm_rewrite_length by (auto simp: expire_rates_def intro: order_trans)
  fix app
  assume "\<forall>app. \<exists>since cnt. window_ok U since cnt (times_of app hist) clk
          \<and> (case map_of rates app of None \<Rightarrow> since + minute \<le> clk | Some st \<Rightarrow> st = (since, cnt) \<and> 0 < since)"
  then obtain since cnt where w: "window_ok U since cnt (times_of app hist) clk"
    and m: "case map_of rates app of None \<Rightarrow> since + minute \<le> clk | Some st \<Rightarrow> st = (since, cnt) \<and> 0 < since" by blast
  from window_later [OF w clk] m wf clk
  show "\<exists>since cnt. window_ok U since cnt (times_of app hist) now
      \<and> (case map_of (expire_rates now rates) app of None \<Rightarrow> since + minute \<le> now | Some st \<Rightarrow> st = (since, cnt) \<and> 0 < since)"
    by (intro exI [of _ since] exI [of _ cnt])
      (auto simp: expire_rates_def map_of_gm_rewrite time_sub_ge split: option.splits)
qed

lemma rates_later: "rates_ok U rates hist clk \<Longrightarrow> clk \<le> now \<Longrightarrow> rates_ok U rates hist now"
  unfolding rates_ok_def
proof (elim conjE, intro conjI allI)
  fix app
  assume clk: "clk \<le> now" and "\<forall>app. \<exists>since cnt. window_ok U since cnt (times_of app hist) clk
          \<and> (case map_of rates app of None \<Rightarrow> since + minute \<le> clk | Some st \<Rightarrow> st = (since, cnt) \<and> 0 < since)"
  then obtain since cnt where w: "window_ok U since cnt (times_of app hist) clk"
    and m: "case map_of rates app of None \<Rightarrow> since + minute \<le> clk | Some st \<Rightarrow> st = (since, cnt) \<and> 0 < since" by blast
  from window_later [OF w clk] m clk
  show "\<exists>since cnt. window_ok U since cnt (times_of app hist) now
      \<and> (case map_of rates app of None \<Rightarrow> since + minute \<le> now | Some st \<Rightarrow> st = (since, cnt) \<and> 0 < since)"
    by (intro exI [of _ since] exI [of _ cnt]) (auto split: option.splits)
qed

definition uploads_cap :: "BlobLimits \<Rightarrow> int" where "uploads_cap l = max 0 (bl_UploadsPerMinute l)"

definition slots_ok :: "BlobState \<Rightarrow> string list \<Rightarrow> bool" where
  "slots_ok s running \<longleftrightarrow>
     gm_wf (bs_active s)
     \<and> (\<forall>app. active_count s app = int (count_list running app)
          \<and> int (count_list running app) \<le> max 0 (bl_ConcurrentUploads (bs_limits s)))"

text \<open>The early part of \<open>acquire\<close> keeps everything but expired windows.\<close>

lemma acquire_cases:
  assumes "acquire s0 now app = (s', ok)"
  obtains s where "bs_limits s = bs_limits s0" "bs_active s = bs_active s0"
      "bs_rates s = bs_rates s0 \<or> bs_rates s = expire_rates now (bs_rates s0)"
      "\<not> ok \<Longrightarrow> s' = s"
      "ok \<Longrightarrow> (map_of (bs_rates s) app \<noteq> None \<or> length (bs_rates s) < 1024)
        \<and> (\<exists>st'. st' = (if fst (rate_state s app) = zero_time \<or> time_sub now (fst (rate_state s app)) \<ge> minute
                       then (now, 0) else rate_state s app)
             \<and> snd st' < bl_UploadsPerMinute (bs_limits s) \<and> active_count s app < bl_ConcurrentUploads (bs_limits s)
             \<and> s' = s\<lparr>bs_rates := AList.update app (fst st', snd st' + 1) (bs_rates s),
                      bs_active := AList.update app (active_count s app + 1) (bs_active s)\<rparr>)"
proof -
  define s where "s = (if length (bs_rates s0) \<ge> 1024 then s0\<lparr>bs_rates := expire_rates now (bs_rates s0)\<rparr> else s0)"
  have "bs_limits s = bs_limits s0" "bs_active s = bs_active s0"
      "bs_rates s = bs_rates s0 \<or> bs_rates s = expire_rates now (bs_rates s0)" by (simp_all add: s_def)
  moreover have "\<not> ok \<Longrightarrow> s' = s"
    using assms by (auto simp: acquire_def s_def Let_def split: if_splits)
  moreover have "ok \<Longrightarrow> map_of (bs_rates s) app \<noteq> None \<or> length (bs_rates s) < 1024"
    using assms by (auto simp: acquire_def s_def Let_def split: if_splits)
  moreover have "ok \<Longrightarrow> \<exists>st'. st' = (if fst (rate_state s app) = zero_time \<or> time_sub now (fst (rate_state s app)) \<ge> minute
                       then (now, 0) else rate_state s app)
             \<and> snd st' < bl_UploadsPerMinute (bs_limits s) \<and> active_count s app < bl_ConcurrentUploads (bs_limits s)
             \<and> s' = s\<lparr>bs_rates := AList.update app (fst st', snd st' + 1) (bs_rates s),
                      bs_active := AList.update app (active_count s app + 1) (bs_active s)\<rparr>"
    using assms unfolding acquire_def s_def [symmetric] Let_def by (auto split: if_splits)
  ultimately show ?thesis by (intro that) auto
qed

lemma active_count_update: "active_count (s\<lparr>bs_active := AList.update app n (bs_active s)\<rparr>) a = (if a = app then n else active_count s a)"
  by (simp add: active_count_def gomap_simps)

lemma blob_run_limits: "blob_run l s running hist clk \<Longrightarrow> bs_limits s = (if bl_BlobBytes l = 0 then BlobDefaultLimits else l)"
proof (induction rule: blob_run.induct)
  case (blob_begin s running hist clk now app s' ok)
  from blob_begin.hyps(4) show ?case by (rule acquire_cases) (use blob_begin.IH in \<open>cases ok; auto\<close>)
qed (simp_all add: NewBlobService_def release_def Let_def)

lemma blob_run_slots: "blob_run l s running hist clk \<Longrightarrow> slots_ok s running"
proof (induction rule: blob_run.induct)
  case blob_start
  show ?case by (simp add: slots_ok_def NewBlobService_def active_count_def)
next
  case (blob_begin s0 running hist clk now app s' ok)
  from blob_begin.hyps(4) show ?case
  proof (rule acquire_cases)
    fix s
    assume s: "bs_limits s = bs_limits s0" "bs_active s = bs_active s0" and no: "\<not> ok \<Longrightarrow> s' = s"
      and yes: "ok \<Longrightarrow> (map_of (bs_rates s) app \<noteq> None \<or> length (bs_rates s) < 1024)
        \<and> (\<exists>st'. st' = (if fst (rate_state s app) = zero_time \<or> time_sub now (fst (rate_state s app)) \<ge> minute
                       then (now, 0) else rate_state s app)
             \<and> snd st' < bl_UploadsPerMinute (bs_limits s) \<and> active_count s app < bl_ConcurrentUploads (bs_limits s)
             \<and> s' = s\<lparr>bs_rates := AList.update app (fst st', snd st' + 1) (bs_rates s),
                      bs_active := AList.update app (active_count s app + 1) (bs_active s)\<rparr>)"
    have old: "slots_ok s running" using blob_begin.IH s by (simp add: slots_ok_def active_count_def)
    show ?thesis
    proof (cases ok)
      case False
      with no old show ?thesis by simp
    next
      case True
      with yes obtain r where s': "s' = s\<lparr>bs_rates := r, bs_active := AList.update app (active_count s app + 1) (bs_active s)\<rparr>"
        and room: "active_count s app < bl_ConcurrentUploads (bs_limits s)" by blast
      have "active_count s' a = (if a = app then active_count s app + 1 else active_count s a)" for a
        unfolding s' by (simp add: active_count_def gomap_simps)
      then show ?thesis using old room True by (auto simp: slots_ok_def s')
    qed
  qed
next
  case (blob_end s running hist clk app)
  have c: "active_count s app = int (count_list running app)" using blob_end by (simp add: slots_ok_def)
  have pos: "0 < count_list running app" using blob_end.hyps(2) by (metis count_list_0_iff gr0I)
  have "active_count (release s app) a = (if a = app then active_count s app - 1 else active_count s a)" for a
    using c pos by (auto simp: release_def Let_def active_count_def gomap_simps)
  moreover have "count_list (remove1 app running) a = (if a = app then count_list running app - 1 else count_list running a)" for a
    by (induction running) auto
  moreover have "gm_wf (bs_active s)" using blob_end.IH by (simp add: slots_ok_def)
  then have "gm_wf (bs_active (release s app))" by (simp add: release_def Let_def)
  moreover have "bs_limits (release s app) = bs_limits s" by (simp add: release_def Let_def)
  moreover have "int (count_list running a) \<le> max 0 (bl_ConcurrentUploads (bs_limits s)) \<and> active_count s a = int (count_list running a)" for a
    using blob_end.IH by (simp add: slots_ok_def)
  note this [of app] this
  ultimately show ?case unfolding slots_ok_def using pos by (simp add: of_nat_diff) (smt (verit, best))
qed

lemma blob_run_rates:
  "blob_run l s running hist clk \<Longrightarrow> rates_ok (uploads_cap (bs_limits s)) (bs_rates s) hist clk"
proof (induction rule: blob_run.induct)
  case blob_start
  have "window_ok (uploads_cap x) (- minute) 0 [] 0" for x by (simp add: window_ok_def uploads_cap_def)
  then show ?case by (fastforce simp: rates_ok_def NewBlobService_def times_of_def)
next
  case (blob_begin s0 running hist clk now app s' ok)
  from blob_begin.hyps(4) show ?case
  proof (rule acquire_cases)
    fix s
    assume s: "bs_limits s = bs_limits s0" "bs_rates s = bs_rates s0 \<or> bs_rates s = expire_rates now (bs_rates s0)"
      and no: "\<not> ok \<Longrightarrow> s' = s"
      and yes: "ok \<Longrightarrow> (map_of (bs_rates s) app \<noteq> None \<or> length (bs_rates s) < 1024)
        \<and> (\<exists>st'. st' = (if fst (rate_state s app) = zero_time \<or> time_sub now (fst (rate_state s app)) \<ge> minute
                       then (now, 0) else rate_state s app)
             \<and> snd st' < bl_UploadsPerMinute (bs_limits s) \<and> active_count s app < bl_ConcurrentUploads (bs_limits s)
             \<and> s' = s\<lparr>bs_rates := AList.update app (fst st', snd st' + 1) (bs_rates s),
                      bs_active := AList.update app (active_count s app + 1) (bs_active s)\<rparr>)"
    let ?U = "uploads_cap (bs_limits s)"
    have old: "rates_ok ?U (bs_rates s) hist now"
      using s blob_begin.IH blob_begin.hyps(2) expire_rates_ok rates_later by metis
    show ?thesis
    proof (cases ok)
      case False
      with no old show ?thesis by simp
    next
      case True
      with yes obtain st' n where st': "st' = (if fst (rate_state s app) = zero_time \<or> time_sub now (fst (rate_state s app)) \<ge> minute
                       then (now, 0) else rate_state s app)"
        and cap: "snd st' < bl_UploadsPerMinute (bs_limits s)"
        and s': "s' = s\<lparr>bs_rates := AList.update app (fst st', snd st' + 1) (bs_rates s), bs_active := n\<rparr>"
        and room: "app \<in> gm_keys (bs_rates s) \<or> length (bs_rates s) < 1024"
        unfolding map_of_neq_None by blast
      from old obtain since cnt where w: "window_ok ?U since cnt (times_of app hist) now"
        and m: "case map_of (bs_rates s) app of None \<Rightarrow> since + minute \<le> now | Some st \<Rightarrow> st = (since, cnt) \<and> 0 < since"
        unfolding rates_ok_def by blast
      have new: "window_ok ?U (fst st') (snd st' + 1) (times_of app hist @ [now]) now \<and> 0 < fst st'"
      proof (cases "fst (rate_state s app) = zero_time \<or> time_sub now (fst (rate_state s app)) \<ge> minute")
        case True
        with m have "since + minute \<le> now"
          by (auto simp: rate_state_def time_sub_ge split: option.splits)
        with window_fresh [OF w order_refl] True st' cap blob_begin.hyps(3) show ?thesis by (simp add: uploads_cap_def)
      next
        case False
        with m have "st' = (since, cnt)" "now < since + minute" "0 < since"
          using st' by (auto simp: rate_state_def time_sub_ge split: option.splits)
        with window_same [OF w order_refl] cap show ?thesis by (simp add: uploads_cap_def)
      qed
      show ?thesis
        unfolding rates_ok_def
      proof (intro conjI allI)
        show "gm_wf (bs_rates s')" "length (bs_rates s') \<le> 1024"
          using old room by (auto simp: s' rates_ok_def length_update)
        fix a
        have "\<exists>since cnt. window_ok ?U since cnt (times_of a hist) now
          \<and> (case map_of (bs_rates s) a of None \<Rightarrow> since + minute \<le> now | Some st \<Rightarrow> st = (since, cnt) \<and> 0 < since)"
          using old unfolding rates_ok_def by blast
        then show "\<exists>since cnt. window_ok (uploads_cap (bs_limits s')) since cnt (times_of a (if ok then hist @ [(now, app)] else hist)) now
          \<and> (case map_of (bs_rates s') a of None \<Rightarrow> since + minute \<le> now | Some st \<Rightarrow> st = (since, cnt) \<and> 0 < since)"
          using new \<open>ok\<close> by (cases "a = app") (auto simp: s' gomap_simps)
      qed
    qed
  qed
next
  case (blob_end s running hist clk app)
  then show ?case by (simp add: release_def Let_def)
qed

text \<open>C28. Uploads are admitted within their limits in every interleaving of admissions and releases: the uploads of
  an app that run at once stay within the limit on concurrent uploads, and are exactly those counted; no minute
  contains more than twice the uploads per minute (a window that starts late in one minute and the next one), and
  the table of windows never holds more than 1024 apps.\<close>

theorem blob_upload_admission:
  assumes "blob_run l s running hist clk"
  shows "active_count s app = int (count_list running app)
    \<and> int (count_list running app) \<le> max 0 (bl_ConcurrentUploads (bs_limits s))
    \<and> int (length (filter (\<lambda>e. snd e = app \<and> t \<le> fst e \<and> fst e < t + minute) hist)) \<le> 2 * max 0 (bl_UploadsPerMinute (bs_limits s))
    \<and> length (bs_rates s) \<le> 1024"
proof -
  from blob_run_rates [OF assms] obtain since cnt where
    w: "window_ok (uploads_cap (bs_limits s)) since cnt (times_of app hist) clk" and len: "length (bs_rates s) \<le> 1024"
    unfolding rates_ok_def by blast
  have "cnt_in (times_of app hist) t (t + minute) = int (length (filter (\<lambda>e. snd e = app \<and> t \<le> fst e \<and> fst e < t + minute) hist))"
    by (induction hist) (auto simp: cnt_in_def times_of_def)
  with w have "int (length (filter (\<lambda>e. snd e = app \<and> t \<le> fst e \<and> fst e < t + minute) hist)) \<le> 2 * uploads_cap (bs_limits s)"
    unfolding window_ok_def by metis
  with blob_run_slots [OF assms] len show ?thesis by (simp add: slots_ok_def uploads_cap_def)
qed

definition blob_tight :: BlobLimits where
  "blob_tight = BlobDefaultLimits\<lparr>bl_UploadsPerMinute := 2, bl_ConcurrentUploads := 2\<rparr>"

text \<open>Executing a list of steps, \<open>None\<close> when a step is not one of the relation.\<close>

datatype blob_step = UploadBegin time string | UploadEnd string

fun blob_exec :: "blob_step list \<Rightarrow> BlobState \<times> string list \<times> (time \<times> string) list \<times> time
      \<Rightarrow> (BlobState \<times> string list \<times> (time \<times> string) list \<times> time) option" where
  "blob_exec [] c = Some c"
| "blob_exec (UploadBegin now app # st) (s, running, hist, clk) =
     (if now < clk \<or> now \<le> 0 then None
      else case acquire s now app of
        (s', ok) \<Rightarrow> blob_exec st (s', if ok then app # running else running, if ok then hist @ [(now, app)] else hist, now))"
| "blob_exec (UploadEnd app # st) (s, running, hist, clk) =
     (if app \<notin> set running then None else blob_exec st (release s app, remove1 app running, hist, clk))"

lemma blob_exec_run:
  "blob_exec st (s, running, hist, clk) = Some (s', running', hist', clk') \<Longrightarrow> blob_run l s running hist clk
    \<Longrightarrow> blob_run l s' running' hist' clk'"
proof (induction st "(s, running, hist, clk)" arbitrary: s running hist clk rule: blob_exec.induct)
  case (2 now app st s running hist clk)
  obtain s1 ok where a: "acquire s now app = (s1, ok)" by fastforce
  with 2(2) have g: "clk \<le> now" "0 < now" by (auto split: if_splits)
  from 2(1) [OF _ a [symmetric]] 2(2) a g blob_begin [OF 2(3) g a] show ?case by simp
next
  case (3 app st s running hist clk)
  then show ?case by (auto intro: blob_end split: if_splits)
qed simp

text \<open>Two uploads of a window, one of them late, a third that is refused, and two of the next window: four within a
  little more than two seconds where two per minute are configured.\<close>

definition blob_burst :: "blob_step list" where
  "blob_burst = [UploadBegin 1 ''a'', UploadEnd ''a'', UploadBegin 59000000000 ''a'', UploadBegin 59000000001 ''a'',
     UploadEnd ''a'', UploadBegin 60000000001 ''a'', UploadEnd ''a'', UploadBegin 60000000002 ''a'', UploadBegin 60000000003 ''b'']"

definition blob_burst_end :: "BlobState \<times> string list \<times> (time \<times> string) list \<times> time" where
  "blob_burst_end = the (blob_exec blob_burst (NewBlobService blob_tight, [], [], 0))"

theorem blob_upload_admission_witness:
  "case blob_burst_end of (s, running, hist, clk) \<Rightarrow>
     running = [''b'', ''a''] \<and> map fst (filter (\<lambda>e. snd e = ''a'') hist) = [1, 59000000000, 60000000001, 60000000002]
     \<and> int (length (filter (\<lambda>e. snd e = ''a'' \<and> 2 \<le> fst e \<and> fst e < 2 + minute) hist)) \<le> 2 * max 0 (bl_UploadsPerMinute (bs_limits s))"
proof -
  obtain s running hist clk where e: "blob_burst_end = (s, running, hist, clk)" by (cases blob_burst_end) auto
  have d: "blob_exec blob_burst (NewBlobService blob_tight, [], [], 0) \<noteq> None" by code_simp
  from option.collapse [OF d] have x: "blob_exec blob_burst (NewBlobService blob_tight, [], [], 0) = Some (s, running, hist, clk)"
    unfolding blob_burst_end_def [symmetric] e by (rule sym)
  have v: "case blob_burst_end of (s, running, hist, clk) \<Rightarrow>
     running = [''b'', ''a''] \<and> map fst (filter (\<lambda>e. snd e = ''a'') hist) = [1, 59000000000, 60000000001, 60000000002]"
    by code_simp
  from blob_upload_admission [OF blob_exec_run [OF x blob_start], of "''a''" 2] v show ?thesis unfolding e prod.case by simp
qed

end
