(* ===== verification/App_Api.thy ===== *)
theory App_Api
  imports Compatibility Static_Runtime KV_Store Collections_Service Blob_Service Llm_Service
begin

text \<open>
  The HTTP dispatcher of the capabilities, \<open>internal/appapi/dispatcher.go\<close>: version negotiation, routing, the
  origin check, decoding of parameters and bodies, one call of a capability service and the mapping of its result
  or error to a response. The services are the interfaces the dispatcher has as fields, records of operations over
  a world \<open>'w\<close>; JSON decoding into the body structs, multipart parsing and \<open>mime.FormatMediaType\<close> are parameters
  (\<open>ApiCodecs\<close> and the multipart field of a request).
\<close>

section \<open>Requests, responses and services\<close>

text \<open>The part of a multipart upload, its reads as a sequence, and what \<open>NextPart\<close> answers after it.\<close>

datatype part_end = PartMore | PartEOF | PartInvalid | PartFail
datatype next_part = NextEOF | NextPart | NextFail

type_synonym part_reads = "(string \<times> part_end) list"

fun strict_reads :: "bool \<Rightarrow> next_part \<Rightarrow> part_reads \<Rightarrow> part_reads" where
  "strict_reads checked nx [] = []"
| "strict_reads checked nx ((b, e) # rs) =
     (if e \<noteq> PartEOF \<or> checked then (b, e) # strict_reads checked nx rs
      else (b, case nx of NextEOF \<Rightarrow> PartEOF | NextPart \<Rightarrow> PartInvalid | NextFail \<Rightarrow> PartFail) # strict_reads True nx rs)"

record ApiPart =
  pt_FormName :: string
  pt_FileName :: string
  pt_ContentType :: string
  pt_Reads :: part_reads
  pt_Next :: next_part

text \<open>\<open>aq_Part n\<close> is the first part when the body is cut at \<open>n\<close> bytes.\<close>

record ApiRequest = HTTPRequest +
  aq_RawQuery :: string
  aq_Query :: "(string, string list) gomap"
  aq_Body :: string
  aq_Part :: "int \<Rightarrow> ApiPart option"

record Capability =
  cap_Name :: string
  cap_Version :: int
  cap_Limits :: "(string, int) gomap"
  cap_Disclosure :: string

datatype ApiBody =
    ErrorBody string string string
  | MeBody Identity string
  | AppBody string "(string \<times> bool) list"
  | CapabilitiesBody "Capability list"
  | EntryBody KVEntry
  | EntriesBody "KVEntry list" string
  | DeletedBody bool
  | DocumentBody Document
  | DocumentsBody "Document list" uint64 string
  | SnapshotBody "Document list" uint64
  | BlobBody BlobMetadata
  | BlobsBody "BlobMetadata list" string
  | ContentBody part_reads
  | ChatBody LlmResponse

record ApiResponse =
  as_Status :: int
  as_Headers :: "(string, string) gomap"
  as_Body :: ApiBody

record 'w KVApi =
  ka_Get :: "'w \<Rightarrow> AuthorizationContext \<Rightarrow> string \<Rightarrow> 'w \<times> (kv_error + KVEntry option)"
  ka_Set :: "'w \<Rightarrow> AuthorizationContext \<Rightarrow> string \<Rightarrow> string \<Rightarrow> uint64 option \<Rightarrow> 'w \<times> (kv_error + KVEntry)"
  ka_Delete :: "'w \<Rightarrow> AuthorizationContext \<Rightarrow> string \<Rightarrow> uint64 option \<Rightarrow> 'w \<times> (kv_error + bool)"
  ka_List :: "'w \<Rightarrow> AuthorizationContext \<Rightarrow> string \<Rightarrow> string \<Rightarrow> int \<Rightarrow> 'w \<times> (kv_error + KVListResult)"

record 'w BlobsApi =
  ba_Upload :: "'w \<Rightarrow> AuthorizationContext \<Rightarrow> string \<Rightarrow> string \<Rightarrow> part_reads \<Rightarrow> 'w \<times> (blob_error + BlobMetadata)"
  ba_Get :: "'w \<Rightarrow> AuthorizationContext \<Rightarrow> string \<Rightarrow> 'w \<times> (blob_error + part_reads \<times> BlobMetadata)"
  ba_List :: "'w \<Rightarrow> AuthorizationContext \<Rightarrow> string \<Rightarrow> int \<Rightarrow> 'w \<times> (blob_error + BlobListResult)"
  ba_Delete :: "'w \<Rightarrow> AuthorizationContext \<Rightarrow> string \<Rightarrow> 'w \<times> (blob_error + bool)"

record 'w CollectionsApi =
  ca_Create :: "'w \<Rightarrow> AuthorizationContext \<Rightarrow> string \<Rightarrow> string \<Rightarrow> 'w \<times> (col_error + Document \<times> ColMutation)"
  ca_Get :: "'w \<Rightarrow> AuthorizationContext \<Rightarrow> string \<Rightarrow> string \<Rightarrow> 'w \<times> (col_error + Document option)"
  ca_Update :: "'w \<Rightarrow> AuthorizationContext \<Rightarrow> string \<Rightarrow> string \<Rightarrow> string \<Rightarrow> uint64 option
      \<Rightarrow> 'w \<times> (col_error + Document \<times> ColMutation)"
  ca_Delete :: "'w \<Rightarrow> AuthorizationContext \<Rightarrow> string \<Rightarrow> string \<Rightarrow> uint64 option \<Rightarrow> 'w \<times> (col_error + bool \<times> ColMutation)"
  ca_List :: "'w \<Rightarrow> AuthorizationContext \<Rightarrow> string \<Rightarrow> string \<Rightarrow> int \<Rightarrow> 'w \<times> (col_error + ColListResult)"
  ca_Snapshot :: "'w \<Rightarrow> AuthorizationContext \<Rightarrow> string \<Rightarrow> 'w \<times> (col_error + ColSnapshot)"

record 'w LlmApi =
  la_Complete :: "'w \<Rightarrow> AuthorizationContext \<Rightarrow> LlmRequest \<Rightarrow> 'w \<times> (llm_error + LlmResponse)"
  la_Discovery :: "'w \<Rightarrow> AuthorizationContext \<Rightarrow> ((string, int) gomap \<times> string) option"

record 'w Dispatcher =
  dp_KV :: "'w KVApi option"
  dp_Blobs :: "'w BlobsApi option"
  dp_Collections :: "'w CollectionsApi option"
  dp_BlobMaxBytes :: int
  dp_Capabilities :: "Capability list"
  dp_AppSlug :: "(AuthorizationContext \<Rightarrow> string) option"
  dp_Origin :: "(ApiRequest \<Rightarrow> bool) option"
  dp_LLM :: "'w LlmApi option"

text \<open>Each decoder returns \<open>None\<close> unless the text is exactly one JSON value of its kind: a struct with known
  fields and nothing after it (\<open>jc_Data\<close>, \<open>jc_DataVersion\<close>, \<open>jc_ValueVersion\<close>, \<open>jc_Version\<close>), the members of an
  object in order, an array, a string, a number.\<close>

record ApiCodecs =
  jc_Data :: "string \<Rightarrow> string option"
  jc_DataVersion :: "string \<Rightarrow> (string \<times> uint64 option) option"
  jc_ValueVersion :: "string \<Rightarrow> (string \<times> uint64 option) option"
  jc_Version :: "string \<Rightarrow> uint64 option option"
  jc_Members :: "string \<Rightarrow> (string \<times> string) list option"
  jc_Items :: "string \<Rightarrow> string list option"
  jc_String :: "string \<Rightarrow> string option"
  jc_Int :: "string \<Rightarrow> int option"
  jc_Media :: "string \<Rightarrow> string"

section \<open>Responses\<close>

abbreviation base_headers :: "(string, string) gomap" where
  "base_headers \<equiv> [(''Cache-Control'', ''no-store''), (''Content-Type'', ''application/json'')]"

definition writeJSON :: "int \<Rightarrow> ApiBody \<Rightarrow> ApiResponse" where
  "writeJSON status v = \<lparr>as_Status = status, as_Headers = base_headers, as_Body = v\<rparr>"

definition writeError :: "int \<Rightarrow> string \<Rightarrow> string \<Rightarrow> string \<Rightarrow> ApiResponse" where
  "writeError status code message requestID = writeJSON status (ErrorBody code message requestID)"

definition CapabilityUnavailable :: "string \<Rightarrow> ApiResponse" where
  "CapabilityUnavailable requestID = writeError 403 ''capability_unavailable'' ''This capability is unavailable.'' requestID"

text \<open>The responses that occur many times.\<close>

abbreviation rid :: "AuthorizationContext \<Rightarrow> string" where "rid a \<equiv> ac_requestID a"

definition invalid :: "AuthorizationContext \<Rightarrow> ApiResponse" where
  "invalid a = writeError 400 ''validation_failed'' ''The request is invalid.'' (rid a)"

definition notFound :: "AuthorizationContext \<Rightarrow> ApiResponse" where
  "notFound a = writeError 404 ''not_found'' ''This resource is not available.'' (rid a)"

definition notAuthorized :: "AuthorizationContext \<Rightarrow> ApiResponse" where
  "notAuthorized a = writeError 403 ''not_authorized'' ''This request is not authorized.'' (rid a)"

definition unavailable :: "AuthorizationContext \<Rightarrow> ApiResponse" where
  "unavailable a = writeError 503 ''temporarily_unavailable'' ''Tinkercloud is temporarily unavailable.'' (rid a)"

definition methodNotAllowed :: "AuthorizationContext \<Rightarrow> string \<Rightarrow> ApiResponse" where
  "methodNotAllowed a allow =
     (writeError 405 ''validation_failed'' ''The request is invalid.'' (rid a))\<lparr>as_Headers := base_headers @ [(''Allow'', allow)]\<rparr>"

definition rateLimited :: "AuthorizationContext \<Rightarrow> ApiResponse" where
  "rateLimited a = writeError 429 ''rate_limited'' ''Too many requests. Try again shortly.'' (rid a)"

definition quotaExceeded :: "AuthorizationContext \<Rightarrow> ApiResponse" where
  "quotaExceeded a = writeError 429 ''quota_exceeded'' ''The app storage limit was reached.'' (rid a)"

datatype api_error = EKV kv_error | ECol col_error | EBlob blob_error | ELlm llm_error

fun api_err :: "AuthorizationContext \<Rightarrow> api_error \<Rightarrow> ApiResponse" where
  "api_err a (EKV ErrRateLimited) = rateLimited a"
| "api_err a (EKV ErrVersionConflict) =
     writeError 409 ''version_conflict'' ''The value changed. Read it and try again.'' (rid a)"
| "api_err a (EKV ErrQuotaExceeded) = quotaExceeded a"
| "api_err a (EKV ErrInvalidKey) = invalid a"
| "api_err a (EKV ErrInvalidValue) = invalid a"
| "api_err a (EKV ErrInvalidListLimit) = invalid a"
| "api_err a (EKV ErrCapabilityUnavailable) = CapabilityUnavailable (rid a)"
| "api_err a (ECol ErrColVersionConflict) =
     writeError 409 ''version_conflict'' ''The document changed. Read it and try again.'' (rid a)"
| "api_err a (ECol ErrColQuotaExceeded) = quotaExceeded a"
| "api_err a (ECol ErrSnapshotTooLarge) = quotaExceeded a"
| "api_err a (ECol ErrInvalidCollection) = invalid a"
| "api_err a (ECol ErrInvalidDocument) = invalid a"
| "api_err a (ECol ErrInvalidDocumentID) = invalid a"
| "api_err a (ECol ErrColListLimit) = invalid a"
| "api_err a (EBlob BlobCapabilityUnavailable) = CapabilityUnavailable (rid a)"
| "api_err a (EBlob BlobQuotaExceeded) = quotaExceeded a"
| "api_err a (EBlob BlobRateLimited) = rateLimited a"
| "api_err a (EBlob BlobInvalidID) = invalid a"
| "api_err a (EBlob BlobInvalidList) = invalid a"
| "api_err a (EBlob BlobInvalidMetadata) = invalid a"
| "api_err a (ELlm LlmUnauthorized) = writeError 401 ''not_authenticated'' ''This request is not authenticated.'' (rid a)"
| "api_err a (ELlm LlmCapabilityUnavailable) = CapabilityUnavailable (rid a)"
| "api_err a (ELlm LlmInvalidRequest) = writeError 400 ''invalid_request'' ''The request is invalid.'' (rid a)"
| "api_err a (ELlm LlmRateLimited) = rateLimited a"
| "api_err a (ELlm LlmQuotaExhausted) = writeError 429 ''quota_exhausted'' ''The app usage limit was reached.'' (rid a)"
| "api_err a (ELlm LlmCancelled) = writeError 499 ''cancelled'' ''The request was cancelled.'' (rid a)"
| "api_err a _ = unavailable a"

section \<open>Parsing\<close>

definition unhex :: "char \<Rightarrow> nat option" where
  "unhex c =
     (let n = of_char c in
      if 48 \<le> n \<and> n \<le> 57 then Some (n - 48)
      else if 97 \<le> n \<and> n \<le> 102 then Some (n - 87)
      else if 65 \<le> n \<and> n \<le> 70 then Some (n - 55)
      else None)"

text \<open>\<open>url.PathUnescape\<close> and \<open>strconv.Atoi\<close> on a 64-bit platform.\<close>

fun PathUnescape :: "string \<Rightarrow> string option" where
  "PathUnescape [] = Some []"
| "PathUnescape (c # s) =
     (if c = CHR ''%'' then
        (case s of
           x # y # t \<Rightarrow>
             (case (unhex x, unhex y) of
                (Some h, Some l) \<Rightarrow> map_option (\<lambda>r. char_of (16 * h + l) # r) (PathUnescape t)
              | _ \<Rightarrow> None)
         | _ \<Rightarrow> None)
      else map_option (\<lambda>r. c # r) (PathUnescape s))"

definition Atoi :: "string \<Rightarrow> int option" where
  "Atoi s =
     (let neg = HasPrefix s ''-''; d = (if neg \<or> HasPrefix s ''+'' then drop 1 s else s) in
      if d = [] \<or> \<not> list_all is_digit d then None
      else let v = (if neg then - int (digits_value 0 d) else int (digits_value 0 d)) in
        if v < - (2 ^ 63) \<or> v \<ge> 2 ^ 63 then None else Some v)"

definition query_Get :: "ApiRequest \<Rightarrow> string \<Rightarrow> string" where
  "query_Get r k = (case map_of (aq_Query r) k of Some (v # _) \<Rightarrow> v | _ \<Rightarrow> [])"

text \<open>The loop over the query: only these keys, each once.\<close>

definition query_only :: "string list \<Rightarrow> ApiRequest \<Rightarrow> bool" where
  "query_only keys r \<longleftrightarrow> list_all (\<lambda>(k, vs). k \<in> set keys \<and> length vs = 1) (aq_Query r)"

text \<open>The limit parameter, 100 when it is absent.\<close>

definition query_limit :: "ApiRequest \<Rightarrow> int option" where
  "query_limit r = (if query_Get r ''limit'' = [] then Some 100 else Atoi (query_Get r ''limit''))"

definition originHeader :: "ApiRequest \<Rightarrow> bool" where
  "originHeader r \<longleftrightarrow> req_Header r ''Origin'' = ''http://'' @ req_Host r \<or> req_Header r ''Origin'' = ''https://'' @ req_Host r"

definition sameOrigin :: "'w Dispatcher \<Rightarrow> ApiRequest \<Rightarrow> bool" where
  "sameOrigin d r = (case dp_Origin d of Some f \<Rightarrow> f r | None \<Rightarrow> originHeader r)"

abbreviation bodyLimit :: nat where "bodyLimit \<equiv> 66 * 1024"

definition decode :: "(string \<Rightarrow> 'b option) \<Rightarrow> AuthorizationContext \<Rightarrow> ApiRequest \<Rightarrow> ApiResponse + 'b" where
  "decode dec a r =
     (if req_Header r ''Content-Type'' \<noteq> ''application/json''
      then Inl (writeError 415 ''validation_failed'' ''The request is invalid.'' (rid a))
      else if length (aq_Body r) > bodyLimit then Inl (invalid a)
      else case dec (aq_Body r) of None \<Rightarrow> Inl (invalid a) | Some b \<Rightarrow> Inr b)"

definition compatibleSDKVersion :: "string \<Rightarrow> bool" where
  "compatibleSDKVersion version =
     (version = [] \<or> Range_Contains (ca_Client (cm_AppAPI (CurrentMatrix ''0.1.0''))) version)"

definition compatibleAPIVersion :: "string \<Rightarrow> bool" where
  "compatibleAPIVersion version \<longleftrightarrow> version = [] \<or> version = AppAPIVersion"

definition uniqueJSONObject :: "ApiCodecs \<Rightarrow> string \<Rightarrow> (string, string) gomap option" where
  "uniqueJSONObject j raw =
     (case jc_Members j raw of None \<Rightarrow> None | Some ms \<Rightarrow> if distinct (map fst ms) then Some ms else None)"

section \<open>Handlers\<close>

type_synonym 'w handled = "'w \<times> ApiResponse"

definition api_me :: "'w Dispatcher \<Rightarrow> AuthorizationContext \<Rightarrow> ApiResponse" where
  "api_me d a =
     (case dp_AppSlug d of
        None \<Rightarrow> unavailable a
      | Some slug \<Rightarrow> if slug a = [] then unavailable a else writeJSON 200 (MeBody (ac_Identity a) (slug a)))"

definition llm_available :: "'w Dispatcher \<Rightarrow> 'w \<Rightarrow> AuthorizationContext \<Rightarrow> bool" where
  "llm_available d w a = (case dp_LLM d of None \<Rightarrow> False | Some l \<Rightarrow> la_Discovery l w a \<noteq> None)"

definition api_app :: "'w Dispatcher \<Rightarrow> 'w \<Rightarrow> AuthorizationContext \<Rightarrow> ApiResponse" where
  "api_app d w a =
     (case dp_AppSlug d of
        None \<Rightarrow> unavailable a
      | Some slug \<Rightarrow>
          if slug a = [] then unavailable a
          else writeJSON 200 (AppBody (slug a)
            [(''kv'', app_KVEnabled (ac_app a)),
             (''db'', app_KVEnabled (ac_app a) \<and> dp_Collections d \<noteq> None),
             (''blobs'', app_BlobsEnabled (ac_app a) \<and> dp_Blobs d \<noteq> None),
             (''realtime'', app_RealtimeEnabled (ac_app a)),
             (''llm_chat'', llm_available d w a)]))"

text \<open>One turn of the loop over the capabilities: what is appended.\<close>

definition offered :: "'w Dispatcher \<Rightarrow> 'w \<Rightarrow> AuthorizationContext \<Rightarrow> Capability \<Rightarrow> Capability list" where
  "offered d w a c =
     (let kv = app_KVEnabled (ac_app a);
          rest = (\<lambda>c'. if cap_Name c' = ''kv'' \<and> \<not> kv then []
            else if cap_Name c' = ''db'' \<and> (\<not> kv \<or> dp_Collections d = None) then []
            else if cap_Name c' = ''live'' \<and> \<not> app_RealtimeEnabled (ac_app a) then []
            else if cap_Name c' = ''blobs'' \<and> \<not> app_BlobsEnabled (ac_app a) then []
            else [c']) in
      if cap_Name c = ''llm.chat'' then
        (case dp_LLM d of
           None \<Rightarrow> []
         | Some l \<Rightarrow>
             (case la_Discovery l w a of
                None \<Rightarrow> []
              | Some (limits, disclosure) \<Rightarrow> rest (c\<lparr>cap_Limits := limits, cap_Disclosure := disclosure\<rparr>)))
      else rest c)"

definition api_capabilities :: "'w Dispatcher \<Rightarrow> 'w \<Rightarrow> AuthorizationContext \<Rightarrow> ApiResponse" where
  "api_capabilities d w a = writeJSON 200 (CapabilitiesBody (concat (map (offered d w a) (dp_Capabilities d))))"

definition api_list :: "'w Dispatcher \<Rightarrow> 'w \<Rightarrow> AuthorizationContext \<Rightarrow> ApiRequest \<Rightarrow> 'w handled" where
  "api_list d w a r =
     (if \<not> app_KVEnabled (ac_app a) then (w, CapabilityUnavailable (rid a))
      else case dp_KV d of
          None \<Rightarrow> (w, unavailable a)
        | Some k \<Rightarrow>
            if \<not> query_only [''prefix'', ''cursor'', ''limit''] r then (w, invalid a)
            else case query_limit r of
                None \<Rightarrow> (w, invalid a)
              | Some limit \<Rightarrow>
                  (case ka_List k w a (query_Get r ''prefix'') (query_Get r ''cursor'') limit of
                     (w1, Inl e) \<Rightarrow> (w1, api_err a (EKV e))
                   | (w1, Inr res) \<Rightarrow> (w1, writeJSON 200 (EntriesBody (lr_Entries res) (lr_NextCursor res)))))"

definition api_key :: "ApiCodecs \<Rightarrow> 'w Dispatcher \<Rightarrow> 'w \<Rightarrow> AuthorizationContext \<Rightarrow> ApiRequest \<Rightarrow> string \<Rightarrow> 'w handled" where
  "api_key j d w a r raw =
     (if \<not> app_KVEnabled (ac_app a) then (w, CapabilityUnavailable (rid a))
      else case dp_KV d of
          None \<Rightarrow> (w, unavailable a)
        | Some k \<Rightarrow>
     (case PathUnescape raw of
        None \<Rightarrow> (w, invalid a)
      | Some key \<Rightarrow>
          if key = [] then (w, invalid a)
          else if req_Method r = ''GET'' then
            if aq_RawQuery r \<noteq> [] then (w, invalid a)
            else (case ka_Get k w a key of
                    (w1, Inl e) \<Rightarrow> (w1, api_err a (EKV e))
                  | (w1, Inr None) \<Rightarrow> (w1, notFound a)
                  | (w1, Inr (Some entry)) \<Rightarrow> (w1, writeJSON 200 (EntryBody entry)))
          else if req_Method r = ''PUT'' then
            if \<not> sameOrigin d r then (w, notAuthorized a)
            else (case decode (jc_ValueVersion j) a r of
                    Inl resp \<Rightarrow> (w, resp)
                  | Inr (val, ver) \<Rightarrow>
                      (case ka_Set k w a key val ver of
                         (w1, Inl e) \<Rightarrow> (w1, api_err a (EKV e))
                       | (w1, Inr entry) \<Rightarrow> (w1, writeJSON 200 (EntryBody entry))))
          else if req_Method r = ''DELETE'' then
            if \<not> sameOrigin d r then (w, notAuthorized a)
            else (case decode (jc_Version j) a r of
                    Inl resp \<Rightarrow> (w, resp)
                  | Inr ver \<Rightarrow>
                      (case ka_Delete k w a key ver of
                         (w1, Inl e) \<Rightarrow> (w1, api_err a (EKV e))
                       | (w1, Inr b) \<Rightarrow> (w1, writeJSON 200 (DeletedBody b))))
          else (w, methodNotAllowed a ''GET, PUT, DELETE'')))"

definition api_root_get :: "'w CollectionsApi \<Rightarrow> 'w \<Rightarrow> AuthorizationContext \<Rightarrow> ApiRequest \<Rightarrow> string \<Rightarrow> 'w handled" where
  "api_root_get c w a r collection =
     (if \<not> query_only [''cursor'', ''limit'', ''snapshot''] r then (w, invalid a)
      else if query_Get r ''snapshot'' \<noteq> [] then
        if query_Get r ''snapshot'' \<noteq> ''1'' \<or> query_Get r ''cursor'' \<noteq> [] \<or> query_Get r ''limit'' \<noteq> [] then (w, invalid a)
        else (case ca_Snapshot c w a collection of
                (w1, Inl e) \<Rightarrow> (w1, api_err a (ECol e))
              | (w1, Inr s) \<Rightarrow> (w1, writeJSON 200 (SnapshotBody (sn_Documents s) (sn_Revision s))))
      else if query_Get r ''cursor'' \<noteq> [] \<and> \<not> validID (query_Get r ''cursor'') then (w, invalid a)
      else case query_limit r of
             None \<Rightarrow> (w, invalid a)
           | Some limit \<Rightarrow>
               (case ca_List c w a collection (query_Get r ''cursor'') limit of
                  (w1, Inl e) \<Rightarrow> (w1, api_err a (ECol e))
                | (w1, Inr s) \<Rightarrow> (w1, writeJSON 200 (DocumentsBody (cr_Documents s) (cr_Revision s) (cr_NextCursor s)))))"

definition api_collectionRoot :: "ApiCodecs \<Rightarrow> 'w Dispatcher \<Rightarrow> 'w CollectionsApi \<Rightarrow> 'w \<Rightarrow> AuthorizationContext \<Rightarrow> ApiRequest
      \<Rightarrow> string \<Rightarrow> 'w handled" where
  "api_collectionRoot j d c w a r collection =
     (if req_Method r = ''GET'' then api_root_get c w a r collection
      else if req_Method r = ''POST'' then
        if \<not> sameOrigin d r then (w, notAuthorized a)
        else (case decode (jc_Data j) a r of
                Inl resp \<Rightarrow> (w, resp)
              | Inr dat \<Rightarrow>
                  (case ca_Create c w a collection dat of
                     (w1, Inl e) \<Rightarrow> (w1, api_err a (ECol e))
                   | (w1, Inr (doc, _)) \<Rightarrow> (w1, writeJSON 201 (DocumentBody doc))))
      else (w, methodNotAllowed a ''GET, POST''))"

definition api_collectionDocument :: "ApiCodecs \<Rightarrow> 'w Dispatcher \<Rightarrow> 'w CollectionsApi \<Rightarrow> 'w \<Rightarrow> AuthorizationContext \<Rightarrow> ApiRequest
      \<Rightarrow> string \<Rightarrow> string \<Rightarrow> 'w handled" where
  "api_collectionDocument j d c w a r collection docid =
     (if req_Method r = ''GET'' then
        if aq_RawQuery r \<noteq> [] then (w, invalid a)
        else (case ca_Get c w a collection docid of
                (w1, Inl e) \<Rightarrow> (w1, api_err a (ECol e))
              | (w1, Inr None) \<Rightarrow> (w1, notFound a)
              | (w1, Inr (Some doc)) \<Rightarrow> (w1, writeJSON 200 (DocumentBody doc)))
      else if req_Method r = ''PUT'' then
        if \<not> sameOrigin d r then (w, notAuthorized a)
        else (case decode (jc_DataVersion j) a r of
                Inl resp \<Rightarrow> (w, resp)
              | Inr (dat, ver) \<Rightarrow>
                  (case ca_Update c w a collection docid dat ver of
                     (w1, Inl e) \<Rightarrow> (w1, api_err a (ECol e))
                   | (w1, Inr (doc, _)) \<Rightarrow> (w1, writeJSON 200 (DocumentBody doc))))
      else if req_Method r = ''DELETE'' then
        if \<not> sameOrigin d r then (w, notAuthorized a)
        else (case decode (jc_Version j) a r of
                Inl resp \<Rightarrow> (w, resp)
              | Inr ver \<Rightarrow>
                  (case ca_Delete c w a collection docid ver of
                     (w1, Inl e) \<Rightarrow> (w1, api_err a (ECol e))
                   | (w1, Inr (b, _)) \<Rightarrow> (w1, writeJSON 200 (DeletedBody b))))
      else (w, methodNotAllowed a ''GET, PUT, DELETE''))"

abbreviation apiPrefix :: string where "apiPrefix \<equiv> ''/_tinker/api/v1''"

definition api_collection :: "ApiCodecs \<Rightarrow> 'w Dispatcher \<Rightarrow> 'w \<Rightarrow> AuthorizationContext \<Rightarrow> ApiRequest \<Rightarrow> 'w handled" where
  "api_collection j d w a r =
     (if \<not> app_KVEnabled (ac_app a) then (w, CapabilityUnavailable (rid a))
      else case dp_Collections d of
          None \<Rightarrow> (w, unavailable a)
        | Some c \<Rightarrow>
     (let raw = TrimPrefix (req_EscapedPath r) (apiPrefix @ ''/db/''); parts = Split slash raw in
      if raw = req_EscapedPath r \<or> raw = [] then (w, invalid a)
      else if length parts > 2 \<or> parts ! 0 = [] then (w, invalid a)
      else case PathUnescape (parts ! 0) of
          None \<Rightarrow> (w, invalid a)
        | Some collection \<Rightarrow>
            if \<not> ValidCollection collection then (w, invalid a)
            else if length parts = 1 then api_collectionRoot j d c w a r collection
            else case PathUnescape (parts ! 1) of
                None \<Rightarrow> (w, invalid a)
              | Some docid \<Rightarrow>
                  if \<not> validID docid then (w, invalid a)
                  else api_collectionDocument j d c w a r collection docid))"

definition api_blobs :: "'w Dispatcher \<Rightarrow> 'w \<Rightarrow> AuthorizationContext \<Rightarrow> ApiRequest \<Rightarrow> 'w handled" where
  "api_blobs d w a r =
     (if \<not> app_BlobsEnabled (ac_app a) then (w, CapabilityUnavailable (rid a))
      else case dp_Blobs d of
          None \<Rightarrow> (w, unavailable a)
        | Some b \<Rightarrow>
            if req_Method r = ''GET'' then
              if \<not> query_only [''limit'', ''cursor''] r then (w, invalid a)
              else (case query_limit r of
                      None \<Rightarrow> (w, invalid a)
                    | Some limit \<Rightarrow>
                        (case ba_List b w a (query_Get r ''cursor'') limit of
                           (w1, Inl e) \<Rightarrow> (w1, api_err a (EBlob e))
                         | (w1, Inr res) \<Rightarrow> (w1, writeJSON 200 (BlobsBody (br_Blobs res) (br_NextCursor res)))))
            else if req_Method r = ''POST'' then
              if \<not> sameOrigin d r then (w, notAuthorized a)
              else
                let mx = (if dp_BlobMaxBytes d = 0 then bl_BlobBytes BlobDefaultLimits else dp_BlobMaxBytes d) in
                (case aq_Part r (mx + 2 ^ 20) of
                   None \<Rightarrow> (w, invalid a)
                 | Some pt \<Rightarrow>
                     if pt_FormName pt \<noteq> ''file'' \<or> pt_FileName pt = [] then (w, invalid a)
                     else (case ba_Upload b w a (pt_FileName pt) (pt_ContentType pt) (strict_reads False (pt_Next pt) (pt_Reads pt)) of
                             (w1, Inl e) \<Rightarrow> (w1, api_err a (EBlob e))
                           | (w1, Inr m) \<Rightarrow> (w1, writeJSON 201 (BlobBody m))))
            else (w, methodNotAllowed a ''GET, POST''))"

definition blob_headers :: "ApiCodecs \<Rightarrow> BlobMetadata \<Rightarrow> (string, string) gomap" where
  "blob_headers j m =
     [(''Content-Type'', bm_ContentType m), (''Content-Length'', format_int (bm_Size m)),
      (''Content-Disposition'', jc_Media j (bm_Name m)), (''X-Content-Type-Options'', ''nosniff''),
      (''Cache-Control'', ''private, no-store'')]"

definition api_blobObject :: "ApiCodecs \<Rightarrow> 'w Dispatcher \<Rightarrow> 'w \<Rightarrow> AuthorizationContext \<Rightarrow> ApiRequest \<Rightarrow> 'w handled" where
  "api_blobObject j d w a r =
     (if \<not> app_BlobsEnabled (ac_app a) then (w, CapabilityUnavailable (rid a))
      else case dp_Blobs d of
          None \<Rightarrow> (w, unavailable a)
        | Some b \<Rightarrow>
     (let i = TrimPrefix (req_EscapedPath r) (apiPrefix @ ''/blobs/'') in
      if slash \<in> set i then (w, invalid a)
      else if req_Method r = ''GET'' then
        if aq_RawQuery r \<noteq> [] \<or> req_Header r ''Range'' \<noteq> [] then (w, invalid a)
        else (case ba_Get b w a i of
                (w1, Inl e) \<Rightarrow> (w1, if e = BlobNotExist then notFound a else api_err a (EBlob e))
              | (w1, Inr (rd, m)) \<Rightarrow>
                  (w1, \<lparr>as_Status = 200, as_Headers = blob_headers j m, as_Body = ContentBody rd\<rparr>))
      else if req_Method r = ''DELETE'' then
        if \<not> sameOrigin d r then (w, notAuthorized a)
        else (case ba_Delete b w a i of
                (w1, Inl e) \<Rightarrow> (w1, api_err a (EBlob e))
              | (w1, Inr x) \<Rightarrow> (w1, writeJSON 200 (DeletedBody x)))
      else (w, methodNotAllowed a ''GET, DELETE'')))"

section \<open>Chat requests\<close>

fun decode_messages :: "ApiCodecs \<Rightarrow> string list \<Rightarrow> LlmMessage list option" where
  "decode_messages j [] = Some []"
| "decode_messages j (item # items) =
     (case uniqueJSONObject j item of
        None \<Rightarrow> None
      | Some m \<Rightarrow>
          if length m \<noteq> 2 then None
          else case (map_of m ''role'', map_of m ''content'') of
              (Some role, Some content) \<Rightarrow>
                (case (jc_String j role, jc_String j content) of
                   (Some x, Some y) \<Rightarrow> map_option (\<lambda>ms. \<lparr>lm_Role = x, lm_Content = y\<rparr> # ms) (decode_messages j items)
                 | _ \<Rightarrow> None)
            | _ \<Rightarrow> None)"

definition decodeLLMRequest :: "ApiCodecs \<Rightarrow> ApiRequest \<Rightarrow> LlmRequest option" where
  "decodeLLMRequest j r =
     (if req_Header r ''Content-Type'' \<noteq> ''application/json'' then None
      else if length (aq_Body r) > bodyLimit \<or> \<not> ValidString (aq_Body r) then None
      else case uniqueJSONObject j (aq_Body r) of
          None \<Rightarrow> None
        | Some outer \<Rightarrow>
     (case map_of outer ''messages'' of
        None \<Rightarrow> None
      | Some msgs \<Rightarrow>
          if length outer > 2 \<or> \<not> list_all (\<lambda>(k, v). k = ''messages'' \<or> k = ''max_output_tokens'') outer then None
          else case jc_Items j msgs of
              None \<Rightarrow> None
            | Some items \<Rightarrow>
     (case decode_messages j items of
        None \<Rightarrow> None
      | Some ms \<Rightarrow>
          (case map_of outer ''max_output_tokens'' of
             None \<Rightarrow> Some \<lparr>lr_Messages = ms, lr_MaxOutputTokens = 0\<rparr>
           | Some n \<Rightarrow> map_option (\<lambda>v. \<lparr>lr_Messages = ms, lr_MaxOutputTokens = v\<rparr>) (jc_Int j n)))))"

definition api_llmChat :: "ApiCodecs \<Rightarrow> 'w Dispatcher \<Rightarrow> 'w \<Rightarrow> AuthorizationContext \<Rightarrow> ApiRequest \<Rightarrow> 'w handled" where
  "api_llmChat j d w a r =
     (case dp_LLM d of
        None \<Rightarrow> (w, CapabilityUnavailable (rid a))
      | Some l \<Rightarrow>
          if \<not> sameOrigin d r then (w, notAuthorized a)
          else (case decodeLLMRequest j r of
                  None \<Rightarrow> (w, invalid a)
                | Some q \<Rightarrow>
                    (case la_Complete l w a q of
                       (w1, Inl e) \<Rightarrow> (w1, api_err a (ELlm e))
                     | (w1, Inr out) \<Rightarrow> (w1, writeJSON 200 (ChatBody out)))))"

section \<open>Dispatch\<close>

datatype Route =
    RMe | RApp | RCapabilities | RList | RKey string | RCollection | RBlobs | RChat | RBlobObject | RNotFound

text \<open>The switch over path and method, in its order.\<close>

definition api_route :: "string \<Rightarrow> string \<Rightarrow> Route" where
  "api_route method p =
     (if p = apiPrefix @ ''/me'' \<and> method = ''GET'' then RMe
      else if p = apiPrefix @ ''/app'' \<and> method = ''GET'' then RApp
      else if p = apiPrefix @ ''/capabilities'' \<and> method = ''GET'' then RCapabilities
      else if p = apiPrefix @ ''/kv'' \<and> method = ''GET'' then RList
      else if HasPrefix p (apiPrefix @ ''/kv/'') then RKey (TrimPrefix p (apiPrefix @ ''/kv/''))
      else if p = apiPrefix @ ''/db'' \<or> HasPrefix p (apiPrefix @ ''/db/'') then RCollection
      else if p = apiPrefix @ ''/blobs'' then RBlobs
      else if p = apiPrefix @ ''/llm/chat'' \<and> method = ''POST'' then RChat
      else if HasPrefix p (apiPrefix @ ''/blobs/'') then RBlobObject
      else RNotFound)"

definition serve_route :: "ApiCodecs \<Rightarrow> 'w Dispatcher \<Rightarrow> 'w \<Rightarrow> AuthorizationContext \<Rightarrow> ApiRequest \<Rightarrow> Route \<Rightarrow> 'w handled" where
  "serve_route j d w a r rt =
     (case rt of
        RMe \<Rightarrow> (w, api_me d a)
      | RApp \<Rightarrow> (w, api_app d w a)
      | RCapabilities \<Rightarrow> (w, api_capabilities d w a)
      | RList \<Rightarrow> api_list d w a r
      | RKey raw \<Rightarrow> api_key j d w a r raw
      | RCollection \<Rightarrow> api_collection j d w a r
      | RBlobs \<Rightarrow> api_blobs d w a r
      | RChat \<Rightarrow> api_llmChat j d w a r
      | RBlobObject \<Rightarrow> api_blobObject j d w a r
      | RNotFound \<Rightarrow> (w, notFound a))"

definition ApiDispatch :: "ApiCodecs \<Rightarrow> 'w Dispatcher \<Rightarrow> 'w \<Rightarrow> AuthorizationContext option \<Rightarrow> ApiRequest \<Rightarrow> 'w handled" where
  "ApiDispatch j d w auth r =
     (case auth of
        None \<Rightarrow>
          (w, \<lparr>as_Status = 401, as_Headers = [],
               as_Body = ErrorBody ''not_authenticated'' ''This request is not authenticated.'' []\<rparr>)
      | Some a \<Rightarrow>
          if \<not> compatibleSDKVersion (req_Header r ''X-Tinker-SDK-Version'')
             \<or> \<not> compatibleAPIVersion (req_Header r ''X-Tinker-App-API-Version'')
          then (w, writeError 426 ''sdk_version_incompatible'' ''Update @tinkercloud/sdk to a supported version and retry.'' (rid a))
          else serve_route j d w a r (api_route (req_Method r) (req_EscapedPath r)))"

section \<open>Which requests have effects\<close>

lemmas api_handlers = api_list_def api_key_def api_root_get_def api_collectionRoot_def api_collectionDocument_def
  api_collection_def api_blobs_def api_blobObject_def api_llmChat_def

text \<open>A handler that may change the world: the capability is enabled for the app, and the request is a read or
  comes from the app's own origin.\<close>

definition may_act :: "'w Dispatcher \<Rightarrow> ApiRequest \<Rightarrow> bool" where
  "may_act d r \<longleftrightarrow> req_Method r = ''GET'' \<or> req_Method r \<in> {''POST'', ''PUT'', ''DELETE''} \<and> sameOrigin d r"

lemma api_list_effect: "api_list d w a r = (w', resp) \<Longrightarrow> w' \<noteq> w \<Longrightarrow> app_KVEnabled (ac_app a)"
  by (auto simp: api_list_def split: if_splits)

lemma api_key_effect:
  assumes "api_key j d w a r raw = (w', resp)" "w' \<noteq> w"
  shows "app_KVEnabled (ac_app a) \<and> may_act d r"
proof (rule ccontr)
  assume "\<not> ?thesis"
  with assms show False
    unfolding api_key_def may_act_def by (auto split: if_splits option.splits)
qed

lemma api_root_effect:
  assumes "api_collectionRoot j d c w a r collection = (w', resp)" "w' \<noteq> w"
  shows "may_act d r"
proof (rule ccontr)
  assume "\<not> ?thesis"
  with assms show False
    unfolding api_collectionRoot_def may_act_def by (auto split: if_splits)
qed

lemma api_document_effect:
  assumes "api_collectionDocument j d c w a r collection docid = (w', resp)" "w' \<noteq> w"
  shows "may_act d r"
proof (rule ccontr)
  assume "\<not> ?thesis"
  with assms show False
    unfolding api_collectionDocument_def may_act_def by (auto split: if_splits)
qed

lemma api_collection_effect:
  assumes "api_collection j d w a r = (w', resp)" "w' \<noteq> w"
  shows "app_KVEnabled (ac_app a) \<and> may_act d r"
  using assms unfolding api_collection_def Let_def
  by (auto split: if_splits option.splits dest: api_root_effect api_document_effect)

lemma api_blobs_effect:
  assumes "api_blobs d w a r = (w', resp)" "w' \<noteq> w"
  shows "app_BlobsEnabled (ac_app a) \<and> may_act d r"
proof (rule ccontr)
  assume "\<not> ?thesis"
  with assms show False
    unfolding api_blobs_def may_act_def Let_def by (auto split: if_splits option.splits)
qed

lemma api_blobObject_effect:
  assumes "api_blobObject j d w a r = (w', resp)" "w' \<noteq> w"
  shows "app_BlobsEnabled (ac_app a) \<and> may_act d r"
proof (rule ccontr)
  assume "\<not> ?thesis"
  with assms show False
    unfolding api_blobObject_def may_act_def Let_def by (auto split: if_splits option.splits)
qed

lemma api_llmChat_effect: "api_llmChat j d w a r = (w', resp) \<Longrightarrow> w' \<noteq> w \<Longrightarrow> sameOrigin d r \<and> dp_LLM d \<noteq> None"
  by (auto simp: api_llmChat_def split: if_splits option.splits)

lemma route_methods:
  "api_route m p = RChat \<Longrightarrow> m = ''POST''" "api_route m p = RList \<Longrightarrow> m = ''GET''"
  by (auto simp: api_route_def split: if_splits)

text \<open>C26. The dispatcher lets a request act only through its guards: if the world of the services changes, the request
  was authorized, its versions are compatible, it is a GET or comes from the app's own origin, and the capability
  of its route is enabled for the app. No service is reached on any other route.\<close>

theorem api_effects_guarded:
  assumes run: "ApiDispatch j d w auth r = (w', resp)" and eff: "w' \<noteq> w"
  shows "\<exists>a. auth = Some a \<and> may_act d r
    \<and> compatibleSDKVersion (req_Header r ''X-Tinker-SDK-Version'') \<and> compatibleAPIVersion (req_Header r ''X-Tinker-App-API-Version'')
    \<and> (case api_route (req_Method r) (req_EscapedPath r) of
         RList \<Rightarrow> app_KVEnabled (ac_app a) | RKey _ \<Rightarrow> app_KVEnabled (ac_app a) | RCollection \<Rightarrow> app_KVEnabled (ac_app a)
       | RBlobs \<Rightarrow> app_BlobsEnabled (ac_app a) | RBlobObject \<Rightarrow> app_BlobsEnabled (ac_app a)
       | RChat \<Rightarrow> dp_LLM d \<noteq> None | _ \<Rightarrow> False)"
proof -
  from run eff obtain a where a: "auth = Some a"
      "compatibleSDKVersion (req_Header r ''X-Tinker-SDK-Version'')" "compatibleAPIVersion (req_Header r ''X-Tinker-App-API-Version'')"
      and s: "serve_route j d w a r (api_route (req_Method r) (req_EscapedPath r)) = (w', resp)"
    by (auto simp: ApiDispatch_def split: option.splits if_splits)
  have "may_act d r \<and> (case api_route (req_Method r) (req_EscapedPath r) of
         RList \<Rightarrow> app_KVEnabled (ac_app a) | RKey _ \<Rightarrow> app_KVEnabled (ac_app a) | RCollection \<Rightarrow> app_KVEnabled (ac_app a)
       | RBlobs \<Rightarrow> app_BlobsEnabled (ac_app a) | RBlobObject \<Rightarrow> app_BlobsEnabled (ac_app a)
       | RChat \<Rightarrow> dp_LLM d \<noteq> None | _ \<Rightarrow> False)"
  proof (cases "api_route (req_Method r) (req_EscapedPath r)")
    case RList
    with s eff api_list_effect [of d w a r w' resp] route_methods(2) [OF RList] show ?thesis
      by (simp add: serve_route_def may_act_def)
  next
    case (RKey raw)
    with s eff api_key_effect [of j d w a r raw w' resp] show ?thesis by (simp add: serve_route_def)
  next
    case RCollection
    with s eff api_collection_effect [of j d w a r w' resp] show ?thesis by (simp add: serve_route_def)
  next
    case RBlobs
    with s eff api_blobs_effect [of d w a r w' resp] show ?thesis by (simp add: serve_route_def)
  next
    case RChat
    with s eff api_llmChat_effect [of j d w a r w' resp] route_methods(1) [OF RChat] show ?thesis
      by (simp add: serve_route_def may_act_def)
  next
    case RBlobObject
    with s eff api_blobObject_effect [of j d w a r w' resp] show ?thesis by (simp add: serve_route_def)
  qed (use s eff in \<open>simp_all add: serve_route_def\<close>)
  with a show ?thesis by blast
qed

section \<open>The errors a client can see\<close>

definition api_error_table :: "(int \<times> string \<times> string) list" where
  "api_error_table =
     [(400, ''validation_failed'', ''The request is invalid.''), (400, ''invalid_request'', ''The request is invalid.''),
      (401, ''not_authenticated'', ''This request is not authenticated.''),
      (403, ''not_authorized'', ''This request is not authorized.''),
      (403, ''capability_unavailable'', ''This capability is unavailable.''),
      (404, ''not_found'', ''This resource is not available.''),
      (405, ''validation_failed'', ''The request is invalid.''),
      (409, ''version_conflict'', ''The value changed. Read it and try again.''),
      (409, ''version_conflict'', ''The document changed. Read it and try again.''),
      (415, ''validation_failed'', ''The request is invalid.''),
      (426, ''sdk_version_incompatible'', ''Update @tinkercloud/sdk to a supported version and retry.''),
      (429, ''rate_limited'', ''Too many requests. Try again shortly.''),
      (429, ''quota_exceeded'', ''The app storage limit was reached.''),
      (429, ''quota_exhausted'', ''The app usage limit was reached.''),
      (499, ''cancelled'', ''The request was cancelled.''),
      (503, ''temporarily_unavailable'', ''Tinkercloud is temporarily unavailable.'')]"

definition closed_response :: "string \<Rightarrow> ApiResponse \<Rightarrow> bool" where
  "closed_response q resp \<longleftrightarrow>
     (case as_Body resp of
        ErrorBody code message requestID \<Rightarrow> (as_Status resp, code, message) \<in> set api_error_table \<and> requestID = q
      | _ \<Rightarrow> as_Status resp = 200 \<or> as_Status resp = 201)"

lemma closed_errors [simp]:
  "closed_response (rid a) (invalid a)" "closed_response (rid a) (notFound a)" "closed_response (rid a) (notAuthorized a)"
  "closed_response (rid a) (unavailable a)" "closed_response (rid a) (methodNotAllowed a allow)"
  "closed_response (rid a) (rateLimited a)" "closed_response (rid a) (quotaExceeded a)"
  "closed_response (rid a) (CapabilityUnavailable (rid a))"
  by (simp_all add: closed_response_def api_error_table_def invalid_def notFound_def notAuthorized_def unavailable_def
      methodNotAllowed_def rateLimited_def quotaExceeded_def CapabilityUnavailable_def writeError_def writeJSON_def)

lemma closed_writeError [simp]:
  "closed_response q (writeError st code msg q') \<longleftrightarrow> (st, code, msg) \<in> set api_error_table \<and> q' = q"
  by (simp add: closed_response_def writeError_def writeJSON_def)

lemma closed_ok [simp]:
  "st = 200 \<or> st = 201 \<Longrightarrow> (case b of ErrorBody c m q' \<Rightarrow> False | _ \<Rightarrow> True) \<Longrightarrow> closed_response q (writeJSON st b)"
  by (cases b) (simp_all add: closed_response_def writeJSON_def)

lemma in_table [simp]:
  "(400, ''invalid_request'', ''The request is invalid.'') \<in> set api_error_table"
  "(401, ''not_authenticated'', ''This request is not authenticated.'') \<in> set api_error_table"
  "(409, ''version_conflict'', ''The value changed. Read it and try again.'') \<in> set api_error_table"
  "(409, ''version_conflict'', ''The document changed. Read it and try again.'') \<in> set api_error_table"
  "(415, ''validation_failed'', ''The request is invalid.'') \<in> set api_error_table"
  "(426, ''sdk_version_incompatible'', ''Update @tinkercloud/sdk to a supported version and retry.'') \<in> set api_error_table"
  "(429, ''quota_exhausted'', ''The app usage limit was reached.'') \<in> set api_error_table"
  "(499, ''cancelled'', ''The request was cancelled.'') \<in> set api_error_table"
  by (simp_all add: api_error_table_def)

lemma closed_err [simp]: "closed_response (rid a) (api_err a e)"
  by (induction a e rule: api_err.induct) simp_all

lemma decode_closed: "decode dec a r = Inl resp \<Longrightarrow> closed_response (rid a) resp"
  by (auto simp: decode_def split: if_splits option.splits)

lemma api_me_closed [simp]: "closed_response (rid a) (api_me d a)"
  by (simp add: api_me_def split: option.split)

lemma api_app_closed [simp]: "closed_response (rid a) (api_app d w a)"
  by (simp add: api_app_def split: option.split)

lemma api_capabilities_closed [simp]: "closed_response (rid a) (api_capabilities d w a)"
  by (simp add: api_capabilities_def)

lemma api_list_closed: "closed_response (rid a) (snd (api_list d w a r))"
  by (auto simp: api_list_def split: option.split prod.split sum.split)

lemma api_key_closed: "closed_response (rid a) (snd (api_key j d w a r raw))"
  unfolding api_key_def by (auto split: option.split prod.split sum.split dest: decode_closed)

lemma api_root_get_closed: "closed_response (rid a) (snd (api_root_get c w a r collection))"
  unfolding api_root_get_def by (auto split: option.split prod.split sum.split)

lemma api_root_closed: "closed_response (rid a) (snd (api_collectionRoot j d c w a r collection))"
  unfolding api_collectionRoot_def by (auto simp: api_root_get_closed split: prod.split sum.split dest: decode_closed)

lemma api_document_closed: "closed_response (rid a) (snd (api_collectionDocument j d c w a r collection docid))"
  unfolding api_collectionDocument_def by (auto split: option.split prod.split sum.split dest: decode_closed)

lemma api_collection_closed: "closed_response (rid a) (snd (api_collection j d w a r))"
  unfolding api_collection_def Let_def by (auto simp: api_root_closed api_document_closed split: option.split)

lemma api_blobs_closed: "closed_response (rid a) (snd (api_blobs d w a r))"
  unfolding api_blobs_def Let_def by (auto split: option.split prod.split sum.split)

lemma closed_content [simp]: "closed_response q \<lparr>as_Status = 200, as_Headers = h, as_Body = ContentBody rd\<rparr>"
  by (simp add: closed_response_def)

lemma api_blobObject_closed: "closed_response (rid a) (snd (api_blobObject j d w a r))"
  unfolding api_blobObject_def Let_def by (auto split: option.split prod.split sum.split)

lemma api_llmChat_closed: "closed_response (rid a) (snd (api_llmChat j d w a r))"
  unfolding api_llmChat_def by (auto split: option.split prod.split sum.split)

text \<open>C27. The responses are closed: whatever the services answer, a client sees either a success with status 200 or
  201, or an error whose status, code and message are one of sixteen fixed triples and whose identifier is that of
  its own request; no text of an internal error reaches it.\<close>

theorem api_errors_closed:
  "closed_response (case auth of None \<Rightarrow> [] | Some a \<Rightarrow> ac_requestID a) (snd (ApiDispatch j d w auth r))"
proof (cases auth)
  case None
  then show ?thesis by (simp add: ApiDispatch_def closed_response_def)
next
  case (Some a)
  have "closed_response (rid a) (snd (serve_route j d w a r rt))" for rt
    by (cases rt) (simp_all add: serve_route_def api_list_closed api_key_closed api_collection_closed api_blobs_closed
        api_blobObject_closed api_llmChat_closed)
  with Some show ?thesis by (simp add: ApiDispatch_def)
qed

text \<open>A concrete instance: a service that counts its writes, a write from the app's own origin and one from another.\<close>

definition demo_codecs :: ApiCodecs where
  "demo_codecs = \<lparr>jc_Data = Some, jc_DataVersion = (\<lambda>b. Some (b, None)), jc_ValueVersion = (\<lambda>b. Some (b, None)),
     jc_Version = (\<lambda>b. Some None), jc_Members = (\<lambda>b. None), jc_Items = (\<lambda>b. None), jc_String = Some,
     jc_Int = (\<lambda>b. None), jc_Media = (\<lambda>n. n)\<rparr>"

definition demo_kv_api :: "nat KVApi" where
  "demo_kv_api = \<lparr>ka_Get = (\<lambda>w a k. (w, Inr None)),
     ka_Set = (\<lambda>w a k v x. (Suc w, Inr \<lparr>en_Key = k, en_Value = v, en_Version = 1, en_UpdatedAt = 0\<rparr>)),
     ka_Delete = (\<lambda>w a k x. (w, Inr False)), ka_List = (\<lambda>w a p c n. (w, Inl ErrInvalidListLimit))\<rparr>"

definition demo_dispatcher :: "nat Dispatcher" where
  "demo_dispatcher = \<lparr>dp_KV = Some demo_kv_api, dp_Blobs = None, dp_Collections = None, dp_BlobMaxBytes = 0,
     dp_Capabilities = [], dp_AppSlug = None, dp_Origin = None, dp_LLM = None\<rparr>"

definition demo_put :: "string \<Rightarrow> ApiRequest" where
  "demo_put origin = \<lparr>req_Method = ''PUT'', req_Host = ''notes.example.org'', req_Path = [],
     req_EscapedPath = ''/_tinker/api/v1/kv/a%20b'', req_RequestURI = [],
     req_Header = (\<lambda>h. if h = ''Origin'' then origin else if h = ''Content-Type'' then ''application/json'' else []),
     req_Cookie = (\<lambda>c. None), req_RemoteAddr = [], aq_RawQuery = [], aq_Query = [], aq_Body = ''1'', aq_Part = (\<lambda>n. None)\<rparr>"

definition demo_dispatch :: "string \<Rightarrow> nat \<times> ApiResponse" where
  "demo_dispatch origin = ApiDispatch demo_codecs demo_dispatcher 0 sample_context (demo_put origin)"

theorem api_effects_guarded_witness:
  "fst (demo_dispatch ''https://notes.example.org'') = 1 \<and> may_act demo_dispatcher (demo_put ''https://notes.example.org'')
   \<and> fst (demo_dispatch ''https://evil.example.org'') = 0 \<and> as_Status (snd (demo_dispatch ''https://evil.example.org'')) = 403"
proof -
  have v: "fst (demo_dispatch ''https://notes.example.org'') = 1" "fst (demo_dispatch ''https://evil.example.org'') = 0"
    "as_Status (snd (demo_dispatch ''https://evil.example.org'')) = 403" by code_simp+
  obtain w' resp where d: "demo_dispatch ''https://notes.example.org'' = (w', resp)" by fastforce
  with v have "w' \<noteq> 0" by simp
  from api_effects_guarded [OF d [unfolded demo_dispatch_def] this] v show ?thesis by blast
qed

end
