(* ===== verification/Kv_Sql.thy ===== *)
theory Kv_Sql
  imports KV_Store
begin

text \<open>
  The key-value repository of production, \<open>internal/persistence/kv.go\<close>: one private database per app, one
  transaction per write. It is shown to keep the contract of the service and to implement the memory repository.
  \<open>ok\<close> says that the database could be acquired and no statement nor the commit fails, \<open>gate\<close> that the write gate
  lets growth pass; times are stored and parsed without loss. Versions above the range of a signed 64-bit integer
  are refused by the driver.
\<close>

section \<open>Tables and statements\<close>

record KvRow =
  kr_Value :: string
  kr_Version :: uint64
  kr_Size :: int
  kr_CreatedAt :: time
  kr_UpdatedAt :: time

type_synonym kv_table = "(string, KvRow) gomap"
type_synonym kv_dbs = "(string, kv_table) gomap"

definition kv_rows :: "kv_dbs \<Rightarrow> string \<Rightarrow> kv_table" where
  "kv_rows dbs app = (case map_of dbs app of None \<Rightarrow> [] | Some t \<Rightarrow> t)"

definition row_entry :: "string \<Rightarrow> KvRow \<Rightarrow> KVEntry" where
  "row_entry key r = \<lparr>en_Key = key, en_Value = kr_Value r, en_Version = kr_Version r, en_UpdatedAt = kr_UpdatedAt r\<rparr>"

definition sum_bytes :: "kv_table \<Rightarrow> int" where
  "sum_bytes t = sum_list (map (\<lambda>(k, r). kr_Size r) t)"

definition sql_limits :: "KVLimits \<Rightarrow> KVLimits" where
  "sql_limits l = (if kl_KeyBytes l = 0 then DefaultLimits else l)"

definition sqlGet :: "bool \<Rightarrow> kv_dbs \<Rightarrow> string \<Rightarrow> string \<Rightarrow> kv_error + KVEntry option" where
  "sqlGet ok dbs app key =
     (if \<not> ok then Inl KVStoreError else Inr (map_option (row_entry key) (map_of (kv_rows dbs app) key)))"

definition sqlSet :: "KVLimits \<Rightarrow> bool \<Rightarrow> bool \<Rightarrow> time \<Rightarrow> kv_dbs \<Rightarrow> string \<Rightarrow> string \<Rightarrow> string \<Rightarrow> uint64 option
      \<Rightarrow> kv_dbs \<times> (kv_error + KVEntry)" where
  "sqlSet lim ok gate now dbs app key val expected =
     (if \<not> gate then (dbs, Inl KVStoreError)
      else if \<not> ok then (dbs, Inl KVStoreError)
      else
        let l = sql_limits lim; t = kv_rows dbs app; row = map_of t key; missing = (row = None);
            old = (case row of None \<Rightarrow> 0 | Some r \<Rightarrow> kr_Version r);
            size = (case row of None \<Rightarrow> 0 | Some r \<Rightarrow> kr_Size r) in
        if (case expected of None \<Rightarrow> False | Some v \<Rightarrow> missing \<or> old \<noteq> v) then (dbs, Inl ErrVersionConflict)
        else if (missing \<and> int (length t) \<ge> kl_KeysPerApp l) \<or> sum_bytes t - size + int (length val) > kl_TotalBytesPerApp l
        then (dbs, Inl ErrQuotaExceeded)
        else if unat (old + 1) \<ge> 2 ^ 63 then (dbs, Inl KVStoreError)
        else (AList.update app (AList.update key
                \<lparr>kr_Value = val, kr_Version = old + 1, kr_Size = int (length val),
                 kr_CreatedAt = (case row of None \<Rightarrow> now | Some r \<Rightarrow> kr_CreatedAt r), kr_UpdatedAt = now\<rparr> t) dbs,
              Inr \<lparr>en_Key = key, en_Value = val, en_Version = old + 1, en_UpdatedAt = now\<rparr>))"

definition sqlDelete :: "bool \<Rightarrow> bool \<Rightarrow> kv_dbs \<Rightarrow> string \<Rightarrow> string \<Rightarrow> uint64 option
      \<Rightarrow> kv_dbs \<times> (kv_error + KVMutation option)" where
  "sqlDelete ok gate dbs app key expected =
     (if \<not> gate then (dbs, Inl KVStoreError)
      else if \<not> ok then (dbs, Inl KVStoreError)
      else case map_of (kv_rows dbs app) key of
          None \<Rightarrow> (dbs, if expected \<noteq> None then Inl ErrVersionConflict else Inr None)
        | Some r \<Rightarrow>
            if (case expected of None \<Rightarrow> False | Some v \<Rightarrow> kr_Version r \<noteq> v) then (dbs, Inl ErrVersionConflict)
            else (AList.update app (AList.delete key (kv_rows dbs app)) dbs,
                  Inr (Some \<lparr>mu_Key = key, mu_Value = [], mu_Version = kr_Version r + 1, mu_Deleted = True\<rparr>)))"

text \<open>\<open>substr(key,1,n)\<close> of SQLite counts characters.\<close>

definition sql_substr :: "string \<Rightarrow> nat \<Rightarrow> string" where
  "sql_substr key n = take (sum_list (map snd (take n (runes_nat (bytes key))))) key"

definition sql_keys :: "kv_table \<Rightarrow> string \<Rightarrow> string \<Rightarrow> string list" where
  "sql_keys t pre cursor = sort (filter (\<lambda>k. sql_substr k (length pre) = pre \<and> k > cursor) (map fst t))"

definition sqlList :: "bool \<Rightarrow> kv_dbs \<Rightarrow> string \<Rightarrow> string \<Rightarrow> string \<Rightarrow> int \<Rightarrow> kv_error + KVListResult" where
  "sqlList ok dbs app pre cursor limit =
     (if \<not> ok then Inl KVStoreError
      else
        let t = kv_rows dbs app; rows = take (nat (limit + 1)) (sql_keys t pre cursor);
            entries = map (\<lambda>k. case map_of t k of None \<Rightarrow> zeroEntry | Some r \<Rightarrow> row_entry k r) (take (nat limit) rows) in
        Inr \<lparr>lr_Entries = entries,
             lr_NextCursor = (if int (length rows) > limit then en_Key (last entries) else [])\<rparr>)"

definition sqlRepo :: "KVLimits \<Rightarrow> bool \<Rightarrow> bool \<Rightarrow> time \<Rightarrow> kv_dbs KVRepository" where
  "sqlRepo lim ok gate now =
     \<lparr>repo_Get = sqlGet ok, repo_Set = sqlSet lim ok gate now, repo_Delete = sqlDelete ok gate, repo_List = sqlList ok\<rparr>"

section \<open>The contract of the service\<close>

definition sql_look :: "kv_dbs \<Rightarrow> string \<Rightarrow> string \<Rightarrow> KVEntry option" where
  "sql_look dbs app key = map_option (row_entry key) (map_of (kv_rows dbs app) key)"

lemma kv_rows_update [simp]: "kv_rows (AList.update app t dbs) a = (if a = app then t else kv_rows dbs a)"
  by (simp add: kv_rows_def gomap_simps)

interpretation sql_kv: kv_repository "sqlRepo lim ok gate now" sql_look for lim ok gate now
proof unfold_locales
  fix st app key val exp st' e a k
  assume "repo_Set (sqlRepo lim ok gate now) st app key val exp = (st', Inr e)"
  then show "sql_look st' a k = (if a = app \<and> k = key then Some e else sql_look st a k)
      \<and> en_Key e = key \<and> en_Value e = val
      \<and> en_Version e = (case sql_look st app key of None \<Rightarrow> 0 | Some old \<Rightarrow> en_Version old) + 1
      \<and> (exp = None \<or> map_option en_Version (sql_look st app key) = exp)"
    by (auto simp: sqlRepo_def sqlSet_def sql_look_def row_entry_def Let_def gomap_simps split: if_splits option.splits)
next
  fix st app key val exp st' err a k
  assume "repo_Set (sqlRepo lim ok gate now) st app key val exp = (st', Inl err)"
  then show "sql_look st' a k = sql_look st a k"
    by (auto simp: sqlRepo_def sqlSet_def Let_def split: if_splits)
qed (auto simp: sqlRepo_def sqlGet_def sqlDelete_def sql_look_def row_entry_def gomap_simps split: option.splits if_splits)

section \<open>The memory repository is implemented\<close>

definition abs_table :: "kv_table \<Rightarrow> (string, KVEntry) gomap" where
  "abs_table t = map (\<lambda>(k, r). (k, row_entry k r)) t"

definition kv_sim :: "kv_dbs \<Rightarrow> kv_apps \<Rightarrow> bool" where
  "kv_sim dbs apps \<longleftrightarrow>
     (\<forall>app. app_entries apps app = abs_table (kv_rows dbs app) \<and> gm_wf (kv_rows dbs app)
        \<and> list_all (\<lambda>(k, r). kr_Size r = int (length (kr_Value r))) (kv_rows dbs app))"

lemma map_of_abs: "map_of (abs_table t) k = map_option (row_entry k) (map_of t k)"
  by (induction t) (auto simp: abs_table_def)

lemma abs_table_update: "abs_table (AList.update k r t) = AList.update k (row_entry k r) (abs_table t)"
  by (induction t) (auto simp: abs_table_def)

lemma abs_table_delete: "abs_table (AList.delete k t) = AList.delete k (abs_table t)"
  by (induction t) (auto simp: abs_table_def)

lemma abs_table_shape [simp]: "length (abs_table t) = length t" "map fst (abs_table t) = map fst t"
  by (simp_all add: abs_table_def comp_def case_prod_unfold)

lemma total_bytes_abs:
  "list_all (\<lambda>(k, r). kr_Size r = int (length (kr_Value r))) t \<Longrightarrow> total_bytes (abs_table t) = sum_bytes t"
  by (induction t) (auto simp: abs_table_def total_bytes_def sum_bytes_def row_entry_def)

lemma row_size:
  "list_all (\<lambda>(k, r). kr_Size r = int (length (kr_Value r))) t \<Longrightarrow> map_of t k = Some r \<Longrightarrow> kr_Size r = int (length (kr_Value r))"
  by (auto simp: list_all_iff dest: map_of_SomeD)

lemma sizes_update:
  "list_all P t \<Longrightarrow> P (k, r) \<Longrightarrow> list_all P (AList.update k r t)"
  using set_update_subset [of k r t] by (auto simp: list_all_iff)

lemma sizes_delete: "list_all P t \<Longrightarrow> list_all P (AList.delete k t)"
  by (induction t) auto

lemma sim_set:
  assumes sim: "kv_sim dbs apps" and lim: "kl_KeyBytes lim \<noteq> 0"
    and run: "sqlSet lim True True now dbs app key val expected = (dbs', r)" and r: "r \<noteq> Inl KVStoreError"
  shows "snd (memSet lim now apps app key val expected) = r \<and> kv_sim dbs' (fst (memSet lim now apps app key val expected))"
proof -
  let ?t = "kv_rows dbs app" and ?apps = "case map_of apps app of None \<Rightarrow> AList.update app [] apps | Some _ \<Rightarrow> apps"
  from sim have t: "app_entries apps app = abs_table ?t" "gm_wf ?t"
    "list_all (\<lambda>(k, r). kr_Size r = int (length (kr_Value r))) ?t" by (simp_all add: kv_sim_def)
  have e: "app_entries ?apps a = app_entries apps a" for a by (rule app_entries_fresh)
  have fresh: "kv_sim dbs ?apps" using sim by (simp add: kv_sim_def e)
  have old: "(case map_of (abs_table ?t) key of None \<Rightarrow> zeroEntry | Some x \<Rightarrow> x) =
      (case map_of ?t key of None \<Rightarrow> zeroEntry | Some x \<Rightarrow> row_entry key x)" by (simp add: map_of_abs split: option.split)
  have size: "map_of ?t key = Some x \<Longrightarrow> kr_Size x = int (length (kr_Value x))" for x by (rule row_size [OF t(3)])
  show ?thesis
  proof (cases r)
    case (Inl err)
    with run have "dbs' = dbs" by (auto simp: sqlSet_def Let_def split: if_splits)
    moreover have "memSet lim now apps app key val expected = (?apps, Inl err)"
      using run r Inl size lim
      by (cases "map_of ?t key")
        (auto simp: sqlSet_def memSet_def Let_def e t(1) map_of_abs sql_limits_def total_bytes_abs [OF t(3)] row_entry_def
          zeroEntry_def split: if_splits option.splits)
    ultimately show ?thesis using fresh Inl by simp
  next
    case (Inr entry)
    let ?v = "case map_of ?t key of None \<Rightarrow> 0 | Some x \<Rightarrow> kr_Version x"
    let ?row = "\<lparr>kr_Value = val, kr_Version = ?v + 1, kr_Size = int (length val),
        kr_CreatedAt = (case map_of ?t key of None \<Rightarrow> now | Some x \<Rightarrow> kr_CreatedAt x), kr_UpdatedAt = now\<rparr>"
    have d: "dbs' = AList.update app (AList.update key ?row ?t) dbs" "entry = row_entry key ?row"
      using run Inr by (auto simp: sqlSet_def Let_def row_entry_def split: if_splits)
    have m: "memSet lim now apps app key val expected = (AList.update app (AList.update key entry (abs_table ?t)) ?apps, Inr entry)"
      using run Inr size lim d(2)
      by (cases "map_of ?t key")
        (auto simp: sqlSet_def memSet_def Let_def e t(1) map_of_abs sql_limits_def total_bytes_abs [OF t(3)] row_entry_def
          zeroEntry_def split: if_splits option.splits)
    have "kv_sim dbs' (AList.update app (AList.update key entry (abs_table ?t)) ?apps)"
      using fresh t sizes_update [OF t(3), of key ?row] unfolding kv_sim_def d
      by (auto simp: app_entries_update abs_table_update)
    with m Inr show ?thesis by simp
  qed
qed

lemma sim_delete:
  assumes sim: "kv_sim dbs apps" and run: "sqlDelete True True dbs app key expected = (dbs', r)"
  shows "snd (memDelete apps app key expected) = r \<and> kv_sim dbs' (fst (memDelete apps app key expected))"
proof -
  from sim have t: "app_entries apps app = abs_table (kv_rows dbs app)" "gm_wf (kv_rows dbs app)"
    "list_all (\<lambda>(k, r). kr_Size r = int (length (kr_Value r))) (kv_rows dbs app)" by (simp_all add: kv_sim_def)
  have "kv_sim (AList.update app (AList.delete key (kv_rows dbs app)) dbs)
      (AList.update app (AList.delete key (abs_table (kv_rows dbs app))) apps)"
    using sim t sizes_delete [OF t(3)] unfolding kv_sim_def by (auto simp: app_entries_update abs_table_delete)
  with sim run t show ?thesis
    by (cases "map_of (kv_rows dbs app) key")
      (auto simp: sqlDelete_def memDelete_def map_of_abs row_entry_def simp del: map_of_eq_Some_iff
        split: if_splits option.splits)
qed

text \<open>For an ASCII prefix characters are bytes.\<close>

lemma runes_nat_ascii_append:
  "list_all (\<lambda>b. b < 0x80) p \<Longrightarrow> runes_nat (p @ q) = map (\<lambda>b. (b, 1)) p @ runes_nat q"
proof (induction p)
  case (Cons b p)
  then have "decode_rune (b # p @ q) = (b, 1)" by (simp add: decode_rune_def)
  with Cons show ?case by (subst append_Cons) (subst runes_nat_ne, simp, simp)
qed simp

lemma sql_substr_ascii: "is_ascii pre \<Longrightarrow> sql_substr key (length pre) = pre \<longleftrightarrow> HasPrefix key pre"
proof
  assume "sql_substr key (length pre) = pre"
  then show "HasPrefix key pre" by (metis HasPrefix_def sql_substr_def take_is_prefix)
next
  assume a: "is_ascii pre" and "HasPrefix key pre"
  then obtain rest where k: "key = pre @ rest" by (auto simp: HasPrefix_def prefix_def)
  have "list_all (\<lambda>b. b < 0x80) (bytes pre)" using a by (auto simp: is_ascii_def bytes_def list_all_iff)
  then have "runes_nat (bytes key) = map (\<lambda>b. (b, 1)) (bytes pre) @ runes_nat (bytes rest)"
    by (simp add: k bytes_def runes_nat_ascii_append)
  moreover have "length (bytes pre) = length pre" by (simp add: bytes_def)
  ultimately show "sql_substr key (length pre) = pre"
    by (simp add: sql_substr_def k comp_def sum_list_triv)
qed

lemma sim_list:
  assumes sim: "kv_sim dbs apps" and "is_ascii pre" "1 \<le> limit"
  shows "sqlList True dbs app pre cursor limit = memList apps app pre cursor limit"
proof -
  let ?t = "kv_rows dbs app"
  from sim have t: "app_entries apps app = abs_table ?t" by (simp add: kv_sim_def)
  have keys: "sql_keys ?t pre cursor = list_keys (abs_table ?t) pre cursor"
    using assms(2) by (simp add: sql_keys_def list_keys_def sql_substr_ascii)
  let ?ks = "list_keys (abs_table ?t) pre cursor"
  have entry: "(case map_of ?t k of None \<Rightarrow> zeroEntry | Some r \<Rightarrow> row_entry k r) = entry_at (abs_table ?t) k" for k
    by (simp add: entry_at_def map_of_abs split: option.split)
  have key: "en_Key (entry_at (abs_table ?t) k) = k" if "k \<in> set ?ks" for k
  proof -
    from that have "map_of ?t k \<noteq> None" unfolding map_of_neq_None by (auto simp: list_keys_def)
    then show ?thesis by (auto simp: entry_at_def map_of_abs row_entry_def)
  qed
  have n: "nat limit = Suc (nat (limit - 1))" "nat (limit + 1) = Suc (nat limit)" using assms(3) by simp_all
  have page: "memList apps app pre cursor limit = Inr \<lparr>lr_Entries = map (entry_at (abs_table ?t)) (take (nat limit) ?ks),
      lr_NextCursor = (if int (length ?ks) > limit then ?ks ! nat (limit - 1) else [])\<rparr>"
    using assms(3) list_page_eq [of 0 limit "abs_table ?t" None ?ks "[]"] by (simp add: memList_def t)
  have more: "int (length (take (nat (limit + 1)) ?ks)) > limit \<longleftrightarrow> int (length ?ks) > limit"
    using assms(3) by auto
  have last: "en_Key (last (map (entry_at (abs_table ?t)) (take (nat limit) ?ks))) = ?ks ! nat (limit - 1)"
    if "int (length ?ks) > limit"
  proof -
    have len: "nat (limit - 1) < length ?ks" "take (nat limit) ?ks \<noteq> []" using that assms(3) by auto
    then have "last (take (nat limit) ?ks) = ?ks ! nat (limit - 1)"
      unfolding n(1) by (simp add: take_Suc_conv_app_nth)
    then show ?thesis using key [OF nth_mem [OF len(1)]] len by (simp add: last_map)
  qed
  have take: "take (nat limit) (take (nat (limit + 1)) ?ks) = take (nat limit) ?ks"
    by (simp add: min_def n(2))
  show ?thesis
    unfolding sqlList_def Let_def keys entry take page using more last by (simp cong: if_cong)
qed

text \<open>C29. The repository of production implements the memory repository while its database does not fail: on databases
  that hold the same entries, a read gives the same answer, a write or a deletion gives the same answer and again the
  same entries (unless the version leaves the range of the database), and a page is the same for every ASCII prefix
  and every limit of at least one.\<close>

theorem sql_kv_refines_memory:
  assumes "kv_sim dbs apps" "kl_KeyBytes lim \<noteq> 0"
  shows "sqlGet True dbs app key = memGet apps app key
    \<and> (case sqlSet lim True True now dbs app key val expected of (dbs', r) \<Rightarrow>
         r = Inl KVStoreError \<or>
         snd (memSet lim now apps app key val expected) = r \<and> kv_sim dbs' (fst (memSet lim now apps app key val expected)))
    \<and> (case sqlDelete True True dbs app key expected of (dbs', r) \<Rightarrow>
         snd (memDelete apps app key expected) = r \<and> kv_sim dbs' (fst (memDelete apps app key expected)))
    \<and> (is_ascii pre \<longrightarrow> 1 \<le> limit \<longrightarrow> sqlList True dbs app pre cursor limit = memList apps app pre cursor limit)"
  using sim_set [OF assms] sim_delete [OF assms(1)] sim_list [OF assms(1)] assms(1)
  by (auto simp: sqlGet_def memGet_def kv_sim_def map_of_abs split: prod.split)

text \<open>A prefix that is not ASCII misses keys: the database compares as many characters as the prefix has bytes. The
  prefix here is one character of two bytes, the key that character and a digit.\<close>

definition demo_dbs :: kv_dbs where
  "demo_dbs = [(''a1'', [([CHR 0xC3, CHR 0xA9, CHR ''1''],
     \<lparr>kr_Value = ''7'', kr_Version = 1, kr_Size = 1, kr_CreatedAt = 1, kr_UpdatedAt = 1\<rparr>)])]"

definition demo_apps :: kv_apps where
  "demo_apps = [(''a1'', [([CHR 0xC3, CHR 0xA9, CHR ''1''],
     \<lparr>en_Key = [CHR 0xC3, CHR 0xA9, CHR ''1''], en_Value = ''7'', en_Version = 1, en_UpdatedAt = 1\<rparr>)])]"

lemma sql_list_misses_keys:
  "sqlList True demo_dbs ''a1'' [CHR 0xC3, CHR 0xA9] [] 10 = Inr \<lparr>lr_Entries = [], lr_NextCursor = []\<rparr>
   \<and> (case memList demo_apps ''a1'' [CHR 0xC3, CHR 0xA9] [] 10 of Inl e \<Rightarrow> False | Inr p \<Rightarrow> length (lr_Entries p) = 1)"
  by code_simp

theorem sql_kv_refines_memory_witness:
  "kv_sim demo_dbs demo_apps
   \<and> sqlList True demo_dbs ''a1'' [] [] 10 = memList demo_apps ''a1'' [] [] 10
   \<and> snd (memSet DefaultLimits 5 demo_apps ''a1'' ''k'' ''8'' None) = snd (sqlSet DefaultLimits True True 5 demo_dbs ''a1'' ''k'' ''8'' None)"
proof -
  have sim: "kv_sim demo_dbs demo_apps"
    by (auto simp: kv_sim_def demo_dbs_def demo_apps_def app_entries_def kv_rows_def abs_table_def row_entry_def)
  have lim: "kl_KeyBytes DefaultLimits \<noteq> 0" by (simp add: DefaultLimits_def)
  have ok: "snd (sqlSet DefaultLimits True True 5 demo_dbs ''a1'' ''k'' ''8'' None) \<noteq> Inl KVStoreError" by code_simp
  obtain dbs' r where s: "sqlSet DefaultLimits True True 5 demo_dbs ''a1'' ''k'' ''8'' None = (dbs', r)" by fastforce
  note inst = sql_kv_refines_memory [OF sim lim, of "''a1''" "''k''" 5 "''8''" None "[]" 10 "[]"]
  from inst have "snd (memSet DefaultLimits 5 demo_apps ''a1'' ''k'' ''8'' None) = r" using ok unfolding s by simp
  with inst sim s show ?thesis by (simp add: is_ascii_def)
qed

end
