(* ===== verification/Collections_Sql.thy ===== *)
theory Collections_Sql
  imports Collections_Service
begin

text \<open>
  The document repository of production, \<open>internal/persistence/collections.go\<close>, over the private database of each
  app (\<open>internal/persistence/app_database.go\<close>). A write is one transaction. A list is two queries: the rows, and
  the revision once the rows are read; between them other transactions may commit (\<open>race\<close>), and both need a
  connection of a pool that holds one. \<open>ok\<close> says that the database could be acquired and no statement nor the
  commit fails, \<open>gate\<close> that the write gate lets growth pass.
\<close>

section \<open>Tables\<close>

record DocRow =
  dr_Data :: string
  dr_Version :: uint64
  dr_Size :: int
  dr_CreatedAt :: time
  dr_UpdatedAt :: time

text \<open>\<open>documents\<close> with its primary key, and \<open>collection_revisions\<close>.\<close>

record ColDb =
  cd_docs :: "(string \<times> string, DocRow) gomap"
  cd_revs :: "(string, uint64) gomap"

type_synonym col_dbs = "(string, ColDb) gomap"

definition empty_db :: ColDb where "empty_db = \<lparr>cd_docs = [], cd_revs = []\<rparr>"

definition col_db :: "col_dbs \<Rightarrow> string \<Rightarrow> ColDb" where
  "col_db dbs app = (case map_of dbs app of None \<Rightarrow> empty_db | Some d \<Rightarrow> d)"

definition repo_limits :: "ColLimits \<Rightarrow> ColLimits" where
  "repo_limits l = (if cl_CollectionBytes l = 0 then ColDefaultLimits else l)"

definition docs_in :: "string \<Rightarrow> ColDb \<Rightarrow> ((string \<times> string) \<times> DocRow) list" where
  "docs_in c db = filter (\<lambda>x. fst (fst x) = c) (cd_docs db)"

definition doc_bytes :: "ColDb \<Rightarrow> int" where
  "doc_bytes db = sum_list (map (\<lambda>x. dr_Size (snd x)) (cd_docs db))"

definition live_collections :: "ColDb \<Rightarrow> nat" where
  "live_collections db = length (remdups (map (fst \<circ> fst) (cd_docs db)))"

section \<open>Writes\<close>

text \<open>\<open>None\<close> is a revision outside the range of the column.\<close>

definition next_revision :: "ColDb \<Rightarrow> string \<Rightarrow> uint64" where
  "next_revision db c = (case map_of (cd_revs db) c of None \<Rightarrow> 1 | Some r \<Rightarrow> r + 1)"

definition incrementCollectionRevision :: "ColDb \<Rightarrow> string \<Rightarrow> (ColDb \<times> uint64) option" where
  "incrementCollectionRevision db c =
     (let r = next_revision db c in
      if unat r \<ge> 2 ^ 63 then None else Some (db\<lparr>cd_revs := AList.update c r (cd_revs db)\<rparr>, r))"

definition put_db :: "col_dbs \<Rightarrow> string \<Rightarrow> ColDb \<Rightarrow> col_dbs" where
  "put_db dbs app db = AList.update app db dbs"

text \<open>The end of every write: the revision, the commit and the mutation.\<close>

definition commit_write :: "col_dbs \<Rightarrow> string \<Rightarrow> ColDb \<Rightarrow> string \<Rightarrow> string \<Rightarrow> uint64 \<Rightarrow> bool \<Rightarrow> 'x
      \<Rightarrow> col_dbs \<times> (col_error + 'x \<times> ColMutation)" where
  "commit_write dbs app db c docid version deleted x =
     (case incrementCollectionRevision db c of
        None \<Rightarrow> (dbs, Inl ColStoreError)
      | Some (db', rv) \<Rightarrow>
          (put_db dbs app db',
           Inr (x, \<lparr>cm_Collection = c, cm_ID = docid, cm_Version = version, cm_Deleted = deleted, cm_Revision = rv\<rparr>)))"

definition sqlCreate :: "ColLimits \<Rightarrow> bool \<Rightarrow> bool \<Rightarrow> time \<Rightarrow> col_dbs \<Rightarrow> string \<Rightarrow> string \<Rightarrow> Document
      \<Rightarrow> col_dbs \<times> (col_error + Document \<times> ColMutation)" where
  "sqlCreate lim ok gate now dbs app c d =
     (if \<not> gate then (dbs, Inl ColStoreError)
      else if \<not> ok then (dbs, Inl ColStoreError)
      else
        let l = repo_limits lim; db = col_db dbs app; n = int (length (docs_in c db)) in
        if n \<ge> cl_DocumentsPerCollection l \<or> doc_bytes db + int (length (doc_Data d)) > cl_TotalBytesPerApp l
        then (dbs, Inl ErrColQuotaExceeded)
        else if n = 0 \<and> int (live_collections db) \<ge> cl_CollectionsPerApp l then (dbs, Inl ErrColQuotaExceeded)
        else if map_of (cd_docs db) (c, doc_ID d) \<noteq> None then (dbs, Inl ColStoreError)
        else
          let out = \<lparr>doc_ID = doc_ID d, doc_Data = doc_Data d, doc_Version = 1, doc_CreatedAt = now, doc_UpdatedAt = now\<rparr>;
              row = \<lparr>dr_Data = doc_Data d, dr_Version = 1, dr_Size = int (length (doc_Data d)), dr_CreatedAt = now, dr_UpdatedAt = now\<rparr>
          in commit_write dbs app (db\<lparr>cd_docs := AList.update (c, doc_ID d) row (cd_docs db)\<rparr>) c (doc_ID d) 1 False out)"

definition sqlUpdate :: "ColLimits \<Rightarrow> bool \<Rightarrow> bool \<Rightarrow> time \<Rightarrow> col_dbs \<Rightarrow> string \<Rightarrow> string \<Rightarrow> string \<Rightarrow> string \<Rightarrow> uint64 option
      \<Rightarrow> col_dbs \<times> (col_error + Document \<times> ColMutation)" where
  "sqlUpdate lim ok gate now dbs app c docid dat expected =
     (if \<not> gate then (dbs, Inl ColStoreError)
      else if \<not> ok then (dbs, Inl ColStoreError)
      else
        let l = repo_limits lim; db = col_db dbs app in
        case map_of (cd_docs db) (c, docid) of
          None \<Rightarrow> (dbs, Inl ErrColVersionConflict)
        | Some old \<Rightarrow>
            if (case expected of None \<Rightarrow> False | Some v \<Rightarrow> dr_Version old \<noteq> v) then (dbs, Inl ErrColVersionConflict)
            else if doc_bytes db - dr_Size old + int (length dat) > cl_TotalBytesPerApp l then (dbs, Inl ErrColQuotaExceeded)
            else if unat (dr_Version old + 1) \<ge> 2 ^ 63 then (dbs, Inl ColStoreError)
            else
              let out = \<lparr>doc_ID = docid, doc_Data = dat, doc_Version = dr_Version old + 1, doc_CreatedAt = dr_CreatedAt old, doc_UpdatedAt = now\<rparr>;
                  row = \<lparr>dr_Data = dat, dr_Version = dr_Version old + 1, dr_Size = int (length dat),
                         dr_CreatedAt = dr_CreatedAt old, dr_UpdatedAt = now\<rparr>
              in commit_write dbs app (db\<lparr>cd_docs := AList.update (c, docid) row (cd_docs db)\<rparr>) c docid (dr_Version old + 1) False out)"

abbreviation zero_mutation :: ColMutation where
  "zero_mutation \<equiv> \<lparr>cm_Collection = [], cm_ID = [], cm_Version = 0, cm_Deleted = False, cm_Revision = 0\<rparr>"

definition sqlColDelete :: "bool \<Rightarrow> bool \<Rightarrow> col_dbs \<Rightarrow> string \<Rightarrow> string \<Rightarrow> string \<Rightarrow> uint64 option
      \<Rightarrow> col_dbs \<times> (col_error + bool \<times> ColMutation)" where
  "sqlColDelete ok gate dbs app c docid expected =
     (if \<not> gate then (dbs, Inl ColStoreError)
      else if \<not> ok then (dbs, Inl ColStoreError)
      else
        let db = col_db dbs app in
        case map_of (cd_docs db) (c, docid) of
          None \<Rightarrow> (dbs, if expected \<noteq> None then Inl ErrColVersionConflict else Inr (False, zero_mutation))
        | Some old \<Rightarrow>
            if (case expected of None \<Rightarrow> False | Some v \<Rightarrow> dr_Version old \<noteq> v) then (dbs, Inl ErrColVersionConflict)
            else commit_write dbs app (db\<lparr>cd_docs := AList.delete (c, docid) (cd_docs db)\<rparr>) c docid (dr_Version old + 1) True True)"

section \<open>Reads\<close>

definition row_document :: "string \<Rightarrow> DocRow \<Rightarrow> Document" where
  "row_document docid r =
     \<lparr>doc_ID = docid, doc_Data = dr_Data r, doc_Version = dr_Version r, doc_CreatedAt = dr_CreatedAt r, doc_UpdatedAt = dr_UpdatedAt r\<rparr>"

definition sqlColGet :: "bool \<Rightarrow> col_dbs \<Rightarrow> string \<Rightarrow> string \<Rightarrow> string \<Rightarrow> col_error + Document option" where
  "sqlColGet ok dbs app c docid =
     (if \<not> ok then Inl ColStoreError
      else Inr (map_option (row_document docid) (map_of (cd_docs (col_db dbs app)) (c, docid))))"

definition collectionRevision :: "ColDb \<Rightarrow> string \<Rightarrow> uint64" where
  "collectionRevision db c = (case map_of (cd_revs db) c of None \<Rightarrow> 0 | Some r \<Rightarrow> r)"

text \<open>The rows of the page query, in order of their ids, at most \<open>limit + 1\<close>.\<close>

definition page_rows :: "ColDb \<Rightarrow> string \<Rightarrow> string \<Rightarrow> int \<Rightarrow> Document list" where
  "page_rows db c cursor limit =
     take (nat (limit + 1)) (sort_key doc_ID
       (map (\<lambda>x. row_document (snd (fst x)) (snd x)) (filter (\<lambda>x. snd (fst x) > cursor) (docs_in c db))))"

text \<open>\<open>db.SetMaxOpenConns\<close> of \<open>openAppDatabase\<close>.\<close>

definition maxOpenConns :: nat where "maxOpenConns = 1"

text \<open>The loop over the rows. The result set keeps its connection until a call of \<open>Next\<close> finds no further row; a
  loop that leaves early keeps it until the deferred \<open>Close\<close>, after the function. Returned are the documents, the
  cursor and whether the connection is back.\<close>

fun scan_rows :: "int \<Rightarrow> Document list \<Rightarrow> Document list \<Rightarrow> Document list \<times> string \<times> bool" where
  "scan_rows limit out [] = (out, [], True)"
| "scan_rows limit out (d # ds) =
     (if int (length out) = limit then (out, doc_ID (last out), False) else scan_rows limit (out @ [d]) ds)"

text \<open>A query that finds no free connection waits until the context of its request ends.\<close>

definition sqlColList :: "bool \<Rightarrow> (ColDb \<Rightarrow> ColDb) \<Rightarrow> col_dbs \<Rightarrow> string \<Rightarrow> string \<Rightarrow> string \<Rightarrow> int \<Rightarrow> col_error + ColListResult" where
  "sqlColList ok race dbs app c cursor limit =
     (if \<not> ok then Inl ColStoreError
      else
        case scan_rows limit [] (page_rows (col_db dbs app) c cursor limit) of
          (docs, next_cursor, closed) \<Rightarrow>
            let free = (if closed then maxOpenConns else maxOpenConns - 1) in
            if free = 0 then Inl ColContextDone
            else Inr \<lparr>cr_Documents = docs, cr_NextCursor = next_cursor,
                      cr_Revision = collectionRevision (race (col_db dbs app)) c\<rparr>)"

definition sqlColSnapshot :: "bool \<Rightarrow> (ColDb \<Rightarrow> ColDb) \<Rightarrow> col_dbs \<Rightarrow> string \<Rightarrow> string \<Rightarrow> int \<Rightarrow> col_error + ColSnapshot" where
  "sqlColSnapshot ok race dbs app c limit =
     (case sqlColList ok race dbs app c [] limit of
        Inl e \<Rightarrow> Inl e
      | Inr p \<Rightarrow>
          if cr_NextCursor p \<noteq> [] then Inl ErrSnapshotTooLarge
          else Inr \<lparr>sn_Collection = c, sn_Documents = cr_Documents p, sn_Revision = cr_Revision p\<rparr>)"

definition sqlColRepo :: "ColLimits \<Rightarrow> bool \<Rightarrow> bool \<Rightarrow> time \<Rightarrow> (ColDb \<Rightarrow> ColDb) \<Rightarrow> col_dbs ColRepository" where
  "sqlColRepo lim ok gate now race =
     \<lparr>cr_Create = sqlCreate lim ok gate now, cr_Get = sqlColGet ok, cr_Update = sqlUpdate lim ok gate now,
      cr_Delete = sqlColDelete ok gate, cr_List = sqlColList ok race, cr_Snapshot = sqlColSnapshot ok race\<rparr>"

section \<open>A list waits for its own connection\<close>

lemma scan_rows_eq:
  "length out \<le> nat limit \<Longrightarrow> 0 \<le> limit \<Longrightarrow>
     scan_rows limit out ds =
       (if length out + length ds \<le> nat limit then (out @ ds, [], True)
        else (take (nat limit) (out @ ds), doc_ID (last (take (nat limit) (out @ ds))), False))"
proof (induction ds arbitrary: out)
  case (Cons d ds)
  show ?case
  proof (cases "int (length out) = limit")
    case True
    then have "nat limit = length out" by simp
    with True show ?thesis by simp
  next
    case False
    with Cons.prems have "length (out @ [d]) \<le> nat limit" by auto
    from Cons.IH [OF this Cons.prems(2)] False show ?thesis by simp
  qed
qed simp

text \<open>The documents after the cursor, by id.\<close>

definition rest_of :: "ColDb \<Rightarrow> string \<Rightarrow> string \<Rightarrow> Document list" where
  "rest_of db c cursor =
     sort_key doc_ID (map (\<lambda>x. row_document (snd (fst x)) (snd x)) (filter (\<lambda>x. snd (fst x) > cursor) (docs_in c db)))"

text \<open>C30. A list of documents returns everything that is left or nothing at all: if the documents behind the cursor fit
  into the limit it answers with all of them, in order, and no cursor; if one more is left, the revision query
  waits for the only connection, which the unfinished result set of the same request holds, until the request is
  given up. So no answer ever carries a cursor, and no snapshot is refused as too large.\<close>

theorem col_list_all_or_blocked:
  assumes "1 \<le> limit"
  shows "sqlColList True race dbs app c cursor limit =
      (if int (length (rest_of (col_db dbs app) c cursor)) \<le> limit
       then Inr \<lparr>cr_Documents = rest_of (col_db dbs app) c cursor, cr_NextCursor = [],
                 cr_Revision = collectionRevision (race (col_db dbs app)) c\<rparr>
       else Inl ColContextDone)
    \<and> sqlColSnapshot True race dbs app c limit \<noteq> Inl ErrSnapshotTooLarge"
proof -
  have list: "sqlColList True race dbs app c cur limit =
      (if int (length (rest_of (col_db dbs app) c cur)) \<le> limit
       then Inr \<lparr>cr_Documents = rest_of (col_db dbs app) c cur, cr_NextCursor = [],
                 cr_Revision = collectionRevision (race (col_db dbs app)) c\<rparr>
       else Inl ColContextDone)" for cur
  proof -
    have p: "page_rows (col_db dbs app) c cur limit = take (nat (limit + 1)) (rest_of (col_db dbs app) c cur)"
      by (simp add: page_rows_def rest_of_def)
    show ?thesis
    proof (cases "int (length (rest_of (col_db dbs app) c cur)) \<le> limit")
      case True
      then have "take (nat (limit + 1)) (rest_of (col_db dbs app) c cur) = rest_of (col_db dbs app) c cur"
        "length (rest_of (col_db dbs app) c cur) \<le> nat limit" by auto
      with assms True show ?thesis by (simp add: sqlColList_def p scan_rows_eq maxOpenConns_def)
    next
      case False
      then have "\<not> length (take (nat (limit + 1)) (rest_of (col_db dbs app) c cur)) \<le> nat limit"
        using assms by auto
      with assms False show ?thesis by (simp add: sqlColList_def p scan_rows_eq maxOpenConns_def del: length_take)
    qed
  qed
  have "sqlColSnapshot True race dbs app c limit \<noteq> Inl ErrSnapshotTooLarge"
    by (simp add: sqlColSnapshot_def list)
  with list show ?thesis by blast
qed

definition demo_row :: "string \<Rightarrow> DocRow" where
  "demo_row d = \<lparr>dr_Data = d, dr_Version = 1, dr_Size = int (length d), dr_CreatedAt = 1, dr_UpdatedAt = 1\<rparr>"

definition demo_cols :: col_dbs where
  "demo_cols = [(''a1'', \<lparr>cd_docs = [((''notes'', ''doc_b''), demo_row ''{}''), ((''notes'', ''doc_a''), demo_row ''{ }'')],
     cd_revs = [(''notes'', 2)]\<rparr>)]"

theorem col_list_all_or_blocked_witness:
  "sqlColList True (\<lambda>d. d) demo_cols ''a1'' ''notes'' [] 1 = Inl ColContextDone
   \<and> map doc_ID (rest_of (col_db demo_cols ''a1'') ''notes'' []) = [''doc_a'', ''doc_b'']"
proof -
  have r: "map doc_ID (rest_of (col_db demo_cols ''a1'') ''notes'' []) = [''doc_a'', ''doc_b'']" by code_simp
  then have "length (rest_of (col_db demo_cols ''a1'') ''notes'' []) = 2"
    by (metis length_map length_Cons list.size(3) numeral_2_eq_2)
  with col_list_all_or_blocked [of 1 "\<lambda>d. d" demo_cols "''a1''" "''notes''" "[]"] r show ?thesis by simp
qed

text \<open>The revision of a list can be newer than its documents: here another request deletes a document between the two
  queries, and the answer shows the document under the revision of its deletion.\<close>

lemma col_list_revision_race:
  "(case sqlColList True (\<lambda>db. db\<lparr>cd_docs := [], cd_revs := [(''notes'', 4)]\<rparr>) demo_cols ''a1'' ''notes'' [] 10 of
      Inl e \<Rightarrow> False
    | Inr p \<Rightarrow> map doc_ID (cr_Documents p) = [''doc_a'', ''doc_b''] \<and> cr_Revision p = 4)"
  by code_simp

end
