(* ===== verification/Global_Identity.thy ===== *)
theory Global_Identity
  imports Gateway_Model Otp_Challenge
begin

text \<open>
  The global browser identity, \<open>internal/persistence/global_identity.go\<close>, with the one-time codes of
  \<open>internal/persistence/otp.go\<close> and the app sessions of \<open>internal/persistence/app_sessions.go\<close> it issues. A
  browser that proves an e-mail address gets an identity session on the platform host; an app host opens a
  handoff, the platform authorizes it with that identity and the app host consumes it for an app session of its own.

  The state \<open>IdDb\<close> holds the tables the code reads and writes, keyed by their primary keys. A transaction
  (\<open>write_tx\<close>) keeps its changes exactly if its body succeeds. Unique columns and the partial unique index on
  the browser binding are checks of the inserts and updates; other errors of the database engine, and columns
  whose text is not a time or a digest, are not modelled. Columns of times hold the time itself. SHA-256 and HMAC are
  the parameters \<open>sha\<close> and \<open>mac\<close>, \<open>url.Parse\<close> is \<open>url_parse\<close>, and every read of the random source is an
  argument.
\<close>

section \<open>Tables\<close>

record AppRow =
  ar_Slug :: string
  ar_Status :: string
  ar_PolicyRevision :: uint64
  ar_Mode :: "string option"
  ar_Owner :: "string option"
  ar_Rules :: "(string \<times> string) list"

record DashUser =
  du_Email :: string
  du_Role :: string
  du_Status :: string

record IdentityRow =
  ir_Identity :: string
  ir_Family :: string
  ir_Secret :: string
  ir_Binding :: string
  ir_Previous :: "(string \<times> time) option"
  ir_Expires :: time
  ir_LastSeen :: time
  ir_Rotated :: time
  ir_Revoked :: "time option"
  ir_Created :: time

record HandoffRow =
  ho_App :: string
  ho_State :: string
  ho_Return :: string
  ho_Force :: bool
  ho_Binding :: "string option"
  ho_Session :: "string option"
  ho_Expires :: time
  ho_Authorized :: "time option"
  ho_Consumed :: "time option"
  ho_Revoked :: "time option"
  ho_Created :: time

record ChildRow =
  cr_App :: string
  cr_Identity :: string
  cr_Parent :: string
  cr_Secret :: string
  cr_Expires :: time
  cr_Revoked :: "time option"
  cr_Created :: time

record OtpRow =
  or_App :: "string option"
  or_Purpose :: string
  or_Email :: string
  or_Code :: "nat list"
  or_Expires :: time
  or_Attempts :: int
  or_Consumed :: "time option"
  or_Invalidated :: "time option"
  or_Fingerprint :: "nat list"
  or_Created :: time

record PlatformRow =
  pr_Binding :: string
  pr_Email :: string
  pr_Code :: "nat list"
  pr_Expires :: time
  pr_Attempts :: int
  pr_Consumed :: "time option"
  pr_Invalidated :: "time option"
  pr_Fingerprint :: "nat list"
  pr_Created :: time

record IdDb =
  gd_apps :: "(string, AppRow) gomap"
  gd_users :: "(string, DashUser) gomap"
  gd_identities :: "(string, string) gomap"
  gd_sessions :: "(string, IdentityRow) gomap"
  gd_handoffs :: "(string, HandoffRow) gomap"
  gd_children :: "(string, ChildRow) gomap"
  gd_otps :: "(string, OtpRow) gomap"
  gd_platform :: "(string, PlatformRow) gomap"

datatype id_error =
  ErrIdentity | ErrIdentityCorrupt | ErrRotatedReplay | ErrOTP | ErrSessionInvalid | IdEntropy | SqlConstraint

definition write_tx :: "IdDb \<Rightarrow> (IdDb \<Rightarrow> id_error + IdDb \<times> 'a) \<Rightarrow> IdDb \<times> (id_error + 'a)" where
  "write_tx db fn = (case fn db of Inl e \<Rightarrow> (db, Inl e) | Inr (db', a) \<Rightarrow> (db', Inr a))"

text \<open>An \<open>UPDATE\<close> with a condition on the rows.\<close>

definition sql_update :: "('k \<Rightarrow> 'v \<Rightarrow> bool) \<Rightarrow> ('v \<Rightarrow> 'v) \<Rightarrow> ('k, 'v) gomap \<Rightarrow> ('k, 'v) gomap" where
  "sql_update P f = map (\<lambda>(k, v). (k, if P k v then f v else v))"

section \<open>Values of the interface\<close>

record IdentitySession =
  gs_ID :: string
  gs_FamilyID :: string
  gs_Identity :: Identity
  gs_ExpiresAt :: time
  gs_LastSeenAt :: time
  gs_RotatedAt :: time

record IdentityHandoff =
  ih_ID :: string
  ih_AppID :: string
  ih_AppSlug :: string
  ih_ReturnPath :: string
  ih_ForceLogin :: bool
  ih_ExpiresAt :: time
  ih_AuthorizedAt :: "time option"
  ih_ConsumedAt :: "time option"
  ih_RevokedAt :: "time option"

type_synonym AppSessionRef = "string \<times> string"

record IdentityValidationResult =
  vr_Session :: IdentitySession
  vr_ReplacementToken :: string
  vr_Revoked :: "AppSessionRef list"
  vr_FamilyRevoked :: bool

record IdentityOTPResult =
  op_Token :: string
  op_Session :: IdentitySession
  op_Revoked :: "AppSessionRef list"

record Actor =
  at_ID :: string
  at_Email :: string
  at_Role :: string
  at_IdentitySessionID :: string

record DashboardIdentityResult =
  dr_Actor :: "Actor option"
  dr_Identity :: IdentitySession
  dr_ReplacementToken :: string
  dr_Revoked :: "AppSessionRef list"
  dr_FamilyRevoked :: bool

record ChallengeMessage =
  cm_ID :: string
  cm_Code :: string
  cm_Email :: string
  cm_AppID :: string
  cm_Purpose :: string

abbreviation zero_identity :: IdentitySession where
  "zero_identity \<equiv> \<lparr>gs_ID = [], gs_FamilyID = [], gs_Identity = \<lparr>id_ID = [], id_Email = []\<rparr>,
     gs_ExpiresAt = zero_time, gs_LastSeenAt = zero_time, gs_RotatedAt = zero_time\<rparr>"

abbreviation mail_identity :: "string \<Rightarrow> Identity" where
  "mail_identity email \<equiv> \<lparr>id_ID = email, id_Email = email\<rparr>"

definition identityLifetime :: duration where "identityLifetime = 30 * 24 * hour"
definition identityRotateAfter :: duration where "identityRotateAfter = 24 * hour"
definition identityPreviousOverlap :: duration where "identityPreviousOverlap = 60 * second"
definition handoffLifetime :: duration where "handoffLifetime = 5 * minute"
definition handoffCleanupLimit :: nat where "handoffCleanupLimit = 128"

definition randomOpaque :: "string \<Rightarrow> nat list option \<Rightarrow> string option" where
  "randomOpaque pre rnd = map_option (\<lambda>b. pre @ b64_encode b) rnd"

definition safeRelativePath :: "(string \<Rightarrow> URL option) \<Rightarrow> string \<Rightarrow> string option" where
  "safeRelativePath url_parse raw =
     (if raw = [] then Some ''/''
      else case url_parse raw of
          None \<Rightarrow> None
        | Some u \<Rightarrow>
            if url_IsAbs u \<or> url_Host u \<noteq> [] \<or> \<not> HasPrefix (url_Path u) ''/'' \<or> HasPrefix (url_Path u) ''//''
               \<or> ContainsAny raw [CHR 0x5C, CHR 0x0D, CHR 0x0A]
            then None else Some raw)"

section \<open>Times as text\<close>

text \<open>
  The database compares times as text in the layout \<open>RFC3339Nano\<close>: a part of fixed width down to the second, then
  the fraction without trailing zeros and the letter \<open>Z\<close>.
\<close>

definition nano_digits :: "nat \<Rightarrow> string" where
  "nano_digits n = map (\<lambda>p. decimal_digit (n div 10 ^ p)) [8, 7, 6, 5, 4, 3, 2, 1, 0]"

definition frac_text :: "time \<Rightarrow> string" where
  "frac_text t =
     (let d = rev (dropWhile (\<lambda>c. c = CHR ''0'') (rev (nano_digits (nat (t mod second)))))
      in (if d = [] then [] else CHR ''.'' # d) @ ''Z'')"

definition text_le :: "time \<Rightarrow> time \<Rightarrow> bool" where
  "text_le a b \<longleftrightarrow> a div second < b div second \<or> a div second = b div second \<and> frac_text a \<le> frac_text b"

section \<open>Handoffs\<close>

definition handoff_value :: "string \<Rightarrow> HandoffRow \<Rightarrow> string \<Rightarrow> IdentityHandoff" where
  "handoff_value hid h slug =
     \<lparr>ih_ID = hid, ih_AppID = ho_App h, ih_AppSlug = slug, ih_ReturnPath = ho_Return h, ih_ForceLogin = ho_Force h,
      ih_ExpiresAt = ho_Expires h, ih_AuthorizedAt = ho_Authorized h, ih_ConsumedAt = ho_Consumed h,
      ih_RevokedAt = ho_Revoked h\<rparr>"

definition handoffTx :: "IdDb \<Rightarrow> string \<Rightarrow> IdentityHandoff option" where
  "handoffTx db hid =
     (case map_of (gd_handoffs db) hid of
        None \<Rightarrow> None
      | Some h \<Rightarrow> map_option (\<lambda>a. handoff_value hid h (ar_Slug a)) (map_of (gd_apps db) (ho_App h)))"

text \<open>Neither consumed nor revoked, and before its expiry.\<close>

definition open_handoff :: "time \<Rightarrow> IdentityHandoff \<Rightarrow> bool" where
  "open_handoff now h \<longleftrightarrow> ih_ConsumedAt h = None \<and> ih_RevokedAt h = None \<and> now < ih_ExpiresAt h"

definition cleanup_due :: "time \<Rightarrow> HandoffRow \<Rightarrow> bool" where
  "cleanup_due now h \<longleftrightarrow> text_le (ho_Expires h) now \<or> ho_Consumed h \<noteq> None \<or> ho_Revoked h \<noteq> None"

definition handoff_order :: "(string, HandoffRow) gomap \<Rightarrow> (string, HandoffRow) gomap" where
  "handoff_order rows =
     sort_key (\<lambda>(i, h). ho_Created h div second) (sort_key (\<lambda>(i, h). frac_text (ho_Created h)) (sort_key fst rows))"

definition cleanupIdentityHandoffsTx :: "time \<Rightarrow> IdDb \<Rightarrow> IdDb" where
  "cleanupIdentityHandoffsTx now db =
     (let due = map fst (take handoffCleanupLimit (handoff_order (filter (\<lambda>(i, h). cleanup_due now h) (gd_handoffs db))))
      in db\<lparr>gd_handoffs := filter (\<lambda>(i, h). i \<notin> set due) (gd_handoffs db)\<rparr>)"

definition CreateIdentityHandoff :: "(string \<Rightarrow> string) \<Rightarrow> (string \<Rightarrow> URL option) \<Rightarrow> nat list option \<Rightarrow> nat list option \<Rightarrow>
    IdDb \<Rightarrow> string \<Rightarrow> string \<Rightarrow> bool \<Rightarrow> time \<Rightarrow> IdDb \<times> (id_error + IdentityHandoff \<times> string)" where
  "CreateIdentityHandoff sha url_parse rnd1 rnd2 db appID returnPath forceLogin now =
     (case safeRelativePath url_parse returnPath of
        None \<Rightarrow> (db, Inl ErrIdentity)
      | Some ret \<Rightarrow>
     (case (randomOpaque ''ih_'' rnd1, randomOpaque ''is_'' rnd2) of
        (Some hid, Some state) \<Rightarrow>
          write_tx db (\<lambda>db0.
            let db1 = cleanupIdentityHandoffsTx now db0;
                row = \<lparr>ho_App = appID, ho_State = sha state, ho_Return = ret, ho_Force = forceLogin, ho_Binding = None,
                  ho_Session = None, ho_Expires = now + handoffLifetime, ho_Authorized = None, ho_Consumed = None,
                  ho_Revoked = None, ho_Created = now\<rparr> in
            (case map_of (gd_apps db1) appID of
               None \<Rightarrow> Inl ErrIdentity
             | Some a \<Rightarrow>
                 if ar_Status a \<noteq> ''active'' then Inl ErrIdentity
                 else if hid \<in> gm_keys (gd_handoffs db1) \<or> sha state \<in> (ho_State \<circ> snd) ` set (gd_handoffs db1)
                 then Inl SqlConstraint
                 else Inr (db1\<lparr>gd_handoffs := (hid, row) # gd_handoffs db1\<rparr>,
                   (handoff_value hid row [], state))))
      | _ \<Rightarrow> (db, Inl IdEntropy)))"

definition policyAllowsTx :: "IdDb \<Rightarrow> string \<Rightarrow> Identity \<Rightarrow> bool" where
  "policyAllowsTx db appID viewer =
     (case map_of (gd_apps db) appID of
        None \<Rightarrow> False
      | Some a \<Rightarrow>
          (case (ar_Mode a, ar_Owner a) of
             (Some mode, Some owner) \<Rightarrow>
               ar_Status a = ''active'' \<and> (mode = ''private'' \<or> mode = ''public'')
               \<and> list_all (\<lambda>(kind, v). kind \<in> {''email'', ''domain'', ''owner''}) (ar_Rules a)
               \<and> Evaluate \<lparr>pol_AppID = appID, pol_OwnerIdentityID = owner, pol_Revision = ar_PolicyRevision a,
                    pol_Mode = [], pol_Emails = [v. (kind, v) \<leftarrow> ar_Rules a, kind = ''email''],
                    pol_Domains = [v. (kind, v) \<leftarrow> ar_Rules a, kind = ''domain''], pol_Valid = True\<rparr> viewer = Allow
           | _ \<Rightarrow> False))"

section \<open>Identity sessions\<close>

datatype credential = Refused id_error | Replayed IdentitySession | Valid_credential IdentitySession bool

definition session_value :: "string \<Rightarrow> IdentityRow \<Rightarrow> string \<Rightarrow> IdentitySession" where
  "session_value sid r email =
     \<lparr>gs_ID = sid, gs_FamilyID = ir_Family r, gs_Identity = \<lparr>id_ID = ir_Identity r, id_Email = email\<rparr>,
      gs_ExpiresAt = ir_Expires r, gs_LastSeenAt = ir_LastSeen r, gs_RotatedAt = ir_Rotated r\<rparr>"

text \<open>The row whose current or previous secret is the digest \<open>h\<close>.\<close>

definition has_secret :: "string \<Rightarrow> IdentityRow \<Rightarrow> bool" where
  "has_secret h r \<longleftrightarrow> ir_Secret r = h \<or> map_option fst (ir_Previous r) = Some h"

definition identitySessionTx :: "(string \<Rightarrow> string) \<Rightarrow> IdDb \<Rightarrow> string \<Rightarrow> time \<Rightarrow> credential" where
  "identitySessionTx sha db raw now =
     (if raw = [] then Refused ErrIdentity
      else case find (\<lambda>(sid, r). has_secret (sha raw) r \<and> ir_Identity r \<in> gm_keys (gd_identities db)) (gd_sessions db) of
          None \<Rightarrow> Refused ErrIdentity
        | Some (sid, r) \<Rightarrow>
            if ir_Revoked r \<noteq> None then Refused ErrIdentity
            else let v = session_value sid r ((case map_of (gd_identities db) (ir_Identity r) of None \<Rightarrow> [] | Some m \<Rightarrow> m)) in
              if \<not> now < ir_Expires r then Refused ErrIdentity
              else case ir_Previous r of
                  None \<Rightarrow> Valid_credential v False
                | Some (old, until) \<Rightarrow>
                    if old \<noteq> sha raw then Valid_credential v False
                    else if now < until then Valid_credential v True else Replayed v)"

text \<open>The rows of a family and what hangs on them.\<close>

definition family_ids :: "IdDb \<Rightarrow> string \<Rightarrow> string list" where
  "family_ids db fam = map fst (filter (\<lambda>(sid, r). ir_Family r = fam) (gd_sessions db))"

definition child_refs :: "IdDb \<Rightarrow> string \<Rightarrow> AppSessionRef list" where
  "child_refs db fam = map (\<lambda>(cid, c). (cr_App c, cid))
     (filter (\<lambda>(cid, c). cr_Parent c \<in> set (family_ids db fam) \<and> cr_Revoked c = None) (gd_children db))"

definition revokeIdentityFamilyTx :: "IdDb \<Rightarrow> string \<Rightarrow> time \<Rightarrow> id_error + IdDb \<times> AppSessionRef list" where
  "revokeIdentityFamilyTx db fam now =
     (if fam = [] then Inl ErrIdentity
      else if \<not> list_ex (\<lambda>(sid, r). ir_Family r = fam \<and> ir_Revoked r = None) (gd_sessions db) then Inl ErrIdentity
      else let ids = set (family_ids db fam) in
        Inr (db\<lparr>gd_sessions := sql_update (\<lambda>sid r. ir_Family r = fam \<and> ir_Revoked r = None)
                   (\<lambda>r. r\<lparr>ir_Revoked := Some now\<rparr>) (gd_sessions db),
                gd_children := sql_update (\<lambda>cid c. cr_Revoked c = None \<and> cr_Parent c \<in> ids)
                   (\<lambda>c. c\<lparr>cr_Revoked := Some now\<rparr>) (gd_children db),
                gd_handoffs := sql_update (\<lambda>hid h. ho_Consumed h = None \<and> ho_Revoked h = None
                     \<and> (case ho_Session h of None \<Rightarrow> False | Some sid \<Rightarrow> sid \<in> ids))
                   (\<lambda>h. h\<lparr>ho_Revoked := Some now\<rparr>) (gd_handoffs db)\<rparr>, child_refs db fam))"

definition revokeIdentitySessionTx :: "(string \<Rightarrow> string) \<Rightarrow> IdDb \<Rightarrow> string \<Rightarrow> time \<Rightarrow> id_error + IdDb \<times> AppSessionRef list" where
  "revokeIdentitySessionTx sha db raw now =
     (if raw = [] then Inl ErrIdentity
      else case find (\<lambda>(sid, r). has_secret (sha raw) r \<and> ir_Revoked r = None) (gd_sessions db) of
          None \<Rightarrow> Inl ErrIdentity
        | Some (sid, r) \<Rightarrow> revokeIdentityFamilyTx db (ir_Family r) now)"

text \<open>
  The use of a valid credential: a current one older than a day is replaced by a fresh one and stays valid as the
  previous one for a minute; otherwise only the last use is recorded.
\<close>

definition rotate_row :: "string \<Rightarrow> string \<Rightarrow> time \<Rightarrow> IdentityRow \<Rightarrow> IdentityRow" where
  "rotate_row old new now r =
     r\<lparr>ir_Previous := Some (old, now + identityPreviousOverlap), ir_Secret := new, ir_Rotated := now, ir_LastSeen := now\<rparr>"

definition use_credential :: "(string \<Rightarrow> string) \<Rightarrow> nat list option \<Rightarrow> IdDb \<Rightarrow> string \<Rightarrow> time \<Rightarrow> IdentitySession \<Rightarrow> bool \<Rightarrow>
    id_error + IdDb \<times> string \<times> IdentitySession" where
  "use_credential sha rnd db raw now v prior =
     (if \<not> prior \<and> time_sub now (gs_RotatedAt v) \<ge> identityRotateAfter then
        (case randomOpaque ''gid_'' rnd of
           None \<Rightarrow> Inl IdEntropy
         | Some replacement \<Rightarrow>
             (case map_of (gd_sessions db) (gs_ID v) of
                None \<Rightarrow> Inl ErrIdentity
              | Some r \<Rightarrow>
                  if ir_Secret r \<noteq> sha raw \<or> ir_Revoked r \<noteq> None then Inl ErrIdentity
                  else if list_ex (\<lambda>(sid, r'). sid \<noteq> gs_ID v \<and>
                       (ir_Secret r' = sha replacement \<or> map_option fst (ir_Previous r') = Some (sha raw))) (gd_sessions db)
                  then Inl SqlConstraint
                  else Inr (db\<lparr>gd_sessions := sql_update (\<lambda>sid r. sid = gs_ID v) (rotate_row (sha raw) (sha replacement) now)
                              (gd_sessions db)\<rparr>,
                            replacement, v\<lparr>gs_RotatedAt := now, gs_LastSeenAt := now\<rparr>)))
      else Inr (db\<lparr>gd_sessions := sql_update (\<lambda>sid r. sid = gs_ID v \<and> ir_Revoked r = None)
                  (\<lambda>r. r\<lparr>ir_LastSeen := now\<rparr>) (gd_sessions db)\<rparr>, [], v\<lparr>gs_LastSeenAt := now\<rparr>))"

definition ValidateIdentitySession :: "(string \<Rightarrow> string) \<Rightarrow> nat list option \<Rightarrow> IdDb \<Rightarrow> string \<Rightarrow> time \<Rightarrow>
    IdDb \<times> IdentityValidationResult \<times> id_error option" where
  "ValidateIdentitySession sha rnd db raw now =
     (let out = \<lparr>vr_Session = zero_identity, vr_ReplacementToken = [], vr_Revoked = [], vr_FamilyRevoked = False\<rparr> in
      case identitySessionTx sha db raw now of
        Refused e \<Rightarrow> (db, out, Some e)
      | Replayed v \<Rightarrow>
          (case revokeIdentityFamilyTx db (gs_FamilyID v) now of
             Inl e \<Rightarrow> (db, out, Some e)
           | Inr (db', refs) \<Rightarrow> (db', out\<lparr>vr_Revoked := refs, vr_FamilyRevoked := True\<rparr>, Some ErrIdentity))
      | Valid_credential v prior \<Rightarrow>
          (case use_credential sha rnd db raw now v prior of
             Inl e \<Rightarrow> (db, out\<lparr>vr_Session := v\<rparr>, Some e)
           | Inr (db', rep, v') \<Rightarrow> (db', out\<lparr>vr_Session := v', vr_ReplacementToken := rep\<rparr>, None)))"

definition dashboard_user :: "IdDb \<Rightarrow> string \<Rightarrow> (string \<times> DashUser) option" where
  "dashboard_user db email =
     find (\<lambda>(uid, u). du_Email u = email \<and> du_Status u = ''active'' \<and> du_Role u \<in> {''operator'', ''deployer''}) (gd_users db)"

definition AuthenticateDashboardIdentity :: "(string \<Rightarrow> string) \<Rightarrow> nat list option \<Rightarrow> IdDb \<Rightarrow> string \<Rightarrow> time \<Rightarrow>
    IdDb \<times> DashboardIdentityResult \<times> id_error option" where
  "AuthenticateDashboardIdentity sha rnd db raw now =
     (let out = \<lparr>dr_Actor = None, dr_Identity = zero_identity, dr_ReplacementToken = [], dr_Revoked = [], dr_FamilyRevoked = False\<rparr> in
      case identitySessionTx sha db raw now of
        Refused e \<Rightarrow> (db, out, Some e)
      | Replayed v \<Rightarrow>
          (case revokeIdentityFamilyTx db (gs_FamilyID v) now of
             Inl e \<Rightarrow> (db, out, Some e)
           | Inr (db', refs) \<Rightarrow> (db', out\<lparr>dr_Revoked := refs, dr_FamilyRevoked := True\<rparr>, Some ErrIdentity))
      | Valid_credential v prior \<Rightarrow>
          (case dashboard_user db (id_Email (gs_Identity v)) of
             None \<Rightarrow> (db, out\<lparr>dr_Identity := v\<rparr>, Some ErrIdentity)
           | Some (uid, u) \<Rightarrow>
               let out' = out\<lparr>dr_Identity := v, dr_Actor := Some \<lparr>at_ID = uid, at_Email = du_Email u, at_Role = du_Role u,
                              at_IdentitySessionID = gs_ID v\<rparr>\<rparr> in
               (case use_credential sha rnd db raw now v prior of
                  Inl e \<Rightarrow> (db, out', Some e)
                | Inr (db', rep, v') \<Rightarrow> (db', out'\<lparr>dr_Identity := v', dr_ReplacementToken := rep\<rparr>, None))))"

definition RevokeIdentitySession :: "(string \<Rightarrow> string) \<Rightarrow> IdDb \<Rightarrow> string \<Rightarrow> time \<Rightarrow> IdDb \<times> (id_error + AppSessionRef list)" where
  "RevokeIdentitySession sha db raw now = write_tx db (\<lambda>db0. revokeIdentitySessionTx sha db0 raw now)"

text \<open>The one unrevoked session of a browser binding; more than one is a corrupt database.\<close>

definition activeBrowserBindingSessionTx :: "IdDb \<Rightarrow> string \<Rightarrow> id_error + IdentityRow option" where
  "activeBrowserBindingSessionTx db bindingHash =
     (case filter (\<lambda>(sid, r). ir_Binding r = bindingHash \<and> ir_Revoked r = None) (gd_sessions db) of
        [] \<Rightarrow> Inr None
      | [(sid, r)] \<Rightarrow> Inr (Some r)
      | _ \<Rightarrow> Inl ErrIdentityCorrupt)"

definition browserBindingHash :: "(string \<Rightarrow> string) \<Rightarrow> string \<Rightarrow> string option" where
  "browserBindingHash sha raw = (if raw = [] then None else Some (sha raw))"

definition RevokeIdentityBrowserBinding :: "(string \<Rightarrow> string) \<Rightarrow> IdDb \<Rightarrow> string \<Rightarrow> time \<Rightarrow> IdDb \<times> (id_error + AppSessionRef list)" where
  "RevokeIdentityBrowserBinding sha db rawBinding now =
     (case browserBindingHash sha rawBinding of
        None \<Rightarrow> (db, Inl ErrIdentity)
      | Some h \<Rightarrow>
          write_tx db (\<lambda>db0.
            case activeBrowserBindingSessionTx db0 h of
              Inl e \<Rightarrow> Inl e
            | Inr None \<Rightarrow> Inl ErrIdentity
            | Inr (Some bound) \<Rightarrow> revokeIdentityFamilyTx db0 (ir_Family bound) now))"

definition createIdentitySessionTx :: "(string \<Rightarrow> string) \<Rightarrow> nat list option \<Rightarrow> nat list option \<Rightarrow> IdDb \<Rightarrow> Identity \<Rightarrow> string \<Rightarrow> time \<Rightarrow>
    id_error + IdDb \<times> string \<times> IdentitySession" where
  "createIdentitySessionTx sha rnd1 rnd2 db viewer bindingHash now =
     (case (randomOpaque ''gid_'' rnd1, randomOpaque ''fam_'' rnd2) of
        (Some raw, Some family) \<Rightarrow>
          let sid = ''gis_'' @ take 12 (drop 4 raw);
              row = \<lparr>ir_Identity = id_ID viewer, ir_Family = family, ir_Secret = sha raw, ir_Binding = bindingHash,
                ir_Previous = None, ir_Expires = now + identityLifetime, ir_LastSeen = now, ir_Rotated = now,
                ir_Revoked = None, ir_Created = now\<rparr> in
          if sid \<in> gm_keys (gd_sessions db) \<or> sha raw \<in> (ir_Secret \<circ> snd) ` set (gd_sessions db)
             \<or> list_ex (\<lambda>(i, r). ir_Binding r = bindingHash \<and> ir_Revoked r = None) (gd_sessions db)
          then Inl SqlConstraint
          else Inr (db\<lparr>gd_sessions := (sid, row) # gd_sessions db\<rparr>, raw, session_value sid row (id_Email viewer))
      | _ \<Rightarrow> Inl IdEntropy)"

text \<open>The insert of an identity keeps the creation of an existing row and replaces its address.\<close>

definition upsert_identity :: "IdDb \<Rightarrow> Identity \<Rightarrow> IdDb" where
  "upsert_identity db viewer = db\<lparr>gd_identities := AList.update (id_ID viewer) (id_Email viewer) (gd_identities db)\<rparr>"

section \<open>One-time codes\<close>

definition otp_ttl :: "duration \<Rightarrow> duration" where
  "otp_ttl ttl = (if ttl \<le> 0 then 10 * minute else ttl)"

definition challenge_id :: "string \<Rightarrow> nat list option \<Rightarrow> string option" where
  "challenge_id pre rnd = map_option (\<lambda>b. pre @ hex_encode b) rnd"

definition CreateChallenge :: "(nat \<Rightarrow> nat) \<Rightarrow> mac_fun \<Rightarrow> nat list option \<Rightarrow> nat option \<Rightarrow> IdDb \<Rightarrow> string \<Rightarrow> string \<Rightarrow> string \<Rightarrow>
    nat list \<Rightarrow> nat list \<Rightarrow> bool \<Rightarrow> time \<Rightarrow> duration \<Rightarrow> IdDb \<times> (id_error + ChallengeMessage option)" where
  "CreateChallenge U mac rnd1 rnd2 db appID purpose rawEmail fingerprintHash key eligible now ttl =
     (case Normalize U rawEmail of
        Inl _ \<Rightarrow> (db, Inr None)
      | Inr email \<Rightarrow>
     (case (challenge_id ''otp_'' rnd1, numericCode rnd2) of
        (Some cid, Some code) \<Rightarrow>
          write_tx db (\<lambda>db0.
            let row = \<lparr>or_App = Some appID, or_Purpose = purpose, or_Email = email, or_Code = otp_hash mac key cid code,
                  or_Expires = now + otp_ttl ttl, or_Attempts = 0, or_Consumed = None, or_Invalidated = None,
                  or_Fingerprint = fingerprintHash, or_Created = now\<rparr>;
                otps = sql_update (\<lambda>i o'. or_App o' = Some appID \<and> or_Purpose o' = purpose \<and> or_Email o' = email
                    \<and> or_Consumed o' = None \<and> or_Invalidated o' = None)
                  (\<lambda>o'. o'\<lparr>or_Invalidated := Some now\<rparr>) (gd_otps db0) in
            if cid \<in> gm_keys otps \<or> appID \<notin> gm_keys (gd_apps db0) then Inl SqlConstraint
            else Inr (db0\<lparr>gd_otps := (cid, row) # otps\<rparr>,
              if eligible then Some \<lparr>cm_ID = cid, cm_Code = code, cm_Email = email, cm_AppID = appID, cm_Purpose = purpose\<rparr>
              else None))
      | _ \<Rightarrow> (db, Inl IdEntropy)))"

text \<open>
  The body of the transaction of \<open>VerifyAndIssue\<close>: the flag says that the code is denied although the transaction
  commits.
\<close>

definition verify_tx :: "mac_fun \<Rightarrow> string \<Rightarrow> string \<Rightarrow> string \<Rightarrow> string \<Rightarrow> string \<Rightarrow> nat list \<Rightarrow> time \<Rightarrow> int \<Rightarrow>
    (IdDb \<Rightarrow> id_error + IdDb \<times> 'a) \<Rightarrow> IdDb \<Rightarrow> id_error + IdDb \<times> 'a option" where
  "verify_tx mac appID purpose email cid code key now maxAttempts issue db =
     (case map_of (gd_otps db) cid of
        None \<Rightarrow> Inr (db, None)
      | Some r \<Rightarrow>
          if or_App r \<noteq> Some appID \<or> or_Purpose r \<noteq> purpose \<or> or_Email r \<noteq> email
             \<or> or_Consumed r \<noteq> None \<or> or_Invalidated r \<noteq> None then Inr (db, None)
          else if \<not> now < or_Expires r \<or> or_Attempts r \<ge> maxAttempts then Inr (db, None)
          else if or_Code r \<noteq> otp_hash mac key cid code then
            Inr (db\<lparr>gd_otps := sql_update (\<lambda>i o'. i = cid \<and> or_Attempts o' < maxAttempts)
                (\<lambda>o'. o'\<lparr>or_Attempts := or_Attempts o' + 1\<rparr>) (gd_otps db)\<rparr>, None)
          else (case issue db of
                  Inl e \<Rightarrow> Inl e
                | Inr (db1, a) \<Rightarrow>
                    Inr (db1\<lparr>gd_otps := sql_update (\<lambda>i o'. i = cid \<and> or_Consumed o' = None)
                      (\<lambda>o'. o'\<lparr>or_Consumed := Some now\<rparr>) (gd_otps db1)\<rparr>, Some a)))"

definition otp_outcome :: "IdDb \<times> (id_error + 'a option) \<Rightarrow> IdDb \<times> (id_error + 'a)" where
  "otp_outcome r =
     (case r of (db, Inl e) \<Rightarrow> (db, Inl e) | (db, Inr None) \<Rightarrow> (db, Inl ErrOTP) | (db, Inr (Some a)) \<Rightarrow> (db, Inr a))"

definition max_attempts :: "int \<Rightarrow> int" where
  "max_attempts n = (if n \<le> 0 then 5 else n)"

definition VerifyAndIssue :: "mac_fun \<Rightarrow> IdDb \<Rightarrow> string \<Rightarrow> string \<Rightarrow> string \<Rightarrow> string \<Rightarrow> string \<Rightarrow> nat list \<Rightarrow> time \<Rightarrow> int \<Rightarrow>
    (IdDb \<Rightarrow> id_error + IdDb \<times> 'a) \<Rightarrow> IdDb \<times> (id_error + 'a)" where
  "VerifyAndIssue mac db appID purpose email cid code key now maxAttempts issue =
     otp_outcome (write_tx db (verify_tx mac appID purpose email cid code key now (max_attempts maxAttempts) issue))"

section \<open>Handoffs: the platform side\<close>

definition GetIdentityHandoff :: "IdDb \<Rightarrow> string \<Rightarrow> time \<Rightarrow> id_error + IdentityHandoff" where
  "GetIdentityHandoff db hid now =
     (case handoffTx db hid of
        None \<Rightarrow> Inl ErrIdentity
      | Some h \<Rightarrow> if open_handoff now h then Inr h else Inl ErrIdentity)"

abbreviation pending_row :: "HandoffRow \<Rightarrow> bool" where
  "pending_row h \<equiv> ho_Consumed h = None \<and> ho_Revoked h = None"

text \<open>An \<open>UPDATE\<close> of one handoff under a condition; \<open>None\<close> when it changes no row.\<close>

definition update_handoff :: "(HandoffRow \<Rightarrow> bool) \<Rightarrow> (HandoffRow \<Rightarrow> HandoffRow) \<Rightarrow> IdDb \<Rightarrow> string \<Rightarrow> IdDb option" where
  "update_handoff P f db hid =
     (case map_of (gd_handoffs db) hid of
        None \<Rightarrow> None
      | Some h \<Rightarrow> if P h then Some (db\<lparr>gd_handoffs := AList.update hid (f h) (gd_handoffs db)\<rparr>) else None)"

definition ForceIdentityHandoff :: "IdDb \<Rightarrow> string \<Rightarrow> time \<Rightarrow> IdDb \<times> (id_error + unit)" where
  "ForceIdentityHandoff db hid now =
     write_tx db (\<lambda>db0.
       case handoffTx db0 hid of
         None \<Rightarrow> Inl ErrIdentity
       | Some h \<Rightarrow>
           if \<not> open_handoff now h then Inl ErrIdentity
           else case update_handoff pending_row (\<lambda>r. r\<lparr>ho_Force := True, ho_Session := None, ho_Authorized := None\<rparr>) db0 hid of
               None \<Rightarrow> Inl ErrIdentity
             | Some db1 \<Rightarrow> Inr (db1, ()))"

text \<open>The first transaction of \<open>RequestIdentityOTP\<close>: the browser binding is attached once.\<close>

definition bind_handoff_tx :: "string \<Rightarrow> string \<Rightarrow> string \<Rightarrow> time \<Rightarrow> IdDb \<Rightarrow> (id_error \<times> bool) + IdDb \<times> string \<times> bool" where
  "bind_handoff_tx hid bindingHash email now db =
     (case handoffTx db hid of
        None \<Rightarrow> Inl (ErrIdentity, False)
      | Some h \<Rightarrow>
          if \<not> open_handoff now h \<or> ih_AuthorizedAt h \<noteq> None then Inl (ErrIdentity, False)
          else let eligible = policyAllowsTx db (ih_AppID h) (mail_identity email) in
            case update_handoff (\<lambda>r. ho_Binding r = None \<and> pending_row r \<and> ho_Authorized r = None)
                   (\<lambda>r. r\<lparr>ho_Binding := Some bindingHash\<rparr>) db hid of
              Some db1 \<Rightarrow> Inr (db1, ih_AppID h, eligible)
            | None \<Rightarrow>
                (case map_of (gd_handoffs db) hid of
                   None \<Rightarrow> Inl (ErrIdentity, True)
                 | Some r \<Rightarrow> if ho_Binding r = Some bindingHash then Inr (db, ih_AppID h, eligible) else Inl (ErrIdentity, True)))"

text \<open>
  \<open>RequestIdentityOTP\<close> is two transactions with other requests free to run in between: \<open>BindIdentityOTP\<close> is the part
  up to the commit of the first one; when it gives an application, the normalised address and whether the policy
  admits it, \<open>CreateChallenge\<close> is the second one, on the tables it finds then. \<open>RequestIdentityOTP\<close> is their
  composition when nothing happens in between; the runs of \<open>Identity_Safety\<close> take them apart.
\<close>

definition BindIdentityOTP :: "(nat \<Rightarrow> nat) \<Rightarrow> (string \<Rightarrow> string) \<Rightarrow> IdDb \<Rightarrow> string \<Rightarrow> string \<Rightarrow> string \<Rightarrow> time \<Rightarrow>
    IdDb \<times> (id_error + (string \<times> string \<times> bool) option)" where
  "BindIdentityOTP U sha db hid rawBinding rawEmail now =
     (case browserBindingHash sha rawBinding of
        None \<Rightarrow> (db, Inl ErrIdentity)
      | Some bh \<Rightarrow>
     (case Normalize U rawEmail of
        Inl _ \<Rightarrow> (db, Inr None)
      | Inr email \<Rightarrow>
     (case bind_handoff_tx hid bh email now db of
        Inl (e, bindingDenied) \<Rightarrow> (db, if bindingDenied then Inl ErrIdentity else Inr None)
      | Inr (db1, appID, eligible) \<Rightarrow> (db1, Inr (Some (appID, email, eligible))))))"

definition RequestIdentityOTP :: "(nat \<Rightarrow> nat) \<Rightarrow> (string \<Rightarrow> string) \<Rightarrow> mac_fun \<Rightarrow> nat list option \<Rightarrow> nat option \<Rightarrow> IdDb \<Rightarrow> string \<Rightarrow>
    string \<Rightarrow> string \<Rightarrow> nat list \<Rightarrow> nat list \<Rightarrow> time \<Rightarrow> duration \<Rightarrow> IdDb \<times> (id_error + ChallengeMessage option)" where
  "RequestIdentityOTP U sha mac rnd1 rnd2 db hid rawBinding rawEmail fingerprintHash key now ttl =
     (case BindIdentityOTP U sha db hid rawBinding rawEmail now of
        (db1, Inl e) \<Rightarrow> (db1, Inl e)
      | (db1, Inr None) \<Rightarrow> (db1, Inr None)
      | (db1, Inr (Some (appID, email, eligible))) \<Rightarrow>
          CreateChallenge U mac rnd1 rnd2 db1 appID ''viewer'' email fingerprintHash key eligible now ttl)"

section \<open>Verification\<close>

text \<open>Whether the family of the browser is newer than the challenge: then the older form loses.\<close>

definition newer_family :: "time \<Rightarrow> time \<Rightarrow> IdentityRow option \<Rightarrow> bool" where
  "newer_family now createdAt bound =
     (case bound of None \<Rightarrow> False | Some r \<Rightarrow> now < ir_Expires r \<and> \<not> ir_Created r < createdAt)"

text \<open>The revocations before a new family: that of the browser, then, when forced, that of the presented cookie.\<close>

definition revoke_older :: "(string \<Rightarrow> string) \<Rightarrow> IdDb \<Rightarrow> IdentityRow option \<Rightarrow> bool \<Rightarrow> string \<Rightarrow> time \<Rightarrow>
    id_error + IdDb \<times> AppSessionRef list" where
  "revoke_older sha db bound force oldRaw now =
     (case (case bound of None \<Rightarrow> Inr (db, []) | Some r \<Rightarrow> revokeIdentityFamilyTx db (ir_Family r) now) of
        Inl e \<Rightarrow> Inl e
      | Inr (db1, refs1) \<Rightarrow>
          if force \<and> oldRaw \<noteq> [] then
            (case revokeIdentitySessionTx sha db1 oldRaw now of
               Inl e \<Rightarrow> if e = ErrIdentity then Inr (db1, refs1) else Inl e
             | Inr (db2, refs2) \<Rightarrow> Inr (db2, refs1 @ refs2))
          else Inr (db1, refs1))"

text \<open>What a form without force does about a presented identity: \<open>None\<close> to go on.\<close>

definition replaced_silently :: "(string \<Rightarrow> string) \<Rightarrow> IdDb \<Rightarrow> bool \<Rightarrow> string \<Rightarrow> time \<Rightarrow> id_error option" where
  "replaced_silently sha db force oldRaw now =
     (if force \<or> oldRaw = [] then None
      else case identitySessionTx sha db oldRaw now of
          Valid_credential _ _ \<Rightarrow> Some ErrOTP
        | Replayed _ \<Rightarrow> Some ErrOTP
        | Refused e \<Rightarrow> if e = ErrIdentity then None else Some e)"

definition issue_identity :: "(string \<Rightarrow> string) \<Rightarrow> nat list option \<Rightarrow> nat list option \<Rightarrow> string \<Rightarrow> string \<Rightarrow> string \<Rightarrow> string \<Rightarrow> string \<Rightarrow>
    time \<Rightarrow> IdDb \<Rightarrow> id_error + IdDb \<times> IdentityOTPResult" where
  "issue_identity sha rnd1 rnd2 hid bh email cid oldRaw now db =
     (case (handoffTx db hid, map_of (gd_handoffs db) hid) of
        (Some h, Some row) \<Rightarrow>
          if \<not> open_handoff now h \<or> \<not> policyAllowsTx db (ih_AppID h) (mail_identity email) then Inl ErrOTP
          else if ho_Binding row \<noteq> Some bh then Inl ErrIdentity
          else (case map_of (gd_otps db) cid of
             None \<Rightarrow> Inl ErrOTP
           | Some o' \<Rightarrow>
               if or_App o' \<noteq> Some (ih_AppID h) \<or> or_Purpose o' \<noteq> ''viewer'' \<or> or_Email o' \<noteq> email then Inl ErrOTP
               else (case activeBrowserBindingSessionTx db bh of
                  Inl e \<Rightarrow> Inl e
                | Inr bound \<Rightarrow>
                    if newer_family now (or_Created o') bound then Inl ErrOTP
                    else (case replaced_silently sha db (ih_ForceLogin h) oldRaw now of
                       Some e \<Rightarrow> Inl e
                     | None \<Rightarrow>
                         (case revoke_older sha db bound (ih_ForceLogin h) oldRaw now of
                            Inl e \<Rightarrow> Inl e
                          | Inr (db1, refs) \<Rightarrow>
                              (case createIdentitySessionTx sha rnd1 rnd2 (upsert_identity db1 (mail_identity email)) (mail_identity email) bh now of
                                 Inl e \<Rightarrow> Inl e
                               | Inr (db2, raw, v) \<Rightarrow>
                                   (case update_handoff (\<lambda>r. ho_Session r = None \<and> pending_row r)
                                           (\<lambda>r. r\<lparr>ho_Session := Some (gs_ID v), ho_Authorized := Some now\<rparr>) db2 hid of
                                      None \<Rightarrow> Inl ErrOTP
                                    | Some db3 \<Rightarrow> Inr (db3, \<lparr>op_Token = raw, op_Session = v, op_Revoked = refs\<rparr>)))))))
      | _ \<Rightarrow> Inl ErrOTP)"

definition VerifyIdentityOTP :: "(nat \<Rightarrow> nat) \<Rightarrow> (string \<Rightarrow> string) \<Rightarrow> mac_fun \<Rightarrow> nat list option \<Rightarrow> nat list option \<Rightarrow> IdDb \<Rightarrow>
    string \<Rightarrow> string \<Rightarrow> string \<Rightarrow> string \<Rightarrow> string \<Rightarrow> string \<Rightarrow> nat list \<Rightarrow> time \<Rightarrow> int \<Rightarrow> IdDb \<times> (id_error + IdentityOTPResult)" where
  "VerifyIdentityOTP U sha mac rnd1 rnd2 db hid rawBinding rawEmail cid code oldRaw key now maxAttempts =
     (case browserBindingHash sha rawBinding of
        None \<Rightarrow> (db, Inl ErrIdentity)
      | Some bh \<Rightarrow>
     (case Normalize U rawEmail of
        Inl _ \<Rightarrow> (db, Inl ErrOTP)
      | Inr email \<Rightarrow>
     (case map_of (gd_handoffs db) hid of
        None \<Rightarrow> (db, Inl ErrOTP)
      | Some row \<Rightarrow>
          VerifyAndIssue mac db (ho_App row) ''viewer'' email cid code key now maxAttempts
            (issue_identity sha rnd1 rnd2 hid bh email cid oldRaw now))))"

definition AuthorizeIdentityHandoff :: "(string \<Rightarrow> string) \<Rightarrow> IdDb \<Rightarrow> string \<Rightarrow> string \<Rightarrow> time \<Rightarrow>
    IdDb \<times> (id_error + IdentityHandoff \<times> IdentitySession)" where
  "AuthorizeIdentityHandoff sha db hid raw now =
     write_tx db (\<lambda>db0.
       case identitySessionTx sha db0 raw now of
         Refused e \<Rightarrow> Inl e
       | Replayed _ \<Rightarrow> Inl ErrRotatedReplay
       | Valid_credential viewer _ \<Rightarrow>
           (case handoffTx db0 hid of
              None \<Rightarrow> Inl ErrIdentity
            | Some h \<Rightarrow>
                if ih_ForceLogin h \<or> \<not> open_handoff now h \<or> \<not> policyAllowsTx db0 (ih_AppID h) (gs_Identity viewer) then Inl ErrIdentity
                else (case update_handoff (\<lambda>r. ho_Session r = None \<and> pending_row r)
                         (\<lambda>r. r\<lparr>ho_Session := Some (gs_ID viewer), ho_Authorized := Some now\<rparr>) db0 hid of
                   None \<Rightarrow> Inl ErrIdentity
                 | Some db1 \<Rightarrow> Inr (db1, h\<lparr>ih_AuthorizedAt := Some now\<rparr>, viewer))))"

section \<open>Platform login\<close>

record PlatformIdentityChallenge =
  pc_ID :: string
  pc_Code :: string
  pc_Email :: string

definition RequestPlatformIdentityOTP :: "(nat \<Rightarrow> nat) \<Rightarrow> (string \<Rightarrow> string) \<Rightarrow> mac_fun \<Rightarrow> nat list option \<Rightarrow> nat option \<Rightarrow> IdDb \<Rightarrow>
    string \<Rightarrow> string \<Rightarrow> nat list \<Rightarrow> nat list \<Rightarrow> time \<Rightarrow> duration \<Rightarrow> IdDb \<times> (id_error + PlatformIdentityChallenge option)" where
  "RequestPlatformIdentityOTP U sha mac rnd1 rnd2 db rawBinding rawEmail fingerprintHash key now ttl =
     (case browserBindingHash sha rawBinding of
        None \<Rightarrow> (db, Inl ErrIdentity)
      | Some bh \<Rightarrow>
     (case Normalize U rawEmail of
        Inl _ \<Rightarrow> (db, Inr None)
      | Inr email \<Rightarrow>
          if key = [] then (db, Inl ErrIdentity)
          else (case (challenge_id ''pidotp_'' rnd1, numericCode rnd2) of
             (Some cid, Some code) \<Rightarrow>
               write_tx db (\<lambda>db0.
                 let row = \<lparr>pr_Binding = bh, pr_Email = email, pr_Code = otp_hash mac key cid code, pr_Expires = now + otp_ttl ttl,
                       pr_Attempts = 0, pr_Consumed = None, pr_Invalidated = None, pr_Fingerprint = fingerprintHash, pr_Created = now\<rparr>;
                     rows = sql_update (\<lambda>i p. pr_Binding p = bh \<and> pr_Email p = email \<and> pr_Consumed p = None \<and> pr_Invalidated p = None)
                       (\<lambda>p. p\<lparr>pr_Invalidated := Some now\<rparr>) (gd_platform db0) in
                 if cid \<in> gm_keys rows then Inl SqlConstraint
                 else Inr (db0\<lparr>gd_platform := (cid, row) # rows\<rparr>, Some \<lparr>pc_ID = cid, pc_Code = code, pc_Email = email\<rparr>))
           | _ \<Rightarrow> (db, Inl IdEntropy))))"

definition platform_verify_tx :: "(string \<Rightarrow> string) \<Rightarrow> mac_fun \<Rightarrow> nat list option \<Rightarrow> nat list option \<Rightarrow> string \<Rightarrow> string \<Rightarrow> string \<Rightarrow>
    string \<Rightarrow> string \<Rightarrow> bool \<Rightarrow> nat list \<Rightarrow> time \<Rightarrow> int \<Rightarrow> IdDb \<Rightarrow> id_error + IdDb \<times> IdentityOTPResult option" where
  "platform_verify_tx sha mac rnd1 rnd2 bh email cid code oldRaw force key now maxAttempts db =
     (case map_of (gd_platform db) cid of
        None \<Rightarrow> Inr (db, None)
      | Some r \<Rightarrow>
          if pr_Binding r \<noteq> bh \<or> pr_Email r \<noteq> email \<or> pr_Consumed r \<noteq> None \<or> pr_Invalidated r \<noteq> None then Inr (db, None)
          else if \<not> now < pr_Expires r \<or> pr_Attempts r \<ge> maxAttempts then Inr (db, None)
          else if pr_Code r \<noteq> otp_hash mac key cid code then
            Inr (db\<lparr>gd_platform := sql_update (\<lambda>i p. i = cid \<and> pr_Attempts p < maxAttempts)
                (\<lambda>p. p\<lparr>pr_Attempts := pr_Attempts p + 1\<rparr>) (gd_platform db)\<rparr>, None)
          else (case activeBrowserBindingSessionTx db bh of
             Inl e \<Rightarrow> Inl e
           | Inr bound \<Rightarrow>
               if newer_family now (pr_Created r) bound then Inr (db, None)
               else (case replaced_silently sha db force oldRaw now of
                  Some e \<Rightarrow> if e = ErrOTP then Inr (db, None) else Inl e
                | None \<Rightarrow>
                    (case revoke_older sha db bound force oldRaw now of
                       Inl e \<Rightarrow> Inl e
                     | Inr (db1, refs) \<Rightarrow>
                         (case createIdentitySessionTx sha rnd1 rnd2 (upsert_identity db1 (mail_identity email)) (mail_identity email) bh now of
                            Inl e \<Rightarrow> Inl e
                          | Inr (db2, raw, v) \<Rightarrow>
                              (case map_of (gd_platform db2) cid of
                                 None \<Rightarrow> Inl ErrOTP
                               | Some p \<Rightarrow>
                                   if pr_Consumed p \<noteq> None \<or> pr_Invalidated p \<noteq> None then Inl ErrOTP
                                   else Inr (db2\<lparr>gd_platform := AList.update cid (p\<lparr>pr_Consumed := Some now\<rparr>) (gd_platform db2)\<rparr>,
                                     Some \<lparr>op_Token = raw, op_Session = v, op_Revoked = refs\<rparr>)))))))"

definition VerifyPlatformIdentityOTP :: "(nat \<Rightarrow> nat) \<Rightarrow> (string \<Rightarrow> string) \<Rightarrow> mac_fun \<Rightarrow> nat list option \<Rightarrow> nat list option \<Rightarrow> IdDb \<Rightarrow>
    string \<Rightarrow> string \<Rightarrow> string \<Rightarrow> string \<Rightarrow> string \<Rightarrow> bool \<Rightarrow> nat list \<Rightarrow> time \<Rightarrow> int \<Rightarrow> IdDb \<times> (id_error + IdentityOTPResult)" where
  "VerifyPlatformIdentityOTP U sha mac rnd1 rnd2 db rawBinding rawEmail cid code oldRaw force key now maxAttempts =
     (case browserBindingHash sha rawBinding of
        None \<Rightarrow> (db, Inl ErrIdentity)
      | Some bh \<Rightarrow>
     (case Normalize U rawEmail of
        Inl _ \<Rightarrow> (db, Inl ErrOTP)
      | Inr email \<Rightarrow>
          if cid = [] \<or> key = [] then (db, Inl ErrOTP)
          else otp_outcome (write_tx db
            (platform_verify_tx sha mac rnd1 rnd2 bh email cid code oldRaw force key now (max_attempts maxAttempts)))))"

section \<open>App sessions\<close>

definition issueChildAppSessionTx :: "(string \<Rightarrow> string) \<Rightarrow> nat list option \<Rightarrow> time \<Rightarrow> IdDb \<Rightarrow> string \<Rightarrow> Identity \<Rightarrow> string \<Rightarrow> time \<Rightarrow>
    id_error + IdDb \<times> string \<times> Session" where
  "issueChildAppSessionTx sha rnd clock db appID viewer parent expiry =
     (if parent = [] then Inl ErrSessionInvalid
      else case rnd of
          None \<Rightarrow> Inl IdEntropy
        | Some b \<Rightarrow>
            let raw = b64_encode b; cid = ''ses_'' @ take 12 raw;
                row = \<lparr>cr_App = appID, cr_Identity = id_ID viewer, cr_Parent = parent, cr_Secret = sha raw,
                  cr_Expires = expiry, cr_Revoked = None, cr_Created = clock\<rparr> in
            if cid \<in> gm_keys (gd_children db) \<or> sha raw \<in> (cr_Secret \<circ> snd) ` set (gd_children db) then Inl SqlConstraint
            else Inr (db\<lparr>gd_children := (cid, row) # gd_children db\<rparr>, raw,
              \<lparr>ses_ID = cid, ses_AppID = appID, ses_Identity = viewer, ses_ExpiresAt = expiry, ses_Revoked = False\<rparr>))"

definition consume_tx :: "(string \<Rightarrow> string) \<Rightarrow> nat list option \<Rightarrow> time \<Rightarrow> string \<Rightarrow> string \<Rightarrow> string \<Rightarrow> time \<Rightarrow> time \<Rightarrow> IdDb \<Rightarrow>
    id_error + IdDb \<times> IdentityHandoff \<times> string \<times> Session" where
  "consume_tx sha rnd clock exactAppID hid stateHash now appExpiry db =
     (case (map_of (gd_handoffs db) hid, handoffTx db hid) of
        (Some row, Some h) \<Rightarrow>
          (case ho_Session row of
             None \<Rightarrow> Inl ErrIdentity
           | Some sid \<Rightarrow>
          (case map_of (gd_sessions db) sid of
             None \<Rightarrow> Inl ErrIdentity
           | Some s \<Rightarrow>
          (case map_of (gd_identities db) (ir_Identity s) of
             None \<Rightarrow> Inl ErrIdentity
           | Some email \<Rightarrow>
               let viewer = \<lparr>id_ID = ir_Identity s, id_Email = email\<rparr> in
               if ho_App row \<noteq> exactAppID \<or> ho_State row \<noteq> stateHash \<or> ir_Revoked s \<noteq> None \<or> ho_Revoked row \<noteq> None then Inl ErrIdentity
               else if ih_AuthorizedAt h = None \<or> \<not> open_handoff now h then Inl ErrIdentity
               else if \<not> now < ir_Expires s \<or> \<not> policyAllowsTx db exactAppID viewer then Inl ErrIdentity
               else (case update_handoff pending_row (\<lambda>r. r\<lparr>ho_Consumed := Some now\<rparr>) db hid of
                       None \<Rightarrow> Inl ErrIdentity
                     | Some db1 \<Rightarrow>
                         (case issueChildAppSessionTx sha rnd clock db1 exactAppID viewer sid appExpiry of
                            Inl e \<Rightarrow> Inl e
                          | Inr (db2, raw, v) \<Rightarrow> Inr (db2, h, raw, v))))))
      | _ \<Rightarrow> Inl ErrIdentity)"

definition ConsumeIdentityHandoff :: "(string \<Rightarrow> string) \<Rightarrow> nat list option \<Rightarrow> time \<Rightarrow> IdDb \<Rightarrow> string \<Rightarrow> string \<Rightarrow> string \<Rightarrow> time \<Rightarrow> time \<Rightarrow>
    IdDb \<times> (id_error + IdentityHandoff \<times> string \<times> Session)" where
  "ConsumeIdentityHandoff sha rnd clock db exactAppID hid rawState now appExpiry =
     (if rawState = [] \<or> \<not> now < appExpiry then (db, Inl ErrIdentity)
      else write_tx db (consume_tx sha rnd clock exactAppID hid (sha rawState) now appExpiry))"

definition ValidateChild :: "(string \<Rightarrow> string) \<Rightarrow> IdDb \<Rightarrow> string \<Rightarrow> string \<Rightarrow> time \<Rightarrow> session_error + Session" where
  "ValidateChild sha db appID raw now =
     (case find (\<lambda>(cid, c). cr_App c = appID \<and> cr_Secret c = sha raw) (gd_children db) of
        None \<Rightarrow> Inl ErrInvalidSession
      | Some (cid, c) \<Rightarrow>
          (case (map_of (gd_identities db) (cr_Identity c), map_of (gd_sessions db) (cr_Parent c), map_of (gd_apps db) appID) of
             (Some email, Some parent, Some a) \<Rightarrow>
               if ar_Status a \<noteq> ''active'' \<or> cr_Revoked c \<noteq> None \<or> ir_Revoked parent \<noteq> None
                  \<or> \<not> now < cr_Expires c \<or> \<not> now < ir_Expires parent then Inl ErrInvalidSession
               else Inr \<lparr>ses_ID = cid, ses_AppID = appID, ses_Identity = \<lparr>id_ID = cr_Identity c, id_Email = email\<rparr>,
                         ses_ExpiresAt = cr_Expires c, ses_Revoked = False\<rparr>
           | _ \<Rightarrow> Inl ErrInvalidSession))"

definition RevokeChild :: "(string \<Rightarrow> string) \<Rightarrow> time \<Rightarrow> IdDb \<Rightarrow> string \<Rightarrow> string \<Rightarrow> IdDb \<times> (session_error + string)" where
  "RevokeChild sha clock db appID raw =
     (case find (\<lambda>(cid, c). cr_Secret c = sha raw \<and> cr_App c = appID \<and> cr_Revoked c = None) (gd_children db) of
        None \<Rightarrow> (db, Inl ErrInvalidSession)
      | Some (cid, c) \<Rightarrow>
          (db\<lparr>gd_children := sql_update (\<lambda>i c'. cr_Secret c' = sha raw \<and> cr_App c' = appID \<and> cr_Revoked c' = None)
              (\<lambda>c'. c'\<lparr>cr_Revoked := Some clock\<rparr>) (gd_children db)\<rparr>, Inr cid))"

end
