(* ===== verification/Identity_Safety.thy ===== *)
theory Identity_Safety
  imports Global_Identity
begin

text \<open>
  The properties of the global browser identity: the invariant of its tables, how they evolve in any run of the
  operations, that a revocation is final and reported in full, that a handoff is used at most once and only for
  the app and the browser it was made for, and how a rotated secret is recognised.
\<close>

section \<open>Conditional updates\<close>

lemma map_of_sql_update [gomap_simps]:
  "map_of (sql_update P f m) k = map_option (\<lambda>v. if P k v then f v else v) (map_of m k)"
  unfolding sql_update_def by (induction m) auto

lemma sql_update_keys [simp]: "map fst (sql_update P f m) = map fst m"
  by (induction m) (auto simp: sql_update_def)

lemma map_of_filter_rows [gomap_simps]:
  "map_of (filter (\<lambda>(i, v). i \<notin> D) m) k = (if k \<in> D then None else map_of m k)"
  by (induction m) auto

lemma find_map_of:
  assumes "find P m = Some (k, v)" "gm_wf m"
  shows "map_of m k = Some v \<and> P (k, v)"
  using assms by (auto simp: find_Some_iff)

section \<open>The invariant\<close>

definition sessions_inv :: "IdDb \<Rightarrow> bool" where
  "sessions_inv db \<longleftrightarrow> gm_wf (gd_sessions db) \<and>
     (\<forall>i r. map_of (gd_sessions db) i = Some r \<longrightarrow> ir_Family r \<noteq> []) \<and>
     (\<forall>i r j r'. map_of (gd_sessions db) i = Some r \<longrightarrow> map_of (gd_sessions db) j = Some r' \<longrightarrow>
        ir_Revoked r = None \<longrightarrow> ir_Revoked r' = None \<longrightarrow> ir_Binding r = ir_Binding r' \<longrightarrow> i = j)"

definition live_parent :: "IdDb \<Rightarrow> string \<Rightarrow> bool \<Rightarrow> bool" where
  "live_parent db sid must_live \<longleftrightarrow>
     (\<exists>p. map_of (gd_sessions db) sid = Some p \<and> (must_live \<longrightarrow> ir_Revoked p = None))"

lemma live_parent_other [simp]:
  "live_parent (db\<lparr>gd_handoffs := hs\<rparr>) = live_parent db" "live_parent (db\<lparr>gd_children := cs\<rparr>) = live_parent db"
  by (simp_all add: fun_eq_iff live_parent_def)

definition children_inv :: "IdDb \<Rightarrow> bool" where
  "children_inv db \<longleftrightarrow> gm_wf (gd_children db) \<and>
     (\<forall>i c. map_of (gd_children db) i = Some c \<longrightarrow> live_parent db (cr_Parent c) (cr_Revoked c = None))"

definition handoffs_inv :: "IdDb \<Rightarrow> bool" where
  "handoffs_inv db \<longleftrightarrow> gm_wf (gd_handoffs db) \<and>
     (\<forall>i h. map_of (gd_handoffs db) i = Some h \<longrightarrow>
        (\<forall>sid. ho_Session h = Some sid \<longrightarrow> live_parent db sid (pending_row h)))"

definition id_inv :: "IdDb \<Rightarrow> bool" where
  "id_inv db \<longleftrightarrow> sessions_inv db \<and> children_inv db \<and> handoffs_inv db"

lemmas id_inv_defs = id_inv_def sessions_inv_def children_inv_def handoffs_inv_def live_parent_def

lemma id_invD:
  assumes "id_inv db"
  shows "gm_wf (gd_sessions db)" "gm_wf (gd_children db)" "gm_wf (gd_handoffs db)"
  using assms by (auto simp: id_inv_defs)

lemma handoff_live:
  "id_inv db \<Longrightarrow> map_of (gd_handoffs db) i = Some h \<Longrightarrow> ho_Session h = Some sid \<Longrightarrow> live_parent db sid (pending_row h)"
  unfolding id_inv_def handoffs_inv_def by blast

section \<open>Evolution\<close>

text \<open>
  How the tables change over any number of steps: families outside \<open>fams\<close> get no new session and a revoked
  session stays revoked, app sessions stay with what they were issued for, and a handoff whose id is outside
  \<open>hids\<close> is never made anew and, once consumed, never opened again.
\<close>

definition evolves :: "string set \<Rightarrow> string set \<Rightarrow> IdDb \<Rightarrow> IdDb \<Rightarrow> bool" where
  "evolves fams hids db db' \<longleftrightarrow>
     (\<forall>i r'. map_of (gd_sessions db') i = Some r' \<longrightarrow> ir_Family r' \<notin> fams \<longrightarrow>
        (\<exists>r. map_of (gd_sessions db) i = Some r \<and> ir_Family r = ir_Family r' \<and>
             (ir_Revoked r \<noteq> None \<longrightarrow> ir_Revoked r' = ir_Revoked r)))
     \<and> (\<forall>i h'. map_of (gd_handoffs db') i = Some h' \<longrightarrow> i \<notin> hids \<longrightarrow>
        (\<exists>h. map_of (gd_handoffs db) i = Some h \<and> (ho_Consumed h \<noteq> None \<longrightarrow> ho_Consumed h' \<noteq> None)))"

lemma evolves_refl: "evolves fams hids db db"
  by (auto simp: evolves_def)

lemma evolves_trans:
  assumes "evolves f1 h1 a b" "evolves f2 h2 b c" "f1 \<subseteq> f" "f2 \<subseteq> f" "h1 \<subseteq> h" "h2 \<subseteq> h"
  shows "evolves f h a c"
proof -
  have "\<exists>r. map_of (gd_sessions a) i = Some r \<and> ir_Family r = ir_Family r' \<and>
      (ir_Revoked r \<noteq> None \<longrightarrow> ir_Revoked r' = ir_Revoked r)"
    if s: "map_of (gd_sessions c) i = Some r'" "ir_Family r' \<notin> f" for i r'
  proof -
    from assms(2,4) s obtain q where q: "map_of (gd_sessions b) i = Some q" "ir_Family q = ir_Family r'"
      "ir_Revoked q \<noteq> None \<longrightarrow> ir_Revoked r' = ir_Revoked q" unfolding evolves_def by blast
    from assms(1,3) q(1,2) s(2) obtain r where "map_of (gd_sessions a) i = Some r" "ir_Family r = ir_Family q"
      "ir_Revoked r \<noteq> None \<longrightarrow> ir_Revoked q = ir_Revoked r" unfolding evolves_def by (metis subsetD)
    with q show ?thesis by auto
  qed
  moreover have "\<exists>g. map_of (gd_handoffs a) i = Some g \<and> (ho_Consumed g \<noteq> None \<longrightarrow> ho_Consumed g' \<noteq> None)"
    if s: "map_of (gd_handoffs c) i = Some g'" "i \<notin> h" for i g'
  proof -
    from assms(2,6) s obtain q where q: "map_of (gd_handoffs b) i = Some q"
      "ho_Consumed q \<noteq> None \<longrightarrow> ho_Consumed g' \<noteq> None" unfolding evolves_def by blast
    from assms(1,5) q(1) s(2) obtain g where "map_of (gd_handoffs a) i = Some g"
      "ho_Consumed g \<noteq> None \<longrightarrow> ho_Consumed q \<noteq> None" unfolding evolves_def by blast
    with q show ?thesis by blast
  qed
  ultimately show ?thesis unfolding evolves_def by blast
qed

lemma evolves_mono: "evolves f1 h1 a b \<Longrightarrow> f1 \<subseteq> f \<Longrightarrow> h1 \<subseteq> h \<Longrightarrow> evolves f h a b"
  unfolding evolves_def by (meson subsetD)

text \<open>A step keeps the invariant and evolves.\<close>

definition good_step :: "string set \<Rightarrow> string set \<Rightarrow> IdDb \<Rightarrow> IdDb \<Rightarrow> bool" where
  "good_step fams hids db db' \<longleftrightarrow> id_inv db' \<and> evolves fams hids db db'"

lemma good_trans: "good_step f h a b \<Longrightarrow> good_step f h b c \<Longrightarrow> good_step f h a c"
  unfolding good_step_def using evolves_trans by blast

lemma good_refl [simp]: "id_inv db \<Longrightarrow> good_step f h db db"
  by (simp add: good_step_def evolves_refl)

lemma good_inv: "good_step f h db db' \<Longrightarrow> id_inv db'"
  by (simp add: good_step_def)

section \<open>The building blocks\<close>

lemma id_inv_other:
  assumes "gd_sessions db' = gd_sessions db" "gd_children db' = gd_children db" "gd_handoffs db' = gd_handoffs db"
  shows "id_inv db' = id_inv db"
  by (simp add: id_inv_defs assms)

lemma evolves_other:
  assumes "gd_sessions db' = gd_sessions db" "gd_handoffs db' = gd_handoffs db"
  shows "evolves f h db db'"
  using assms by (simp add: evolves_def)

lemma good_other:
  assumes "id_inv db" "gd_sessions db' = gd_sessions db" "gd_children db' = gd_children db" "gd_handoffs db' = gd_handoffs db"
  shows "good_step f h db db'"
  using assms id_inv_other [of db' db] evolves_other [of db' db] by (simp add: good_step_def)

lemma good_cleanup: "id_inv db \<Longrightarrow> good_step f h db (cleanupIdentityHandoffsTx now db)"
  by (auto simp: good_step_def evolves_def cleanupIdentityHandoffsTx_def Let_def gomap_simps id_inv_defs
      distinct_map_filter split: if_splits)

lemma family_ids_iff:
  assumes "id_inv db"
  shows "sid \<in> set (family_ids db fam) \<longleftrightarrow> (\<exists>r. map_of (gd_sessions db) sid = Some r \<and> ir_Family r = fam)"
  using id_invD(1) [OF assms] by (force simp: family_ids_def)

text \<open>What a revocation of a family leaves of each row.\<close>

definition hangs_on :: "IdDb \<Rightarrow> string \<Rightarrow> HandoffRow \<Rightarrow> bool" where
  "hangs_on db fam h \<longleftrightarrow> (case ho_Session h of None \<Rightarrow> False | Some sid \<Rightarrow> sid \<in> set (family_ids db fam))"

definition revoked_row :: "string \<Rightarrow> time \<Rightarrow> IdentityRow \<Rightarrow> IdentityRow" where
  "revoked_row fam now r = (if ir_Family r = fam \<and> ir_Revoked r = None then r\<lparr>ir_Revoked := Some now\<rparr> else r)"

definition revoked_child :: "IdDb \<Rightarrow> string \<Rightarrow> time \<Rightarrow> ChildRow \<Rightarrow> ChildRow" where
  "revoked_child db fam now c =
     (if cr_Revoked c = None \<and> cr_Parent c \<in> set (family_ids db fam) then c\<lparr>cr_Revoked := Some now\<rparr> else c)"

definition revoked_handoff :: "IdDb \<Rightarrow> string \<Rightarrow> time \<Rightarrow> HandoffRow \<Rightarrow> HandoffRow" where
  "revoked_handoff db fam now h = (if pending_row h \<and> hangs_on db fam h then h\<lparr>ho_Revoked := Some now\<rparr> else h)"

lemma revoked_row_simps [simp]:
  "ir_Family (revoked_row fam now r) = ir_Family r" "ir_Binding (revoked_row fam now r) = ir_Binding r"
  "ir_Identity (revoked_row fam now r) = ir_Identity r"
  "ir_Revoked (revoked_row fam now r) = None \<longleftrightarrow> ir_Revoked r = None \<and> ir_Family r \<noteq> fam"
  "ir_Revoked r = Some t \<Longrightarrow> ir_Revoked (revoked_row fam now r) = Some t"
  by (auto simp: revoked_row_def)

lemma revoked_child_simps [simp]:
  "cr_Parent (revoked_child db fam now c) = cr_Parent c" "cr_App (revoked_child db fam now c) = cr_App c"
  "cr_Revoked (revoked_child db fam now c) = None \<longleftrightarrow> cr_Revoked c = None \<and> cr_Parent c \<notin> set (family_ids db fam)"
  by (auto simp: revoked_child_def)

lemma revoked_handoff_simps [simp]:
  "ho_Session (revoked_handoff db fam now h) = ho_Session h" "ho_Consumed (revoked_handoff db fam now h) = ho_Consumed h"
  "ho_Revoked (revoked_handoff db fam now h) = None \<longleftrightarrow> ho_Revoked h = None \<and> (ho_Consumed h \<noteq> None \<or> \<not> hangs_on db fam h)"
  by (auto simp: revoked_handoff_def)

lemma revoke_family_rows:
  assumes "revokeIdentityFamilyTx db fam now = Inr (db', refs)"
  shows "refs = child_refs db fam"
    "map_of (gd_sessions db') k = map_option (revoked_row fam now) (map_of (gd_sessions db) k)"
    "map_of (gd_children db') k = map_option (revoked_child db fam now) (map_of (gd_children db) k)"
    "map_of (gd_handoffs db') k = map_option (revoked_handoff db fam now) (map_of (gd_handoffs db) k)"
    "map fst (gd_sessions db') = map fst (gd_sessions db)" "map fst (gd_children db') = map fst (gd_children db)"
    "map fst (gd_handoffs db') = map fst (gd_handoffs db)"
  using assms
  by (auto simp: revokeIdentityFamilyTx_def Let_def gomap_simps revoked_row_def [abs_def] revoked_child_def [abs_def]
      revoked_handoff_def [abs_def] hangs_on_def conj_assoc split: if_splits)

lemma good_revoke:
  assumes inv: "id_inv db" and r: "revokeIdentityFamilyTx db fam now = Inr (db', refs)"
  shows "good_step f h db db'"
proof -
  note ids = family_ids_iff [OF inv] and rows = revoke_family_rows [OF r]
  have "evolves f h db db'"
    by (auto simp: evolves_def rows)
  moreover have "sessions_inv db'"
    using inv by (auto simp: id_inv_def sessions_inv_def rows)
  moreover have live: "live_parent db' sid (m \<and> sid \<notin> set (family_ids db fam))" if "live_parent db sid m" for sid m
    using that by (auto simp: live_parent_def rows ids)
  have "live_parent db' (cr_Parent c) (cr_Revoked c = None)" if "map_of (gd_children db') i = Some c" for i c
  proof -
    from that obtain d where "map_of (gd_children db) i = Some d" and c: "c = revoked_child db fam now d"
      by (auto simp: rows)
    with inv have "live_parent db (cr_Parent d) (cr_Revoked d = None)" by (simp add: id_inv_def children_inv_def)
    from live [OF this] show ?thesis by (simp add: c)
  qed
  then have "children_inv db'"
    using inv by (simp add: id_inv_def children_inv_def rows(6))
  moreover have "live_parent db' sid (pending_row g)"
    if "map_of (gd_handoffs db') i = Some g" "ho_Session g = Some sid" for i g sid
  proof -
    from that obtain d where d: "map_of (gd_handoffs db) i = Some d" and g: "g = revoked_handoff db fam now d"
      by (auto simp: rows)
    with inv that(2) have "live_parent db sid (pending_row d)" by (simp add: id_inv_def handoffs_inv_def)
    from live [OF this] show ?thesis using that(2) by (auto simp: g hangs_on_def live_parent_def)
  qed
  then have "handoffs_inv db'"
    using inv by (simp add: id_inv_def handoffs_inv_def rows(7))
  ultimately show ?thesis by (simp add: good_step_def id_inv_def)
qed

lemma good_revoke_session:
  "id_inv db \<Longrightarrow> revokeIdentitySessionTx sha db raw now = Inr (db', refs) \<Longrightarrow> good_step f h db db'"
  by (auto simp: revokeIdentitySessionTx_def good_revoke split: if_splits option.splits)

lemma good_revoke_older:
  assumes "id_inv db" "revoke_older sha db bound force oldRaw now = Inr (db', refs)"
  shows "good_step f h db db'"
proof -
  obtain db1 refs1 where one: "(case bound of None \<Rightarrow> Inr (db, []) | Some r \<Rightarrow> revokeIdentityFamilyTx db (ir_Family r) now) = Inr (db1, refs1)"
    using assms(2) by (auto simp: revoke_older_def split: sum.splits)
  have g1: "good_step f h db db1"
    using one assms(1) by (auto simp: good_revoke split: option.splits)
  show ?thesis
  proof (cases "db' = db1")
    case False
    then obtain refs2 where "revokeIdentitySessionTx sha db1 oldRaw now = Inr (db', refs2)"
      using assms(2) one by (auto simp: revoke_older_def split: if_splits sum.splits)
    from good_revoke_session [OF good_inv [OF g1] this] show ?thesis by (rule good_trans [OF g1])
  qed (use g1 in simp)
qed

text \<open>The row behind an accepted credential.\<close>

lemma credential_row:
  assumes "id_inv db" "identitySessionTx sha db raw now \<in> {Valid_credential v prior, Replayed v}"
  obtains r email where "map_of (gd_sessions db) (gs_ID v) = Some r" "ir_Revoked r = None" "has_secret (sha raw) r"
    "now < ir_Expires r" "v = session_value (gs_ID v) r email" "map_of (gd_identities db) (ir_Identity r) = Some email"
proof -
  have v: "identitySessionTx sha db raw now \<noteq> Refused e" for e using assms(2) by auto
  from v [of ErrIdentity] obtain sid r where f: "find (\<lambda>(sid, r). has_secret (sha raw) r \<and> ir_Identity r \<in> gm_keys (gd_identities db))
      (gd_sessions db) = Some (sid, r)" and nz: "raw \<noteq> []"
    by (auto simp: identitySessionTx_def split: option.splits if_splits)
  with find_map_of [OF f id_invD(1) [OF assms(1)]] have m: "map_of (gd_sessions db) sid = Some r" "has_secret (sha raw) r"
    "ir_Identity r \<in> gm_keys (gd_identities db)" by auto
  from m(3) obtain email where e: "map_of (gd_identities db) (ir_Identity r) = Some email"
    by (metis map_of_eq_None_iff not_None_eq)
  have "ir_Revoked r = None \<and> now < ir_Expires r \<and> v = session_value sid r email"
    using assms(2) f nz e by (auto simp: identitySessionTx_def Let_def split: if_splits option.splits)
  then show thesis using that [of r email] m e by (simp add: session_value_def)
qed

lemma good_use:
  assumes inv: "id_inv db" and u: "use_credential sha rnd db raw now v prior = Inr (db', rep, v')"
  shows "good_step f h db db'"
proof -
  obtain g P where db': "db' = db\<lparr>gd_sessions := sql_update P g (gd_sessions db)\<rparr>"
    and g: "\<And>r. ir_Family (g r) = ir_Family r" "\<And>r. ir_Binding (g r) = ir_Binding r" "\<And>r. ir_Revoked (g r) = ir_Revoked r"
    using u by (fastforce simp: use_credential_def rotate_row_def split: if_splits option.splits)
  have look: "map_of (gd_sessions db') k = map_option (\<lambda>r. if P k r then g r else r) (map_of (gd_sessions db) k)" for k
    by (simp add: db' gomap_simps)
  have "evolves f h db db'" by (auto simp: evolves_def look g) (simp add: db')
  moreover have "live_parent db' sid m" if "live_parent db sid m" for sid m
  proof -
    from that obtain p where "map_of (gd_sessions db) sid = Some p" "m \<longrightarrow> ir_Revoked p = None" by (auto simp: live_parent_def)
    then show ?thesis by (cases "P sid p") (simp_all add: live_parent_def look g)
  qed
  moreover have "sessions_inv db'"
    using inv by (auto simp: id_inv_def sessions_inv_def look g split: if_splits) (simp add: db')
  ultimately show ?thesis
    using inv by (simp add: good_step_def id_inv_def children_inv_def handoffs_inv_def db')
qed

definition drawn :: "string \<Rightarrow> nat list option \<Rightarrow> string set" where
  "drawn pre rnd = set_option (randomOpaque pre rnd)"

lemma create_sessionE:
  assumes "createIdentitySessionTx sha rnd1 rnd2 db viewer bh now = Inr (db', raw, v)"
  obtains fam row where "drawn ''fam_'' rnd2 = {fam}" "fam \<noteq> []" "db' = db\<lparr>gd_sessions := (gs_ID v, row) # gd_sessions db\<rparr>"
    "gs_ID v \<notin> gm_keys (gd_sessions db)" "v = session_value (gs_ID v) row (id_Email viewer)" "ir_Family row = fam"
    "ir_Binding row = bh" "ir_Revoked row = None" "ir_Identity row = id_ID viewer" "ir_Secret row = sha raw"
    "ir_Previous row = None" "ir_Expires row = now + identityLifetime" "randomOpaque ''gid_'' rnd1 = Some raw"
    "\<not> list_ex (\<lambda>(i, r). ir_Binding r = bh \<and> ir_Revoked r = None) (gd_sessions db)"
proof -
  obtain fam where d: "randomOpaque ''gid_'' rnd1 = Some raw" "randomOpaque ''fam_'' rnd2 = Some fam"
    using assms by (auto simp: createIdentitySessionTx_def Let_def split: option.splits if_splits)
  let ?row = "\<lparr>ir_Identity = id_ID viewer, ir_Family = fam, ir_Secret = sha raw, ir_Binding = bh, ir_Previous = None,
    ir_Expires = now + identityLifetime, ir_LastSeen = now, ir_Rotated = now, ir_Revoked = None, ir_Created = now\<rparr>"
  show thesis
    by (rule that [of fam ?row]) (use assms d in \<open>fastforce simp: createIdentitySessionTx_def Let_def drawn_def session_value_def image_iff randomOpaque_def split: if_splits\<close>)+
qed

lemma good_create:
  assumes inv: "id_inv db" and c: "createIdentitySessionTx sha rnd1 rnd2 db viewer bh now = Inr (db', raw, v)"
    and f: "drawn ''fam_'' rnd2 \<subseteq> f"
  shows "good_step f h db db'"
  using c
proof (rule create_sessionE)
  fix fam row
  assume ne: "(fam :: string) \<noteq> []"
  assume a: "drawn ''fam_'' rnd2 = {fam}" "db' = db\<lparr>gd_sessions := (gs_ID v, row) # gd_sessions db\<rparr>"
    "gs_ID v \<notin> gm_keys (gd_sessions db)" "ir_Family row = fam" "ir_Binding row = bh" "ir_Revoked row = None"
    "\<not> list_ex (\<lambda>(i, r). ir_Binding r = bh \<and> ir_Revoked r = None) (gd_sessions db)"
  have new: "map_of (gd_sessions db) (gs_ID v) = None" using a(3) by (simp add: map_of_eq_None_iff)
  have none: "ir_Revoked r \<noteq> None" if "(i, r) \<in> set (gd_sessions db)" "ir_Binding r = bh" for i r
    using a(7) that by (auto simp: list_ex_iff)
  have "evolves f h db db'"
    using f a(1,4) by (auto simp: evolves_def a(2))
  moreover have "live_parent db' sid m" if "live_parent db sid m" for sid m
    using that new by (auto simp: live_parent_def a(2))
  moreover have "sessions_inv db'"
    using inv a(3,4) ne by (auto simp: id_inv_def sessions_inv_def a(2,5,6) dest: none)
  ultimately show ?thesis
    using inv by (simp add: good_step_def id_inv_def children_inv_def handoffs_inv_def a(2))
qed

lemma good_update_handoff:
  assumes inv: "id_inv db" and u: "update_handoff P g db hid = Some db'"
    and consumed: "\<And>r. P r \<Longrightarrow> ho_Consumed r \<noteq> None \<Longrightarrow> ho_Consumed (g r) \<noteq> None"
    and live: "\<And>r sid. map_of (gd_handoffs db) hid = Some r \<Longrightarrow> P r \<Longrightarrow> ho_Session (g r) = Some sid \<Longrightarrow> live_parent db sid (pending_row (g r))"
  shows "good_step f h db db'"
proof -
  obtain r where r: "map_of (gd_handoffs db) hid = Some r" "P r"
    and db': "db' = db\<lparr>gd_handoffs := AList.update hid (g r) (gd_handoffs db)\<rparr>"
    using u by (auto simp: update_handoff_def split: option.splits if_splits)
  have "evolves f h db db'"
    using consumed [OF r(2)] r(1) by (auto simp: evolves_def db' gomap_simps)
  moreover have "handoffs_inv db'"
    using inv live [OF r] by (auto simp: id_inv_def handoffs_inv_def db' gomap_simps)
  ultimately show ?thesis
    using inv by (simp add: good_step_def id_inv_def children_inv_def sessions_inv_def db')
qed

lemma issue_childE:
  assumes "issueChildAppSessionTx sha rnd clock db appID viewer parent expiry = Inr (db', raw, s)"
  obtains row where "db' = db\<lparr>gd_children := (ses_ID s, row) # gd_children db\<rparr>" "ses_ID s \<notin> gm_keys (gd_children db)"
    "cr_App row = appID" "cr_Identity row = id_ID viewer" "cr_Parent row = parent" "cr_Secret row = sha raw"
    "cr_Expires row = expiry" "cr_Revoked row = None"
    "s = \<lparr>ses_ID = ses_ID s, ses_AppID = appID, ses_Identity = viewer, ses_ExpiresAt = expiry, ses_Revoked = False\<rparr>"
proof -
  obtain b where d: "rnd = Some b"
    using assms by (auto simp: issueChildAppSessionTx_def split: option.splits if_splits)
  let ?row = "\<lparr>cr_App = appID, cr_Identity = id_ID viewer, cr_Parent = parent, cr_Secret = sha raw,
    cr_Expires = expiry, cr_Revoked = None, cr_Created = clock\<rparr>"
  show thesis
    by (rule that [of ?row]) (use assms d in \<open>fastforce simp: issueChildAppSessionTx_def Let_def image_iff split: if_splits\<close>)+
qed

lemma good_issue_child:
  assumes inv: "id_inv db" and c: "issueChildAppSessionTx sha rnd clock db appID viewer parent expiry = Inr (db', raw, s)"
    and live: "live_parent db parent True"
  shows "good_step f h db db'"
  using c
proof (rule issue_childE)
  fix row
  assume a: "db' = db\<lparr>gd_children := (ses_ID s, row) # gd_children db\<rparr>" "ses_ID s \<notin> gm_keys (gd_children db)"
    "cr_Parent row = parent" "cr_Revoked row = None"
  have "children_inv db'"
    using inv live a(2) by (auto simp: id_inv_def children_inv_def a(1,3,4))
  then show ?thesis
    using inv by (auto simp: good_step_def id_inv_def sessions_inv_def handoffs_inv_def evolves_def a(1))
qed

section \<open>The operations\<close>

lemma good_write:
  "id_inv db \<Longrightarrow> (\<And>db' a. fn db = Inr (db', a) \<Longrightarrow> good_step f h db db') \<Longrightarrow> good_step f h db (fst (write_tx db fn))"
  by (auto simp: write_tx_def split: sum.splits)

lemma good_insert_handoff:
  assumes "id_inv db" "hid \<in> h" "hid \<notin> gm_keys (gd_handoffs db)" "ho_Session row = None"
  shows "good_step f h db (db\<lparr>gd_handoffs := (hid, row) # gd_handoffs db\<rparr>)"
  using assms by (auto simp: good_step_def id_inv_def sessions_inv_def children_inv_def handoffs_inv_def evolves_def)

lemma good_create_handoff:
  assumes inv: "id_inv db" and h: "drawn ''ih_'' rnd1 \<subseteq> h"
  shows "good_step f h db (fst (CreateIdentityHandoff sha url_parse rnd1 rnd2 db appID returnPath forceLogin now))"
proof -
  have step: "good_step f h db (fst (write_tx db (\<lambda>db0.
            let db1 = cleanupIdentityHandoffsTx now db0;
                row = \<lparr>ho_App = appID, ho_State = sha state, ho_Return = ret, ho_Force = forceLogin, ho_Binding = None,
                  ho_Session = None, ho_Expires = now + handoffLifetime, ho_Authorized = None, ho_Consumed = None,
                  ho_Revoked = None, ho_Created = now\<rparr> in
            (case map_of (gd_apps db1) appID of
               None \<Rightarrow> Inl ErrIdentity
             | Some a \<Rightarrow>
                 if ar_Status a \<noteq> ''active'' then Inl ErrIdentity
                 else if hid \<in> gm_keys (gd_handoffs db1) \<or> sha state \<in> (ho_State \<circ> snd) ` set (gd_handoffs db1)
                 then Inl SqlConstraint
                 else Inr (db1\<lparr>gd_handoffs := (hid, row) # gd_handoffs db1\<rparr>,
                   (handoff_value hid row [], state))))))"
    if "randomOpaque ''ih_'' rnd1 = Some hid" for hid ret state
  proof (rule good_write [OF inv])
    fix db' a
    have "hid \<in> h" using h that by (auto simp: drawn_def)
    note clean = good_cleanup [OF inv, of f h now]
    note ins = good_insert_handoff [OF good_inv [OF clean] \<open>hid \<in> h\<close>]
    assume "(let db1 = cleanupIdentityHandoffsTx now db;
                row = \<lparr>ho_App = appID, ho_State = sha state, ho_Return = ret, ho_Force = forceLogin, ho_Binding = None,
                  ho_Session = None, ho_Expires = now + handoffLifetime, ho_Authorized = None, ho_Consumed = None,
                  ho_Revoked = None, ho_Created = now\<rparr> in
            (case map_of (gd_apps db1) appID of
               None \<Rightarrow> Inl ErrIdentity
             | Some a \<Rightarrow>
                 if ar_Status a \<noteq> ''active'' then Inl ErrIdentity
                 else if hid \<in> gm_keys (gd_handoffs db1) \<or> sha state \<in> (ho_State \<circ> snd) ` set (gd_handoffs db1)
                 then Inl SqlConstraint
                 else Inr (db1\<lparr>gd_handoffs := (hid, row) # gd_handoffs db1\<rparr>,
                   (handoff_value hid row [], state)))) = Inr (db', a)"
    then show "good_step f h db db'"
      by (auto simp: Let_def split: option.splits if_splits intro!: good_trans [OF clean ins])
  qed
  show ?thesis
    unfolding CreateIdentityHandoff_def using inv step by (auto split: option.splits)
qed

lemma good_validate: "id_inv db \<Longrightarrow> good_step f h db (fst (ValidateIdentitySession sha rnd db raw now))"
  by (auto simp: ValidateIdentitySession_def Let_def split: credential.splits sum.splits intro: good_revoke good_use)

lemma good_dashboard: "id_inv db \<Longrightarrow> good_step f h db (fst (AuthenticateDashboardIdentity sha rnd db raw now))"
  by (auto simp: AuthenticateDashboardIdentity_def Let_def split: credential.splits sum.splits option.splits
      intro: good_revoke good_use)

lemma good_revoke_op: "id_inv db \<Longrightarrow> good_step f h db (fst (RevokeIdentitySession sha db raw now))"
  unfolding RevokeIdentitySession_def by (rule good_write) (auto intro: good_revoke_session)

lemma good_revoke_binding: "id_inv db \<Longrightarrow> good_step f h db (fst (RevokeIdentityBrowserBinding sha db raw now))"
  unfolding RevokeIdentityBrowserBinding_def
  by (cases "browserBindingHash sha raw") (auto intro!: good_write intro: good_revoke split: sum.splits option.splits)

lemma good_challenge:
  "id_inv db \<Longrightarrow> good_step f h db (fst (CreateChallenge U mac rnd1 rnd2 db appID purpose rawEmail fp key eligible now ttl))"
  unfolding CreateChallenge_def
  by (auto intro!: good_write good_other simp: Let_def split: sum.splits option.splits if_splits)

lemma good_force: "id_inv db \<Longrightarrow> good_step f h db (fst (ForceIdentityHandoff db hid now))"
  unfolding ForceIdentityHandoff_def
  by (auto intro!: good_write good_update_handoff split: option.splits if_splits)

lemma good_bind:
  assumes "id_inv db" "bind_handoff_tx hid bh email now db = Inr (db', x)"
  shows "good_step f h db db'"
proof -
  let ?P = "\<lambda>r. ho_Binding r = None \<and> pending_row r \<and> ho_Authorized r = None"
  have "db' = db \<or> update_handoff ?P (\<lambda>r. r\<lparr>ho_Binding := Some bh\<rparr>) db hid = Some db'"
    using assms(2) by (auto simp: bind_handoff_tx_def Let_def split: option.splits if_splits)
  then show ?thesis
  proof
    assume u: "update_handoff ?P (\<lambda>r. r\<lparr>ho_Binding := Some bh\<rparr>) db hid = Some db'"
    show ?thesis
    proof (rule good_update_handoff [OF assms(1) u])
      fix r sid
      assume "map_of (gd_handoffs db) hid = Some r" "ho_Session (r\<lparr>ho_Binding := Some bh\<rparr>) = Some sid"
      then show "live_parent db sid (pending_row (r\<lparr>ho_Binding := Some bh\<rparr>))"
        using handoff_live [OF assms(1), of hid r sid] by simp
    qed simp
  qed (simp add: assms(1))
qed

lemma good_bind_otp: "id_inv db \<Longrightarrow> good_step f h db (fst (BindIdentityOTP U sha db hid rawBinding rawEmail now))"
  by (auto simp: BindIdentityOTP_def split: option.splits sum.splits intro: good_bind)

lemma good_upsert: "id_inv db \<Longrightarrow> good_step f h db (upsert_identity db viewer)"
  by (rule good_other) (simp_all add: upsert_identity_def)

text \<open>Revoking what is older and creating the new family, the common part of both verifications.\<close>

lemma good_replace:
  assumes "id_inv db" "revoke_older sha db bound force oldRaw now = Inr (db1, refs)"
    "createIdentitySessionTx sha rnd1 rnd2 (upsert_identity db1 viewer) viewer bh now = Inr (db2, raw, v)"
    "drawn ''fam_'' rnd2 \<subseteq> f"
  shows "good_step f h db db2"
proof -
  note g1 = good_revoke_older [OF assms(1,2), of f h]
  note g2 = good_upsert [OF good_inv [OF g1], of f h viewer]
  note g3 = good_create [OF good_inv [OF g2] assms(3,4), of h]
  show ?thesis by (rule good_trans [OF g1 good_trans [OF g2 g3]])
qed

lemma issue_identityE:
  assumes "issue_identity sha rnd1 rnd2 hid bh email cid oldRaw now db = Inr (db', out)"
  obtains h row bound o' db1 db2 where "handoffTx db hid = Some h" "map_of (gd_handoffs db) hid = Some row"
    "open_handoff now h" "policyAllowsTx db (ih_AppID h) (mail_identity email)" "ho_Binding row = Some bh"
    "map_of (gd_otps db) cid = Some o'" "activeBrowserBindingSessionTx db bh = Inr bound"
    "\<not> newer_family now (or_Created o') bound" "replaced_silently sha db (ih_ForceLogin h) oldRaw now = None"
    "revoke_older sha db bound (ih_ForceLogin h) oldRaw now = Inr (db1, op_Revoked out)"
    "createIdentitySessionTx sha rnd1 rnd2 (upsert_identity db1 (mail_identity email)) (mail_identity email) bh now
       = Inr (db2, op_Token out, op_Session out)"
    "update_handoff (\<lambda>r. ho_Session r = None \<and> pending_row r)
       (\<lambda>r. r\<lparr>ho_Session := Some (gs_ID (op_Session out)), ho_Authorized := Some now\<rparr>) db2 hid = Some db'"
  using assms that
  by (auto simp: issue_identity_def split: option.splits if_splits sum.splits)

lemma good_issue:
  assumes inv: "id_inv db" and i: "issue_identity sha rnd1 rnd2 hid bh email cid oldRaw now db = Inr (db', out)"
    and f: "drawn ''fam_'' rnd2 \<subseteq> f"
  shows "good_step f h db db'"
  using i
proof (rule issue_identityE)
  fix g row bound o' db1 db2
  assume older: "revoke_older sha db bound (ih_ForceLogin g) oldRaw now = Inr (db1, op_Revoked out)"
    and new: "createIdentitySessionTx sha rnd1 rnd2 (upsert_identity db1 (mail_identity email)) (mail_identity email) bh now
       = Inr (db2, op_Token out, op_Session out)"
    and u: "update_handoff (\<lambda>r. ho_Session r = None \<and> pending_row r)
       (\<lambda>r. r\<lparr>ho_Session := Some (gs_ID (op_Session out)), ho_Authorized := Some now\<rparr>) db2 hid = Some db'"
  note g2 = good_replace [OF inv older new f, of h]
  have "live_parent db2 (gs_ID (op_Session out)) True"
    using new by (rule create_sessionE) (simp add: live_parent_def)
  then have "good_step f h db2 db'"
    by (intro good_update_handoff [OF good_inv [OF g2] u]) (auto simp: live_parent_def)
  then show ?thesis by (rule good_trans [OF g2])
qed

lemma good_verify_tx:
  assumes "id_inv db" "verify_tx mac appID purpose email cid code key now n issue db = Inr (db', a)"
    and "\<And>db1 x. issue db = Inr (db1, x) \<Longrightarrow> good_step f h db db1"
  shows "good_step f h db db'"
proof -
  have o: "good_step f h db (d\<lparr>gd_otps := os\<rparr>)" if "good_step f h db d" for d os
    by (rule good_trans [OF that]) (simp add: good_other good_inv [OF that])
  show ?thesis
    using assms(1,2) by (auto simp: verify_tx_def split: option.splits if_splits sum.splits intro!: o intro: assms(3))
qed

lemma fst_otp_outcome [simp]: "fst (otp_outcome r) = fst r"
  by (auto simp: otp_outcome_def split: prod.splits sum.splits option.splits)

lemma good_verify:
  assumes "id_inv db" "drawn ''fam_'' rnd2 \<subseteq> f"
  shows "good_step f h db (fst (VerifyIdentityOTP U sha mac rnd1 rnd2 db hid rawBinding rawEmail cid code oldRaw key now n))"
proof -
  have "good_step f h db (fst (write_tx db (verify_tx mac a p email cid code key now m
      (issue_identity sha rnd1 rnd2 hid bh email cid oldRaw now))))" for a p email m bh
    by (rule good_write [OF assms(1)], rule good_verify_tx [OF assms(1)])
      (use good_issue [OF assms(1) _ assms(2)] in auto)
  then show ?thesis
    unfolding VerifyIdentityOTP_def VerifyAndIssue_def using assms(1) by (auto split: option.splits sum.splits)
qed

lemma good_authorize: "id_inv db \<Longrightarrow> good_step f h db (fst (AuthorizeIdentityHandoff sha db hid raw now))"
  unfolding AuthorizeIdentityHandoff_def
proof (rule good_write)
  fix db' a
  assume inv: "id_inv db" and b: "(case identitySessionTx sha db raw now of
         Refused e \<Rightarrow> Inl e
       | Replayed _ \<Rightarrow> Inl ErrRotatedReplay
       | Valid_credential viewer _ \<Rightarrow>
           (case handoffTx db hid of
              None \<Rightarrow> Inl ErrIdentity
            | Some h \<Rightarrow>
                if ih_ForceLogin h \<or> \<not> open_handoff now h \<or> \<not> policyAllowsTx db (ih_AppID h) (gs_Identity viewer) then Inl ErrIdentity
                else (case update_handoff (\<lambda>r. ho_Session r = None \<and> pending_row r)
                         (\<lambda>r. r\<lparr>ho_Session := Some (gs_ID viewer), ho_Authorized := Some now\<rparr>) db hid of
                   None \<Rightarrow> Inl ErrIdentity
                 | Some db1 \<Rightarrow> Inr (db1, h\<lparr>ih_AuthorizedAt := Some now\<rparr>, viewer)))) = Inr (db', a)"
  then obtain v prior where v: "identitySessionTx sha db raw now = Valid_credential v prior"
    and u: "update_handoff (\<lambda>r. ho_Session r = None \<and> pending_row r)
      (\<lambda>r. r\<lparr>ho_Session := Some (gs_ID v), ho_Authorized := Some now\<rparr>) db hid = Some db'"
    by (auto split: credential.splits option.splits if_splits)
  have "live_parent db (gs_ID v) True"
    using credential_row [OF inv, of sha raw now v prior] v by (auto simp: live_parent_def)
  then show "good_step f h db db'"
    by (intro good_update_handoff [OF inv u]) (auto simp: live_parent_def)
qed

lemma consume_txE:
  assumes "consume_tx sha rnd clock app hid stateHash now expiry db = Inr (db', h, raw, v)"
  obtains row sid s email db1 where "map_of (gd_handoffs db) hid = Some row" "handoffTx db hid = Some h"
    "ho_Session row = Some sid" "map_of (gd_sessions db) sid = Some s" "map_of (gd_identities db) (ir_Identity s) = Some email"
    "ho_App row = app" "ho_State row = stateHash" "ir_Revoked s = None" "pending_row row" "ho_Authorized row \<noteq> None"
    "now < ho_Expires row" "now < ir_Expires s" "policyAllowsTx db app \<lparr>id_ID = ir_Identity s, id_Email = email\<rparr>"
    "update_handoff pending_row (\<lambda>r. r\<lparr>ho_Consumed := Some now\<rparr>) db hid = Some db1"
    "issueChildAppSessionTx sha rnd clock db1 app \<lparr>id_ID = ir_Identity s, id_Email = email\<rparr> sid expiry = Inr (db', raw, v)"
  using assms that
  by (auto simp: consume_tx_def Let_def handoffTx_def handoff_value_def open_handoff_def
      split: option.splits if_splits sum.splits)

lemma good_consume:
  assumes "id_inv db"
  shows "good_step f h db (fst (ConsumeIdentityHandoff sha rnd clock db app hid rawState now expiry))"
proof -
  have "good_step f h db db'" if "consume_tx sha rnd clock app hid stateHash now expiry db = Inr (db', g, raw, v)" for db' g raw v stateHash
    using that
  proof (rule consume_txE)
    fix row sid s email db1
    assume s: "map_of (gd_sessions db) sid = Some s" "ir_Revoked s = None"
      and u: "update_handoff pending_row (\<lambda>r. r\<lparr>ho_Consumed := Some now\<rparr>) db hid = Some db1"
      and c: "issueChildAppSessionTx sha rnd clock db1 app \<lparr>id_ID = ir_Identity s, id_Email = email\<rparr> sid expiry = Inr (db', raw, v)"
    have g: "good_step f h db db1"
    proof (rule good_update_handoff [OF assms u])
      fix r sid
      assume "map_of (gd_handoffs db) hid = Some r" "ho_Session (r\<lparr>ho_Consumed := Some now\<rparr>) = Some sid"
      then show "live_parent db sid (pending_row (r\<lparr>ho_Consumed := Some now\<rparr>))"
        using handoff_live [OF assms, of hid r sid] by (auto simp: live_parent_def)
    qed simp
    have "live_parent db1 sid True"
      using s u by (auto simp: live_parent_def update_handoff_def split: option.splits if_splits)
    then show ?thesis by (rule good_trans [OF g good_issue_child [OF good_inv [OF g] c]])
  qed
  then show ?thesis
    unfolding ConsumeIdentityHandoff_def using assms by (auto intro!: good_write)
qed

lemma good_platform_request:
  "id_inv db \<Longrightarrow> good_step f h db (fst (RequestPlatformIdentityOTP U sha mac rnd1 rnd2 db rawBinding rawEmail fp key now ttl))"
  unfolding RequestPlatformIdentityOTP_def
  by (auto intro!: good_write good_other simp: Let_def split: sum.splits option.splits if_splits)

lemma platform_verifyE:
  assumes "platform_verify_tx sha mac rnd1 rnd2 bh email cid code oldRaw force key now n db = Inr (db', Some out)"
  obtains r bound db1 db2 where "map_of (gd_platform db) cid = Some r" "pr_Binding r = bh" "pr_Email r = email"
    "activeBrowserBindingSessionTx db bh = Inr bound" "\<not> newer_family now (pr_Created r) bound"
    "replaced_silently sha db force oldRaw now = None" "revoke_older sha db bound force oldRaw now = Inr (db1, op_Revoked out)"
    "createIdentitySessionTx sha rnd1 rnd2 (upsert_identity db1 (mail_identity email)) (mail_identity email) bh now
       = Inr (db2, op_Token out, op_Session out)"
    "gd_sessions db' = gd_sessions db2" "gd_children db' = gd_children db2" "gd_handoffs db' = gd_handoffs db2"
  using assms that
  by (fastforce simp: platform_verify_tx_def split: option.splits if_splits sum.splits)

lemma platform_denied:
  assumes "platform_verify_tx sha mac rnd1 rnd2 bh email cid code oldRaw force key now n db = Inr (db', None)"
  shows "\<exists>ps. db' = db\<lparr>gd_platform := ps\<rparr>"
proof -
  have "\<exists>ps. db = db\<lparr>gd_platform := ps\<rparr>" by (rule exI [of _ "gd_platform db"]) simp
  then show ?thesis
    using assms by (auto simp: platform_verify_tx_def split: option.splits if_splits sum.splits)
qed

lemma good_platform_verify:
  assumes inv: "id_inv db" and f: "drawn ''fam_'' rnd2 \<subseteq> f"
  shows "good_step f h db (fst (VerifyPlatformIdentityOTP U sha mac rnd1 rnd2 db rawBinding rawEmail cid code oldRaw force key now n))"
proof -
  have "good_step f h db db'"
    if "platform_verify_tx sha mac rnd1 rnd2 bh email cid code oldRaw force key now m db = Inr (db', a)" for db' a bh email m
  proof (cases a)
    case None
    with platform_denied that inv show ?thesis by (auto intro!: good_other dest!: platform_denied)
  next
    case (Some out)
    show ?thesis
      using that [unfolded Some]
    proof (rule platform_verifyE)
      fix bound db1 db2
      assume older: "revoke_older sha db bound force oldRaw now = Inr (db1, op_Revoked out)"
        and new: "createIdentitySessionTx sha rnd1 rnd2 (upsert_identity db1 (mail_identity email)) (mail_identity email) bh now
          = Inr (db2, op_Token out, op_Session out)"
        and db': "gd_sessions db' = gd_sessions db2" "gd_children db' = gd_children db2" "gd_handoffs db' = gd_handoffs db2"
      note g = good_replace [OF inv older new f, of h]
      show ?thesis by (rule good_trans [OF g good_other [OF good_inv [OF g] db']])
    qed
  qed
  then show ?thesis
    unfolding VerifyPlatformIdentityOTP_def using inv by (auto intro!: good_write split: option.splits sum.splits)
qed

lemma good_revoke_child:
  assumes "id_inv db"
  shows "good_step f h db (fst (RevokeChild sha clock db app raw))"
proof -
  have "good_step f h db (db\<lparr>gd_children := sql_update P (\<lambda>c. c\<lparr>cr_Revoked := Some clock\<rparr>) (gd_children db)\<rparr>)" for P
  proof -
    let ?db = "db\<lparr>gd_children := sql_update P (\<lambda>c. c\<lparr>cr_Revoked := Some clock\<rparr>) (gd_children db)\<rparr>"
    have "live_parent ?db (cr_Parent c) (cr_Revoked c = None)" if "map_of (gd_children ?db) i = Some c" for i c
    proof -
      from that obtain d where d: "map_of (gd_children db) i = Some d" "cr_Parent c = cr_Parent d"
        "cr_Revoked c = None \<longrightarrow> cr_Revoked d = None"
        by (auto simp: map_of_sql_update split: if_splits)
      then have "live_parent db (cr_Parent d) (cr_Revoked d = None)"
        using assms unfolding id_inv_def children_inv_def by blast
      with d show ?thesis by (auto simp: live_parent_def)
    qed
    then have "children_inv ?db" using id_invD(2) [OF assms] unfolding children_inv_def by simp
    then show ?thesis
      using assms by (simp add: good_step_def evolves_def id_inv_def sessions_inv_def handoffs_inv_def)
  qed
  then show ?thesis using assms by (auto simp: RevokeChild_def split: option.splits)
qed

section \<open>Runs\<close>

text \<open>
  The parameters of a server, its operations with their arguments and random reads, and what a step does to the
  tables. \<open>OpControl\<close> is the control plane, which may change the applications with their policies and the users at
  any time. \<open>OpBind\<close> and \<open>OpChallenge\<close> are the two transactions of \<open>RequestIdentityOTP\<close>, so a run may put any
  other operation between them; the arguments of the second are not even required to come from a first.
\<close>

record IdEnv =
  ie_U :: "nat \<Rightarrow> nat"
  ie_sha :: "string \<Rightarrow> string"
  ie_mac :: mac_fun
  ie_parse :: "string \<Rightarrow> URL option"
  ie_key :: "nat list"
  ie_maxAttempts :: int

type_synonym rnd = "nat list option"

datatype id_op =
    OpCreateHandoff rnd rnd string string bool
  | OpForce string
  | OpValidate rnd string
  | OpDashboard rnd string
  | OpBind string string string
  | OpChallenge rnd "nat option" string string "nat list" bool duration
  | OpVerify rnd rnd string string string string string string
  | OpAuthorize string string
  | OpConsume rnd time string string string time
  | OpRevokeSession string
  | OpRevokeBinding string
  | OpPlatformRequest rnd "nat option" string string "nat list" duration
  | OpPlatformVerify rnd rnd string string string string string bool
  | OpRevokeChild time string string
  | OpControl "(string, AppRow) gomap" "(string, DashUser) gomap"

fun id_step :: "IdEnv \<Rightarrow> time \<times> id_op \<Rightarrow> IdDb \<Rightarrow> IdDb" where
  "id_step e (now, OpCreateHandoff r1 r2 app ret force) db =
     fst (CreateIdentityHandoff (ie_sha e) (ie_parse e) r1 r2 db app ret force now)"
| "id_step e (now, OpForce hid) db = fst (ForceIdentityHandoff db hid now)"
| "id_step e (now, OpValidate r raw) db = fst (ValidateIdentitySession (ie_sha e) r db raw now)"
| "id_step e (now, OpDashboard r raw) db = fst (AuthenticateDashboardIdentity (ie_sha e) r db raw now)"
| "id_step e (now, OpBind hid binding email) db = fst (BindIdentityOTP (ie_U e) (ie_sha e) db hid binding email now)"
| "id_step e (now, OpChallenge r1 r2 app email fp eligible ttl) db =
     fst (CreateChallenge (ie_U e) (ie_mac e) r1 r2 db app ''viewer'' email fp (ie_key e) eligible now ttl)"
| "id_step e (now, OpVerify r1 r2 hid binding email cid code old) db =
     fst (VerifyIdentityOTP (ie_U e) (ie_sha e) (ie_mac e) r1 r2 db hid binding email cid code old (ie_key e) now (ie_maxAttempts e))"
| "id_step e (now, OpAuthorize hid raw) db = fst (AuthorizeIdentityHandoff (ie_sha e) db hid raw now)"
| "id_step e (now, OpConsume r clock app hid state expiry) db =
     fst (ConsumeIdentityHandoff (ie_sha e) r clock db app hid state now expiry)"
| "id_step e (now, OpRevokeSession raw) db = fst (RevokeIdentitySession (ie_sha e) db raw now)"
| "id_step e (now, OpRevokeBinding raw) db = fst (RevokeIdentityBrowserBinding (ie_sha e) db raw now)"
| "id_step e (now, OpPlatformRequest r1 r2 binding email fp ttl) db =
     fst (RequestPlatformIdentityOTP (ie_U e) (ie_sha e) (ie_mac e) r1 r2 db binding email fp (ie_key e) now ttl)"
| "id_step e (now, OpPlatformVerify r1 r2 binding email cid code old force) db =
     fst (VerifyPlatformIdentityOTP (ie_U e) (ie_sha e) (ie_mac e) r1 r2 db binding email cid code old force (ie_key e) now (ie_maxAttempts e))"
| "id_step e (now, OpRevokeChild clock app raw) db = fst (RevokeChild (ie_sha e) clock db app raw)"
| "id_step e (now, OpControl apps users) db = db\<lparr>gd_apps := apps, gd_users := users\<rparr>"

definition id_run :: "IdEnv \<Rightarrow> (time \<times> id_op) list \<Rightarrow> IdDb \<Rightarrow> IdDb" where
  "id_run e ops db = fold (id_step e) ops db"

text \<open>The family names and the handoff names an operation draws.\<close>

fun drawn_families :: "id_op \<Rightarrow> string set" where
  "drawn_families (OpVerify r1 r2 _ _ _ _ _ _) = drawn ''fam_'' r2"
| "drawn_families (OpPlatformVerify r1 r2 _ _ _ _ _ _) = drawn ''fam_'' r2"
| "drawn_families _ = {}"

fun drawn_handoffs :: "id_op \<Rightarrow> string set" where
  "drawn_handoffs (OpCreateHandoff r1 r2 _ _ _) = drawn ''ih_'' r1"
| "drawn_handoffs _ = {}"

definition run_families :: "(time \<times> id_op) list \<Rightarrow> string set" where
  "run_families ops = (\<Union>p \<in> set ops. drawn_families (snd p))"

definition run_handoffs :: "(time \<times> id_op) list \<Rightarrow> string set" where
  "run_handoffs ops = (\<Union>p \<in> set ops. drawn_handoffs (snd p))"

lemmas good_ops = good_create_handoff good_force good_validate good_dashboard good_bind_otp good_challenge good_verify good_authorize
  good_consume good_revoke_op good_revoke_binding good_platform_request good_platform_verify good_revoke_child

lemma good_id_step:
  assumes "id_inv db" "drawn_families op \<subseteq> f" "drawn_handoffs op \<subseteq> h"
  shows "good_step f h db (id_step e (now, op) db)"
  using assms by (cases op) (auto intro!: good_ops good_other)

lemma good_run:
  assumes "id_inv db" "run_families ops \<subseteq> f" "run_handoffs ops \<subseteq> h"
  shows "good_step f h db (id_run e ops db)"
  using assms
proof (induction ops arbitrary: db)
  case Nil
  then show ?case by (simp add: id_run_def)
next
  case (Cons p ops)
  obtain now op where p: "p = (now, op)" by (cases p)
  from Cons.prems p have s: "good_step f h db (id_step e p db)"
    by (auto intro!: good_id_step simp: run_families_def run_handoffs_def)
  from Cons.prems have "good_step f h (id_step e p db) (id_run e ops (id_step e p db))"
    by (intro Cons.IH good_inv [OF s]) (auto simp: run_families_def run_handoffs_def)
  from good_trans [OF s this] show ?case by (simp add: id_run_def)
qed

definition new_id_db :: "(string, AppRow) gomap \<Rightarrow> (string, DashUser) gomap \<Rightarrow> IdDb" where
  "new_id_db apps users =
     \<lparr>gd_apps = apps, gd_users = users, gd_identities = [], gd_sessions = [], gd_handoffs = [], gd_children = [],
      gd_otps = [], gd_platform = []\<rparr>"

text \<open>C31. In every state the operations can reach from an empty database, in any order, with any arguments and with the
  control plane changing applications and users at will: a browser has at most one identity session that is not
  revoked, every app session that is not revoked hangs on an identity session that is not revoked either, and so
  does every handoff that is authorized and still open.\<close>

theorem identity_tables_invariant: "id_inv (id_run e ops (new_id_db apps users))"
proof -
  have "id_inv (new_id_db apps users)" by (simp add: id_inv_defs new_id_db_def)
  from good_inv [OF good_run [OF this order_refl order_refl]] show ?thesis .
qed

section \<open>Revocation is final\<close>

definition family_dead :: "string \<Rightarrow> IdDb \<Rightarrow> bool" where
  "family_dead fam db \<longleftrightarrow> (\<forall>i r. map_of (gd_sessions db) i = Some r \<longrightarrow> ir_Family r = fam \<longrightarrow> ir_Revoked r \<noteq> None)"

text \<open>No credential of the family is accepted or even recognised, and no app session that hangs on it.\<close>

definition family_silent :: "(string \<Rightarrow> string) \<Rightarrow> string \<Rightarrow> IdDb \<Rightarrow> bool" where
  "family_silent sha fam db \<longleftrightarrow>
     (\<forall>raw t v prior. identitySessionTx sha db raw t \<in> {Valid_credential v prior, Replayed v} \<longrightarrow> gs_FamilyID v \<noteq> fam)
     \<and> (\<forall>app raw t s. ValidateChild sha db app raw t = Inr s \<longrightarrow>
          (\<exists>c p. map_of (gd_children db) (ses_ID s) = Some c \<and> map_of (gd_sessions db) (cr_Parent c) = Some p
             \<and> ir_Family p \<noteq> fam))"

lemma dead_silent:
  assumes inv: "id_inv db" and dead: "family_dead fam db"
  shows "family_silent sha fam db"
proof -
  have "gs_FamilyID v \<noteq> fam" if "identitySessionTx sha db raw t \<in> {Valid_credential v prior, Replayed v}" for raw t v prior
    using credential_row [OF inv that] dead by (metis IdentitySession.select_convs(2) family_dead_def session_value_def)
  moreover have "\<exists>c p. map_of (gd_children db) (ses_ID s) = Some c \<and> map_of (gd_sessions db) (cr_Parent c) = Some p \<and> ir_Family p \<noteq> fam"
    if v: "ValidateChild sha db app raw t = Inr s" for app raw t s
  proof -
    from v obtain cid c where f: "find (\<lambda>(cid, c). cr_App c = app \<and> cr_Secret c = sha raw) (gd_children db) = Some (cid, c)"
      by (auto simp: ValidateChild_def split: option.splits)
    from v f obtain p where p: "map_of (gd_sessions db) (cr_Parent c) = Some p" "ir_Revoked p = None" "ses_ID s = cid"
      by (auto simp: ValidateChild_def split: option.splits if_splits)
    from p(1,2) dead have "ir_Family p \<noteq> fam" unfolding family_dead_def by blast
    with find_map_of [OF f id_invD(2) [OF inv]] p show ?thesis by auto
  qed
  ultimately show ?thesis by (auto simp: family_silent_def)
qed

lemma dead_run:
  assumes "id_inv db" "family_dead fam db" "fam \<notin> run_families ops"
  shows "id_inv (id_run e ops db) \<and> family_dead fam (id_run e ops db)"
proof -
  have g: "good_step (run_families ops) (run_handoffs ops) db (id_run e ops db)"
    by (rule good_run [OF assms(1) order_refl order_refl])
  have "ir_Revoked r' \<noteq> None" if r': "map_of (gd_sessions (id_run e ops db)) i = Some r'" "ir_Family r' = fam" for i r'
  proof -
    from g r' assms(3) obtain r where "map_of (gd_sessions db) i = Some r" "ir_Family r = fam"
      "ir_Revoked r \<noteq> None \<longrightarrow> ir_Revoked r' = ir_Revoked r"
      unfolding good_step_def evolves_def by blast
    with assms(2) show ?thesis unfolding family_dead_def by metis
  qed
  with g show ?thesis by (auto simp: good_step_def family_dead_def)
qed

text \<open>The step from \<open>db\<close> to \<open>db'\<close> ends a family, one of whose live rows satisfies \<open>P\<close>, for ever.\<close>

definition ends_family :: "IdEnv \<Rightarrow> (IdentityRow \<Rightarrow> bool) \<Rightarrow> IdDb \<Rightarrow> IdDb \<Rightarrow> bool" where
  "ends_family e P db db' \<longleftrightarrow>
     (\<exists>sid r. map_of (gd_sessions db) sid = Some r \<and> P r \<and> ir_Revoked r = None
        \<and> (\<forall>ops. ir_Family r \<notin> run_families ops \<longrightarrow> family_silent (ie_sha e) (ir_Family r) (id_run e ops db')))"

lemma family_revocable:
  assumes inv: "id_inv db" and r: "map_of (gd_sessions db) sid = Some r" "ir_Revoked r = None"
  shows "\<exists>db' refs. revokeIdentityFamilyTx db (ir_Family r) now = Inr (db', refs)"
proof -
  have "ir_Family r \<noteq> []" using inv r(1) unfolding id_inv_def sessions_inv_def by blast
  moreover have "list_ex (\<lambda>(sid, w). ir_Family w = ir_Family r \<and> ir_Revoked w = None) (gd_sessions db)"
    unfolding list_ex_iff using map_of_SomeD [OF r(1)] r(2) by (intro bexI [of _ "(sid, r)"]) simp_all
  ultimately show ?thesis by (simp add: revokeIdentityFamilyTx_def Let_def)
qed

lemma revoke_family_dead:
  assumes "revokeIdentityFamilyTx db fam now = Inr (db', refs)"
  shows "family_dead fam db'"
proof -
  have "ir_Revoked r \<noteq> None" if r: "map_of (gd_sessions db') i = Some r" "ir_Family r = fam" for i r
  proof -
    from r(1) obtain z where "r = revoked_row fam now z" by (auto simp: revoke_family_rows(2) [OF assms])
    with r(2) show ?thesis using revoked_row_simps(4) [of fam now z] by simp
  qed
  then show ?thesis unfolding family_dead_def by blast
qed

lemma ends_familyI:
  assumes "id_inv db" "revokeIdentityFamilyTx db (ir_Family r) now = Inr (db', refs)"
    "map_of (gd_sessions db) sid = Some r" "P r" "ir_Revoked r = None"
  shows "ends_family e P db db'"
proof -
  have "family_silent (ie_sha e) (ir_Family r) (id_run e ops db')" if "ir_Family r \<notin> run_families ops" for ops
    using dead_run [OF good_inv [OF good_revoke [OF assms(1,2)]] revoke_family_dead [OF assms(2)] that] dead_silent by blast
  with assms(3-5) show ?thesis unfolding ends_family_def by blast
qed

text \<open>C0. A sign-out is final. When the identity session of a cookie is revoked, or that of a browser binding, or when
  a replaced secret is presented after its minute, the whole family of credentials ends: whatever operations follow,
  as long as none draws the same random family name, no secret of the family is accepted or recognised again and no
  app session issued from it, on any app, is valid, including sessions from handoffs that were authorized before.\<close>

lemma revoke_session_ends:
  assumes inv: "id_inv db" and "RevokeIdentitySession (ie_sha e) db raw now = (db', Inr refs)"
  shows "ends_family e (has_secret (ie_sha e raw)) db db'"
proof -
  have "revokeIdentitySessionTx (ie_sha e) db raw now = Inr (db', refs)"
    using assms(2) by (auto simp: RevokeIdentitySession_def write_tx_def split: sum.splits prod.splits)
  then obtain sid r where f: "find (\<lambda>(sid, r). has_secret (ie_sha e raw) r \<and> ir_Revoked r = None) (gd_sessions db) = Some (sid, r)"
    and r: "revokeIdentityFamilyTx db (ir_Family r) now = Inr (db', refs)"
    by (auto simp: revokeIdentitySessionTx_def split: if_splits option.splits)
  from find_map_of [OF f id_invD(1) [OF inv]] show ?thesis
    by (auto intro: ends_familyI [OF inv r])
qed

lemma active_binding_row:
  assumes "id_inv db" "activeBrowserBindingSessionTx db bh = Inr (Some r)"
  obtains sid where "map_of (gd_sessions db) sid = Some r" "ir_Binding r = bh" "ir_Revoked r = None"
proof -
  obtain sid where "filter (\<lambda>(sid, r). ir_Binding r = bh \<and> ir_Revoked r = None) (gd_sessions db) = [(sid, r)]"
    using assms(2) by (auto simp: activeBrowserBindingSessionTx_def split: list.splits)
  then have "(sid, r) \<in> set (filter (\<lambda>(sid, r). ir_Binding r = bh \<and> ir_Revoked r = None) (gd_sessions db))"
    by simp
  then show thesis using that id_invD(1) [OF assms(1)] by auto
qed

lemma revoke_binding_ends:
  assumes inv: "id_inv db" and "RevokeIdentityBrowserBinding (ie_sha e) db raw now = (db', Inr refs)"
  shows "ends_family e (\<lambda>r. ir_Binding r = ie_sha e raw) db db'"
proof -
  obtain r where b: "activeBrowserBindingSessionTx db (ie_sha e raw) = Inr (Some r)"
    and r: "revokeIdentityFamilyTx db (ir_Family r) now = Inr (db', refs)"
    using assms(2) by (auto simp: RevokeIdentityBrowserBinding_def write_tx_def browserBindingHash_def
        split: sum.splits prod.splits option.splits if_splits)
  from active_binding_row [OF inv b] show ?thesis by (auto intro: ends_familyI [OF inv r])
qed

lemma replay_ends:
  assumes inv: "id_inv db" and v: "ValidateIdentitySession (ie_sha e) rnd db raw now = (db', out, err)" "vr_FamilyRevoked out"
  shows "err = Some ErrIdentity \<and> ends_family e (has_secret (ie_sha e raw)) db db'"
proof -
  obtain s refs where s: "identitySessionTx (ie_sha e) db raw now = Replayed s"
    and r: "revokeIdentityFamilyTx db (gs_FamilyID s) now = Inr (db', refs)" and e: "err = Some ErrIdentity"
    using v by (auto simp: ValidateIdentitySession_def Let_def split: credential.splits sum.splits)
  have "identitySessionTx (ie_sha e) db raw now \<in> {Valid_credential s False, Replayed s}" by (simp add: s)
  with inv show ?thesis
  proof (rule credential_row)
    fix row email
    assume row: "map_of (gd_sessions db) (gs_ID s) = Some row" "ir_Revoked row = None" "has_secret (ie_sha e raw) row"
      "s = session_value (gs_ID s) row email"
    from row(4) have "gs_FamilyID s = ir_Family row" by (metis IdentitySession.select_convs(2) session_value_def)
    with e ends_familyI [OF inv _ row(1) _ row(2)] r row(3) show ?thesis by simp
  qed
qed

text \<open>C32. A sign-out is final. When the identity session of a cookie is revoked, or that of a browser binding, or when
  a replaced secret is presented after its minute, the whole family of credentials ends: whatever operations follow,
  as long as none draws the same random family name, no secret of the family is accepted or recognised again and no
  app session issued from it, on any app, is valid, including sessions from handoffs that were authorized before.
  When a revocation fails, nothing has changed.\<close>

theorem identity_revocation_final:
  assumes "id_inv db"
  shows "(case RevokeIdentitySession (ie_sha e) db raw now of
            (db', Inr refs) \<Rightarrow> ends_family e (has_secret (ie_sha e raw)) db db'
          | (db', Inl err) \<Rightarrow> db' = db)
    \<and> (case RevokeIdentityBrowserBinding (ie_sha e) db raw now of
            (db', Inr refs) \<Rightarrow> ends_family e (\<lambda>r. ir_Binding r = ie_sha e raw) db db'
          | (db', Inl err) \<Rightarrow> db' = db)
    \<and> (case ValidateIdentitySession (ie_sha e) rnd db raw now of
            (db', out, err) \<Rightarrow> vr_FamilyRevoked out \<longrightarrow>
              err = Some ErrIdentity \<and> ends_family e (has_secret (ie_sha e raw)) db db')"
proof -
  have "db' = db" if "RevokeIdentitySession (ie_sha e) db raw now = (db', Inl err)" for db' err
    using that by (auto simp: RevokeIdentitySession_def write_tx_def split: sum.splits prod.splits)
  moreover have "db' = db" if "RevokeIdentityBrowserBinding (ie_sha e) db raw now = (db', Inl err)" for db' err
    using that by (auto simp: RevokeIdentityBrowserBinding_def write_tx_def split: sum.splits prod.splits option.splits)
  ultimately show ?thesis
    using revoke_session_ends [OF assms] revoke_binding_ends [OF assms] replay_ends [OF assms]
    by (fastforce split: prod.split sum.split)
qed

section \<open>Reported revocations\<close>

text \<open>The app sessions that were valid rows before and are revoked after.\<close>

definition revoked_between :: "IdDb \<Rightarrow> IdDb \<Rightarrow> AppSessionRef set" where
  "revoked_between db db' =
     {(cr_App c, cid) | cid c. map_of (gd_children db) cid = Some c \<and> cr_Revoked c = None
        \<and> (\<exists>c'. map_of (gd_children db') cid = Some c' \<and> cr_Revoked c' \<noteq> None)}"

lemma revoked_between_same [simp]: "gd_children db' = gd_children db \<Longrightarrow> revoked_between db db' = {}"
  by (auto simp: revoked_between_def)

lemma revoked_between_cong:
  "gd_children d = gd_children db \<Longrightarrow> gd_children d' = gd_children db' \<Longrightarrow> revoked_between d d' = revoked_between db db'"
  by (simp add: revoked_between_def)

lemma revoked_family_refs:
  assumes inv: "id_inv db" and r: "revokeIdentityFamilyTx db fam now = Inr (db', refs)"
  shows "set refs = revoked_between db db'"
proof -
  note rows = revoke_family_rows [OF r]
  have "(\<exists>c'. map_of (gd_children db') cid = Some c' \<and> cr_Revoked c' \<noteq> None) \<longleftrightarrow>
      cr_Revoked c \<noteq> None \<or> cr_Parent c \<in> set (family_ids db fam)"
    if "map_of (gd_children db) cid = Some c" for cid c
    using that by (simp add: rows(3) del: not_None_eq)
  then have "revoked_between db db' = {(cr_App c, cid) | cid c. map_of (gd_children db) cid = Some c
      \<and> cr_Revoked c = None \<and> cr_Parent c \<in> set (family_ids db fam)}"
    unfolding revoked_between_def by (intro Collect_cong ex_cong1 conj_cong refl) auto
  also have "\<dots> = (\<lambda>(cid, c). (cr_App c, cid)) ` {(cid, c). map_of (gd_children db) cid = Some c
      \<and> cr_Revoked c = None \<and> cr_Parent c \<in> set (family_ids db fam)}"
    by (auto simp: image_def)
  also have "\<dots> = (\<lambda>(cid, c). (cr_App c, cid)) ` {(cid, c) \<in> set (gd_children db).
      cr_Revoked c = None \<and> cr_Parent c \<in> set (family_ids db fam)}"
    using id_invD(2) [OF inv] by (simp add: map_of_eq_Some_iff)
  also have "\<dots> = set refs"
    by (auto simp: rows(1) child_refs_def)
  finally show ?thesis ..
qed

lemma revoked_family_children:
  assumes "revokeIdentityFamilyTx db fam now = Inr (db', refs)"
  shows "\<exists>g. (\<forall>k. map_of (gd_children db') k = map_option g (map_of (gd_children db) k))
    \<and> (\<forall>c. cr_App (g c) = cr_App c \<and> (cr_Revoked c \<noteq> None \<longrightarrow> cr_Revoked (g c) \<noteq> None))"
  by (rule exI [of _ "revoked_child db fam now"]) (auto simp: revoke_family_rows [OF assms] revoked_child_def)

lemma revoked_between_trans:
  assumes "\<forall>k. map_of (gd_children b) k = map_option g (map_of (gd_children a) k)"
    "\<forall>c. cr_App (g c) = cr_App c \<and> (cr_Revoked c \<noteq> None \<longrightarrow> cr_Revoked (g c) \<noteq> None)"
    "\<forall>k. map_of (gd_children c) k = map_option h (map_of (gd_children b) k)"
    "\<forall>c. cr_App (h c) = cr_App c \<and> (cr_Revoked c \<noteq> None \<longrightarrow> cr_Revoked (h c) \<noteq> None)"
  shows "revoked_between a c = revoked_between a b \<union> revoked_between b c"
proof -
  have "(\<exists>z. map_of (gd_children c) cid = Some z \<and> cr_Revoked z \<noteq> None) \<longleftrightarrow> cr_Revoked (h (g x)) \<noteq> None"
    "(\<exists>z. map_of (gd_children b) cid = Some z \<and> cr_Revoked z \<noteq> None) \<longleftrightarrow> cr_Revoked (g x) \<noteq> None"
    if "map_of (gd_children a) cid = Some x" for cid x
    using that assms(1,3) by simp_all
  moreover have "(\<exists>y. map_of (gd_children b) cid = Some y \<and> P y) \<longleftrightarrow> (\<exists>x. map_of (gd_children a) cid = Some x \<and> P (g x))" for cid P
    using assms(1) by auto
  ultimately show ?thesis
    unfolding revoked_between_def using assms(1,2,3,4) by (auto 0 4)
qed

lemma revoke_older_refs:
  assumes inv: "id_inv db" and r: "revoke_older sha db bound force oldRaw now = Inr (db', refs)"
  shows "set refs = revoked_between db db'"
proof -
  obtain db1 refs1 where one: "(case bound of None \<Rightarrow> Inr (db, []) | Some r \<Rightarrow> revokeIdentityFamilyTx db (ir_Family r) now) = Inr (db1, refs1)"
    using r by (auto simp: revoke_older_def split: sum.splits)
  have g1: "id_inv db1"
    using one inv by (auto split: option.splits intro: good_inv [OF good_revoke])
  have s1: "set refs1 = revoked_between db db1"
    using one by (auto split: option.splits simp: revoked_family_refs [OF inv])
  have c1: "\<exists>g. (\<forall>k. map_of (gd_children db1) k = map_option g (map_of (gd_children db) k))
      \<and> (\<forall>c. cr_App (g c) = cr_App c \<and> (cr_Revoked c \<noteq> None \<longrightarrow> cr_Revoked (g c) \<noteq> None))"
  proof (cases bound)
    case None
    with one show ?thesis by (intro exI [of _ id]) (simp add: option.map_id)
  qed (use one revoked_family_children in auto)
  show ?thesis
  proof (cases "refs = refs1 \<and> db' = db1")
    case False
    then obtain refs2 where two: "revokeIdentitySessionTx sha db1 oldRaw now = Inr (db', refs2)" "refs = refs1 @ refs2"
      using r one by (auto simp: revoke_older_def split: if_splits sum.splits)
    then obtain fam where fam: "revokeIdentityFamilyTx db1 fam now = Inr (db', refs2)"
      by (auto simp: revokeIdentitySessionTx_def split: if_splits option.splits)
    from c1 revoked_family_children [OF fam] revoked_between_trans
    have "revoked_between db db' = revoked_between db db1 \<union> revoked_between db1 db'" by blast
    with s1 revoked_family_refs [OF g1 fam] two(2) show ?thesis by simp
  qed (use s1 in simp)
qed

lemma replaced_refs:
  assumes inv: "id_inv db" and o: "revoke_older sha db bound force oldRaw now = Inr (db1, refs)"
    and c: "createIdentitySessionTx sha rnd1 rnd2 (upsert_identity db1 viewer) viewer bh now = Inr (db2, raw, v)"
    and d: "gd_children db' = gd_children db2"
  shows "set refs = revoked_between db db'"
proof -
  have "gd_children db2 = gd_children db1"
    using c by (rule create_sessionE) (simp add: upsert_identity_def)
  then show ?thesis
    using revoke_older_refs [OF inv o] revoked_between_cong [of db db db' db1] d by simp
qed

lemma verify_tx_cases:
  assumes "verify_tx mac a p email cid code key now n issue db = Inr (db', x)"
  obtains "x = None" "gd_children db' = gd_children db"
  | y db1 where "x = Some y" "issue db = Inr (db1, y)" "gd_children db' = gd_children db1"
  using assms that
  by (auto simp: verify_tx_def split: option.splits if_splits sum.splits)

lemma update_handoff_children: "update_handoff P g db hid = Some db' \<Longrightarrow> gd_children db' = gd_children db"
  by (auto simp: update_handoff_def split: option.splits if_splits)

lemma verify_reports:
  assumes inv: "id_inv db" and v: "VerifyIdentityOTP U sha mac rnd1 rnd2 db hid bind email cid code old key now n = (db', res)"
  shows "case res of Inr r \<Rightarrow> set (op_Revoked r) = revoked_between db db' | Inl e \<Rightarrow> revoked_between db db' = {}"
proof -
  have *: "case res of Inr r \<Rightarrow> set (op_Revoked r) = revoked_between db db' | Inl e \<Rightarrow> revoked_between db db' = {}"
    if "otp_outcome (write_tx db (verify_tx mac a p em cid code key now m (issue_identity sha rnd1 rnd2 hid bh em cid old now))) = (db', res)"
    for a p em m bh
  proof (cases "verify_tx mac a p em cid code key now m (issue_identity sha rnd1 rnd2 hid bh em cid old now) db")
    case (Inl e)
    with that show ?thesis by (auto simp: otp_outcome_def write_tx_def)
  next
    case (Inr pair)
    obtain d x where pair: "pair = (d, x)" by (cases pair)
    from Inr [unfolded pair] show ?thesis
    proof (cases rule: verify_tx_cases)
      case 1
      with that Inr pair show ?thesis by (auto simp: otp_outcome_def write_tx_def)
    next
      case (2 y db1)
      have res: "res = Inr y" "db' = d" using that Inr pair 2(1) by (auto simp: otp_outcome_def write_tx_def)
      have "set (op_Revoked y) = revoked_between db d"
        using 2(2)
      proof (rule issue_identityE)
        fix h bound db2 db3
        assume o: "revoke_older sha db bound (ih_ForceLogin h) old now = Inr (db2, op_Revoked y)"
          and c: "createIdentitySessionTx sha rnd1 rnd2 (upsert_identity db2 (mail_identity em)) (mail_identity em) bh now
            = Inr (db3, op_Token y, op_Session y)"
          and u: "update_handoff (\<lambda>r. ho_Session r = None \<and> pending_row r)
            (\<lambda>r. r\<lparr>ho_Session := Some (gs_ID (op_Session y)), ho_Authorized := Some now\<rparr>) db3 hid = Some db1"
        show ?thesis by (rule replaced_refs [OF inv o c]) (simp add: 2(3) update_handoff_children [OF u])
      qed
      with res show ?thesis by simp
    qed
  qed
  show ?thesis
    using v * by (auto simp: VerifyIdentityOTP_def VerifyAndIssue_def split: option.splits sum.splits)
qed

lemma platform_verify_reports:
  assumes inv: "id_inv db" and v: "VerifyPlatformIdentityOTP U sha mac rnd1 rnd2 db bind email cid code old force key now n = (db', res)"
  shows "case res of Inr r \<Rightarrow> set (op_Revoked r) = revoked_between db db' | Inl e \<Rightarrow> revoked_between db db' = {}"
proof -
  have *: "case res of Inr r \<Rightarrow> set (op_Revoked r) = revoked_between db db' | Inl e \<Rightarrow> revoked_between db db' = {}"
    if o: "otp_outcome (write_tx db (platform_verify_tx sha mac rnd1 rnd2 bh em cid code old force key now m)) = (db', res)"
    for bh em m
  proof (cases "platform_verify_tx sha mac rnd1 rnd2 bh em cid code old force key now m db")
    case (Inl e)
    with o show ?thesis by (auto simp: otp_outcome_def write_tx_def)
  next
    case (Inr pair)
    obtain d x where pair: "pair = (d, x)" by (cases pair)
    show ?thesis
    proof (cases x)
      case None
      with platform_denied Inr pair have "gd_children d = gd_children db" by fastforce
      with o Inr pair None show ?thesis by (auto simp: otp_outcome_def write_tx_def)
    next
      case (Some y)
      have res: "res = Inr y" "db' = d" using o Inr pair Some by (auto simp: otp_outcome_def write_tx_def)
      have "set (op_Revoked y) = revoked_between db d"
        using Inr [unfolded pair Some] by (rule platform_verifyE) (rule replaced_refs [OF inv])
      with res show ?thesis by simp
    qed
  qed
  show ?thesis
    using v * by (auto simp: VerifyPlatformIdentityOTP_def split: option.splits sum.splits if_splits)
qed

lemma use_children: "use_credential sha rnd db raw now v prior = Inr (db', x) \<Longrightarrow> gd_children db' = gd_children db"
  by (auto simp: use_credential_def split: if_splits option.splits)

lemma credential_reports:
  assumes "id_inv db"
  shows "case ValidateIdentitySession sha rnd db raw now of (db', out, err) \<Rightarrow> set (vr_Revoked out) = revoked_between db db'"
    and "case AuthenticateDashboardIdentity sha rnd db raw now of (db', out, err) \<Rightarrow> set (dr_Revoked out) = revoked_between db db'"
    and "case RevokeIdentitySession sha db raw now of
      (db', Inr refs) \<Rightarrow> set refs = revoked_between db db' | (db', Inl e) \<Rightarrow> revoked_between db db' = {}"
    and "case RevokeIdentityBrowserBinding sha db raw now of
      (db', Inr refs) \<Rightarrow> set refs = revoked_between db db' | (db', Inl e) \<Rightarrow> revoked_between db db' = {}"
proof -
  note refs = revoked_family_refs [OF assms]
  show "case ValidateIdentitySession sha rnd db raw now of (db', out, err) \<Rightarrow> set (vr_Revoked out) = revoked_between db db'"
    by (auto simp: ValidateIdentitySession_def Let_def refs use_children split: credential.split sum.split)
  show "case AuthenticateDashboardIdentity sha rnd db raw now of (db', out, err) \<Rightarrow> set (dr_Revoked out) = revoked_between db db'"
    by (auto simp: AuthenticateDashboardIdentity_def Let_def refs use_children split: credential.split sum.split option.split)
  show "case RevokeIdentitySession sha db raw now of
      (db', Inr refs) \<Rightarrow> set refs = revoked_between db db' | (db', Inl e) \<Rightarrow> revoked_between db db' = {}"
    by (auto simp: RevokeIdentitySession_def write_tx_def revokeIdentitySessionTx_def refs split: sum.splits option.splits if_splits)
  show "case RevokeIdentityBrowserBinding sha db raw now of
      (db', Inr refs) \<Rightarrow> set refs = revoked_between db db' | (db', Inl e) \<Rightarrow> revoked_between db db' = {}"
    by (auto simp: RevokeIdentityBrowserBinding_def write_tx_def refs split: sum.splits option.splits)
qed

text \<open>C33. Every revocation is reported in full. After each operation that can end app sessions, the references it returns
  are exactly the app sessions of all apps that were not revoked before and are now: the caller, which closes the live
  connections of the references, misses none and closes no other. When an operation fails without reporting, no app
  session was revoked.\<close>

theorem identity_revocations_reported:
  assumes "id_inv db"
  shows "(case VerifyIdentityOTP U sha mac rnd1 rnd2 db hid bind email cid code old key now n of
            (db', Inr r) \<Rightarrow> set (op_Revoked r) = revoked_between db db' | (db', Inl e) \<Rightarrow> revoked_between db db' = {})
    \<and> (case VerifyPlatformIdentityOTP U sha mac rnd1 rnd2 db bind email cid code old force key now n of
            (db', Inr r) \<Rightarrow> set (op_Revoked r) = revoked_between db db' | (db', Inl e) \<Rightarrow> revoked_between db db' = {})
    \<and> (case ValidateIdentitySession sha rnd1 db raw now of (db', out, err) \<Rightarrow> set (vr_Revoked out) = revoked_between db db')
    \<and> (case AuthenticateDashboardIdentity sha rnd1 db raw now of (db', out, err) \<Rightarrow> set (dr_Revoked out) = revoked_between db db')
    \<and> (case RevokeIdentitySession sha db raw now of
            (db', Inr refs) \<Rightarrow> set refs = revoked_between db db' | (db', Inl e) \<Rightarrow> revoked_between db db' = {})
    \<and> (case RevokeIdentityBrowserBinding sha db raw now of
            (db', Inr refs) \<Rightarrow> set refs = revoked_between db db' | (db', Inl e) \<Rightarrow> revoked_between db db' = {})"
proof (intro conjI)
  show "case VerifyIdentityOTP U sha mac rnd1 rnd2 db hid bind email cid code old key now n of
      (db', Inr r) \<Rightarrow> set (op_Revoked r) = revoked_between db db' | (db', Inl e) \<Rightarrow> revoked_between db db' = {}"
    using verify_reports [OF assms] by (fastforce split: prod.split)
  show "case VerifyPlatformIdentityOTP U sha mac rnd1 rnd2 db bind email cid code old force key now n of
      (db', Inr r) \<Rightarrow> set (op_Revoked r) = revoked_between db db' | (db', Inl e) \<Rightarrow> revoked_between db db' = {}"
    using platform_verify_reports [OF assms] by (fastforce split: prod.split)
qed (rule credential_reports [OF assms])+

section \<open>Handoffs\<close>

text \<open>A consumed handoff is never opened again.\<close>

definition handoff_spent :: "string \<Rightarrow> IdDb \<Rightarrow> bool" where
  "handoff_spent hid db \<longleftrightarrow> (\<forall>h. map_of (gd_handoffs db) hid = Some h \<longrightarrow> ho_Consumed h \<noteq> None)"

lemma spent_run:
  assumes "id_inv db" "handoff_spent hid db" "hid \<notin> run_handoffs ops"
  shows "handoff_spent hid (id_run e ops db)"
  using good_run [OF assms(1) order_refl order_refl, of ops e] assms(2,3)
  unfolding good_step_def evolves_def handoff_spent_def by blast

lemma spent_refused:
  "handoff_spent hid db \<Longrightarrow> \<exists>err. ConsumeIdentityHandoff sha rnd clock db app hid rawState now expiry = (db, Inl err)"
  by (auto simp: ConsumeIdentityHandoff_def write_tx_def consume_tx_def handoff_spent_def handoffTx_def handoff_value_def
      open_handoff_def Let_def split: option.splits sum.splits)

lemma consumed_children:
  assumes "issueChildAppSessionTx sha rnd clock db1 app viewer sid expiry = Inr (db', raw, v)"
    "update_handoff P g db hid = Some db1"
  obtains c where "gd_children db' = (ses_ID v, c) # gd_children db" "cr_App c = app" "cr_Identity c = id_ID viewer"
    "cr_Parent c = sid" "cr_Secret c = sha raw" "cr_Expires c = expiry" "cr_Revoked c = None"
    "v = \<lparr>ses_ID = ses_ID v, ses_AppID = app, ses_Identity = viewer, ses_ExpiresAt = expiry, ses_Revoked = False\<rparr>"
    "gd_handoffs db' = gd_handoffs db1"
  using assms(1) by (rule issue_childE) (auto simp: update_handoff_children [OF assms(2)] intro!: that)

text \<open>C34. How an app host comes by an app session. If it consumes a handoff, then the handoff was made for that app and
  with the state secret presented, it was authorized and neither consumed nor expired nor revoked, the identity
  session that authorized it is live and the current policy of the app admits its identity; exactly one session row
  is added, for this app, this identity and below this identity session. And the handoff is spent: in every
  continuation in which no new handoff draws the same random name, every attempt to consume it again, on any app,
  fails and changes nothing.\<close>

theorem handoff_consumed_once:
  assumes inv: "id_inv db"
    and consumed: "ConsumeIdentityHandoff (ie_sha e) rnd clock db app hid state now expiry = (db', Inr (h, raw, s))"
  shows "(\<exists>row sid p email c. map_of (gd_handoffs db) hid = Some row \<and> ho_App row = app \<and> ho_State row = ie_sha e state
        \<and> pending_row row \<and> ho_Authorized row \<noteq> None \<and> now < ho_Expires row
        \<and> ho_Session row = Some sid \<and> map_of (gd_sessions db) sid = Some p \<and> ir_Revoked p = None \<and> now < ir_Expires p
        \<and> ses_Identity s = \<lparr>id_ID = ir_Identity p, id_Email = email\<rparr> \<and> policyAllowsTx db app (ses_Identity s)
        \<and> gd_children db' = (ses_ID s, c) # gd_children db \<and> cr_App c = app \<and> cr_Parent c = sid \<and> ses_AppID s = app
        \<and> cr_Secret c = ie_sha e raw)
    \<and> (\<forall>ops. hid \<notin> run_handoffs ops \<longrightarrow>
        (\<forall>r2 clock2 app2 state2 now2 expiry2. \<exists>err.
           ConsumeIdentityHandoff (ie_sha e) r2 clock2 (id_run e ops db') app2 hid state2 now2 expiry2
             = (id_run e ops db', Inl err)))"
proof -
  have inv': "id_inv db'"
    using good_inv [OF good_consume [OF inv], of "ie_sha e" rnd clock app hid state now expiry] consumed by simp
  have tx: "consume_tx (ie_sha e) rnd clock app hid (ie_sha e state) now expiry db = Inr (db', h, raw, s)"
    using consumed by (auto simp: ConsumeIdentityHandoff_def write_tx_def split: if_splits sum.splits prod.splits)
  from tx have "handoff_spent hid db'"
  proof (rule consume_txE)
    fix db1 sid p email
    assume u: "update_handoff pending_row (\<lambda>r. r\<lparr>ho_Consumed := Some now\<rparr>) db hid = Some db1"
      and i: "issueChildAppSessionTx (ie_sha e) rnd clock db1 app \<lparr>id_ID = ir_Identity p, id_Email = email\<rparr> sid expiry = Inr (db', raw, s)"
    from consumed_children [OF i u] have "gd_handoffs db' = gd_handoffs db1" by metis
    then show ?thesis
      using u by (auto simp: handoff_spent_def update_handoff_def gomap_simps split: option.splits if_splits)
  qed
  then have once: "\<forall>ops. hid \<notin> run_handoffs ops \<longrightarrow>
        (\<forall>r2 clock2 app2 state2 now2 expiry2. \<exists>err.
           ConsumeIdentityHandoff (ie_sha e) r2 clock2 (id_run e ops db') app2 hid state2 now2 expiry2
             = (id_run e ops db', Inl err))"
    using spent_run [OF inv'] spent_refused by blast
  from tx show ?thesis
  proof (rule consume_txE)
    fix row sid p email db1
    assume a: "map_of (gd_handoffs db) hid = Some row" "ho_Session row = Some sid" "map_of (gd_sessions db) sid = Some p"
      "ho_App row = app" "ho_State row = ie_sha e state" "ir_Revoked p = None" "pending_row row" "ho_Authorized row \<noteq> None"
      "now < ho_Expires row" "now < ir_Expires p" "policyAllowsTx db app \<lparr>id_ID = ir_Identity p, id_Email = email\<rparr>"
      and u: "update_handoff pending_row (\<lambda>r. r\<lparr>ho_Consumed := Some now\<rparr>) db hid = Some db1"
      and i: "issueChildAppSessionTx (ie_sha e) rnd clock db1 app \<lparr>id_ID = ir_Identity p, id_Email = email\<rparr> sid expiry = Inr (db', raw, s)"
    from i u obtain c where "gd_children db' = (ses_ID s, c) # gd_children db" "cr_App c = app" "cr_Parent c = sid"
      "cr_Secret c = ie_sha e raw" "ses_Identity s = \<lparr>id_ID = ir_Identity p, id_Email = email\<rparr>" "ses_AppID s = app"
      by (rule consumed_children) (metis Session.select_convs(2,3))
    with a have "\<exists>row sid p email c. map_of (gd_handoffs db) hid = Some row \<and> ho_App row = app \<and> ho_State row = ie_sha e state
        \<and> pending_row row \<and> ho_Authorized row \<noteq> None \<and> now < ho_Expires row
        \<and> ho_Session row = Some sid \<and> map_of (gd_sessions db) sid = Some p \<and> ir_Revoked p = None \<and> now < ir_Expires p
        \<and> ses_Identity s = \<lparr>id_ID = ir_Identity p, id_Email = email\<rparr> \<and> policyAllowsTx db app (ses_Identity s)
        \<and> gd_children db' = (ses_ID s, c) # gd_children db \<and> cr_App c = app \<and> cr_Parent c = sid \<and> ses_AppID s = app
        \<and> cr_Secret c = ie_sha e raw"
      by (intro exI [of _ row] exI [of _ sid] exI [of _ p] exI [of _ email] exI [of _ c]) simp
    with once show ?thesis by (rule conjI [rotated])
  qed
qed

text \<open>The cleanup compares times as text: half a second past the full second sorts before the full second.\<close>

lemma cleanup_half_second_early: "text_le (90 * second + 500000000) (90 * second)"
  by code_simp

section \<open>Rotation\<close>

lemma find_unique:
  assumes "gm_wf m" "map_of m k = Some v" "P (k, v)" "\<And>i w. (i, w) \<in> set m \<Longrightarrow> P (i, w) \<Longrightarrow> i = k"
  shows "find P m = Some (k, v)"
proof (cases "find P m")
  case None
  with assms(2,3) map_of_SomeD show ?thesis by (fastforce simp: find_None_iff)
next
  case (Some q)
  obtain i w where q: "q = (i, w)" by (cases q)
  from find_map_of [OF Some [unfolded q] assms(1)] have "map_of m i = Some w" "P (i, w)" by auto
  with assms(4) [OF map_of_SomeD] have "i = k" by blast
  with \<open>map_of m i = Some w\<close> assms(2) Some q show ?thesis by simp
qed

text \<open>The one row of a secret decides what its presentation gives.\<close>

lemma identity_lookup:
  assumes "id_inv db" "raw \<noteq> []" "map_of (gd_sessions db) sid = Some r" "has_secret (sha raw) r"
    "map_of (gd_identities db) (ir_Identity r) = Some email" "ir_Revoked r = None" "t < ir_Expires r"
    "\<And>i w. (i, w) \<in> set (gd_sessions db) \<Longrightarrow> has_secret (sha raw) w \<Longrightarrow> i = sid"
  shows "identitySessionTx sha db raw t =
    (case ir_Previous r of None \<Rightarrow> Valid_credential (session_value sid r email) False
     | Some (old, until) \<Rightarrow>
         if old \<noteq> sha raw then Valid_credential (session_value sid r email) False
         else if t < until then Valid_credential (session_value sid r email) True else Replayed (session_value sid r email))"
proof -
  have "ir_Identity r \<in> gm_keys (gd_identities db)" using assms(5) by (metis map_of_neq_None option.distinct(1))
  then have "find (\<lambda>(sid, r). has_secret (sha raw) r \<and> ir_Identity r \<in> gm_keys (gd_identities db)) (gd_sessions db) = Some (sid, r)"
    using assms(3,4,8) by (intro find_unique [OF id_invD(1) [OF assms(1)]]) auto
  then show ?thesis using assms(2,5,6,7) by (simp add: identitySessionTx_def Let_def)
qed

lemma current_secret:
  assumes "id_inv db" "identitySessionTx sha db raw now = Valid_credential v False"
    "map_of (gd_sessions db) (gs_ID v) = Some r" "ir_Revoked r = None" "has_secret (sha raw) r" "now < ir_Expires r"
    "map_of (gd_identities db) (ir_Identity r) = Some email"
    "\<And>i w. (i, w) \<in> set (gd_sessions db) \<Longrightarrow> has_secret (sha raw) w \<Longrightarrow> i = gs_ID v"
  shows "ir_Secret r = sha raw"
proof -
  have "raw \<noteq> []" using assms(2) by (auto simp: identitySessionTx_def)
  then have "identitySessionTx sha db raw now =
    (case ir_Previous r of None \<Rightarrow> Valid_credential (session_value (gs_ID v) r email) False
     | Some (old, until) \<Rightarrow>
         if old \<noteq> sha raw then Valid_credential (session_value (gs_ID v) r email) False
         else if now < until then Valid_credential (session_value (gs_ID v) r email) True
         else Replayed (session_value (gs_ID v) r email))"
    by (rule identity_lookup [where sha = sha and raw = raw, OF assms(1) _ assms(3,5,7,4,6)]) (rule assms(8))
  then have "map_option fst (ir_Previous r) \<noteq> Some (sha raw)"
    unfolding assms(2) by (auto split: if_splits)
  then show ?thesis using assms(5) by (simp add: has_secret_def)
qed

lemma replay_revokes:
  assumes inv: "id_inv db" and o: "identitySessionTx sha db raw t = Replayed v"
  shows "case ValidateIdentitySession sha rnd db raw t of (db2, out2, err2) \<Rightarrow>
      err2 = Some ErrIdentity \<and> vr_FamilyRevoked out2 \<and> family_dead (gs_FamilyID v) db2"
proof -
  have "identitySessionTx sha db raw t \<in> {Valid_credential v False, Replayed v}" by (simp add: o)
  with inv obtain r email where r: "map_of (gd_sessions db) (gs_ID v) = Some r" "ir_Revoked r = None"
    "v = session_value (gs_ID v) r email"
    by (rule credential_row)
  from r(3) have fam: "gs_FamilyID v = ir_Family r" by (metis IdentitySession.select_convs(2) session_value_def)
  obtain db2 refs where rev: "revokeIdentityFamilyTx db (ir_Family r) t = Inr (db2, refs)"
    using family_revocable [OF inv r(1,2)] by blast
  then show ?thesis
    using o fam revoke_family_dead [OF rev] by (simp add: ValidateIdentitySession_def Let_def)
qed

text \<open>After the rotation of a row, the fresh secret is current and the old one is the previous one.\<close>

lemma rotated_lookup:
  assumes inv: "id_inv db'" and row: "map_of (gd_sessions db') sid = Some r"
    and r: "ir_Secret r = sha fresh" "ir_Previous r = Some (sha raw, until)" "ir_Revoked r = None" "t < ir_Expires r"
      "map_of (gd_identities db') (ir_Identity r) = Some email"
    and nz: "raw \<noteq> []" "fresh \<noteq> []" and new: "sha fresh \<noteq> sha raw"
    and own: "\<And>i w. (i, w) \<in> set (gd_sessions db') \<Longrightarrow> has_secret (sha fresh) w \<or> has_secret (sha raw) w \<Longrightarrow> i = sid"
  shows "identitySessionTx sha db' fresh t = Valid_credential (session_value sid r email) False"
    and "identitySessionTx sha db' raw t =
      (if t < until then Valid_credential (session_value sid r email) True else Replayed (session_value sid r email))"
proof -
  have hs: "has_secret (sha fresh) r" "has_secret (sha raw) r" by (simp_all add: has_secret_def r)
  note lookup = identity_lookup [where sha = sha, OF inv _ row _ r(5,3,4)]
  show "identitySessionTx sha db' fresh t = Valid_credential (session_value sid r email) False"
    using lookup [OF nz(2) hs(1)] own new r(2) by simp
  show "identitySessionTx sha db' raw t =
      (if t < until then Valid_credential (session_value sid r email) True else Replayed (session_value sid r email))"
    using lookup [OF nz(1) hs(2)] own r(2) by simp
qed

text \<open>The use of a current secret that is older than a day.\<close>

lemma rotation_use:
  assumes inv: "id_inv db" and valid: "identitySessionTx sha db raw now = Valid_credential v False"
    and old: "identityRotateAfter \<le> time_sub now (gs_RotatedAt v)"
    and rnd: "randomOpaque ''gid_'' rnd = Some fresh"
    and own: "\<forall>i r. (i, r) \<in> set (gd_sessions db) \<longrightarrow> \<not> has_secret (sha fresh) r \<and> (has_secret (sha raw) r \<longrightarrow> i = gs_ID v)"
  obtains db' r where
    "use_credential sha rnd db raw now v False = Inr (db', fresh, v\<lparr>gs_RotatedAt := now, gs_LastSeenAt := now\<rparr>)"
    "id_inv db'" "map_of (gd_sessions db') (gs_ID v) = Some r" "ir_Secret r = sha fresh"
    "ir_Previous r = Some (sha raw, now + identityPreviousOverlap)" "ir_Revoked r = None" "ir_Expires r = gs_ExpiresAt v"
    "ir_Family r = gs_FamilyID v" "map_of (gd_identities db') (ir_Identity r) = Some (id_Email (gs_Identity v))"
    "\<And>i w. (i, w) \<in> set (gd_sessions db') \<Longrightarrow> has_secret (sha fresh) w \<or> has_secret (sha raw) w \<Longrightarrow> i = gs_ID v"
    "gd_users db' = gd_users db" "raw \<noteq> []" "fresh \<noteq> []" "ir_Rotated r = now" "now < gs_ExpiresAt v"
proof -
  let ?sid = "gs_ID v"
  have "identitySessionTx sha db raw now \<in> {Valid_credential v False, Replayed v}" by (simp add: valid)
  with inv obtain r email where r: "map_of (gd_sessions db) ?sid = Some r" "ir_Revoked r = None" "has_secret (sha raw) r"
    "now < ir_Expires r" "v = session_value ?sid r email" "map_of (gd_identities db) (ir_Identity r) = Some email"
    by (rule credential_row)
  have nz: "raw \<noteq> []" "fresh \<noteq> []" using valid rnd by (auto simp: identitySessionTx_def randomOpaque_def)
  have cur: "ir_Secret r = sha raw" using current_secret [OF inv valid r(1,2,3,4,6)] own by blast
  have other: "\<not> list_ex (\<lambda>(sid, r'). sid \<noteq> ?sid \<and>
      (ir_Secret r' = sha fresh \<or> map_option fst (ir_Previous r') = Some (sha raw))) (gd_sessions db)"
    using own by (fastforce simp: list_ex_iff has_secret_def)
  let ?db = "db\<lparr>gd_sessions := sql_update (\<lambda>sid r. sid = ?sid) (rotate_row (sha raw) (sha fresh) now) (gd_sessions db)\<rparr>"
  have use: "use_credential sha rnd db raw now v False = Inr (?db, fresh, v\<lparr>gs_RotatedAt := now, gs_LastSeenAt := now\<rparr>)"
    using old rnd r(1,2) cur other by (simp add: use_credential_def)
  have rows: "i = ?sid \<or> (i, w) \<in> set (gd_sessions db)" if "(i, w) \<in> set (gd_sessions ?db)" for i w
    using that by (auto simp: sql_update_def split: if_splits)
  have mine: "i = ?sid" if "(i, w) \<in> set (gd_sessions ?db)" "has_secret (sha fresh) w \<or> has_secret (sha raw) w" for i w
    using rows [OF that(1)] own that(2) by blast
  have v: "gs_ExpiresAt v = ir_Expires r" "gs_FamilyID v = ir_Family r" "id_Email (gs_Identity v) = email"
    by (subst r(5), simp add: session_value_def)+
  have row: "map_of (gd_sessions ?db) ?sid = Some (rotate_row (sha raw) (sha fresh) now r)" by (simp add: map_of_sql_update r(1))
  show thesis
    by (rule that [OF use good_inv [OF good_use [OF inv use]] row _ _ _ _ _ _ mine])
      (simp_all add: rotate_row_def v r(2,4,6) nz)
qed

text \<open>C35. A current secret that is older than a day is replaced when it is used: the browser is given a fresh one, which is
  the current secret from then on, the replaced one keeps working for a minute without being replaced again, and
  presented after that minute it is refused and ends the family. The digests of the two secrets belong to this
  session only, which random secrets guarantee.\<close>

theorem identity_rotation:
  assumes inv: "id_inv db" and valid: "identitySessionTx (ie_sha e) db raw now = Valid_credential v False"
    and old: "identityRotateAfter \<le> time_sub now (gs_RotatedAt v)"
    and rnd: "randomOpaque ''gid_'' rnd = Some fresh" and new: "ie_sha e fresh \<noteq> ie_sha e raw"
    and own: "\<forall>i r. (i, r) \<in> set (gd_sessions db) \<longrightarrow> \<not> has_secret (ie_sha e fresh) r \<and> (has_secret (ie_sha e raw) r \<longrightarrow> i = gs_ID v)"
  shows "\<exists>db' out. ValidateIdentitySession (ie_sha e) rnd db raw now = (db', out, None) \<and> vr_ReplacementToken out = fresh
    \<and> gs_ID (vr_Session out) = gs_ID v
    \<and> (\<forall>t < gs_ExpiresAt v. \<exists>w. gs_ID w = gs_ID v \<and> identitySessionTx (ie_sha e) db' fresh t = Valid_credential w False
         \<and> (if t < now + identityPreviousOverlap
            then identitySessionTx (ie_sha e) db' raw t = Valid_credential w True
            else (case ValidateIdentitySession (ie_sha e) rnd2 db' raw t of (db2, out2, err2) \<Rightarrow>
                    err2 = Some ErrIdentity \<and> vr_FamilyRevoked out2 \<and> family_dead (gs_FamilyID v) db2)))"
  using inv valid old rnd own
proof (rule rotation_use)
  fix db' r
  assume use: "use_credential (ie_sha e) rnd db raw now v False = Inr (db', fresh, v\<lparr>gs_RotatedAt := now, gs_LastSeenAt := now\<rparr>)"
    and inv': "id_inv db'" and row: "map_of (gd_sessions db') (gs_ID v) = Some r" "ir_Secret r = ie_sha e fresh"
      "ir_Previous r = Some (ie_sha e raw, now + identityPreviousOverlap)" "ir_Revoked r = None"
    and r: "ir_Expires r = gs_ExpiresAt v" "ir_Family r = gs_FamilyID v"
      "map_of (gd_identities db') (ir_Identity r) = Some (id_Email (gs_Identity v))"
    and mine: "\<And>i w. (i, w) \<in> set (gd_sessions db') \<Longrightarrow> has_secret (ie_sha e fresh) w \<or> has_secret (ie_sha e raw) w \<Longrightarrow> i = gs_ID v"
    and nz: "raw \<noteq> []" "fresh \<noteq> []"
  let ?w = "session_value (gs_ID v) r (id_Email (gs_Identity v))"
  have w: "gs_ID ?w = gs_ID v" "gs_FamilyID ?w = gs_FamilyID v" by (simp_all add: session_value_def r(2))
  have after: "\<exists>w. gs_ID w = gs_ID v \<and> identitySessionTx (ie_sha e) db' fresh t = Valid_credential w False
         \<and> (if t < now + identityPreviousOverlap
            then identitySessionTx (ie_sha e) db' raw t = Valid_credential w True
            else (case ValidateIdentitySession (ie_sha e) rnd2 db' raw t of (db2, out2, err2) \<Rightarrow>
                    err2 = Some ErrIdentity \<and> vr_FamilyRevoked out2 \<and> family_dead (gs_FamilyID v) db2))"
    if t: "t < gs_ExpiresAt v" for t
  proof -
    note lookup = rotated_lookup [where sha = "ie_sha e", OF inv' row _ r(3) nz new mine, of t, unfolded r(1), OF t]
    show ?thesis
      using lookup w replay_revokes [OF inv', of "ie_sha e" raw t ?w rnd2] by (intro exI [of _ ?w]) simp
  qed
  show ?thesis
    by (rule exI [of _ db'], rule exI [of _ "\<lparr>vr_Session = v\<lparr>gs_RotatedAt := now, gs_LastSeenAt := now\<rparr>,
        vr_ReplacementToken = fresh, vr_Revoked = [], vr_FamilyRevoked = False\<rparr>"])
      (use valid use after in \<open>simp add: ValidateIdentitySession_def\<close>)
qed

section \<open>An example\<close>

definition demo_sha :: "string \<Rightarrow> string" where "demo_sha s = CHR ''h'' # s"

definition demo_env :: IdEnv where
  "demo_env = \<lparr>ie_U = id, ie_sha = demo_sha, ie_mac = (\<lambda>k s. []), ie_parse = (\<lambda>s. None), ie_key = [1], ie_maxAttempts = 5\<rparr>"

definition demo_identity :: IdentityRow where
  "demo_identity = \<lparr>ir_Identity = ''ann@x.org'', ir_Family = ''fam_A'', ir_Secret = demo_sha ''gid_A'', ir_Binding = demo_sha ''bb_1'',
     ir_Previous = None, ir_Expires = 30 * 24 * hour, ir_LastSeen = 0, ir_Rotated = 0, ir_Revoked = None, ir_Created = 0\<rparr>"

definition demo_db :: IdDb where
  "demo_db =
     \<lparr>gd_apps = [(''a1'', \<lparr>ar_Slug = ''notes'', ar_Status = ''active'', ar_PolicyRevision = 1, ar_Mode = Some ''private'',
        ar_Owner = Some ''ann@x.org'', ar_Rules = []\<rparr>)],
      gd_users = [], gd_identities = [(''ann@x.org'', ''ann@x.org'')], gd_sessions = [(''gis_A'', demo_identity)],
      gd_handoffs = [(''ih_1'', \<lparr>ho_App = ''a1'', ho_State = demo_sha ''is_1'', ho_Return = ''/'', ho_Force = False,
        ho_Binding = None, ho_Session = Some ''gis_A'', ho_Expires = 5 * minute, ho_Authorized = Some 1, ho_Consumed = None,
        ho_Revoked = None, ho_Created = 0\<rparr>)],
      gd_children = [(''ses_1'', \<lparr>cr_App = ''a1'', cr_Identity = ''ann@x.org'', cr_Parent = ''gis_A'', cr_Secret = demo_sha ''tok'',
        cr_Expires = 24 * hour, cr_Revoked = None, cr_Created = 0\<rparr>)],
      gd_otps = [], gd_platform = []\<rparr>"

lemma demo_inv: "id_inv demo_db"
  by (simp add: id_inv_defs demo_db_def demo_identity_def)

lemma demo_sign_out:
  "snd (RevokeIdentitySession demo_sha demo_db ''gid_A'' 5) = Inr [(''a1'', ''ses_1'')]"
  by (simp add: RevokeIdentitySession_def write_tx_def revokeIdentitySessionTx_def revokeIdentityFamilyTx_def child_refs_def
      family_ids_def has_secret_def demo_db_def demo_identity_def demo_sha_def Let_def)

theorem identity_revocation_final_witness:
  "ends_family demo_env (has_secret (demo_sha ''gid_A'')) demo_db (fst (RevokeIdentitySession demo_sha demo_db ''gid_A'' 5))"
  using identity_revocation_final [OF demo_inv, of demo_env "''gid_A''" 5 None] demo_sign_out
  by (auto simp: demo_env_def split: prod.splits)

theorem identity_revocations_reported_witness:
  "revoked_between demo_db (fst (RevokeIdentitySession demo_sha demo_db ''gid_A'' 5)) = {(''a1'', ''ses_1'')}"
proof -
  have "case RevokeIdentitySession demo_sha demo_db ''gid_A'' 5 of
      (db', Inr refs) \<Rightarrow> set refs = revoked_between demo_db db' | (db', Inl e) \<Rightarrow> revoked_between demo_db db' = {}"
    by (rule identity_revocations_reported [OF demo_inv, THEN conjunct2, THEN conjunct2, THEN conjunct2, THEN conjunct2, THEN conjunct1])
  with demo_sign_out show ?thesis by (auto split: prod.splits)
qed

definition demo_consume :: "IdDb \<Rightarrow> IdDb \<times> (id_error + IdentityHandoff \<times> string \<times> Session)" where
  "demo_consume db = ConsumeIdentityHandoff demo_sha (Some [1, 2, 3]) 5 db ''a1'' ''ih_1'' ''is_1'' 5 (24 * hour)"

lemma demo_consume_ok: "\<not> isl (snd (demo_consume demo_db))"
  by (simp add: demo_consume_def ConsumeIdentityHandoff_def write_tx_def consume_tx_def handoffTx_def handoff_value_def
      open_handoff_def policyAllowsTx_def Evaluate_def update_handoff_def issueChildAppSessionTx_def demo_db_def
      demo_identity_def demo_sha_def Let_def b64_digit_def)

theorem handoff_consumed_once_witness:
  "case demo_consume demo_db of
     (db', Inr (h, raw, s)) \<Rightarrow> ses_AppID s = ''a1'' \<and> (\<exists>err. demo_consume db' = (db', Inl err))
   | (db', Inl e) \<Rightarrow> False"
proof -
  obtain db' h raw s where d: "demo_consume demo_db = (db', Inr (h, raw, s))"
  proof (cases "snd (demo_consume demo_db)")
    case (Inr p)
    obtain h raw s where "p = (h, raw, s)" by (rule prod_cases3)
    with Inr that show thesis by (cases "demo_consume demo_db") simp
  qed (use demo_consume_ok in simp)
  have env: "ie_sha demo_env = demo_sha" by (simp add: demo_env_def)
  have "\<forall>ops. ''ih_1'' \<notin> run_handoffs ops \<longrightarrow>
        (\<forall>r2 clock2 app2 state2 now2 expiry2. \<exists>err.
           ConsumeIdentityHandoff demo_sha r2 clock2 (id_run demo_env ops db') app2 ''ih_1'' state2 now2 expiry2
             = (id_run demo_env ops db', Inl err))"
    and "ses_AppID s = ''a1''"
    using handoff_consumed_once [OF demo_inv, of demo_env "Some [1, 2, 3]" 5 "''a1''" "''ih_1''" "''is_1''" 5 "24 * hour" db' h raw s] d
    by (auto simp: demo_consume_def env)
  from this(1) [rule_format, of "[]"] this(2) show ?thesis
    by (simp add: d) (simp add: demo_consume_def run_handoffs_def id_run_def)
qed

theorem identity_rotation_witness:
  "\<exists>w. identitySessionTx demo_sha (fst (ValidateIdentitySession demo_sha (Some [7]) demo_db ''gid_A'' (48 * hour))) ''gid_A'' (48 * hour + 1)
     = Valid_credential w True"
proof -
  let ?v = "session_value ''gis_A'' demo_identity ''ann@x.org''"
  have valid: "identitySessionTx (ie_sha demo_env) demo_db ''gid_A'' (48 * hour) = Valid_credential ?v False"
    by (simp add: identitySessionTx_def has_secret_def demo_env_def demo_db_def demo_identity_def Let_def)
  have fresh: "randomOpaque ''gid_'' (Some [7]) = Some (''gid_'' @ b64_encode [7])" by (simp add: randomOpaque_def)
  have "\<exists>db' out. ValidateIdentitySession (ie_sha demo_env) (Some [7]) demo_db ''gid_A'' (48 * hour) = (db', out, None)
    \<and> vr_ReplacementToken out = ''gid_'' @ b64_encode [7] \<and> gs_ID (vr_Session out) = gs_ID ?v
    \<and> (\<forall>t < gs_ExpiresAt ?v. \<exists>w. gs_ID w = gs_ID ?v
         \<and> identitySessionTx (ie_sha demo_env) db' (''gid_'' @ b64_encode [7]) t = Valid_credential w False
         \<and> (if t < 48 * hour + identityPreviousOverlap
            then identitySessionTx (ie_sha demo_env) db' ''gid_A'' t = Valid_credential w True
            else (case ValidateIdentitySession (ie_sha demo_env) None db' ''gid_A'' t of (db2, out2, err2) \<Rightarrow>
                    err2 = Some ErrIdentity \<and> vr_FamilyRevoked out2 \<and> family_dead (gs_FamilyID ?v) db2)))"
    by (rule identity_rotation [OF demo_inv valid _ fresh])
      (simp_all add: identityRotateAfter_def time_sub_def session_value_def has_secret_def demo_env_def demo_db_def
        demo_identity_def demo_sha_def b64_digit_def)
  then show ?thesis
    by (auto simp: session_value_def demo_identity_def demo_env_def identityPreviousOverlap_def
        dest!: spec [of _ "48 * hour + 1"])
qed

end
