(* ===== verification/Identity_Broker.thy ===== *)
theory Identity_Broker
  imports Identity_Safety
begin

text \<open>
  The HTTP side of the global identity: \<open>internal/compose/identity_broker.go\<close>, the pre-authentication routes of
  an app host, \<open>internal/compose/login.go\<close>, and the cookie names of \<open>internal/browseridentity\<close>.

  A handler maps the world (the tables of Global\_Identity, the mails handed to the outbox and the references handed
  to \<open>RevokeChildren\<close>, which closes their live connections) to the new world and the response. \<open>BrokerIn\<close> holds
  what a handler reads besides the request: the answers of the rate limiter, the clock (\<open>bi_now i\<close> is the i-th call
  of \<open>now\<close> in the handler) and the random source. The store is the SQLite store, so the assertions to its
  platform and dashboard interfaces succeed; the outbox and \<open>RevokeChildren\<close> are set, as the composition sets
  them. The text of the pages is not modelled, only which page is answered and with which data. \<open>url.Parse\<close>,
  \<open>mime.ParseMediaType\<close> and \<open>strings.EqualFold\<close> are parameters.
\<close>

section \<open>Requests, responses and the world\<close>

record Origin =
  or_Scheme :: string
  or_User :: bool
  or_Host :: string
  or_Path :: string
  or_RawQuery :: string
  or_Fragment :: string

text \<open>\<open>br_Form n\<close> is the form (query and body) when the body is cut at \<open>n\<close> bytes, \<open>br_PostForm n\<close> that of the body
  alone, \<open>None\<close> when parsing fails.\<close>

record BrokerRequest = HTTPRequest +
  br_Query :: "string \<Rightarrow> string"
  br_Form :: "nat \<Rightarrow> (string \<Rightarrow> string) option"
  br_PostForm :: "nat \<Rightarrow> (string \<Rightarrow> string) option"

record IdentityBroker =
  ib_env :: IdEnv
  ib_store :: bool
  ib_OTPExpiry :: duration
  ib_AppSessionTTL :: duration
  ib_PlatformHost :: string
  ib_AppSuffix :: string
  ib_Domain :: string
  ib_origin :: "string \<Rightarrow> Origin option"
  ib_mime :: "string \<Rightarrow> string option"
  ib_EqualFold :: "string \<Rightarrow> string \<Rightarrow> bool"
  ib_fingerprint :: "BrokerRequest \<Rightarrow> nat list"

record BrokerIn =
  bi_allow :: bool
  bi_now :: "nat \<Rightarrow> time"
  bi_rnd :: "nat \<Rightarrow> nat list option"
  bi_code :: "nat option"

record BrokerWorld =
  bw_db :: IdDb
  bw_mail :: "Message list"
  bw_closed :: "AppSessionRef list"

datatype cookie = SetCookie string string time | SessionCookie string string | ExpireCookie string

datatype page =
    PageRedirect string
  | PageNext
  | PageNone
  | PageNotAuthorized
  | PageRetry
  | PageNotFound
  | PageEmail string bool
  | PageCode string string string
  | PageDenied string string
  | PagePlatformEmail bool
  | PagePlatformCode string string bool
  | PageNoRole string string

record BrokerResponse =
  rp_Status :: int
  rp_Page :: page
  rp_Cookies :: "cookie list"

abbreviation render :: "page \<Rightarrow> cookie list \<Rightarrow> BrokerResponse" where
  "render p cs \<equiv> \<lparr>rp_Status = 200, rp_Page = p, rp_Cookies = cs\<rparr>"

abbreviation see_other :: "string \<Rightarrow> cookie list \<Rightarrow> BrokerResponse" where
  "see_other target cs \<equiv> \<lparr>rp_Status = 303, rp_Page = PageRedirect target, rp_Cookies = cs\<rparr>"

definition retryStatus :: "int \<Rightarrow> cookie list \<Rightarrow> BrokerResponse" where
  "retryStatus status cs = \<lparr>rp_Status = status, rp_Page = PageRetry, rp_Cookies = cs\<rparr>"

abbreviation retry :: "cookie list \<Rightarrow> BrokerResponse" where
  "retry cs \<equiv> render PageRetry cs"

definition platformNotFound :: BrokerResponse where
  "platformNotFound = \<lparr>rp_Status = 404, rp_Page = PageNotFound, rp_Cookies = []\<rparr>"

definition IdentityCookieName :: string where "IdentityCookieName = ''__Host-tinker_identity''"
definition BindingCookieName :: string where "BindingCookieName = ''__Host-tinker_browser''"
definition CSRFCookieName :: string where "CSRFCookieName = ''__Host-tinker_identity_csrf''"
definition identityStateCookieName :: string where "identityStateCookieName = ''__Host-tinker_identity_state''"
definition AppCookieName :: string where "AppCookieName = ''__Host-tinker_app''"
definition browserBindingLifetime :: duration where "browserBindingLifetime = 30 * 24 * hour"
definition browserBindingMaxBytes :: nat where "browserBindingMaxBytes = 256"

section \<open>Configuration and guards\<close>

definition otpTTL :: "IdentityBroker \<Rightarrow> duration" where
  "otpTTL b = (if ib_OTPExpiry b > 0 then ib_OTPExpiry b else 10 * minute)"

definition appTTL :: "IdentityBroker \<Rightarrow> duration" where
  "appTTL b = (if ib_AppSessionTTL b > 0 then ib_AppSessionTTL b else 24 * hour)"

definition platformHost :: "IdentityBroker \<Rightarrow> string" where
  "platformHost b = (if ib_PlatformHost b \<noteq> [] then ib_PlatformHost b else ''tinker.test'')"

definition appSuffix :: "IdentityBroker \<Rightarrow> string" where
  "appSuffix b = (if ib_AppSuffix b \<noteq> [] then ib_AppSuffix b else ib_Domain b)"

definition SameOrigin :: "IdentityBroker \<Rightarrow> BrokerRequest \<Rightarrow> bool" where
  "SameOrigin b r =
     (case ib_origin b (req_Header r ''Origin'') of
        None \<Rightarrow> False
      | Some u \<Rightarrow>
          if or_Scheme u \<noteq> ''https'' \<or> or_User u \<or> or_Host u = [] \<or> or_Path u \<noteq> [] \<or> or_RawQuery u \<noteq> [] \<or> or_Fragment u \<noteq> []
          then False else ib_EqualFold b (or_Host u) (req_Host r))"

definition hasMediaType :: "IdentityBroker \<Rightarrow> BrokerRequest \<Rightarrow> string \<Rightarrow> bool" where
  "hasMediaType b r want \<longleftrightarrow> ib_mime b (req_Header r ''Content-Type'') = Some want"

abbreviation form_type :: string where "form_type \<equiv> ''application/x-www-form-urlencoded''"

definition browserBinding :: "BrokerRequest \<Rightarrow> string option" where
  "browserBinding r =
     (case req_Cookie r BindingCookieName of
        None \<Rightarrow> None
      | Some v \<Rightarrow> if v = [] \<or> length v > browserBindingMaxBytes then None else Some v)"

definition newBrowserBinding :: "nat list option \<Rightarrow> string option" where
  "newBrowserBinding rnd = map_option (\<lambda>b. ''bb_'' @ b64_encode b) rnd"

text \<open>The cookies to set, or \<open>None\<close> when no binding can be made.\<close>

definition ensureBrowserBinding :: "BrokerRequest \<Rightarrow> nat list option \<Rightarrow> time \<Rightarrow> cookie list option" where
  "ensureBrowserBinding r rnd now =
     (case browserBinding r of
        Some _ \<Rightarrow> Some []
      | None \<Rightarrow> map_option (\<lambda>raw. [SetCookie BindingCookieName raw (now + browserBindingLifetime)]) (newBrowserBinding rnd))"

definition identity_cookie :: "BrokerRequest \<Rightarrow> string" where
  "identity_cookie r = (case req_Cookie r IdentityCookieName of None \<Rightarrow> [] | Some v \<Rightarrow> v)"

definition rotateIdentity :: "IdentitySession \<Rightarrow> string \<Rightarrow> cookie list" where
  "rotateIdentity session raw = (if raw \<noteq> [] then [SetCookie IdentityCookieName raw (gs_ExpiresAt session)] else [])"

fun uniqueRefs :: "AppSessionRef set \<Rightarrow> AppSessionRef list \<Rightarrow> AppSessionRef list" where
  "uniqueRefs seen [] = []"
| "uniqueRefs seen (ref # refs) =
     (if fst ref = [] \<or> snd ref = [] \<or> ref \<in> seen then uniqueRefs seen refs else ref # uniqueRefs (insert ref seen) refs)"

definition uniqueAppSessionRefs :: "AppSessionRef list \<Rightarrow> AppSessionRef list" where
  "uniqueAppSessionRefs refs = uniqueRefs {} refs"

definition close_refs :: "BrokerWorld \<Rightarrow> AppSessionRef list \<Rightarrow> BrokerWorld" where
  "close_refs w refs = w\<lparr>bw_closed := bw_closed w @ refs\<rparr>"

definition opaqueTransaction :: "nat list option \<Rightarrow> string" where
  "opaqueTransaction rnd =
     (case rnd of None \<Rightarrow> ''otp_unavailable000000000000000000000000'' | Some b \<Rightarrow> ''otp_'' @ hex_encode b)"

definition appHost :: "(nat \<Rightarrow> nat) \<Rightarrow> string \<Rightarrow> string \<Rightarrow> string" where
  "appHost U slug sfx = ToLower U slug @ CHR ''.'' # ToLower U sfx"

definition validAppHost :: "(nat \<Rightarrow> nat) \<Rightarrow> string \<Rightarrow> string \<Rightarrow> bool" where
  "validAppHost U slug sfx =
     (case ClassifyHost U (appHost U slug sfx) sfx of
        None \<Rightarrow> False | Some h \<Rightarrow> host_Kind h = HApp \<and> host_Slug h = ToLower U slug)"

definition redirectCallback :: "IdentityBroker \<Rightarrow> IdentityHandoff \<Rightarrow> cookie list \<Rightarrow> BrokerResponse" where
  "redirectCallback b h cs =
     (let U = ie_U (ib_env b) in
      if ih_ID h = [] \<or> ih_AppSlug h = [] \<or> \<not> validAppHost U (ih_AppSlug h) (appSuffix b) then retry cs
      else see_other (''https://'' @ appHost U (ih_AppSlug h) (appSuffix b) @ ''/_tinker/auth/callback?handoff='' @ QueryEscape (ih_ID h)) cs)"

section \<open>The app host\<close>

text \<open>\<open>None\<close> is the result false, which answers nothing.\<close>

definition BrokerAppLogin :: "IdentityBroker \<Rightarrow> BrokerIn \<Rightarrow> BrokerWorld \<Rightarrow> string \<Rightarrow> string \<Rightarrow> BrokerWorld \<times> BrokerResponse option" where
  "BrokerAppLogin b i w appID returnPath =
     (if \<not> ib_store b \<or> platformHost b = [] \<or> appSuffix b = [] \<or> \<not> bi_allow i then (w, None)
      else let e = ib_env b;
               ret = (case ValidReturnPath (ie_parse e) returnPath of None \<Rightarrow> ''/'' | Some p \<Rightarrow> p) in
        (case CreateIdentityHandoff (ie_sha e) (ie_parse e) (bi_rnd i 0) (bi_rnd i 1) (bw_db w) appID ret False (bi_now i 0) of
           (db, Inl err) \<Rightarrow> (w\<lparr>bw_db := db\<rparr>, None)
         | (db, Inr (h, state)) \<Rightarrow>
             if ih_ID h = [] \<or> state = [] then (w\<lparr>bw_db := db\<rparr>, None)
             else let expires = (if ih_ExpiresAt h = zero_time then bi_now i 1 + otpTTL b else ih_ExpiresAt h) in
               (w\<lparr>bw_db := db\<rparr>,
                Some (see_other (''https://'' @ platformHost b @ ''/_tinker/identity?handoff='' @ QueryEscape (ih_ID h))
                  [SetCookie identityStateCookieName state expires]))))"

definition BrokerAppCallback :: "IdentityBroker \<Rightarrow> BrokerIn \<Rightarrow> BrokerWorld \<Rightarrow> string \<Rightarrow> BrokerRequest \<Rightarrow> BrokerWorld \<times> BrokerResponse option" where
  "BrokerAppCallback b i w appID r =
     (let hid = TrimSpace (br_Query r ''handoff'') in
      case req_Cookie r identityStateCookieName of
        None \<Rightarrow> (w, None)
      | Some state \<Rightarrow>
          if \<not> ib_store b \<or> hid = [] \<or> state = [] then (w, None)
          else let e = ib_env b; now = bi_now i 0 in
            (case ConsumeIdentityHandoff (ie_sha e) (bi_rnd i 0) (bi_now i 1) (bw_db w) appID hid state now (now + appTTL b) of
               (db, Inl err) \<Rightarrow> (w\<lparr>bw_db := db\<rparr>, None)
             | (db, Inr (h, raw, s)) \<Rightarrow>
                 if raw = [] then (w\<lparr>bw_db := db\<rparr>, None)
                 else (w\<lparr>bw_db := db\<rparr>,
                   Some (see_other (case ValidReturnPath (ie_parse e) (ih_ReturnPath h) of None \<Rightarrow> ''/'' | Some p \<Rightarrow> p)
                     [SetCookie AppCookieName raw (ses_ExpiresAt s), ExpireCookie identityStateCookieName]))))"

section \<open>The platform login\<close>

text \<open>The token of the sign-out form and the cookies to set.\<close>

definition platformCSRF :: "BrokerRequest \<Rightarrow> nat list option \<Rightarrow> string \<Rightarrow> string \<times> cookie list" where
  "platformCSRF r rnd sessionID =
     (if sessionID = [] then ([], [])
      else let pre = sessionID @ ''.'';
               fresh = (case rnd of None \<Rightarrow> ([], []) | Some bs \<Rightarrow> (pre @ b64_encode bs, [SessionCookie CSRFCookieName (pre @ b64_encode bs)])) in
        (case req_Cookie r CSRFCookieName of
           None \<Rightarrow> fresh
         | Some v \<Rightarrow> if HasPrefix v pre \<and> length v \<ge> length pre + 32 then (v, []) else fresh))"

definition emailPage :: "BrokerIn \<Rightarrow> BrokerRequest \<Rightarrow> nat \<Rightarrow> nat \<Rightarrow> cookie list \<Rightarrow> page \<Rightarrow> BrokerResponse" where
  "emailPage i r clock draw cs p =
     (case ensureBrowserBinding r (bi_rnd i draw) (bi_now i clock) of
        None \<Rightarrow> retryStatus 503 cs
      | Some cs' \<Rightarrow> render p (cs @ cs'))"

definition platformLoginPage :: "IdentityBroker \<Rightarrow> BrokerIn \<Rightarrow> BrokerWorld \<Rightarrow> BrokerRequest \<Rightarrow> bool \<Rightarrow> BrokerWorld \<times> BrokerResponse" where
  "platformLoginPage b i w r replace =
     (if \<not> ib_store b then (w, retryStatus 503 [])
      else let e = ib_env b; raw = identity_cookie r in
        if raw \<noteq> [] \<and> \<not> replace then
          (case ValidateIdentitySession (ie_sha e) (bi_rnd i 0) (bw_db w) raw (bi_now i 0) of
             (db, v, None) \<Rightarrow>
               (case AuthenticateDashboardIdentity (ie_sha e) (bi_rnd i 1) db raw (bi_now i 1) of
                  (db', result, None) \<Rightarrow>
                    (w\<lparr>bw_db := db'\<rparr>, see_other ''/dashboard'' (rotateIdentity (dr_Identity result) (dr_ReplacementToken result)))
                | (db', result, Some err) \<Rightarrow>
                    if err = ErrIdentity then
                      (case platformCSRF r (bi_rnd i 2) (gs_ID (vr_Session v)) of
                         (csrf, cs) \<Rightarrow> (w\<lparr>bw_db := db'\<rparr>, render (PageNoRole (id_Email (gs_Identity (vr_Session v))) csrf) cs))
                    else (w\<lparr>bw_db := db'\<rparr>, retryStatus 503 []))
           | (db, v, Some err) \<Rightarrow>
               if err = ErrIdentity then
                 (close_refs (w\<lparr>bw_db := db\<rparr>) (uniqueAppSessionRefs (vr_Revoked v)),
                  emailPage i r 1 1 [ExpireCookie IdentityCookieName] (PagePlatformEmail replace))
               else (w\<lparr>bw_db := db\<rparr>, retryStatus 503 []))
        else (w, emailPage i r 0 0 [] (PagePlatformEmail replace)))"

definition deliver :: "BrokerWorld \<Rightarrow> IdDb \<Rightarrow> Message \<Rightarrow> BrokerWorld" where
  "deliver w db m = w\<lparr>bw_db := db, bw_mail := bw_mail w @ [m]\<rparr>"

definition platformRequestOTP :: "IdentityBroker \<Rightarrow> BrokerIn \<Rightarrow> BrokerWorld \<Rightarrow> BrokerRequest \<Rightarrow> BrokerWorld \<times> BrokerResponse" where
  "platformRequestOTP b i w r =
     (if \<not> SameOrigin b r \<or> \<not> hasMediaType b r form_type then (w, retry [])
      else if \<not> ib_store b then (w, retryStatus 503 [])
      else case (br_Form r 4096, browserBinding r) of
        (Some form, Some binding) \<Rightarrow>
          (let e = ib_env b; email = form ''email'';
               answer = (\<lambda>tx. render (PagePlatformCode email tx (form ''replace'' = ''1'')) []);
               tx = opaqueTransaction (bi_rnd i 0) in
           if \<not> bi_allow i then (w, answer tx)
           else (case RequestPlatformIdentityOTP (ie_U e) (ie_sha e) (ie_mac e) (bi_rnd i 1) (bi_code i) (bw_db w) binding email
                   (ib_fingerprint b r) (ie_key e) (bi_now i 0) (otpTTL b) of
               (db, Inr (Some m)) \<Rightarrow>
                 (deliver w db \<lparr>ms_AppID = [], ms_Email = pc_Email m, ms_Code = pc_Code m, ms_ChallengeID = pc_ID m\<rparr>, answer (pc_ID m))
             | (db, _) \<Rightarrow> (w\<lparr>bw_db := db\<rparr>, answer tx)))
      | _ \<Rightarrow> (w, retry []))"

text \<open>A verified one-time code: the references are closed and the identity cookie replaces the old one.\<close>

definition identity_cookies :: "IdentityOTPResult \<Rightarrow> cookie list" where
  "identity_cookies result =
     [SetCookie IdentityCookieName (op_Token result) (gs_ExpiresAt (op_Session result)), ExpireCookie CSRFCookieName]"

definition platformVerifyOTP :: "IdentityBroker \<Rightarrow> BrokerIn \<Rightarrow> BrokerWorld \<Rightarrow> BrokerRequest \<Rightarrow> BrokerWorld \<times> BrokerResponse" where
  "platformVerifyOTP b i w r =
     (if \<not> SameOrigin b r \<or> \<not> hasMediaType b r form_type then (w, retry [])
      else if \<not> ib_store b then (w, retryStatus 503 [])
      else case (br_Form r 4096, browserBinding r) of
        (Some form, Some binding) \<Rightarrow>
          if \<not> bi_allow i then (w, retry [])
          else let e = ib_env b in
            (case VerifyPlatformIdentityOTP (ie_U e) (ie_sha e) (ie_mac e) (bi_rnd i 0) (bi_rnd i 1) (bw_db w) binding (form ''email'')
                (form ''transaction'') (form ''code'') (identity_cookie r) (form ''replace'' = ''1'') (ie_key e) (bi_now i 0) (ie_maxAttempts e) of
               (db, Inl err) \<Rightarrow> (w\<lparr>bw_db := db\<rparr>, retry [])
             | (db, Inr result) \<Rightarrow>
                 if op_Token result = [] then (w\<lparr>bw_db := db\<rparr>, retry [])
                 else (close_refs (w\<lparr>bw_db := db\<rparr>) (uniqueAppSessionRefs (op_Revoked result)),
                   see_other ''/dashboard'' (identity_cookies result)))
      | _ \<Rightarrow> (w, retry []))"

section \<open>Signing out\<close>

text \<open>The outcome of the revocations of \<open>logoutTo\<close>: the references, or the status of the retry page.\<close>

definition logout_revocation :: "IdentityBroker \<Rightarrow> BrokerIn \<Rightarrow> BrokerWorld \<Rightarrow> BrokerRequest \<Rightarrow> IdDb \<times> (int + AppSessionRef list)" where
  "logout_revocation b i w r =
     (let sha = ie_sha (ib_env b); raw = identity_cookie r;
          fallback = (\<lambda>db n. case browserBinding r of
              None \<Rightarrow> (db, Inr [])
            | Some binding \<Rightarrow>
                (case RevokeIdentityBrowserBinding sha db binding (bi_now i n) of
                   (db', Inr refs) \<Rightarrow> (db', Inr refs)
                 | (db', Inl err) \<Rightarrow> (db', Inl (if err = ErrIdentity then 200 else 503)))) in
      if raw = [] then fallback (bw_db w) 0
      else (case RevokeIdentitySession sha (bw_db w) raw (bi_now i 0) of
          (db, Inr refs) \<Rightarrow> (db, Inr refs)
        | (db, Inl err) \<Rightarrow> if err = ErrIdentity then fallback db 1 else (db, Inl 503)))"

definition logoutTo :: "IdentityBroker \<Rightarrow> BrokerIn \<Rightarrow> BrokerWorld \<Rightarrow> BrokerRequest \<Rightarrow> string \<Rightarrow> BrokerWorld \<times> BrokerResponse" where
  "logoutTo b i w r redirect =
     (if \<not> SameOrigin b r \<or> \<not> ib_store b then (w, retry [])
      else if identity_cookie r = [] \<and> browserBinding r = None then (w, retry [])
      else case logout_revocation b i w r of
          (db, Inl status) \<Rightarrow> (w\<lparr>bw_db := db\<rparr>, retryStatus status [])
        | (db, Inr refs) \<Rightarrow>
            (close_refs (w\<lparr>bw_db := db\<rparr>) (uniqueAppSessionRefs refs),
             see_other redirect [ExpireCookie IdentityCookieName, ExpireCookie CSRFCookieName]))"

definition defaultMaxMemory :: nat where "defaultMaxMemory = 10 * 1024 * 1024"

definition validPlatformCSRF :: "IdentityBroker \<Rightarrow> BrokerIn \<Rightarrow> IdDb \<Rightarrow> BrokerRequest \<Rightarrow> IdDb \<times> bool" where
  "validPlatformCSRF b i db r =
     (case (req_Cookie r CSRFCookieName, req_Cookie r IdentityCookieName, br_Form r defaultMaxMemory) of
        (Some token, Some raw, Some form) \<Rightarrow>
          if token = [] \<or> \<not> ib_store b then (db, False)
          else (case ValidateIdentitySession (ie_sha (ib_env b)) (bi_rnd i 3) db raw (bi_now i 2) of
              (db', v, err) \<Rightarrow>
                (db', err = None \<and> gs_ID (vr_Session v) \<noteq> [] \<and> HasPrefix token (gs_ID (vr_Session v) @ ''.'') \<and> token = form ''csrf''))
      | _ \<Rightarrow> (db, False))"

definition platformLogout :: "IdentityBroker \<Rightarrow> BrokerIn \<Rightarrow> BrokerWorld \<Rightarrow> BrokerRequest \<Rightarrow> BrokerWorld \<times> BrokerResponse" where
  "platformLogout b i w r =
     (if \<not> SameOrigin b r then (w, retryStatus 403 [])
      else case validPlatformCSRF b i (bw_db w) r of
          (db, False) \<Rightarrow> (w\<lparr>bw_db := db\<rparr>, retryStatus 403 [])
        | (db, True) \<Rightarrow> logoutTo b i (w\<lparr>bw_db := db\<rparr>) r ''/login'')"

section \<open>The identity pages\<close>

definition identityPage :: "IdentityBroker \<Rightarrow> BrokerIn \<Rightarrow> BrokerWorld \<Rightarrow> BrokerRequest \<Rightarrow> BrokerWorld \<times> BrokerResponse" where
  "identityPage b i w r =
     (let hid = TrimSpace (br_Query r ''handoff''); raw = identity_cookie r; e = ib_env b in
      if \<not> ib_store b \<or> hid = [] then (w, retry [])
      else if raw = [] then (w, emailPage i r 0 0 [] (PageEmail hid False))
      else (case ValidateIdentitySession (ie_sha e) (bi_rnd i 0) (bw_db w) raw (bi_now i 0) of
          (db, v, Some err) \<Rightarrow>
            (close_refs (w\<lparr>bw_db := db\<rparr>) (vr_Revoked v),
             if err = ErrIdentity then emailPage i r 1 1 [ExpireCookie IdentityCookieName] (PageEmail hid False)
             else retryStatus 503 [])
        | (db, v, None) \<Rightarrow>
            (let session = vr_Session v; rotated = vr_ReplacementToken v; cs = rotateIdentity session rotated in
             case AuthorizeIdentityHandoff (ie_sha e) db hid (if rotated \<noteq> [] then rotated else raw) (bi_now i 1) of
               (db', Inr (h, s)) \<Rightarrow> (w\<lparr>bw_db := db'\<rparr>, redirectCallback b h cs)
             | (db', Inl err) \<Rightarrow> (w\<lparr>bw_db := db'\<rparr>, render (PageDenied (id_Email (gs_Identity session)) hid) cs))))"

definition requestOTP :: "IdentityBroker \<Rightarrow> BrokerIn \<Rightarrow> BrokerWorld \<Rightarrow> BrokerRequest \<Rightarrow> BrokerWorld \<times> BrokerResponse" where
  "requestOTP b i w r =
     (if \<not> SameOrigin b r \<or> \<not> hasMediaType b r form_type \<or> \<not> ib_store b then (w, retry [])
      else case (br_Form r 4096, browserBinding r) of
        (Some form, Some binding) \<Rightarrow>
          (let e = ib_env b; hid = TrimSpace (form ''handoff''); email = form ''email'';
               answer = (\<lambda>tx. render (PageCode email hid tx) []); tx = opaqueTransaction (bi_rnd i 0) in
           if hid = [] then (w, retry [])
           else if \<not> bi_allow i then (w, answer tx)
           else (case RequestIdentityOTP (ie_U e) (ie_sha e) (ie_mac e) (bi_rnd i 1) (bi_code i) (bw_db w) hid binding email
                   (ib_fingerprint b r) (ie_key e) (bi_now i 0) (otpTTL b) of
               (db, Inr (Some m)) \<Rightarrow>
                 (deliver w db \<lparr>ms_AppID = cm_AppID m, ms_Email = cm_Email m, ms_Code = cm_Code m, ms_ChallengeID = cm_ID m\<rparr>,
                  answer (cm_ID m))
             | (db, _) \<Rightarrow> (w\<lparr>bw_db := db\<rparr>, answer tx)))
      | _ \<Rightarrow> (w, retry []))"

definition verifyOTP :: "IdentityBroker \<Rightarrow> BrokerIn \<Rightarrow> BrokerWorld \<Rightarrow> BrokerRequest \<Rightarrow> BrokerWorld \<times> BrokerResponse" where
  "verifyOTP b i w r =
     (if \<not> SameOrigin b r \<or> \<not> hasMediaType b r form_type \<or> \<not> ib_store b then (w, retry [])
      else case (br_Form r 4096, browserBinding r) of
        (Some form, Some binding) \<Rightarrow>
          (let e = ib_env b; hid = TrimSpace (form ''handoff'') in
           if hid = [] \<or> \<not> bi_allow i then (w, retry [])
           else (case VerifyIdentityOTP (ie_U e) (ie_sha e) (ie_mac e) (bi_rnd i 0) (bi_rnd i 1) (bw_db w) hid binding (form ''email'')
                   (form ''transaction'') (form ''code'') (identity_cookie r) (ie_key e) (bi_now i 0) (ie_maxAttempts e) of
               (db, Inl err) \<Rightarrow> (w\<lparr>bw_db := db\<rparr>, retry [])
             | (db, Inr result) \<Rightarrow>
                 if op_Token result = [] then (w\<lparr>bw_db := db\<rparr>, retry [])
                 else (close_refs (w\<lparr>bw_db := db\<rparr>) (op_Revoked result),
                   (case GetIdentityHandoff db hid (bi_now i 1) of
                      Inl err \<Rightarrow> retry (identity_cookies result)
                    | Inr h \<Rightarrow> if ih_AuthorizedAt h = None then retry (identity_cookies result)
                               else redirectCallback b h (identity_cookies result)))))
      | _ \<Rightarrow> (w, retry []))"

definition useAnother :: "IdentityBroker \<Rightarrow> BrokerIn \<Rightarrow> BrokerWorld \<Rightarrow> BrokerRequest \<Rightarrow> BrokerWorld \<times> BrokerResponse" where
  "useAnother b i w r =
     (if \<not> SameOrigin b r \<or> \<not> hasMediaType b r form_type \<or> \<not> ib_store b then (w, retry [])
      else case br_Form r 2048 of
          None \<Rightarrow> (w, retry [])
        | Some form \<Rightarrow>
            (case GetIdentityHandoff (bw_db w) (TrimSpace (form ''handoff'')) (bi_now i 0) of
               Inl err \<Rightarrow> (w, retry [])
             | Inr h \<Rightarrow>
                 (case ForceIdentityHandoff (bw_db w) (ih_ID h) (bi_now i 1) of
                    (db, Inl err) \<Rightarrow> (w\<lparr>bw_db := db\<rparr>, retry [])
                  | (db, Inr _) \<Rightarrow> (w\<lparr>bw_db := db\<rparr>, emailPage i r 2 0 [] (PageEmail (ih_ID h) True)))))"

text \<open>\<open>PageNext\<close> stands for the hand-over to the dashboard's handler.\<close>

definition PlatformHandler :: "IdentityBroker \<Rightarrow> BrokerIn \<Rightarrow> BrokerWorld \<Rightarrow> BrokerRequest \<Rightarrow> BrokerWorld \<times> BrokerResponse" where
  "PlatformHandler b i w r =
     (let p = req_Path r; get = req_Method r = ''GET''; post = req_Method r = ''POST'' in
      if p = ''/login'' \<and> get then platformLoginPage b i w r False
      else if p = ''/login/verify'' \<and> post then platformVerifyOTP b i w r
      else if p = ''/login'' \<and> post then platformRequestOTP b i w r
      else if p = ''/logout'' \<and> post then platformLogout b i w r
      else if \<not> HasPrefix p ''/_tinker/identity'' then (w, render PageNext [])
      else if p = ''/_tinker/identity'' \<and> get then identityPage b i w r
      else if p = ''/_tinker/identity/otp'' \<and> post then requestOTP b i w r
      else if p = ''/_tinker/identity/verify'' \<and> post then verifyOTP b i w r
      else if p = ''/_tinker/identity/use-another'' \<and> post then useAnother b i w r
      else if p = ''/_tinker/identity/logout'' \<and> post then logoutTo b i w r ''/''
      else (w, platformNotFound))"

section \<open>The pre-authentication routes of an app host\<close>

record Login =
  lg_Sessions :: bool
  lg_IdentityBroker :: "IdentityBroker option"
  lg_guards :: IdentityBroker

definition writePreAuthRetry :: "int \<Rightarrow> BrokerResponse" where
  "writePreAuthRetry status = \<lparr>rp_Status = status, rp_Page = PageNotAuthorized, rp_Cookies = []\<rparr>"

text \<open>The session store of the app plane is \<open>LiveSessions\<close>: a revoked session's live connections are closed.\<close>

definition LiveSessionsRevoke :: "(string \<Rightarrow> string) \<Rightarrow> time \<Rightarrow> BrokerWorld \<Rightarrow> string \<Rightarrow> string \<Rightarrow> BrokerWorld \<times> (session_error + string)" where
  "LiveSessionsRevoke sha clock w appID raw =
     (case RevokeChild sha clock (bw_db w) appID raw of
        (db, Inl e) \<Rightarrow> (w\<lparr>bw_db := db\<rparr>, Inl e)
      | (db, Inr cid) \<Rightarrow> (close_refs (w\<lparr>bw_db := db\<rparr>) [(appID, cid)], Inr cid))"

text \<open>The return path of a form, the status of a refused one; no form means \<open>/\<close>.\<close>

definition logout_return :: "Login \<Rightarrow> BrokerRequest \<Rightarrow> int + string" where
  "logout_return l r =
     (let b = lg_guards l in
      if \<not> hasMediaType b r form_type then Inr ''/''
      else case br_PostForm r 4096 of
          None \<Rightarrow> Inl 400
        | Some form \<Rightarrow>
            (case ValidReturnPath (ie_parse (ib_env b)) (form ''return'') of None \<Rightarrow> Inl 400 | Some ret \<Rightarrow> Inr ret))"

definition appLogout :: "Login \<Rightarrow> BrokerIn \<Rightarrow> BrokerWorld \<Rightarrow> string \<Rightarrow> BrokerRequest \<Rightarrow> BrokerWorld \<times> BrokerResponse" where
  "appLogout l i w appID r =
     (let b = lg_guards l in
      if \<not> SameOrigin b r then (w, writePreAuthRetry 401)
      else case logout_return l r of
          Inl status \<Rightarrow> (w, writePreAuthRetry status)
        | Inr ret \<Rightarrow>
            (let cs = [ExpireCookie AppCookieName];
                 answer = (if hasMediaType b r form_type then see_other (''/_tinker/auth/login?return='' @ QueryEscape ret) cs
                           else \<lparr>rp_Status = 204, rp_Page = PageNone, rp_Cookies = cs\<rparr>) in
             case req_Cookie r AppCookieName of
               None \<Rightarrow> (w, answer)
             | Some raw \<Rightarrow>
                 if raw = [] then (w, answer)
                 else if \<not> lg_Sessions l then (w, writePreAuthRetry 503)
                 else (case LiveSessionsRevoke (ie_sha (ib_env b)) (bi_now i 0) w appID raw of
                     (w', Inl e) \<Rightarrow> (w', if e = ErrInvalidSession then answer else writePreAuthRetry 503)
                   | (w', Inr cid) \<Rightarrow> (w', answer))))"

definition DispatchPreAuth :: "Login \<Rightarrow> BrokerIn \<Rightarrow> BrokerWorld \<Rightarrow> string \<Rightarrow> Endpoint \<Rightarrow> BrokerRequest \<Rightarrow> BrokerWorld \<times> BrokerResponse" where
  "DispatchPreAuth l i w appID ep r =
     (case ep of
        AppLogin \<Rightarrow>
          (let ret = (case ValidReturnPath (ie_parse (ib_env (lg_guards l))) (br_Query r ''return'') of None \<Rightarrow> ''/'' | Some p \<Rightarrow> p) in
           case map_option (\<lambda>b. BrokerAppLogin b i w appID ret) (lg_IdentityBroker l) of
             Some (w', Some rp) \<Rightarrow> (w', rp)
           | Some (w', None) \<Rightarrow> (w', writePreAuthRetry 503)
           | None \<Rightarrow> (w, writePreAuthRetry 503))
      | AppIdentityCallback \<Rightarrow>
          (case map_option (\<lambda>b. BrokerAppCallback b i w appID r) (lg_IdentityBroker l) of
             Some (w', Some rp) \<Rightarrow> (w', rp)
           | Some (w', None) \<Rightarrow> (w', writePreAuthRetry 401)
           | None \<Rightarrow> (w, writePreAuthRetry 401))
      | AppLogout \<Rightarrow> appLogout l i w appID r
      | _ \<Rightarrow> (w, writePreAuthRetry 404))"

end
