(* ===== verification/Broker_Safety.thy ===== *)
theory Broker_Safety
  imports Identity_Broker
begin

text \<open>
  What the handlers of the identity broker guarantee: a sign-out that reports success has ended something for good,
  the sessions a request revokes are exactly those whose connections are closed, a request for a code answers the same
  for every address, and single sign-on works from the app host over the platform host and back. One theorem shows
  that the login page of the dashboard loses a rotated credential.
\<close>

section \<open>A sign-out is truthful\<close>

lemma set_uniqueRefs: "set (uniqueRefs seen refs) = {ref \<in> set refs. fst ref \<noteq> [] \<and> snd ref \<noteq> []} - seen"
  by (induction seen refs rule: uniqueRefs.induct) auto

lemma set_uniqueAppSessionRefs [simp]:
  "set (uniqueAppSessionRefs refs) = {ref \<in> set refs. fst ref \<noteq> [] \<and> snd ref \<noteq> []}"
  by (simp add: uniqueAppSessionRefs_def set_uniqueRefs)

definition no_live_secret :: "(string \<Rightarrow> string) \<Rightarrow> string \<Rightarrow> IdDb \<Rightarrow> bool" where
  "no_live_secret sha raw db \<longleftrightarrow>
     raw = [] \<or> (\<forall>(sid, row) \<in> set (gd_sessions db). has_secret (sha raw) row \<longrightarrow> ir_Revoked row \<noteq> None)"

lemma revoke_session_refused:
  assumes inv: "id_inv db" and o: "RevokeIdentitySession sha db raw now = (db', Inl err)"
  shows "db' = db \<and> err = ErrIdentity \<and> no_live_secret sha raw db"
proof -
  have tx: "revokeIdentitySessionTx sha db raw now = Inl err" "db' = db"
    using o by (auto simp: RevokeIdentitySession_def write_tx_def split: sum.splits prod.splits)
  show ?thesis
  proof (cases "raw = [] \<or> find (\<lambda>(sid, r). has_secret (sha raw) r \<and> ir_Revoked r = None) (gd_sessions db) = None")
    case True
    then have "err = ErrIdentity" using tx(1) by (auto simp: revokeIdentitySessionTx_def split: if_splits)
    with True tx(2) show ?thesis by (auto simp: no_live_secret_def find_None_iff)
  next
    case False
    then obtain sid r where f: "find (\<lambda>(sid, r). has_secret (sha raw) r \<and> ir_Revoked r = None) (gd_sessions db) = Some (sid, r)"
      by auto
    from find_map_of [OF f id_invD(1) [OF inv]] family_revocable [OF inv, of sid r now] tx(1) f False
    show ?thesis by (auto simp: revokeIdentitySessionTx_def)
  qed
qed

lemma revoke_binding_refused:
  "RevokeIdentityBrowserBinding sha db raw now = (db', Inl err) \<Longrightarrow> db' = db"
  by (auto simp: RevokeIdentityBrowserBinding_def write_tx_def split: option.splits sum.splits prod.splits)

text \<open>What the credentials of a sign-out request end.\<close>

definition signed_out :: "IdentityBroker \<Rightarrow> BrokerRequest \<Rightarrow> IdDb \<Rightarrow> IdDb \<Rightarrow> bool" where
  "signed_out b r db db' \<longleftrightarrow>
     (let e = ib_env b; raw = identity_cookie r in
      ends_family e (has_secret (ie_sha e raw)) db db'
      \<or> no_live_secret (ie_sha e) raw db
        \<and> (case browserBinding r of
             Some x \<Rightarrow> ends_family e (\<lambda>row. ir_Binding row = ie_sha e x) db db'
           | None \<Rightarrow> db' = db))"

lemma logout_revocation_ends:
  assumes inv: "id_inv (bw_db w)" and o: "logout_revocation b i w r = (db', res)"
  shows "case res of Inl status \<Rightarrow> db' = bw_db w
    | Inr refs \<Rightarrow> set refs = revoked_between (bw_db w) db' \<and> signed_out b r (bw_db w) db'"
proof -
  let ?e = "ib_env b" and ?raw = "identity_cookie r" and ?db = "bw_db w"
  have fallback: ?thesis if none: "no_live_secret (ie_sha ?e) ?raw ?db"
    and f: "(case browserBinding r of
              None \<Rightarrow> (?db, Inr [])
            | Some binding \<Rightarrow>
                (case RevokeIdentityBrowserBinding (ie_sha ?e) ?db binding (bi_now i n) of
                   (db', Inr refs) \<Rightarrow> (db', Inr refs)
                 | (db', Inl err) \<Rightarrow> (db', Inl (if err = ErrIdentity then 200 else 503)))) = (db', res)" for n
  proof (cases "browserBinding r")
    case None
    with f none show ?thesis by (auto simp: signed_out_def Let_def)
  next
    case (Some x)
    show ?thesis
      using f Some none revoke_binding_ends [OF inv, of ?e x "bi_now i n"] credential_reports(4) [OF inv, of "ie_sha ?e" x "bi_now i n"]
        revoke_binding_refused [of "ie_sha ?e" ?db x "bi_now i n"]
      by (auto simp: signed_out_def Let_def split: prod.splits sum.splits)
  qed
  show ?thesis
  proof (cases "?raw = []")
    case True
    with o fallback [of 0] show ?thesis by (simp add: logout_revocation_def no_live_secret_def Let_def)
  next
    case False
    obtain db1 x where one: "RevokeIdentitySession (ie_sha ?e) ?db ?raw (bi_now i 0) = (db1, x)" by (metis prod.exhaust)
    show ?thesis
    proof (cases x)
      case (Inl err)
      from revoke_session_refused [OF inv one [unfolded Inl]] o fallback [of 1] one Inl False show ?thesis
        by (simp add: logout_revocation_def Let_def)
    next
      case (Inr refs)
      with o one False have "db' = db1" "res = Inr refs" by (simp_all add: logout_revocation_def Let_def)
      with one Inr revoke_session_ends [OF inv, of ?e ?raw "bi_now i 0"] credential_reports(3) [OF inv, of "ie_sha ?e" ?raw "bi_now i 0"]
      show ?thesis by (auto simp: signed_out_def Let_def)
    qed
  qed
qed

text \<open>C37. A sign-out says the truth. When the sign-out route of the broker answers its redirect, it expires the two cookies
  of the identity, and the family of the presented identity cookie has ended for good; or no live row of the tables
  knows that cookie, and the family of the browser binding has ended for good, or there is no binding and nothing was
  left to revoke. The live connections handed over to be closed are exactly those of the app sessions it revoked.
  Whenever it answers anything else, nothing has changed and no cookie is touched.\<close>

theorem sign_out_truthful:
  assumes inv: "id_inv (bw_db w)" and o: "logoutTo b i w r redirect = (w', rp)"
  shows "if rp_Page rp = PageRedirect redirect
    then rp_Cookies rp = [ExpireCookie IdentityCookieName, ExpireCookie CSRFCookieName]
      \<and> (\<exists>refs. bw_closed w' = bw_closed w @ refs
           \<and> set refs = {ref \<in> revoked_between (bw_db w) (bw_db w'). fst ref \<noteq> [] \<and> snd ref \<noteq> []})
      \<and> signed_out b r (bw_db w) (bw_db w')
    else w' = w \<and> rp_Cookies rp = []"
proof (cases "\<not> SameOrigin b r \<or> \<not> ib_store b \<or> identity_cookie r = [] \<and> browserBinding r = None")
  case True
  with o show ?thesis by (auto simp: logoutTo_def split: if_splits)
next
  case False
  obtain db' res where l: "logout_revocation b i w r = (db', res)" by (metis prod.exhaust)
  from logout_revocation_ends [OF inv l] o l False show ?thesis
    by (auto simp: logoutTo_def close_refs_def retryStatus_def split: sum.splits)
qed

text \<open>A cookie that no live row knows, without a binding: the sign-out is reported although nothing was revoked.\<close>

lemma stale_sign_out_reported:
  assumes "SameOrigin b r" "ib_store b" "identity_cookie r \<noteq> []" "browserBinding r = None"
    "no_live_secret (ie_sha (ib_env b)) (identity_cookie r) (bw_db w)"
  shows "logoutTo b i w r redirect = (w, see_other redirect [ExpireCookie IdentityCookieName, ExpireCookie CSRFCookieName])"
proof -
  have "find (\<lambda>(sid, row). has_secret (ie_sha (ib_env b) (identity_cookie r)) row \<and> ir_Revoked row = None) (gd_sessions (bw_db w)) = None"
    using assms(3,5) by (auto simp: find_None_iff no_live_secret_def)
  with assms show ?thesis
    by (simp add: logoutTo_def logout_revocation_def RevokeIdentitySession_def write_tx_def revokeIdentitySessionTx_def
        close_refs_def uniqueAppSessionRefs_def Let_def)
qed

section \<open>Revoked sessions are disconnected\<close>

lemma force_children: "ForceIdentityHandoff db hid now = (db', res) \<Longrightarrow> gd_children db' = gd_children db"
  by (auto simp: ForceIdentityHandoff_def write_tx_def update_handoff_children split: option.splits if_splits sum.splits prod.splits)

lemma authorize_children: "AuthorizeIdentityHandoff sha db hid raw now = (db', res) \<Longrightarrow> gd_children db' = gd_children db"
  by (auto simp: AuthorizeIdentityHandoff_def write_tx_def update_handoff_children
      split: option.splits if_splits sum.splits prod.splits credential.splits)

lemma challenge_children: "CreateChallenge U mac r1 r2 db app purpose email fp key ok now ttl = (db', res) \<Longrightarrow> gd_children db' = gd_children db"
  by (auto simp: CreateChallenge_def write_tx_def Let_def split: option.splits if_splits sum.splits prod.splits)

lemma bind_children: "bind_handoff_tx hid bh email now db = Inr (db', x) \<Longrightarrow> gd_children db' = gd_children db"
  by (auto simp: bind_handoff_tx_def Let_def update_handoff_children split: option.splits if_splits)

lemma request_children:
  "RequestIdentityOTP U sha mac r1 r2 db hid bind email fp key now ttl = (db', res) \<Longrightarrow> gd_children db' = gd_children db"
  by (auto simp: RequestIdentityOTP_def BindIdentityOTP_def dest!: bind_children challenge_children split: option.splits if_splits sum.splits prod.splits)

lemma platform_request_children:
  "RequestPlatformIdentityOTP U sha mac r1 r2 db bind email fp key now ttl = (db', res) \<Longrightarrow> gd_children db' = gd_children db"
  by (auto simp: RequestPlatformIdentityOTP_def write_tx_def Let_def split: option.splits if_splits sum.splits prod.splits)

text \<open>The handler hands exactly the app sessions it revoked to be closed.\<close>

definition closes :: "BrokerWorld \<Rightarrow> BrokerWorld \<Rightarrow> bool" where
  "closes w w' \<longleftrightarrow> (\<exists>refs. bw_closed w' = bw_closed w @ refs \<and> set refs = revoked_between (bw_db w) (bw_db w'))"

lemma closes_same: "bw_closed w' = bw_closed w \<Longrightarrow> gd_children (bw_db w') = gd_children (bw_db w) \<Longrightarrow> closes w w'"
  by (auto simp: closes_def)

lemma closes_refs: "set refs = revoked_between (bw_db w) db' \<Longrightarrow> closes w (close_refs (w\<lparr>bw_db := db'\<rparr>) refs)"
  by (auto simp: closes_def close_refs_def)

text \<open>Rows with a name and an application, as every row of the table has them.\<close>

definition named_children :: "IdDb \<Rightarrow> bool" where
  "named_children db \<longleftrightarrow> (\<forall>(cid, c) \<in> set (gd_children db). cid \<noteq> [] \<and> cr_App c \<noteq> [])"

lemma named_revoked:
  assumes "named_children db"
  shows "{ref \<in> revoked_between db db'. fst ref \<noteq> [] \<and> snd ref \<noteq> []} = revoked_between db db'"
  using assms map_of_SomeD by (fastforce simp: revoked_between_def named_children_def)

lemma closes_unique:
  "named_children (bw_db w) \<Longrightarrow> set refs = revoked_between (bw_db w) db' \<Longrightarrow>
   closes w (close_refs (w\<lparr>bw_db := db'\<rparr>) (uniqueAppSessionRefs refs))"
  by (rule closes_refs) (simp add: named_revoked)

lemma closes_requests:
  "platformRequestOTP b i w r = (w', rp) \<Longrightarrow> closes w w'"
  "requestOTP b i w r = (w', rp) \<Longrightarrow> closes w w'"
  "useAnother b i w r = (w', rp) \<Longrightarrow> closes w w'"
  by (rule closes_same; auto simp: platformRequestOTP_def requestOTP_def useAnother_def deliver_def Let_def
      dest!: request_children platform_request_children force_children split: option.splits if_splits sum.splits prod.splits)+

text \<open>A verification that succeeds issues a token.\<close>

lemma create_token: "createIdentitySessionTx sha r1 r2 db viewer bh now = Inr (db', raw, v) \<Longrightarrow> raw \<noteq> []"
  by (erule create_sessionE) (auto simp: randomOpaque_def)

lemma issue_token: "issue_identity sha r1 r2 hid bh email cid old now db = Inr (db', out) \<Longrightarrow> op_Token out \<noteq> []"
  by (erule issue_identityE) (rule create_token)

lemma verify_token:
  "VerifyIdentityOTP U sha mac r1 r2 db hid bind email cid code old key now n = (db', Inr out) \<Longrightarrow> op_Token out \<noteq> []"
  by (auto simp: VerifyIdentityOTP_def VerifyAndIssue_def otp_outcome_def write_tx_def dest: issue_token
      elim!: verify_tx_cases split: option.splits sum.splits prod.splits)

lemma platform_verify_token:
  "VerifyPlatformIdentityOTP U sha mac r1 r2 db bind email cid code old force key now n = (db', Inr out) \<Longrightarrow> op_Token out \<noteq> []"
  by (auto simp: VerifyPlatformIdentityOTP_def otp_outcome_def write_tx_def dest: create_token
      elim!: platform_verifyE split: option.splits sum.splits prod.splits if_splits)

lemma closes_none: "revoked_between (bw_db w) (bw_db w') = {} \<Longrightarrow> bw_closed w' = bw_closed w \<Longrightarrow> closes w w'"
  by (auto simp: closes_def)

lemma closes_platform_verify:
  assumes inv: "id_inv (bw_db w)" and n: "named_children (bw_db w)" and o: "platformVerifyOTP b i w r = (w', rp)"
  shows "closes w w'"
proof (cases "w' = w")
  case True
  then show ?thesis by (simp add: closes_same)
next
  case False
  with o obtain form binding where form: "br_Form r 4096 = Some form" "browserBinding r = Some binding"
    "SameOrigin b r" "hasMediaType b r form_type" "ib_store b" "bi_allow i"
    by (auto simp: platformVerifyOTP_def split: option.splits if_splits)
  let ?e = "ib_env b"
  obtain db res where v: "VerifyPlatformIdentityOTP (ie_U ?e) (ie_sha ?e) (ie_mac ?e) (bi_rnd i 0) (bi_rnd i 1) (bw_db w) binding (form ''email'')
      (form ''transaction'') (form ''code'') (identity_cookie r) (form ''replace'' = ''1'') (ie_key ?e) (bi_now i 0) (ie_maxAttempts ?e) = (db, res)"
    by (metis prod.exhaust)
  show ?thesis
    using o form v platform_verify_token [of "ie_U ?e"] platform_verify_reports [OF inv v] closes_unique [OF n]
      closes_none [of w "w\<lparr>bw_db := db\<rparr>"]
    by (auto simp: platformVerifyOTP_def Let_def split: sum.splits if_splits)
qed

lemma closes_verify:
  assumes inv: "id_inv (bw_db w)" and o: "verifyOTP b i w r = (w', rp)"
  shows "closes w w'"
proof (cases "w' = w")
  case True
  then show ?thesis by (simp add: closes_same)
next
  case False
  let ?e = "ib_env b"
  from False o obtain form binding where form: "br_Form r 4096 = Some form" "browserBinding r = Some binding"
    "SameOrigin b r" "hasMediaType b r form_type" "ib_store b" "bi_allow i" "TrimSpace (form ''handoff'') \<noteq> []"
    by (auto simp: verifyOTP_def Let_def split: option.splits if_splits)
  obtain db res where v: "VerifyIdentityOTP (ie_U ?e) (ie_sha ?e) (ie_mac ?e) (bi_rnd i 0) (bi_rnd i 1) (bw_db w) (TrimSpace (form ''handoff''))
      binding (form ''email'') (form ''transaction'') (form ''code'') (identity_cookie r) (ie_key ?e) (bi_now i 0) (ie_maxAttempts ?e) = (db, res)"
    by (metis prod.exhaust)
  show ?thesis
    using o form v verify_token [of "ie_U ?e"] verify_reports [OF inv v] closes_refs [of _ w db] closes_none [of w "w\<lparr>bw_db := db\<rparr>"]
    by (auto simp: verifyOTP_def Let_def split: sum.splits if_splits)
qed

lemma closes_page:
  assumes inv: "id_inv (bw_db w)" and o: "identityPage b i w r = (w', rp)"
  shows "closes w w'"
proof (cases "w' = w")
  case True
  then show ?thesis by (simp add: closes_same)
next
  case False
  let ?e = "ib_env b"
  from False o have p: "ib_store b" "TrimSpace (br_Query r ''handoff'') \<noteq> []" "identity_cookie r \<noteq> []"
    by (auto simp: identityPage_def Let_def split: if_splits)
  obtain db v err where v: "ValidateIdentitySession (ie_sha ?e) (bi_rnd i 0) (bw_db w) (identity_cookie r) (bi_now i 0) = (db, v, err)"
    by (metis prod.exhaust)
  have s: "set (vr_Revoked v) = revoked_between (bw_db w) db"
    using credential_reports(1) [OF inv, of "ie_sha ?e" "bi_rnd i 0" "identity_cookie r" "bi_now i 0"] v by simp
  show ?thesis
  proof (cases err)
    case None
    then have "gd_children db = gd_children (bw_db w)"
      using v by (auto simp: ValidateIdentitySession_def Let_def use_children split: credential.splits sum.splits)
    with o p v None show ?thesis
      by (auto simp: identityPage_def Let_def dest!: authorize_children intro!: closes_same split: prod.splits sum.splits if_splits)
  next
    case (Some e)
    with o p v s show ?thesis
      by (auto simp: identityPage_def Let_def intro: closes_refs)
  qed
qed

lemma closes_logout:
  assumes inv: "id_inv (bw_db w)" and n: "named_children (bw_db w)" and o: "logoutTo b i w r redirect = (w', rp)"
  shows "closes w w'"
proof -
  obtain db res where l: "logout_revocation b i w r = (db, res)" by (metis prod.exhaust)
  from logout_revocation_ends [OF inv l] o l closes_unique [OF n] show ?thesis
    by (auto simp: logoutTo_def closes_same split: sum.splits if_splits)
qed

text \<open>C38. No connection outlives its session unnoticed. On every route of the platform host but the dashboard's login page
  and the dashboard's sign-out, whatever the browser sends and however the request ends, the app sessions handed
  over to have their live connections closed are exactly those the request revoked: at a replayed cookie, at an
  account switch, at a sign-in over an older family and at a sign-out. The rows are assumed to carry their names.\<close>

theorem broker_closes_revoked:
  assumes inv: "id_inv (bw_db w)" and n: "named_children (bw_db w)" and o: "PlatformHandler b i w r = (w', rp)"
    and route: "(req_Path r, req_Method r) \<notin> {(''/login'', ''GET''), (''/logout'', ''POST'')}"
  shows "\<exists>refs. bw_closed w' = bw_closed w @ refs \<and> set refs = revoked_between (bw_db w) (bw_db w')"
proof -
  have "closes w w'"
    using o route closes_requests closes_platform_verify [OF inv n] closes_verify [OF inv] closes_page [OF inv] closes_logout [OF inv n]
      closes_same [of w w]
    by (auto simp: PlatformHandler_def Let_def split: if_splits)
  then show ?thesis by (simp add: closes_def)
qed

section \<open>The dashboard's login page and rotation\<close>

text \<open>The use of a previous secret only notes the time: the row keeps both secrets.\<close>

lemma prior_use:
  assumes inv: "id_inv db" and row: "map_of (gd_sessions db) sid = Some r" "ir_Revoked r = None" and v: "gs_ID v = sid"
  obtains db' r' where "use_credential sha rnd db raw now v True = Inr (db', [], v\<lparr>gs_LastSeenAt := now\<rparr>)" "id_inv db'"
    "map_of (gd_sessions db') sid = Some r'" "r' = r\<lparr>ir_LastSeen := now\<rparr>" "gd_identities db' = gd_identities db"
    "\<And>i w. (i, w) \<in> set (gd_sessions db') \<Longrightarrow> i = sid \<or> (i, w) \<in> set (gd_sessions db)"
proof -
  let ?db = "db\<lparr>gd_sessions := sql_update (\<lambda>sid' r. sid' = gs_ID v \<and> ir_Revoked r = None) (\<lambda>r. r\<lparr>ir_LastSeen := now\<rparr>) (gd_sessions db)\<rparr>"
  have use: "use_credential sha rnd db raw now v True = Inr (?db, [], v\<lparr>gs_LastSeenAt := now\<rparr>)" by (simp add: use_credential_def)
  have rows: "i = sid \<or> (i, w) \<in> set (gd_sessions db)" if "(i, w) \<in> set (gd_sessions ?db)" for i w
    using that v by (auto simp: sql_update_def split: if_splits)
  show thesis
    by (rule that [OF use good_inv [OF good_use [OF inv use]] _ refl _ rows]) (simp_all add: map_of_sql_update row v)
qed

text \<open>C40. The dashboard's login page loses a rotated identity. When a dashboard user opens it with a cookie whose secret is
  older than a day, the page answers the redirect to the dashboard without setting any cookie, although the tables
  now hold a fresh secret that nobody knows; the first use of the browser's cookie a minute later is taken for a
  replay, refused, and ends the whole family, with every app session below it.\<close>

theorem login_page_drops_rotation:
  assumes inv: "id_inv (bw_db w)" and route: "req_Path r = ''/login''" "req_Method r = ''GET''" and store: "ib_store b"
    and valid: "identitySessionTx (ie_sha (ib_env b)) (bw_db w) (identity_cookie r) (bi_now i 0) = Valid_credential v False"
    and old: "identityRotateAfter \<le> time_sub (bi_now i 0) (gs_RotatedAt v)"
    and rnd: "randomOpaque ''gid_'' (bi_rnd i 0) = Some fresh"
    and new: "ie_sha (ib_env b) fresh \<noteq> ie_sha (ib_env b) (identity_cookie r)"
    and own: "\<forall>k row. (k, row) \<in> set (gd_sessions (bw_db w)) \<longrightarrow> \<not> has_secret (ie_sha (ib_env b) fresh) row
      \<and> (has_secret (ie_sha (ib_env b) (identity_cookie r)) row \<longrightarrow> k = gs_ID v)"
    and user: "dashboard_user (bw_db w) (id_Email (gs_Identity v)) \<noteq> None"
    and soon: "bi_now i 1 < bi_now i 0 + identityPreviousOverlap" "bi_now i 1 < gs_ExpiresAt v"
  shows "\<exists>w'. PlatformHandler b i w r = (w', see_other ''/dashboard'' [])
    \<and> (\<forall>t. bi_now i 0 + identityPreviousOverlap \<le> t \<and> t < gs_ExpiresAt v \<longrightarrow>
        (case ValidateIdentitySession (ie_sha (ib_env b)) rnd2 (bw_db w') (identity_cookie r) t of (db2, out2, err2) \<Rightarrow>
           err2 = Some ErrIdentity \<and> vr_FamilyRevoked out2 \<and> family_dead (gs_FamilyID v) db2))"
  using inv valid old rnd own
proof (rule rotation_use)
  let ?sha = "ie_sha (ib_env b)" and ?raw = "identity_cookie r" and ?mail = "id_Email (gs_Identity v)"
  fix db' row
  assume use: "use_credential ?sha (bi_rnd i 0) (bw_db w) ?raw (bi_now i 0) v False
      = Inr (db', fresh, v\<lparr>gs_RotatedAt := bi_now i 0, gs_LastSeenAt := bi_now i 0\<rparr>)"
    and inv': "id_inv db'" and row: "map_of (gd_sessions db') (gs_ID v) = Some row" "ir_Secret row = ?sha fresh"
      "ir_Previous row = Some (?sha ?raw, bi_now i 0 + identityPreviousOverlap)" "ir_Revoked row = None"
    and row': "ir_Expires row = gs_ExpiresAt v" "ir_Family row = gs_FamilyID v" "map_of (gd_identities db') (ir_Identity row) = Some ?mail"
    and mine: "\<And>k x. (k, x) \<in> set (gd_sessions db') \<Longrightarrow> has_secret (?sha fresh) x \<or> has_secret (?sha ?raw) x \<Longrightarrow> k = gs_ID v"
    and rest: "gd_users db' = gd_users (bw_db w)" "?raw \<noteq> []" "fresh \<noteq> []"
  let ?v = "session_value (gs_ID v) row ?mail"
  have "identitySessionTx ?sha db' ?raw (bi_now i 1) = Valid_credential ?v True"
    using rotated_lookup(2) [where sha = ?sha, OF inv' row _ row'(3) rest(2,3) new mine, of "bi_now i 1"] soon by (simp add: row'(1))
  moreover obtain uid u where "dashboard_user db' (id_Email (gs_Identity ?v)) = Some (uid, u)"
    using user rest(1) by (auto simp: dashboard_user_def session_value_def)
  moreover have "gs_ID ?v = gs_ID v" by (simp add: session_value_def)
  with inv' row(1,4) obtain db2 row2 where two: "use_credential ?sha (bi_rnd i 1) db' ?raw (bi_now i 1) ?v True
      = Inr (db2, [], ?v\<lparr>gs_LastSeenAt := bi_now i 1\<rparr>)" and inv2: "id_inv db2"
    and row2: "map_of (gd_sessions db2) (gs_ID v) = Some row2" "row2 = row\<lparr>ir_LastSeen := bi_now i 1\<rparr>"
    and ids: "gd_identities db2 = gd_identities db'"
    and rows: "\<And>k x. (k, x) \<in> set (gd_sessions db2) \<Longrightarrow> k = gs_ID v \<or> (k, x) \<in> set (gd_sessions db')"
    by (rule prior_use [where sha = ?sha and rnd = "bi_rnd i 1" and raw = ?raw and now = "bi_now i 1"]) blast
  ultimately have "PlatformHandler b i w r = (w\<lparr>bw_db := db2\<rparr>, see_other ''/dashboard'' [])"
    using valid use store route rest(2)
    by (simp add: PlatformHandler_def platformLoginPage_def ValidateIdentitySession_def AuthenticateDashboardIdentity_def
        rotateIdentity_def Let_def)
  moreover have "case ValidateIdentitySession ?sha rnd2 db2 ?raw t of (db3, out2, err2) \<Rightarrow>
      err2 = Some ErrIdentity \<and> vr_FamilyRevoked out2 \<and> family_dead (gs_FamilyID v) db3"
    if t: "bi_now i 0 + identityPreviousOverlap \<le> t" "t < gs_ExpiresAt v" for t
  proof -
    have "identitySessionTx ?sha db2 ?raw t = Replayed (session_value (gs_ID v) row2 ?mail)"
      using rotated_lookup(2) [where sha = ?sha, OF inv2 row2(1) _ _ _ _ _ rest(2,3) new, of _ t ?mail] row row' ids rows mine t
      by (fastforce simp: row2(2))
    moreover have "gs_FamilyID (session_value (gs_ID v) row2 ?mail) = gs_FamilyID v" by (simp add: session_value_def row2(2) row'(2))
    ultimately show ?thesis using replay_revokes [OF inv2] by metis
  qed
  ultimately show ?thesis by (intro exI [of _ "w\<lparr>bw_db := db2\<rparr>"]) simp
qed

section \<open>Requests for a one-time code are uniform\<close>

lemma bind_handoff_txE:
  assumes "bind_handoff_tx hid bh email now db = Inr (db', app, ok)"
  obtains h where "handoffTx db hid = Some h" "app = ih_AppID h" "ok = policyAllowsTx db (ih_AppID h) (mail_identity email)"
  using assms by (auto simp: bind_handoff_tx_def Let_def split: option.splits if_splits)

lemma challenge_message:
  assumes "CreateChallenge U mac (Some bs) r2 db app purpose email fp key ok now ttl = (db', Inr (Some m))"
  shows "ok \<and> cm_ID m = ''otp_'' @ hex_encode bs \<and> cm_AppID m = app \<and> Normalize U email = Inr (cm_Email m)"
  using assms by (auto simp: CreateChallenge_def challenge_id_def write_tx_def Let_def split: option.splits if_splits sum.splits)

lemma request_message:
  assumes "RequestIdentityOTP U sha mac (Some bs) r2 db hid bind raw fp key now ttl = (db', Inr (Some m))"
  shows "cm_ID m = ''otp_'' @ hex_encode bs \<and> (\<exists>h email. handoffTx db hid = Some h \<and> cm_AppID m = ih_AppID h
    \<and> Normalize U raw = Inr email \<and> Normalize U email = Inr (cm_Email m) \<and> policyAllowsTx db (ih_AppID h) (mail_identity email))"
  using assms by (fastforce simp: RequestIdentityOTP_def BindIdentityOTP_def elim!: bind_handoff_txE dest!: challenge_message
      split: option.splits sum.splits prod.splits if_splits)

text \<open>What \<open>requestOTP\<close> answers when both reads of the random source give the same bytes.\<close>

lemma requestOTP_answer:
  assumes "bi_rnd i 0 = Some bs" "bi_rnd i 1 = Some bs"
  shows "snd (requestOTP b i w r) =
    (if \<not> SameOrigin b r \<or> \<not> hasMediaType b r form_type \<or> \<not> ib_store b then retry []
     else case (br_Form r 4096, browserBinding r) of
         (Some form, Some _) \<Rightarrow>
           if TrimSpace (form ''handoff'') = [] then retry []
           else render (PageCode (form ''email'') (TrimSpace (form ''handoff'')) (''otp_'' @ hex_encode bs)) []
       | _ \<Rightarrow> retry [])"
  by (auto simp: requestOTP_def assms assms(2) [unfolded One_nat_def] opaqueTransaction_def Let_def dest!: request_message split: option.splits prod.splits sum.splits)

text \<open>C39. On the login route of an application, asking for a code tells the browser nothing. Whatever the tables hold, whether the address may open the app,
  whether it was ever seen, whether the limiter refused the request: the same form, with the same address in it, gets
  the same answer, up to the random characters of the transaction, so when both random reads give the same bytes the
  answers are equal. A mail is sent only if the limiter allowed it, at most one, to the normalised address of the form, and only if the
  current policy of the application of the handoff admits this address.\<close>

theorem otp_request_uniform:
  assumes "bi_rnd i 0 = Some bs" "bi_rnd i 1 = Some bs"
  shows "snd (requestOTP b i w r) = snd (requestOTP b (i\<lparr>bi_allow := allow, bi_code := code, bi_now := now\<rparr>) w2 r)
    \<and> (bw_mail (fst (requestOTP b i w r)) = bw_mail w
       \<or> bi_allow i \<and> (\<exists>form h m email. br_Form r 4096 = Some form \<and> handoffTx (bw_db w) (TrimSpace (form ''handoff'')) = Some h
              \<and> bw_mail (fst (requestOTP b i w r)) = bw_mail w @ [m] \<and> ms_AppID m = ih_AppID h
              \<and> Normalize (ie_U (ib_env b)) (form ''email'') = Inr email
              \<and> Normalize (ie_U (ib_env b)) email = Inr (ms_Email m)
              \<and> policyAllowsTx (bw_db w) (ih_AppID h) (mail_identity email)))"
proof (rule conjI)
  show "snd (requestOTP b i w r) = snd (requestOTP b (i\<lparr>bi_allow := allow, bi_code := code, bi_now := now\<rparr>) w2 r)"
    by (subst (1 2) requestOTP_answer) (simp_all add: assms del: One_nat_def)
  show "bw_mail (fst (requestOTP b i w r)) = bw_mail w
       \<or> bi_allow i \<and> (\<exists>form h m email. br_Form r 4096 = Some form \<and> handoffTx (bw_db w) (TrimSpace (form ''handoff'')) = Some h
              \<and> bw_mail (fst (requestOTP b i w r)) = bw_mail w @ [m] \<and> ms_AppID m = ih_AppID h
              \<and> Normalize (ie_U (ib_env b)) (form ''email'') = Inr email
              \<and> Normalize (ie_U (ib_env b)) email = Inr (ms_Email m)
              \<and> policyAllowsTx (bw_db w) (ih_AppID h) (mail_identity email))"
    by (auto simp: requestOTP_def assms assms(2) [unfolded One_nat_def] deliver_def Let_def dest!: request_message split: option.splits prod.splits sum.splits)
qed

section \<open>Single sign-on\<close>

text \<open>A browser's cookie that is current: the one live row that knows it.\<close>

definition live_cookie :: "(string \<Rightarrow> string) \<Rightarrow> string \<Rightarrow> string \<Rightarrow> IdentityRow \<Rightarrow> string \<Rightarrow> IdDb \<Rightarrow> bool" where
  "live_cookie sha raw sid row email db \<longleftrightarrow>
     raw \<noteq> [] \<and> map_of (gd_sessions db) sid = Some row \<and> ir_Secret row = sha raw
     \<and> map_option fst (ir_Previous row) \<noteq> Some (sha raw) \<and> ir_Revoked row = None
     \<and> map_of (gd_identities db) (ir_Identity row) = Some email
     \<and> (\<forall>(k, x) \<in> set (gd_sessions db). has_secret (sha raw) x \<longrightarrow> k = sid)"

lemma live_cookie_valid:
  assumes inv: "id_inv db" and c: "live_cookie sha raw sid row email db" and t: "t < ir_Expires row"
  shows "identitySessionTx sha db raw t = Valid_credential (session_value sid row email) False"
proof -
  have hs: "has_secret (sha raw) row" using c by (simp add: live_cookie_def has_secret_def)
  have "identitySessionTx sha db raw t =
    (case ir_Previous row of None \<Rightarrow> Valid_credential (session_value sid row email) False
     | Some (old, until) \<Rightarrow>
         if old \<noteq> sha raw then Valid_credential (session_value sid row email) False
         else if t < until then Valid_credential (session_value sid row email) True else Replayed (session_value sid row email))"
    by (rule identity_lookup [where sha = sha and raw = raw, OF inv _ _ hs]) (use c t in \<open>auto simp: live_cookie_def\<close>)
  then show ?thesis using c by (auto simp: live_cookie_def split: option.splits)
qed

text \<open>The tables after a use that only notes the time.\<close>

definition seen_db :: "string \<Rightarrow> time \<Rightarrow> IdDb \<Rightarrow> IdDb" where
  "seen_db sid now db =
     db\<lparr>gd_sessions := sql_update (\<lambda>k r. k = sid \<and> ir_Revoked r = None) (\<lambda>r. r\<lparr>ir_LastSeen := now\<rparr>) (gd_sessions db)\<rparr>"

lemma seen_db_simps [simp]:
  "gd_apps (seen_db sid now db) = gd_apps db" "gd_identities (seen_db sid now db) = gd_identities db"
  "gd_handoffs (seen_db sid now db) = gd_handoffs db" "gd_children (seen_db sid now db) = gd_children db"
  "policyAllowsTx (seen_db sid now db) = policyAllowsTx db"
  by (simp_all add: seen_db_def policyAllowsTx_def fun_eq_iff)

lemma live_cookie_seen:
  "live_cookie sha raw sid row email db \<Longrightarrow> live_cookie sha raw sid (row\<lparr>ir_LastSeen := now\<rparr>) email (seen_db sid now db)"
  by (auto simp: live_cookie_def seen_db_def map_of_sql_update) (auto simp: sql_update_def split: if_splits)

lemma live_cookie_validate:
  assumes inv: "id_inv db" and c: "live_cookie sha raw sid row email db" and t: "now < ir_Expires row"
    and young: "time_sub now (ir_Rotated row) < identityRotateAfter"
  shows "ValidateIdentitySession sha rnd db raw now = (seen_db sid now db,
      \<lparr>vr_Session = (session_value sid row email)\<lparr>gs_LastSeenAt := now\<rparr>, vr_ReplacementToken = [], vr_Revoked = [], vr_FamilyRevoked = False\<rparr>, None)"
  using live_cookie_valid [OF inv c t] young
  by (simp add: ValidateIdentitySession_def use_credential_def session_value_def seen_db_def)

lemma seen_inv: "id_inv db \<Longrightarrow> id_inv (seen_db sid now db)"
  using good_inv [OF good_use [of db "\<lambda>x. x" None "[]" now "zero_identity\<lparr>gs_ID := sid\<rparr>" True "seen_db sid now db" "[]"
      "zero_identity\<lparr>gs_ID := sid, gs_LastSeenAt := now\<rparr>"]]
  by (simp add: use_credential_def seen_db_def)

definition fresh_handoff :: "string \<Rightarrow> string \<Rightarrow> string \<Rightarrow> time \<Rightarrow> HandoffRow" where
  "fresh_handoff app stateHash ret now =
     \<lparr>ho_App = app, ho_State = stateHash, ho_Return = ret, ho_Force = False, ho_Binding = None, ho_Session = None,
      ho_Expires = now + handoffLifetime, ho_Authorized = None, ho_Consumed = None, ho_Revoked = None, ho_Created = now\<rparr>"

text \<open>What a login needs: the broker is composed, the app is active and the random names are new.\<close>

definition login_ready :: "Login \<Rightarrow> IdentityBroker \<Rightarrow> BrokerIn \<Rightarrow> IdDb \<Rightarrow> string \<Rightarrow> AppRow \<Rightarrow> string \<Rightarrow> string \<Rightarrow> string \<Rightarrow> bool" where
  "login_ready l b i db app a ret hid state \<longleftrightarrow>
     lg_IdentityBroker l = Some b \<and> ib_env (lg_guards l) = ib_env b
     \<and> ib_store b \<and> platformHost b \<noteq> [] \<and> appSuffix b \<noteq> [] \<and> bi_allow i
     \<and> map_of (gd_apps db) app = Some a \<and> ar_Status a = ''active''
     \<and> safeRelativePath (ie_parse (ib_env b)) ret = Some ret \<and> ValidReturnPath (ie_parse (ib_env b)) ret = Some ret
     \<and> randomOpaque ''ih_'' (bi_rnd i 0) = Some hid \<and> randomOpaque ''is_'' (bi_rnd i 1) = Some state
     \<and> hid \<notin> gm_keys (gd_handoffs db) \<and> ie_sha (ib_env b) state \<notin> (ho_State \<circ> snd) ` set (gd_handoffs db)"

lemma app_login_step:
  assumes ready: "login_ready l b i (bw_db w) app a ret hid state" and r: "br_Query r ''return'' = ret"
  shows "\<exists>rest expires. DispatchPreAuth l i w app AppLogin r =
    (w\<lparr>bw_db := (bw_db w)\<lparr>gd_handoffs := (hid, fresh_handoff app (ie_sha (ib_env b) state) ret (bi_now i 0)) # rest\<rparr>\<rparr>,
     see_other (''https://'' @ platformHost b @ ''/_tinker/identity?handoff='' @ QueryEscape hid)
       [SetCookie identityStateCookieName state expires])"
proof -
  obtain rest where c: "cleanupIdentityHandoffsTx (bi_now i 0) (bw_db w) = (bw_db w)\<lparr>gd_handoffs := rest\<rparr>"
    and rest: "set rest \<subseteq> set (gd_handoffs (bw_db w))"
    by (auto simp: cleanupIdentityHandoffsTx_def Let_def)
  have new: "hid \<notin> gm_keys rest" "ie_sha (ib_env b) state \<notin> (ho_State \<circ> snd) ` set rest"
    using rest ready by (auto simp: login_ready_def)
  have "hid \<noteq> []" "state \<noteq> []" using ready by (auto simp: login_ready_def randomOpaque_def)
  with ready c new r show ?thesis
    by (auto simp: login_ready_def DispatchPreAuth_def BrokerAppLogin_def CreateIdentityHandoff_def write_tx_def Let_def
        fresh_handoff_def handoff_value_def)
qed

lemma app_login_inv:
  assumes inv: "id_inv (bw_db w)"
  shows "id_inv (bw_db (fst (DispatchPreAuth l i w app AppLogin r)))"
proof -
  have good: "id_inv db" if "CreateIdentityHandoff sha p r1 r2 (bw_db w) app ret False now = (db, x)" for sha p r1 r2 ret now db x
    using good_inv [OF good_create_handoff [OF inv subset_refl], of sha p r1 r2 app ret False now] that by simp
  have one: "id_inv (bw_db w')" if "BrokerAppLogin b i w app ret = (w', x)" for b ret w' x
    using that inv good unfolding BrokerAppLogin_def Let_def
    by (cases "\<not> ib_store b \<or> platformHost b = [] \<or> appSuffix b = [] \<or> \<not> bi_allow i")
      (fastforce split: prod.splits sum.splits if_splits)+
  show ?thesis
    using one inv by (simp add: DispatchPreAuth_def Let_def split: option.split prod.split)
qed

text \<open>A handoff that the platform host can authorize, of an app with a host name.\<close>

definition authorizable :: "IdentityBroker \<Rightarrow> IdDb \<Rightarrow> string \<Rightarrow> HandoffRow \<Rightarrow> AppRow \<Rightarrow> Identity \<Rightarrow> bool" where
  "authorizable b db hid h a viewer \<longleftrightarrow>
     hid \<noteq> [] \<and> map_of (gd_handoffs db) hid = Some h \<and> \<not> ho_Force h \<and> pending_row h \<and> ho_Session h = None
     \<and> map_of (gd_apps db) (ho_App h) = Some a \<and> ar_Slug a \<noteq> [] \<and> validAppHost (ie_U (ib_env b)) (ar_Slug a) (appSuffix b)
     \<and> policyAllowsTx db (ho_App h) viewer"

definition authorized_handoff :: "string \<Rightarrow> time \<Rightarrow> HandoffRow \<Rightarrow> HandoffRow" where
  "authorized_handoff sid now h = h\<lparr>ho_Session := Some sid, ho_Authorized := Some now\<rparr>"

abbreviation callback_url :: "IdentityBroker \<Rightarrow> AppRow \<Rightarrow> string \<Rightarrow> string" where
  "callback_url b a hid \<equiv> ''https://'' @ appHost (ie_U (ib_env b)) (ar_Slug a) (appSuffix b) @ ''/_tinker/auth/callback?handoff='' @ QueryEscape hid"

lemma identity_page_step:
  assumes inv: "id_inv (bw_db w)" and store: "ib_store b" and q: "TrimSpace (br_Query r ''handoff'') = hid" "identity_cookie r = raw"
    and c: "live_cookie (ie_sha (ib_env b)) raw sid row email (bw_db w)"
    and young: "time_sub (bi_now i 0) (ir_Rotated row) < identityRotateAfter"
    and times: "bi_now i 0 < ir_Expires row" "bi_now i 1 < ir_Expires row" "bi_now i 1 < ho_Expires h"
    and h: "authorizable b (bw_db w) hid h a \<lparr>id_ID = ir_Identity row, id_Email = email\<rparr>"
  shows "identityPage b i w r =
    (w\<lparr>bw_db := (seen_db sid (bi_now i 0) (bw_db w))\<lparr>gd_handoffs :=
        AList.update hid (authorized_handoff sid (bi_now i 1) h) (gd_handoffs (bw_db w))\<rparr>\<rparr>, see_other (callback_url b a hid) [])"
proof -
  let ?e = "ib_env b" and ?db = "seen_db sid (bi_now i 0) (bw_db w)"
  have "raw \<noteq> []" using c by (simp add: live_cookie_def)
  moreover have "identitySessionTx (ie_sha ?e) ?db raw (bi_now i 1)
      = Valid_credential (session_value sid (row\<lparr>ir_LastSeen := bi_now i 0\<rparr>) email) False"
    by (rule live_cookie_valid [OF seen_inv [OF inv] live_cookie_seen [OF c]]) (use times in simp)
  with h times(3) have "AuthorizeIdentityHandoff (ie_sha ?e) ?db hid raw (bi_now i 1) =
    (?db\<lparr>gd_handoffs := AList.update hid (authorized_handoff sid (bi_now i 1) h) (gd_handoffs (bw_db w))\<rparr>,
     Inr ((handoff_value hid h (ar_Slug a))\<lparr>ih_AuthorizedAt := Some (bi_now i 1)\<rparr>, session_value sid (row\<lparr>ir_LastSeen := bi_now i 0\<rparr>) email))"
    by (simp add: AuthorizeIdentityHandoff_def write_tx_def handoffTx_def handoff_value_def open_handoff_def update_handoff_def
        session_value_def authorizable_def authorized_handoff_def)
  ultimately show ?thesis
    using store q h live_cookie_validate [OF inv c times(1) young]
    by (simp add: identityPage_def Let_def rotateIdentity_def redirectCallback_def handoff_value_def authorizable_def)
qed

lemma app_callback_step:
  assumes l: "lg_IdentityBroker l = Some b" "ib_env (lg_guards l) = ib_env b" "ib_store b"
    and r: "TrimSpace (br_Query r ''handoff'') = hid" "req_Cookie r identityStateCookieName = Some state" "hid \<noteq> []" "state \<noteq> []"
    and h: "map_of (gd_handoffs (bw_db w)) hid = Some h" "ho_App h = app" "ho_State h = ie_sha (ib_env b) state" "pending_row h"
      "ho_Session h = Some sid" "ho_Authorized h \<noteq> None" "bi_now i 0 < ho_Expires h"
      "ValidReturnPath (ie_parse (ib_env b)) (ho_Return h) = Some ret"
    and a: "map_of (gd_apps (bw_db w)) app = Some a"
    and s: "map_of (gd_sessions (bw_db w)) sid = Some row" "ir_Revoked row = None" "bi_now i 0 < ir_Expires row" "sid \<noteq> []"
      "map_of (gd_identities (bw_db w)) (ir_Identity row) = Some email"
    and policy: "policyAllowsTx (bw_db w) app \<lparr>id_ID = ir_Identity row, id_Email = email\<rparr>"
    and d: "bi_rnd i 0 = Some bs" "b64_encode bs \<noteq> []" "''ses_'' @ take 12 (b64_encode bs) \<notin> gm_keys (gd_children (bw_db w))"
      "ie_sha (ib_env b) (b64_encode bs) \<notin> (cr_Secret \<circ> snd) ` set (gd_children (bw_db w))"
  shows "DispatchPreAuth l i w app AppIdentityCallback r =
    (w\<lparr>bw_db := (bw_db w)\<lparr>gd_handoffs := AList.update hid (h\<lparr>ho_Consumed := Some (bi_now i 0)\<rparr>) (gd_handoffs (bw_db w)),
        gd_children := (''ses_'' @ take 12 (b64_encode bs),
          \<lparr>cr_App = app, cr_Identity = ir_Identity row, cr_Parent = sid, cr_Secret = ie_sha (ib_env b) (b64_encode bs),
           cr_Expires = bi_now i 0 + appTTL b, cr_Revoked = None, cr_Created = bi_now i 1\<rparr>) # gd_children (bw_db w)\<rparr>\<rparr>,
     see_other ret [SetCookie AppCookieName (b64_encode bs) (bi_now i 0 + appTTL b), ExpireCookie identityStateCookieName])"
proof -
  have ttl: "appTTL b > 0" by (simp add: appTTL_def)
  have pol: "policyAllowsTx (bw_db w) app \<lparr>id_ID = ir_Identity row, id_Email = email\<rparr> = True" using policy by simp
  have "consume_tx (ie_sha (ib_env b)) (bi_rnd i 0) (bi_now i 1) app hid (ie_sha (ib_env b) state) (bi_now i 0) (bi_now i 0 + appTTL b) (bw_db w)
    = Inr ((bw_db w)\<lparr>gd_handoffs := AList.update hid (h\<lparr>ho_Consumed := Some (bi_now i 0)\<rparr>) (gd_handoffs (bw_db w)),
        gd_children := (''ses_'' @ take 12 (b64_encode bs),
          \<lparr>cr_App = app, cr_Identity = ir_Identity row, cr_Parent = sid, cr_Secret = ie_sha (ib_env b) (b64_encode bs),
           cr_Expires = bi_now i 0 + appTTL b, cr_Revoked = None, cr_Created = bi_now i 1\<rparr>) # gd_children (bw_db w)\<rparr>,
        handoff_value hid h (ar_Slug a), b64_encode bs,
        \<lparr>ses_ID = ''ses_'' @ take 12 (b64_encode bs), ses_AppID = app, ses_Identity = \<lparr>id_ID = ir_Identity row, id_Email = email\<rparr>,
         ses_ExpiresAt = bi_now i 0 + appTTL b, ses_Revoked = False\<rparr>)"
    using h a s pol d by (simp add: consume_tx_def handoffTx_def handoff_value_def open_handoff_def update_handoff_def
        issueChildAppSessionTx_def Let_def)
  with l r h(8) d(2) ttl show ?thesis
    by (simp add: DispatchPreAuth_def BrokerAppCallback_def ConsumeIdentityHandoff_def write_tx_def handoff_value_def Let_def)
qed

text \<open>C36. Single sign-on works end to end. A browser with a current identity cookie opens the login of an app that admits
  it, follows the redirect to the platform host and the one back to the app's callback, within the five minutes of
  the handoff and with nothing else going on: the first answer sets the state cookie, the second asks for no code and
  sets no cookie, the third sends the browser to the page it came from with an app session, and the token it sets is
  valid for this app, as this identity, until it or the identity session expires.\<close>

theorem single_sign_on:
  assumes inv: "id_inv (bw_db w)" and ready: "login_ready l b i1 (bw_db w) app a ret hid state"
    and host: "ar_Slug a \<noteq> []" "validAppHost (ie_U (ib_env b)) (ar_Slug a) (appSuffix b)"
    and cookie: "live_cookie (ie_sha (ib_env b)) raw sid row email (bw_db w)" "sid \<noteq> []"
    and policy: "policyAllowsTx (bw_db w) app \<lparr>id_ID = ir_Identity row, id_Email = email\<rparr>"
    and young: "time_sub (bi_now i2 0) (ir_Rotated row) < identityRotateAfter"
    and times: "bi_now i2 0 < ir_Expires row" "bi_now i2 1 < ir_Expires row" "bi_now i3 0 < ir_Expires row"
      "bi_now i2 1 < bi_now i1 0 + handoffLifetime" "bi_now i3 0 < bi_now i1 0 + handoffLifetime"
    and drawn: "bi_rnd i3 0 = Some bs" "b64_encode bs \<noteq> []" "''ses_'' @ take 12 (b64_encode bs) \<notin> gm_keys (gd_children (bw_db w))"
      "ie_sha (ib_env b) (b64_encode bs) \<notin> (cr_Secret \<circ> snd) ` set (gd_children (bw_db w))"
    and r1: "br_Query r1 ''return'' = ret"
    and r2: "req_Path r2 = ''/_tinker/identity''" "req_Method r2 = ''GET''" "TrimSpace (br_Query r2 ''handoff'') = hid" "identity_cookie r2 = raw"
    and r3: "TrimSpace (br_Query r3 ''handoff'') = hid" "req_Cookie r3 identityStateCookieName = Some state"
  shows "\<exists>w1 w2 w3 expires.
    DispatchPreAuth l i1 w app AppLogin r1 = (w1, see_other (''https://'' @ platformHost b @ ''/_tinker/identity?handoff='' @ QueryEscape hid)
        [SetCookie identityStateCookieName state expires])
    \<and> PlatformHandler b i2 w1 r2 = (w2, see_other (callback_url b a hid) [])
    \<and> DispatchPreAuth l i3 w2 app AppIdentityCallback r3 = (w3, see_other ret
        [SetCookie AppCookieName (b64_encode bs) (bi_now i3 0 + appTTL b), ExpireCookie identityStateCookieName])
    \<and> (\<forall>t. t < bi_now i3 0 + appTTL b \<and> t < ir_Expires row \<longrightarrow>
        (\<exists>s. ValidateChild (ie_sha (ib_env b)) (bw_db w3) app (b64_encode bs) t = Inr s \<and> ses_AppID s = app
           \<and> ses_Identity s = \<lparr>id_ID = ir_Identity row, id_Email = email\<rparr> \<and> ses_ExpiresAt s = bi_now i3 0 + appTTL b))"
proof -
  let ?e = "ib_env b" and ?viewer = "\<lparr>id_ID = ir_Identity row, id_Email = email\<rparr>"
  let ?h = "fresh_handoff app (ie_sha ?e state) ret (bi_now i1 0)"
  have nz: "hid \<noteq> []" "state \<noteq> []" using ready by (auto simp: login_ready_def randomOpaque_def)
  have a: "map_of (gd_apps (bw_db w)) app = Some a" "ar_Status a = ''active''" using ready by (simp_all add: login_ready_def)
  from app_login_step [OF ready r1] obtain rest expires where
    one: "DispatchPreAuth l i1 w app AppLogin r1 = (w\<lparr>bw_db := (bw_db w)\<lparr>gd_handoffs := (hid, ?h) # rest\<rparr>\<rparr>,
      see_other (''https://'' @ platformHost b @ ''/_tinker/identity?handoff='' @ QueryEscape hid) [SetCookie identityStateCookieName state expires])"
    by blast
  let ?db1 = "(bw_db w)\<lparr>gd_handoffs := (hid, ?h) # rest\<rparr>" and ?w1 = "w\<lparr>bw_db := (bw_db w)\<lparr>gd_handoffs := (hid, ?h) # rest\<rparr>\<rparr>"
  have inv1: "id_inv ?db1" using app_login_inv [OF inv, of l i1 app r1] one by simp
  have same: "policyAllowsTx ?db1 = policyAllowsTx (bw_db w)" by (simp add: policyAllowsTx_def fun_eq_iff)
  have c1: "live_cookie (ie_sha ?e) raw sid row email ?db1" using cookie(1) by (simp add: live_cookie_def)
  have h1: "authorizable b ?db1 hid ?h a ?viewer"
    using nz a host policy same by (simp add: authorizable_def fresh_handoff_def)
  let ?g = "authorized_handoff sid (bi_now i2 1) ?h"
  let ?db2 = "(seen_db sid (bi_now i2 0) ?db1)\<lparr>gd_handoffs := AList.update hid ?g (gd_handoffs ?db1)\<rparr>"
  have two: "PlatformHandler b i2 ?w1 r2 = (?w1\<lparr>bw_db := ?db2\<rparr>, see_other (callback_url b a hid) [])"
    using identity_page_step [where w = ?w1 and h = ?h and b = b and email = email and a = a, OF _ _ r2(3,4) _ young times(1,2)] inv1 c1 h1 ready times(4) r2(1,2)
    by (simp add: PlatformHandler_def fresh_handoff_def login_ready_def HasPrefix_def)
  let ?w2 = "?w1\<lparr>bw_db := ?db2\<rparr>"
  have s2: "map_of (gd_sessions ?db2) sid = Some (row\<lparr>ir_LastSeen := bi_now i2 0\<rparr>)" "ir_Revoked row = None"
    "map_of (gd_identities ?db2) (ir_Identity row) = Some email"
    using cookie(1) by (simp_all add: live_cookie_def seen_db_def map_of_sql_update)
  have h2: "map_of (gd_handoffs ?db2) hid = Some ?g" by (simp add: gomap_simps)
  have p2: "policyAllowsTx ?db2 = policyAllowsTx (bw_db w)" by (simp add: policyAllowsTx_def fun_eq_iff)
  let ?child = "\<lparr>cr_App = app, cr_Identity = ir_Identity row, cr_Parent = sid, cr_Secret = ie_sha ?e (b64_encode bs),
    cr_Expires = bi_now i3 0 + appTTL b, cr_Revoked = None, cr_Created = bi_now i3 1\<rparr>"
  let ?db3 = "?db2\<lparr>gd_handoffs := AList.update hid (?g\<lparr>ho_Consumed := Some (bi_now i3 0)\<rparr>) (gd_handoffs ?db2),
    gd_children := (''ses_'' @ take 12 (b64_encode bs), ?child) # gd_children ?db2\<rparr>"
  have three: "DispatchPreAuth l i3 ?w2 app AppIdentityCallback r3 = (?w2\<lparr>bw_db := ?db3\<rparr>, see_other ret
        [SetCookie AppCookieName (b64_encode bs) (bi_now i3 0 + appTTL b), ExpireCookie identityStateCookieName])"
    using app_callback_step [where w = ?w2 and h = ?g and row = "row\<lparr>ir_LastSeen := bi_now i2 0\<rparr>" and email = email and a = a
        and sid = sid and app = app and bs = bs, OF _ _ _ r3 nz] h2 s2 p2 ready cookie(2) policy drawn times(3,5) a(1)
    by (simp add: login_ready_def authorized_handoff_def fresh_handoff_def)
  have "ValidateChild (ie_sha ?e) ?db3 app (b64_encode bs) t = Inr \<lparr>ses_ID = ''ses_'' @ take 12 (b64_encode bs), ses_AppID = app,
      ses_Identity = ?viewer, ses_ExpiresAt = bi_now i3 0 + appTTL b, ses_Revoked = False\<rparr>"
    if "t < bi_now i3 0 + appTTL b" "t < ir_Expires row" for t
    using that s2 a by (simp add: ValidateChild_def)
  then have valid: "\<forall>t. t < bi_now i3 0 + appTTL b \<and> t < ir_Expires row \<longrightarrow>
      (\<exists>s. ValidateChild (ie_sha ?e) (bw_db (?w2\<lparr>bw_db := ?db3\<rparr>)) app (b64_encode bs) t = Inr s \<and> ses_AppID s = app
        \<and> ses_Identity s = ?viewer \<and> ses_ExpiresAt s = bi_now i3 0 + appTTL b)"
    by simp
  show ?thesis by (intro exI conjI) (rule one two three valid)+
qed

section \<open>An example\<close>

definition demo_url :: "string \<Rightarrow> URL option" where
  "demo_url s = (if s = ''/home'' then Some \<lparr>url_IsAbs = False, url_Host = [], url_Path = ''/home'', url_RequestURI = ''/home''\<rparr> else None)"

definition demo_broker :: IdentityBroker where
  "demo_broker = \<lparr>ib_env = demo_env\<lparr>ie_parse := demo_url\<rparr>, ib_store = True, ib_OTPExpiry = 0, ib_AppSessionTTL = 0,
     ib_PlatformHost = ''admin.tinker.test'', ib_AppSuffix = ''tinker.test'', ib_Domain = [],
     ib_origin = (\<lambda>s. Some \<lparr>or_Scheme = ''https'', or_User = False, or_Host = s, or_Path = [], or_RawQuery = [], or_Fragment = []\<rparr>),
     ib_mime = Some, ib_EqualFold = (=), ib_fingerprint = (\<lambda>_. [])\<rparr>"

definition demo_in :: "time \<Rightarrow> BrokerIn" where
  "demo_in now = \<lparr>bi_allow = True, bi_now = (\<lambda>n. now + int n), bi_rnd = (\<lambda>n. Some [7]), bi_code = Some 123456\<rparr>"

definition demo_world :: BrokerWorld where
  "demo_world = \<lparr>bw_db = demo_db\<lparr>gd_users := [(''u1'', \<lparr>du_Email = ''ann@x.org'', du_Role = ''operator'', du_Status = ''active''\<rparr>)]\<rparr>,
     bw_mail = [], bw_closed = []\<rparr>"

text \<open>A request of the browser that holds Ann's cookie; its forms and its query are those of \<open>form\<close>.\<close>

definition demo_request :: "string \<Rightarrow> string \<Rightarrow> (string \<Rightarrow> string) \<Rightarrow> BrokerRequest" where
  "demo_request method path form =
     \<lparr>req_Method = method, req_Host = ''admin.tinker.test'', req_Path = path, req_EscapedPath = path, req_RequestURI = path,
      req_Header = (\<lambda>h. if h = ''Origin'' then ''admin.tinker.test'' else form_type),
      req_Cookie = (\<lambda>c. if c = IdentityCookieName then Some ''gid_A'' else if c = BindingCookieName then Some ''bb_1''
                      else if c = identityStateCookieName then Some ''is_Bw'' else None),
      req_RemoteAddr = [], br_Query = form, br_Form = (\<lambda>_. Some form), br_PostForm = (\<lambda>_. Some form)\<rparr>"

lemma demo_world_inv: "id_inv (bw_db demo_world)"
  using demo_inv id_inv_other [of "bw_db demo_world" demo_db] by (simp add: demo_world_def)

abbreviation demo_logout :: BrokerRequest where
  "demo_logout \<equiv> demo_request ''POST'' ''/_tinker/identity/logout'' (\<lambda>_. [])"

lemma demo_logout_page: "rp_Page (snd (logoutTo demo_broker (demo_in 5) demo_world demo_logout ''/'')) = PageRedirect ''/''"
  by code_simp

theorem sign_out_truthful_witness:
  "signed_out demo_broker demo_logout (bw_db demo_world) (bw_db (fst (logoutTo demo_broker (demo_in 5) demo_world demo_logout ''/'')))"
  using sign_out_truthful [OF demo_world_inv surjective_pairing, of demo_broker "demo_in 5" demo_logout "''/''"] demo_logout_page
  by simp

theorem broker_closes_revoked_witness:
  "\<exists>refs. bw_closed (fst (PlatformHandler demo_broker (demo_in 5) demo_world demo_logout)) = bw_closed demo_world @ refs
    \<and> set refs = revoked_between (bw_db demo_world) (bw_db (fst (PlatformHandler demo_broker (demo_in 5) demo_world demo_logout)))"
  by (rule broker_closes_revoked [OF demo_world_inv _ surjective_pairing])
    (simp_all add: named_children_def demo_world_def demo_db_def demo_request_def)

abbreviation demo_login :: BrokerRequest where
  "demo_login \<equiv> demo_request ''GET'' ''/login'' (\<lambda>_. [])"

theorem login_page_drops_rotation_witness:
  "\<exists>w'. PlatformHandler demo_broker (demo_in (48 * hour)) demo_world demo_login = (w', see_other ''/dashboard'' [])"
proof -
  let ?v = "session_value ''gis_A'' demo_identity ''ann@x.org''"
  note defs = demo_broker_def demo_env_def demo_world_def demo_db_def demo_identity_def demo_sha_def demo_in_def demo_request_def
    identity_cookie_def session_value_def
  have cookie: "identity_cookie demo_login = ''gid_A''" by (simp add: identity_cookie_def demo_request_def)
  have valid: "identitySessionTx (ie_sha (ib_env demo_broker)) (bw_db demo_world) (identity_cookie demo_login) (bi_now (demo_in (48 * hour)) 0)
      = Valid_credential ?v False"
    unfolding cookie by (simp add: identitySessionTx_def has_secret_def defs Let_def)
  have fresh: "randomOpaque ''gid_'' (bi_rnd (demo_in (48 * hour)) 0) = Some (''gid_'' @ b64_encode [7])"
    by (simp add: randomOpaque_def demo_in_def)
  have "\<exists>w'. PlatformHandler demo_broker (demo_in (48 * hour)) demo_world demo_login = (w', see_other ''/dashboard'' [])
    \<and> (\<forall>t. bi_now (demo_in (48 * hour)) 0 + identityPreviousOverlap \<le> t \<and> t < gs_ExpiresAt ?v \<longrightarrow>
        (case ValidateIdentitySession (ie_sha (ib_env demo_broker)) None (bw_db w') (identity_cookie demo_login) t of (db2, out2, err2) \<Rightarrow>
           err2 = Some ErrIdentity \<and> vr_FamilyRevoked out2 \<and> family_dead (gs_FamilyID ?v) db2))"
    by (rule login_page_drops_rotation [OF demo_world_inv _ _ _ valid _ fresh])
      (simp_all add: defs dashboard_user_def identityRotateAfter_def identityPreviousOverlap_def time_sub_def has_secret_def b64_digit_def)
  then show ?thesis by blast
qed

abbreviation demo_code :: BrokerRequest where
  "demo_code \<equiv> demo_request ''POST'' ''/_tinker/identity/otp'' (\<lambda>k. if k = ''handoff'' then ''ih_9'' else ''bob@x.org'')"

theorem otp_request_uniform_witness:
  "snd (requestOTP demo_broker (demo_in 5) demo_world demo_code)
     = snd (requestOTP demo_broker ((demo_in 5)\<lparr>bi_allow := False, bi_code := None, bi_now := \<lambda>_. 0\<rparr>) (demo_world\<lparr>bw_db := (bw_db demo_world)\<lparr>gd_apps := []\<rparr>\<rparr>) demo_code)"
  by (rule otp_request_uniform [where bs = "[7]", THEN conjunct1]) (simp_all add: demo_in_def)

text \<open>Ann opens the app notes, whose policy names her.\<close>

abbreviation demo_open :: BrokerRequest where
  "demo_open \<equiv> demo_request ''GET'' ''/_tinker/auth/login'' (\<lambda>_. ''/home'')"

abbreviation demo_page :: BrokerRequest where
  "demo_page \<equiv> demo_request ''GET'' ''/_tinker/identity'' (\<lambda>_. ''ih_Bw'')"

definition demo_app_login :: Login where
  "demo_app_login = \<lparr>lg_Sessions = True, lg_IdentityBroker = Some demo_broker, lg_guards = demo_broker\<rparr>"

theorem single_sign_on_witness:
  "\<exists>w1 w2 w3 expires.
    DispatchPreAuth demo_app_login (demo_in 5) demo_world ''a1'' AppLogin demo_open
      = (w1, see_other ''https://admin.tinker.test/_tinker/identity?handoff=ih_Bw'' [SetCookie identityStateCookieName ''is_Bw'' expires])
    \<and> PlatformHandler demo_broker (demo_in 7) w1 demo_page
      = (w2, see_other ''https://notes.tinker.test/_tinker/auth/callback?handoff=ih_Bw'' [])
    \<and> DispatchPreAuth demo_app_login (demo_in 9) w2 ''a1'' AppIdentityCallback demo_page
      = (w3, see_other ''/home'' [SetCookie AppCookieName ''Bw'' (9 + 24 * hour), ExpireCookie identityStateCookieName])"
proof -
  let ?a = "\<lparr>ar_Slug = ''notes'', ar_Status = ''active'', ar_PolicyRevision = 1, ar_Mode = Some ''private'', ar_Owner = Some ''ann@x.org'', ar_Rules = []\<rparr>"
  note defs = demo_broker_def demo_env_def demo_world_def demo_db_def demo_identity_def demo_sha_def demo_in_def demo_request_def
  have slug: "ar_Slug ?a \<noteq> []" "validAppHost (ie_U (ib_env demo_broker)) (ar_Slug ?a) (appSuffix demo_broker)" by code_simp+
  have paths: "safeRelativePath demo_url ''/home'' = Some ''/home''" "ValidReturnPath demo_url ''/home'' = Some ''/home''" by code_simp+
  have hosts: "platformHost demo_broker = ''admin.tinker.test''" "appSuffix demo_broker = ''tinker.test''"
    "appTTL demo_broker = 24 * hour" "callback_url demo_broker ?a ''ih_Bw'' = ''https://notes.tinker.test/_tinker/auth/callback?handoff=ih_Bw''"
    "QueryEscape ''ih_Bw'' = ''ih_Bw''" "b64_encode [7] = ''Bw''"
    by code_simp+
  have ready: "login_ready demo_app_login demo_broker (demo_in 5) (bw_db demo_world) ''a1'' ?a ''/home'' ''ih_Bw'' ''is_Bw''"
    using paths hosts by (simp add: login_ready_def demo_app_login_def randomOpaque_def defs)
  have cookie: "live_cookie (ie_sha (ib_env demo_broker)) ''gid_A'' ''gis_A'' demo_identity ''ann@x.org'' (bw_db demo_world)"
    by (simp add: live_cookie_def defs)
  have policy: "policyAllowsTx (bw_db demo_world) ''a1'' \<lparr>id_ID = ir_Identity demo_identity, id_Email = ''ann@x.org''\<rparr>"
    by (simp add: policyAllowsTx_def Evaluate_def defs)
  have trim: "TrimSpace (br_Query demo_page ''handoff'') = ''ih_Bw''" by code_simp
  have names: "identityStateCookieName \<noteq> IdentityCookieName" "identityStateCookieName \<noteq> BindingCookieName" by code_simp+
  have "\<exists>w1 w2 w3 expires.
    DispatchPreAuth demo_app_login (demo_in 5) demo_world ''a1'' AppLogin demo_open
      = (w1, see_other (''https://'' @ platformHost demo_broker @ ''/_tinker/identity?handoff='' @ QueryEscape ''ih_Bw'')
        [SetCookie identityStateCookieName ''is_Bw'' expires])
    \<and> PlatformHandler demo_broker (demo_in 7) w1 demo_page = (w2, see_other (callback_url demo_broker ?a ''ih_Bw'') [])
    \<and> DispatchPreAuth demo_app_login (demo_in 9) w2 ''a1'' AppIdentityCallback demo_page = (w3, see_other ''/home''
        [SetCookie AppCookieName (b64_encode [7]) (bi_now (demo_in 9) 0 + appTTL demo_broker), ExpireCookie identityStateCookieName])
    \<and> (\<forall>t. t < bi_now (demo_in 9) 0 + appTTL demo_broker \<and> t < ir_Expires demo_identity \<longrightarrow>
        (\<exists>s. ValidateChild (ie_sha (ib_env demo_broker)) (bw_db w3) ''a1'' (b64_encode [7]) t = Inr s \<and> ses_AppID s = ''a1''
           \<and> ses_Identity s = \<lparr>id_ID = ir_Identity demo_identity, id_Email = ''ann@x.org''\<rparr>
           \<and> ses_ExpiresAt s = bi_now (demo_in 9) 0 + appTTL demo_broker))"
    by (rule single_sign_on [OF demo_world_inv ready slug cookie _ policy])
      (use trim names in \<open>simp_all add: hosts defs identity_cookie_def identityRotateAfter_def time_sub_def handoffLifetime_def\<close>)
  moreover have "bi_now (demo_in 9) 0 = 9" by (simp add: demo_in_def)
  ultimately show ?thesis unfolding hosts(4) unfolding hosts by (simp only: append.simps) blast
qed

end
