(* ===== verification/Spec2Isabelle.thy ===== *)
theory Spec2Isabelle
  imports Gateway_Model Rate_Limit Otp_Challenge Live_Hub Deployment_Safety Llm_Ledger Update_Release App_Api Kv_Sql Collections_Sql Broker_Safety
begin

text \<open>
  A verification development of the tinkercloud server: a single Go process that hosts static web apps for
  a team, one DNS label per app, behind a login, and gives the apps a few bounded capabilities.

  \<^bold>\<open>The program and its model.\<close> A request enters through the gateway (\<open>internal/gateway/gateway.go\<close>), which
  classifies host and route, looks up the app, and lets the authorizer (\<open>internal/appauth\<close>) turn a session
  token and the current policy into a sealed authorization context; the context is what static serving and
  every capability (key-value store, document collections, blobs, chat, live notifications) accept as proof.
  Apps arrive as archives: upload, bounded extraction, immutable publication under the content digest,
  validation and activation (\<open>internal/deployments\<close> and the packages it calls). One login serves all apps:
  the identity broker sends one-time codes behind an abuse limiter, keeps a global session and hands each app
  its own session through a single-use exchange. The binary replaces itself through the update installer.
  The model follows that structure, one theory per component:

  \<^item> \<open>Go_Prelude\<close>, \<open>Go_Strings\<close>, \<open>Go_Utf8\<close>, \<open>Go_Net\<close>, \<open>Go_Json\<close>, \<open>Go_Files\<close>: the values and library functions
    the source uses: strings as bytes, UTF-8 decoding, trimming, path cleaning, maps, number and address
    parsing, \<open>json.Valid\<close>, and a file system whose calls may each fail (the parameter \<open>fault\<close>).
  \<^item> \<open>Identity_Access\<close>: \<open>internal/identity\<close>, \<open>internal/appnamespace\<close>, \<open>internal/policies\<close>, \<open>internal/apps\<close>.
  \<^item> \<open>Sessions_Auth\<close>: \<open>internal/sessions\<close>, \<open>internal/appauth\<close>, \<open>internal/capabilities\<close>.
  \<^item> \<open>Static_Runtime\<close>, \<open>Analytics_Recorder\<close>, \<open>Gateway_Model\<close>: \<open>internal/staticruntime\<close>,
    \<open>internal/releases/static_path.go\<close>, \<open>internal/analytics\<close>, \<open>internal/gateway\<close>. \<open>App_Api\<close>:
    \<open>internal/appapi\<close>, the routes through which an app's pages reach the capabilities.
  \<^item> \<open>Rolling_Window\<close>, \<open>Rate_Limit\<close>: the window of recent events and \<open>internal/ratelimit\<close>.
  \<^item> \<open>Otp_Challenge\<close>: \<open>internal/otp\<close>. \<open>Global_Identity\<close>, \<open>Identity_Safety\<close>: the transactions of
    \<open>internal/persistence/global_identity.go\<close> and the SQL forms of session validation and revocation, and what
    holds in every run of them. \<open>Identity_Broker\<close>, \<open>Broker_Safety\<close>: the handlers of
    \<open>internal/app/identity_broker.go\<close> over them.
  \<^item> \<open>KV_Store\<close>: \<open>internal/kv\<close>. \<open>Collections_Service\<close>: \<open>internal/collections\<close>. \<open>Kv_Sql\<close>, \<open>Collections_Sql\<close>:
    their SQL repositories (\<open>internal/persistence/kv.go\<close>, \<open>collections.go\<close>). \<open>Blob_Service\<close>: \<open>internal/blob\<close>.
    \<open>Live_Hub\<close>: \<open>internal/live/hub.go\<close> and \<open>protocol.go\<close>. \<open>Llm_Service\<close> and \<open>Llm_Ledger\<close>: \<open>internal/llm/llm.go\<close>
    and \<open>internal/persistence/llm.go\<close>.
  \<^item> \<open>Release_Manifest\<close>, \<open>Release_Files\<close>, \<open>Archive_Extract\<close>, \<open>Deployments\<close>, \<open>Deployment_Runs\<close>,
    \<open>Deployment_Safety\<close>: \<open>internal/releases\<close>, \<open>internal/archive\<close>, \<open>internal/uploads\<close>, \<open>internal/deployments\<close>.
  \<^item> \<open>Compatibility\<close>, \<open>Update_Install\<close>, \<open>Update_Release\<close>: \<open>internal/compatibility\<close> and \<open>internal/update\<close>.

  \<^bold>\<open>Correspondence.\<close> A struct is a record whose fields carry a short prefix (\<open>dp_State\<close> for
  \<open>Deployment.State\<close>), an enumeration or an error variable a datatype, a Go map an association list with
  distinct keys, a SQL table a list or map of row records. A function keeps its name where Isabelle allows it.
  A method that changes its receiver returns the new state; an error result is \<open>Inl\<close>. Versions, sequence
  numbers and the chat ledger's sums, which the source keeps at 64 bits and does not bound before it
  computes with them, wrap (\<open>64 word\<close>, or \<open>wrap64\<close> on integers); other counters are bounded by checks
  of the source and are \<open>int\<close> or \<open>nat\<close>.

  \<^bold>\<open>Interleavings.\<close> What the source does under a lock, or in one SQL transaction, is one step, and the
  invariants are proved over every sequence of such steps: \<open>Live_Hub\<close>, \<open>Llm_Ledger\<close>, \<open>Otp_Challenge\<close>,
  \<open>KV_Store\<close>, \<open>Blob_Service\<close>, \<open>Kv_Sql\<close>, \<open>Collections_Sql\<close>. The handlers of the broker run several
  transactions; \<open>Identity_Safety\<close> takes one transaction as its step (\<open>id_op\<close>), so other requests may run
  between any two of a handler, and names drawn from the random source are fresh where a hypothesis says so.
  \<open>Upload\<close> of the deployments service takes no lock: in \<open>Deployment_Runs\<close> each of its calls to the
  repository is a step of its own (\<open>Probe\<close>, \<open>upload_calls\<close>), interleaved with activations (which hold the
  lock, but whose calls read records that an upload may be writing), with other uploads and with recovery.
  That an active record is the one its app's pointer names holds in every such run (\<open>deployment_one_active\<close>);
  that the pointer names an active record does not: \<open>second_upload_unseats\<close> is the run of two uploads of one
  record in which it fails.

  \<^bold>\<open>Interfaces.\<close> Where the source programs against an interface the development has a locale with the
  operations as parameters and the promises as assumptions, and interprets it on the code's own
  implementation: the policy store and session validation of the authorizer, the window of both limiters,
  the challenge store of the login, the key-value repository, the reservations of the chat ledger, the
  deployment repository and the calls an upload makes on it, and the installer of the update.

  \<^bold>\<open>What the lemmas show.\<close> Access: a protected static response or capability call needs a valid session of a
  viewer the current policy allows, and an effectively public app exposes nothing but its static files.
  Identity: a revoked session family never validates again in any later run, a handoff is consumed once, and
  the broker closes the connections of what it revokes. Bounds: attempts per code, calls per window, bytes
  and entries per app, sizes in an archive, connections and subscriptions, tokens per month, each in every
  reachable state. Effects: what a call changes and that it changes nothing else. Deployments: extraction
  stays below its directory, publishing never touches an existing release, an app has one active deployment,
  recovery fails closed and settles. Updates: whatever fails, a program that passed its probe is installed.
  Shapes: normalizations are idempotent, accepted names are exactly the grammar, round trips.

  \<^bold>\<open>Parameters.\<close> Code outside the repository is an argument: SHA-256 and HMAC, the random source, the YAML
  and archive readers, JSON decoding into structs, the Unicode tables, the clock, and the SQL engine, whose
  statements are translated into operations on the tables they touch, with the constraints of the schema.
  Each theorem holds for all of them or names the documented behaviour it needs. A call of the file system or
  of the database may fail at any point. The file system has symbolic links; the theorem on extraction
  assumes none at or above the directory it extracts into (\<open>no_links\<close>), which the service creates itself,
  and shows none appears below it.

  \<^bold>\<open>Loops and fuel.\<close> Loops are structural recursion or functions with a proved measure. Where a loop reads an
  external stream it consumes a finite list of read results, and a stream that ends early is a result of
  its own (\<open>CopyRead\<close>, \<open>ExtractRead\<close>), so no theorem speaks only about the runs that return.
  \<open>create_temp\<close> tries at most 10000 names, the bound that \<open>os.CreateTemp\<close> itself has.

  \<^bold>\<open>Bounds of the model.\<close> The columns of the chat ledger are integers of 64 bits whose sums wrap; SQLite
  turns an overflowing sum into a floating number, and the check of the schema that then refuses it is
  modelled on the wrapped value (\<open>readable\<close> says which rows the program can scan). An interrupted process is modelled where
  the source recovers from one (deployments, updates), as a prefix of the steps.

  \<^bold>\<open>Not modelled.\<close> The control API and its SQL, the client, emulator and command line, which are request
  plumbing around the modelled services; the SQL of deployments, blobs and analytics; the mail and chat
  provider adapters, the websocket transport, certificates and probes, which are input and output; the web
  pages. The gateway is partly modelled: its response writers are not.
\<close>

end
